(* ===== verification/Prelude.thy ===== *)
theory Prelude
  imports Main "HOL-Library.Word" "HOL-Library.Monad_Syntax"
begin

text \<open>
  Shared vocabulary of the development: the machine integers of the kernel
  (\<open>uint8_t\<close>, \<open>uint16_t\<close>, \<open>uint32_t\<close>), the static byte arrays the C code works on,
  NUL-terminated strings, and the generic facts about them that the component
  theories use.

  A static array or a caller's buffer is a total function from offsets to bytes.
  A store outside the declared array is then visible as a change of the function at
  an offset beyond the array's size, so "the code stays inside its buffer" is the
  frame statement that all offsets beyond the size keep their value.
\<close>

unbundle bit_operations_syntax

type_synonym byte = "8 word"
type_synonym u8 = "8 word"
type_synonym u16 = "16 word"
type_synonym u32 = "32 word"
type_synonym mem = "nat \<Rightarrow> byte"

text \<open>Collections of simplification rules used across components.\<close>

named_theorems mem_simps \<open>reading and writing blocks of a byte array\<close>
named_theorems frame_simps \<open>fields an operation leaves alone\<close>
named_theorems word_nat_simps \<open>moving comparisons of words to natural numbers\<close>

section \<open>Blocks of bytes\<close>

definition mem_get :: "mem \<Rightarrow> nat \<Rightarrow> nat \<Rightarrow> byte list" where
  "mem_get m off n = map (\<lambda>i. m (off + i)) [0..<n]"

definition mem_put :: "mem \<Rightarrow> nat \<Rightarrow> byte list \<Rightarrow> mem" where
  "mem_put m off bs = (\<lambda>i. if off \<le> i \<and> i < off + length bs then bs ! (i - off) else m i)"

lemma length_mem_get [simp, mem_simps]: "length (mem_get m off n) = n"
  by (simp add: mem_get_def)

lemma nth_mem_get [simp, mem_simps]: "i < n \<Longrightarrow> mem_get m off n ! i = m (off + i)"
  by (simp add: mem_get_def)

lemma mem_get_0 [simp, mem_simps]: "mem_get m off 0 = []"
  by (simp add: mem_get_def)

lemma mem_get_eq_Nil [simp]: "mem_get m off n = [] \<longleftrightarrow> n = 0"
  by (metis length_mem_get length_0_conv)

lemma mem_get_Suc: "mem_get m off (Suc n) = m off # mem_get m (Suc off) n"
  by (rule nth_equalityI) (auto simp: nth_Cons split: nat.splits)

lemma mem_get_cong:
  assumes "\<And>i. off \<le> i \<Longrightarrow> i < off + n \<Longrightarrow> m i = m' i"
  shows "mem_get m off n = mem_get m' off n"
  using assms by (intro nth_equalityI) auto

lemma mem_get_add: "mem_get m off (a + b) = mem_get m off a @ mem_get m (off + a) b"
proof (rule nth_equalityI)
  fix i assume "i < length (mem_get m off (a + b))"
  then show "mem_get m off (a + b) ! i = (mem_get m off a @ mem_get m (off + a) b) ! i"
    by (cases "i < a") (auto simp: nth_append)
qed simp

lemma take_mem_get: "take k (mem_get m off n) = mem_get m off (min k n)"
  by (rule nth_equalityI) auto

lemma drop_mem_get: "k \<le> n \<Longrightarrow> drop k (mem_get m off n) = mem_get m (off + k) (n - k)"
  by (rule nth_equalityI) (auto simp: ac_simps)

lemma mem_get_eq_iff:
  "mem_get m a n = mem_get m' b n \<longleftrightarrow> (\<forall>i < n. m (a + i) = m' (b + i))"
  by (auto simp: list_eq_iff_nth_eq)

lemma mem_get_eqD: "mem_get m a n = mem_get m' b n \<Longrightarrow> i < n \<Longrightarrow> m (a + i) = m' (b + i)"
  by (simp add: mem_get_eq_iff)

lemma mem_put_Nil [simp, mem_simps]: "mem_put m off [] = m"
  by (rule ext) (auto simp: mem_put_def)

lemma mem_put_in [mem_simps]:
  "off \<le> i \<Longrightarrow> i < off + length bs \<Longrightarrow> mem_put m off bs i = bs ! (i - off)"
  by (simp add: mem_put_def)

lemma mem_put_out [mem_simps]:
  "i < off \<or> off + length bs \<le> i \<Longrightarrow> mem_put m off bs i = m i"
  by (auto simp: mem_put_def)

lemma mem_put_Cons: "mem_put m off (b # bs) = mem_put (m(off := b)) (Suc off) bs"
proof (rule ext)
  fix i
  consider "i \<le> off" | k where "i = off + Suc k"
    using less_imp_Suc_add [of off i] by (cases "i \<le> off") auto
  then show "mem_put m off (b # bs) i = mem_put (m(off := b)) (Suc off) bs i"
    by cases (auto simp: mem_put_def)
qed

lemma mem_get_put_same [mem_simps]: "length bs = n \<Longrightarrow> mem_get (mem_put m off bs) off n = bs"
  by (rule nth_equalityI) (auto simp: mem_put_def)

lemma mem_get_put_prefix: "n \<le> length bs \<Longrightarrow> mem_get (mem_put m off bs) off n = take n bs"
  by (rule nth_equalityI) (auto simp: mem_put_def)

lemma mem_get_put_disjoint [mem_simps]:
  "a + n \<le> off \<or> off + length bs \<le> a \<Longrightarrow> mem_get (mem_put m off bs) a n = mem_get m a n"
  by (rule nth_equalityI) (auto simp: mem_put_def)

lemma mem_put_get_id [simp, mem_simps]: "mem_put m off (mem_get m off n) = m"
  by (rule ext) (auto simp: mem_put_def)

lemma mem_put_append: "mem_put m off (as @ bs) = mem_put (mem_put m off as) (off + length as) bs"
  by (rule ext) (auto simp: mem_put_def nth_append)

section \<open>Little-endian fields of packed structs\<close>

definition le16 :: "byte \<Rightarrow> byte \<Rightarrow> u16" where
  "le16 b0 b1 = ucast b0 OR push_bit 8 (ucast b1)"

definition le32 :: "byte \<Rightarrow> byte \<Rightarrow> byte \<Rightarrow> byte \<Rightarrow> u32" where
  "le32 b0 b1 b2 b3 =
     ucast b0 OR push_bit 8 (ucast b1) OR push_bit 16 (ucast b2) OR push_bit 24 (ucast b3)"

definition bytes16 :: "u16 \<Rightarrow> byte list" where
  "bytes16 w = [ucast w, ucast (drop_bit 8 w)]"

definition bytes32 :: "u32 \<Rightarrow> byte list" where
  "bytes32 w = [ucast w, ucast (drop_bit 8 w), ucast (drop_bit 16 w), ucast (drop_bit 24 w)]"

lemma length_bytes16 [simp]: "length (bytes16 w) = 2"
  by (simp add: bytes16_def)

lemma length_bytes32 [simp]: "length (bytes32 w) = 4"
  by (simp add: bytes32_def)

lemma le16_bytes16: "le16 (ucast w) (ucast (drop_bit 8 w)) = w"
  by (rule bit_word_eqI) (auto simp: le16_def bit_simps)

lemma le32_bytes32:
  "le32 (ucast w) (ucast (drop_bit 8 w)) (ucast (drop_bit 16 w)) (ucast (drop_bit 24 w)) = w"
proof (rule bit_word_eqI)
  fix n assume n: "n < LENGTH(32)"
  consider "n < 8" | "8 \<le> n" "n < 16" | "16 \<le> n" "n < 24" | "24 \<le> n" by linarith
  then show "bit (le32 (ucast w) (ucast (drop_bit 8 w)) (ucast (drop_bit 16 w))
                (ucast (drop_bit 24 w))) n \<longleftrightarrow> bit w n"
    using n by cases (auto simp: le32_def bit_simps)
qed

lemma le16_split: "ucast (le16 a b) = a" "ucast (drop_bit 8 (le16 a b)) = b"
  by (rule bit_word_eqI; auto simp: le16_def bit_simps dest: bit_imp_le_length)+

lemma le32_split:
  "ucast (le32 a b c d) = a" "ucast (drop_bit 8 (le32 a b c d)) = b"
  "ucast (drop_bit 16 (le32 a b c d)) = c" "ucast (drop_bit 24 (le32 a b c d)) = d"
  by (rule bit_word_eqI; auto simp: le32_def bit_simps dest: bit_imp_le_length)+

lemma bytes16_le16 [simp]: "bytes16 (le16 a b) = [a, b]"
  by (simp add: bytes16_def le16_split)

lemma bytes32_le32 [simp]: "bytes32 (le32 a b c d) = [a, b, c, d]"
  by (simp add: bytes32_def le32_split)

section \<open>Words and natural numbers\<close>

lemma unat_of_nat_u16 [word_nat_simps]: "n < 65536 \<Longrightarrow> unat (of_nat n :: u16) = n"
  by (simp add: unat_of_nat)

lemma unat_of_nat_u32 [word_nat_simps]: "n < 4294967296 \<Longrightarrow> unat (of_nat n :: u32) = n"
  by (simp add: unat_of_nat)

lemma unat_ucast_u16_u32 [simp]: "unat (ucast (w :: u16) :: u32) = unat w"
  by (simp add: unsigned_ucast_eq take_bit_nat_eq_self unsigned_less [THEN less_le_trans])

lemma unat_ucast_u8_u32 [simp]: "unat (ucast (w :: u8) :: u32) = unat w"
  by (simp add: unsigned_ucast_eq take_bit_nat_eq_self unsigned_less [THEN less_le_trans])

lemma unat_ucast_u8_u16 [simp]: "unat (ucast (w :: u8) :: u16) = unat w"
  by (simp add: unsigned_ucast_eq take_bit_nat_eq_self unsigned_less [THEN less_le_trans])

section \<open>NUL-terminated strings\<close>

text \<open>
  A string argument is the list of its bytes; the terminating NUL is the end of the
  list or the first zero byte in it, whichever comes first.
\<close>

definition cstr :: "byte list \<Rightarrow> byte list" where
  "cstr s = takeWhile (\<lambda>c. c \<noteq> 0) s"

definition char_at :: "byte list \<Rightarrow> nat \<Rightarrow> byte" where
  "char_at s i = (if i < length s then s ! i else 0)"

lemma char_at_simps [simp]:
  "char_at [] i = 0"
  "char_at (c # s) 0 = c"
  "char_at (c # s) (Suc i) = char_at s i"
  by (simp_all add: char_at_def)

lemma cstr_no_nul [simp]: "0 \<notin> set (cstr s)"
  by (auto simp: cstr_def dest: set_takeWhileD)

lemma cstr_idem: "0 \<notin> set s \<Longrightarrow> cstr s = s"
  unfolding cstr_def by (rule takeWhile_eq_all_conv [THEN iffD2]) auto

text \<open>The bytes of a string constant.\<close>

definition lit :: "string \<Rightarrow> byte list" where
  "lit s = map of_char s"

lemma length_lit [simp]: "length (lit s) = length s"
  by (simp add: lit_def)

end
