(* ===== verification/Disk_Interface.thy ===== *)
theory Disk_Interface
  imports Prelude
begin

text \<open>
  The interface between the file system and the disk driver (\<open>src/disk.h\<close>): the four
  sector operations \<open>fat12.c\<close> calls, and the contract it relies on.

  \<open>disk_ops\<close> bundles the operations, so that the definitions of the file system take
  their disk as an argument and are linked with the ATA driver by instantiation. A
  pointer argument is an offset into the buffer's array, \<open>None\<close> for a NULL pointer; an
  operation returns its \<open>int\<close> status, the buffer it filled and the new device state.

  The locale \<open>sector_store\<close> states what a working disk promises: a read delivers the
  stored bytes and changes nothing, a write changes exactly the addressed sectors.
\<close>

definition SECTOR_SIZE :: nat where
  "SECTOR_SIZE = 512"

lemma SECTOR_SIZE_simp [simp]: "SECTOR_SIZE = 512"
  by (simp add: SECTOR_SIZE_def)

record 'd disk_ops =
  op_read_sector :: "u32 \<Rightarrow> nat option \<Rightarrow> mem \<Rightarrow> 'd \<Rightarrow> int \<times> mem \<times> 'd"
  op_write_sector :: "u32 \<Rightarrow> nat option \<Rightarrow> mem \<Rightarrow> 'd \<Rightarrow> int \<times> 'd"
  op_read_sectors :: "u32 \<Rightarrow> nat option \<Rightarrow> u16 \<Rightarrow> mem \<Rightarrow> 'd \<Rightarrow> int \<times> mem \<times> 'd"
  op_write_sectors :: "u32 \<Rightarrow> nat option \<Rightarrow> u16 \<Rightarrow> mem \<Rightarrow> 'd \<Rightarrow> int \<times> 'd"

text \<open>The bytes of \<open>n\<close> consecutive sectors.\<close>

definition sectors_data :: "(nat \<Rightarrow> byte list) \<Rightarrow> nat \<Rightarrow> nat \<Rightarrow> byte list" where
  "sectors_data S lba n = concat (map S [lba..<lba + n])"

text \<open>The store after \<open>n\<close> consecutive sectors were overwritten from a buffer.\<close>

definition sectors_update ::
    "(nat \<Rightarrow> byte list) \<Rightarrow> nat \<Rightarrow> nat \<Rightarrow> mem \<Rightarrow> nat \<Rightarrow> nat \<Rightarrow> byte list" where
  "sectors_update S lba n m off =
     (\<lambda>k. if lba \<le> k \<and> k < lba + n then mem_get m (off + 512 * (k - lba)) 512 else S k)"

lemma sectors_data_0 [simp]: "sectors_data S lba 0 = []"
  by (simp add: sectors_data_def)

lemma sectors_data_Suc: "sectors_data S lba (Suc n) = sectors_data S lba n @ S (lba + n)"
  by (simp add: sectors_data_def)

lemma sectors_data_1: "sectors_data S lba (Suc 0) = S lba"
  by (simp add: sectors_data_def)

lemma length_sectors_data:
  assumes "\<And>k. lba \<le> k \<Longrightarrow> k < lba + n \<Longrightarrow> length (S k) = 512"
  shows "length (sectors_data S lba n) = 512 * n"
  using assms by (induction n) (auto simp: sectors_data_Suc)

lemma sectors_data_cong:
  assumes "\<And>k. lba \<le> k \<Longrightarrow> k < lba + n \<Longrightarrow> S k = S' k"
  shows "sectors_data S lba n = sectors_data S' lba n"
proof -
  have "map S [lba..<lba + n] = map S' [lba..<lba + n]"
    using assms by (intro map_cong) auto
  then show ?thesis by (simp only: sectors_data_def)
qed

lemma sectors_data_update_same:
  "sectors_data (sectors_update S lba n m off) lba n = mem_get m off (512 * n)"
proof -
  have "sectors_data (sectors_update S lba n m off) lba j = mem_get m off (512 * j)"
    if "j \<le> n" for j
    using that
  proof (induction j)
    case 0
    then show ?case by simp
  next
    case (Suc j)
    then have "sectors_data (sectors_update S lba n m off) lba (Suc j) =
        mem_get m off (512 * j) @ mem_get m (off + 512 * j) 512"
      by (simp add: sectors_data_Suc sectors_update_def)
    also have "\<dots> = mem_get m off (512 * j + 512)"
      by (simp add: mem_get_add)
    finally show ?case by (simp add: ac_simps)
  qed
  then show ?thesis by simp
qed

lemma sectors_data_update_disjoint:
  assumes "a + k \<le> lba \<or> lba + n \<le> a"
  shows "sectors_data (sectors_update S lba n m off) a k = sectors_data S a k"
  using assms by (intro sectors_data_cong) (auto simp: sectors_update_def)

lemma sectors_update_Suc:
  "sectors_update (sectors_update S lba 1 m off) (Suc lba) n m (off + 512) =
   sectors_update S lba (Suc n) m off"
proof (rule ext)
  fix k
  consider "k = lba" | j where "k = Suc lba + j" | "k < lba"
    by (metis less_imp_add_positive linorder_neqE_nat add_Suc add_Suc_right less_iff_Suc_add)
  then show "sectors_update (sectors_update S lba 1 m off) (Suc lba) n m (off + 512) k =
      sectors_update S lba (Suc n) m off k"
    by cases (simp_all add: sectors_update_def algebra_simps)
qed

locale sector_store =
  fixes D :: "'d disk_ops"
    and healthy :: "'d \<Rightarrow> bool"
    and sector :: "'d \<Rightarrow> nat \<Rightarrow> byte list"
    and cap :: nat
  assumes cap_bound: "cap \<le> 2 ^ 28"
    and sector_length: "healthy d \<Longrightarrow> n < cap \<Longrightarrow> length (sector d n) = 512"
    and read_sector: "healthy d \<Longrightarrow> unat lba < cap \<Longrightarrow>
      \<exists>d'. op_read_sector D lba (Some off) m d = (0, mem_put m off (sector d (unat lba)), d')
           \<and> healthy d' \<and> sector d' = sector d"
    and write_sector: "healthy d \<Longrightarrow> unat lba < cap \<Longrightarrow>
      \<exists>d'. op_write_sector D lba (Some off) m d = (0, d')
           \<and> healthy d' \<and> sector d' = sectors_update (sector d) (unat lba) 1 m off"
    and read_sectors: "healthy d \<Longrightarrow> 0 < unat cnt \<Longrightarrow> unat lba + unat cnt \<le> cap \<Longrightarrow>
      \<exists>d'. op_read_sectors D lba (Some off) cnt m d =
             (0, mem_put m off (sectors_data (sector d) (unat lba) (unat cnt)), d')
           \<and> healthy d' \<and> sector d' = sector d"
    and write_sectors: "healthy d \<Longrightarrow> 0 < unat cnt \<Longrightarrow> unat lba + unat cnt \<le> cap \<Longrightarrow>
      \<exists>d'. op_write_sectors D lba (Some off) cnt m d = (0, d')
           \<and> healthy d' \<and> sector d' = sectors_update (sector d) (unat lba) (unat cnt) m off"
begin

lemma sectors_length:
  "healthy d \<Longrightarrow> lba + n \<le> cap \<Longrightarrow> length (sectors_data (sector d) lba n) = 512 * n"
  by (rule length_sectors_data) (auto intro: sector_length)

end

end
