(* ===== verification/Fat12_Base.thy ===== *)
theory Fat12_Base
  imports Disk_Interface
begin

text \<open>
  Data of \<open>src/fat12.h\<close> and \<open>src/fat12.c\<close>: constants, the packed on-disk structures,
  the geometry record, the driver's static state and its error codes, with the byte
  helpers (\<open>fat12_memset\<close>, \<open>fat12_memcpy\<close>, \<open>fat12_memcmp\<close>) every operation uses.

  \<open>fat12_memset\<close>, \<open>fat12_memcpy\<close> and \<open>fat12_memcmp\<close> are the C loops; the lemmas show
  them equal to block updates and block comparison, which the later proofs use.
\<close>

section \<open>Constants\<close>

abbreviation (input) FAT12_ATTR_READ_ONLY :: u8 where "FAT12_ATTR_READ_ONLY \<equiv> 0x01"
abbreviation (input) FAT12_ATTR_HIDDEN :: u8 where "FAT12_ATTR_HIDDEN \<equiv> 0x02"
abbreviation (input) FAT12_ATTR_SYSTEM :: u8 where "FAT12_ATTR_SYSTEM \<equiv> 0x04"
abbreviation (input) FAT12_ATTR_VOLUME_ID :: u8 where "FAT12_ATTR_VOLUME_ID \<equiv> 0x08"
abbreviation (input) FAT12_ATTR_DIRECTORY :: u8 where "FAT12_ATTR_DIRECTORY \<equiv> 0x10"
abbreviation (input) FAT12_ATTR_ARCHIVE :: u8 where "FAT12_ATTR_ARCHIVE \<equiv> 0x20"

abbreviation (input) FAT12_CLUSTER_FREE :: u16 where "FAT12_CLUSTER_FREE \<equiv> 0x000"
abbreviation (input) FAT12_CLUSTER_EOC :: u16 where "FAT12_CLUSTER_EOC \<equiv> 0x0FF8"

abbreviation (input) FAT12_DIR_ENTRY_SIZE :: nat where "FAT12_DIR_ENTRY_SIZE \<equiv> 32"
abbreviation (input) FAT12_MAX_FAT_SECTORS :: nat where "FAT12_MAX_FAT_SECTORS \<equiv> 64"
abbreviation (input) FAT12_MAX_ROOT_DIR_SECTORS :: nat where "FAT12_MAX_ROOT_DIR_SECTORS \<equiv> 64"
abbreviation (input) FAT12_MAX_SECTORS_PER_CLUSTER :: nat where "FAT12_MAX_SECTORS_PER_CLUSTER \<equiv> 32"
abbreviation (input) FAT12_MAX_PATH_DEPTH :: nat where "FAT12_MAX_PATH_DEPTH \<equiv> 16"
abbreviation (input) FAT12_MAX_DISPLAY_NAME :: nat where "FAT12_MAX_DISPLAY_NAME \<equiv> 13"
abbreviation (input) FAT12_PATH_MAX :: nat where "FAT12_PATH_MAX \<equiv> 128"

text \<open>
  The negative \<open>FAT12_ERR_*\<close> codes. An operation returns \<open>Inl\<close> of one of them where
  the C function returns the code, and \<open>Inr\<close> of its outputs for \<open>FAT12_OK\<close>;
  \<open>fat12_status\<close> is the \<open>int\<close> the C caller sees.
\<close>

datatype fat12_err =
    FAT12_ERR_IO
  | FAT12_ERR_BAD_BPB
  | FAT12_ERR_NOT_FAT12
  | FAT12_ERR_OUT_OF_RANGE
  | FAT12_ERR_NO_FREE_CLUSTER
  | FAT12_ERR_INVALID_NAME
  | FAT12_ERR_NOT_FOUND
  | FAT12_ERR_NOT_DIRECTORY
  | FAT12_ERR_ALREADY_EXISTS
  | FAT12_ERR_DIR_FULL
  | FAT12_ERR_BUFFER_SMALL
  | FAT12_ERR_NOT_FILE
  | FAT12_ERR_NOT_INITIALIZED

fun fat12_code :: "fat12_err \<Rightarrow> int" where
  "fat12_code FAT12_ERR_IO = -1"
| "fat12_code FAT12_ERR_BAD_BPB = -2"
| "fat12_code FAT12_ERR_NOT_FAT12 = -3"
| "fat12_code FAT12_ERR_OUT_OF_RANGE = -4"
| "fat12_code FAT12_ERR_NO_FREE_CLUSTER = -5"
| "fat12_code FAT12_ERR_INVALID_NAME = -6"
| "fat12_code FAT12_ERR_NOT_FOUND = -7"
| "fat12_code FAT12_ERR_NOT_DIRECTORY = -8"
| "fat12_code FAT12_ERR_ALREADY_EXISTS = -9"
| "fat12_code FAT12_ERR_DIR_FULL = -10"
| "fat12_code FAT12_ERR_BUFFER_SMALL = -11"
| "fat12_code FAT12_ERR_NOT_FILE = -12"
| "fat12_code FAT12_ERR_NOT_INITIALIZED = -13"

fun fat12_status :: "fat12_err + 'a \<Rightarrow> int" where
  "fat12_status (Inl e) = fat12_code e"
| "fat12_status (Inr _) = 0"

lemma fat12_code_negative: "fat12_code e < 0"
  by (cases e) simp_all

lemma fat12_code_inj: "fat12_code e = fat12_code e' \<Longrightarrow> e = e'"
  by (cases e; cases e') simp_all

section \<open>On-disk structures\<close>

text \<open>\<open>fat12_raw_dir_entry_t\<close>: 32 packed bytes.\<close>

record raw_dir_entry =
  re_name :: "byte list"
  re_attr :: u8
  re_nt_reserved :: u8
  re_creation_time_tenths :: u8
  re_creation_time :: u16
  re_creation_date :: u16
  re_last_access_date :: u16
  re_first_cluster_high :: u16
  re_write_time :: u16
  re_write_date :: u16
  re_first_cluster_low :: u16
  re_file_size :: u32

text \<open>
  Reading the packed struct at an address (the cast \<open>(fat12_raw_dir_entry_t *)p\<close>
  followed by a copy), and the bytes a copy of the struct writes.
\<close>

definition entry_at :: "mem \<Rightarrow> nat \<Rightarrow> raw_dir_entry" where
  "entry_at m p =
     \<lparr>re_name = mem_get m p 11,
      re_attr = m (p + 11),
      re_nt_reserved = m (p + 12),
      re_creation_time_tenths = m (p + 13),
      re_creation_time = le16 (m (p + 14)) (m (p + 15)),
      re_creation_date = le16 (m (p + 16)) (m (p + 17)),
      re_last_access_date = le16 (m (p + 18)) (m (p + 19)),
      re_first_cluster_high = le16 (m (p + 20)) (m (p + 21)),
      re_write_time = le16 (m (p + 22)) (m (p + 23)),
      re_write_date = le16 (m (p + 24)) (m (p + 25)),
      re_first_cluster_low = le16 (m (p + 26)) (m (p + 27)),
      re_file_size = le32 (m (p + 28)) (m (p + 29)) (m (p + 30)) (m (p + 31))\<rparr>"

definition entry_bytes :: "raw_dir_entry \<Rightarrow> byte list" where
  "entry_bytes e =
     re_name e @ [re_attr e, re_nt_reserved e, re_creation_time_tenths e]
     @ bytes16 (re_creation_time e) @ bytes16 (re_creation_date e)
     @ bytes16 (re_last_access_date e) @ bytes16 (re_first_cluster_high e)
     @ bytes16 (re_write_time e) @ bytes16 (re_write_date e)
     @ bytes16 (re_first_cluster_low e) @ bytes32 (re_file_size e)"

definition put_entry :: "mem \<Rightarrow> nat \<Rightarrow> raw_dir_entry \<Rightarrow> mem" where
  "put_entry m p e = mem_put m p (entry_bytes e)"

text \<open>\<open>fat12_bpb_t\<close>, the BIOS parameter block at the start of the boot sector.\<close>

record fat12_bpb =
  bpb_bytes_per_sector :: u16
  bpb_sectors_per_cluster :: u8
  bpb_reserved_sectors :: u16
  bpb_num_fats :: u8
  bpb_root_entry_count :: u16
  bpb_total_sectors_16 :: u16
  bpb_media :: u8
  bpb_sectors_per_fat_16 :: u16
  bpb_sectors_per_track :: u16
  bpb_num_heads :: u16
  bpb_hidden_sectors :: u32
  bpb_total_sectors_32 :: u32

definition bpb_at :: "mem \<Rightarrow> fat12_bpb" where
  "bpb_at m =
     \<lparr>bpb_bytes_per_sector = le16 (m 11) (m 12),
      bpb_sectors_per_cluster = m 13,
      bpb_reserved_sectors = le16 (m 14) (m 15),
      bpb_num_fats = m 16,
      bpb_root_entry_count = le16 (m 17) (m 18),
      bpb_total_sectors_16 = le16 (m 19) (m 20),
      bpb_media = m 21,
      bpb_sectors_per_fat_16 = le16 (m 22) (m 23),
      bpb_sectors_per_track = le16 (m 24) (m 25),
      bpb_num_heads = le16 (m 26) (m 27),
      bpb_hidden_sectors = le32 (m 28) (m 29) (m 30) (m 31),
      bpb_total_sectors_32 = le32 (m 32) (m 33) (m 34) (m 35)\<rparr>"

section \<open>Driver state\<close>

text \<open>\<open>fat12_fs_t\<close>: the geometry computed by \<open>fat12_init\<close>.\<close>

record fat12_fs =
  bytes_per_sector :: u16
  sectors_per_cluster :: u8
  reserved_sectors :: u16
  num_fats :: u8
  root_entry_count :: u16
  root_dir_sectors :: u16
  total_sectors :: u32
  sectors_per_fat :: u16
  fat_start_lba :: u32
  root_dir_start_lba :: u32
  data_start_lba :: u32
  total_data_sectors :: u32
  total_clusters :: u32
  cluster_size_bytes :: u32
  base_lba :: u32
  fat_size_bytes :: u32

text \<open>
  The static variables of \<open>fat12.c\<close>, and the disk. The arrays \<open>g_path_stack\<close> and
  \<open>g_path_names\<close> are the lists of their first \<open>g_path_depth\<close> elements (no code reads
  past the depth), so \<open>g_path_depth\<close> is their length; \<open>g_cwd\<close> is the string without
  its NUL.
\<close>

record 'd fat12_state =
  g_fs :: fat12_fs
  g_fat_primary :: mem
  g_fat_secondary :: mem
  g_root_dir :: mem
  g_cluster_buffer :: mem
  g_fs_ready :: bool
  g_fat_dirty :: bool
  g_root_dirty :: bool
  g_current_dir_cluster :: u16
  g_path_stack :: "u16 list"
  g_path_names :: "byte list list"
  g_cwd :: "byte list"
  disk :: 'd

definition g_path_depth :: "'d fat12_state \<Rightarrow> nat" where
  "g_path_depth s = length (g_path_stack s)"

text \<open>\<open>fat12_dir_entry_info_t\<close>, what a directory listing hands to its callback.\<close>

record dir_entry_info =
  info_name :: "byte list"
  info_attr :: u8
  info_size :: u32
  info_first_cluster :: u16

section \<open>Byte helpers\<close>

fun fat12_memset :: "mem \<Rightarrow> nat \<Rightarrow> byte \<Rightarrow> nat \<Rightarrow> mem" where
  "fat12_memset dest p value 0 = dest"
| "fat12_memset dest p value (Suc count) = fat12_memset (dest(p := value)) (Suc p) value count"

fun fat12_memcpy :: "mem \<Rightarrow> nat \<Rightarrow> mem \<Rightarrow> nat \<Rightarrow> nat \<Rightarrow> mem" where
  "fat12_memcpy dest d src p 0 = dest"
| "fat12_memcpy dest d src p (Suc count) =
     fat12_memcpy (dest(d := src p)) (Suc d) src (Suc p) count"

fun fat12_memcmp :: "mem \<Rightarrow> nat \<Rightarrow> mem \<Rightarrow> nat \<Rightarrow> nat \<Rightarrow> int" where
  "fat12_memcmp a p b q 0 = 0"
| "fat12_memcmp a p b q (Suc count) =
     (if a p \<noteq> b q then uint (a p) - uint (b q)
      else fat12_memcmp a (Suc p) b (Suc q) count)"

lemma fat12_memset_block [mem_simps]: "fat12_memset m p v n = mem_put m p (replicate n v)"
  by (induction n arbitrary: m p) (simp_all add: mem_put_Cons)

lemma fat12_memcpy_block [mem_simps]: "fat12_memcpy m d src p n = mem_put m d (mem_get src p n)"
  by (induction n arbitrary: m d p) (simp_all add: mem_put_Cons mem_get_Suc)

lemma fat12_memcmp_eq_0_iff [mem_simps]:
  "fat12_memcmp a p b q n = 0 \<longleftrightarrow> mem_get a p n = mem_get b q n"
  by (induction n arbitrary: p q) (auto simp: mem_get_Suc word_uint_eq_iff)

declare fat12_memset.simps [simp del] fat12_memcpy.simps [simp del] fat12_memcmp.simps [simp del]

section \<open>Layout of directory entries\<close>

definition wf_entry :: "raw_dir_entry \<Rightarrow> bool" where
  "wf_entry e \<longleftrightarrow> length (re_name e) = 11"

lemma length_entry_bytes [simp]: "wf_entry e \<Longrightarrow> length (entry_bytes e) = 32"
  by (simp add: entry_bytes_def wf_entry_def)

lemma wf_entry_at [simp]: "wf_entry (entry_at m p)"
  by (simp add: entry_at_def wf_entry_def)

text \<open>The bytes of an entry, one by one; decoding then encoding gives them back.\<close>

lemma entry_block:
  "mem_get m p 32 = mem_get m p 11 @
     [m (p + 11), m (p + 12), m (p + 13), m (p + 14), m (p + 15), m (p + 16), m (p + 17),
      m (p + 18), m (p + 19), m (p + 20), m (p + 21), m (p + 22), m (p + 23), m (p + 24),
      m (p + 25), m (p + 26), m (p + 27), m (p + 28), m (p + 29), m (p + 30), m (p + 31)]"
proof -
  have "mem_get m p 32 = mem_get m p 11 @ mem_get m (p + 11) 21"
    using mem_get_add [of m p 11 21] by simp
  moreover have "mem_get m q 21 =
     [m q, m (q + 1), m (q + 2), m (q + 3), m (q + 4), m (q + 5), m (q + 6), m (q + 7),
      m (q + 8), m (q + 9), m (q + 10), m (q + 11), m (q + 12), m (q + 13), m (q + 14),
      m (q + 15), m (q + 16), m (q + 17), m (q + 18), m (q + 19), m (q + 20)]" for q
    by (simp add: numeral_eq_Suc mem_get_Suc)
  ultimately show ?thesis by (simp add: ac_simps)
qed

lemma entry_bytes_at: "entry_bytes (entry_at m p) = mem_get m p 32"
  by (simp add: entry_block entry_bytes_def entry_at_def)

lemma entry_at_eqI:
  assumes "mem_get m p 32 = entry_bytes e" and "wf_entry e"
  shows "entry_at m p = e"
  using assms
  by (cases e) (simp add: entry_block entry_bytes_def wf_entry_def entry_at_def bytes16_def
      bytes32_def le16_bytes16 le32_bytes32)

lemma entry_at_put_same: "wf_entry e \<Longrightarrow> entry_at (put_entry m p e) p = e"
  by (rule entry_at_eqI) (simp_all add: put_entry_def mem_simps)

lemma entry_at_cong:
  assumes "\<And>i. p \<le> i \<Longrightarrow> i < p + 32 \<Longrightarrow> m i = m' i"
  shows "entry_at m p = entry_at m' p"
proof -
  have "mem_get m p 11 = mem_get m' p 11" by (rule mem_get_cong) (use assms in auto)
  then show ?thesis by (simp add: entry_at_def assms)
qed

lemma entry_at_put_other:
  assumes "wf_entry e" and "p + 32 \<le> q \<or> q + 32 \<le> p"
  shows "entry_at (put_entry m q e) p = entry_at m p"
  by (rule entry_at_cong) (use assms in \<open>auto simp: put_entry_def mem_put_def\<close>)

end
