(* ===== verification/Fat12_Names.thy ===== *)
theory Fat12_Names
  imports Fat12_Base
begin

text \<open>
  The name and path text routines of \<open>src/fat12.c\<close>: 8.3 short names in both
  directions, the splitting of a path into components, and the rebuilding of the
  current-directory string.

  Bytes are compared unsigned. The C code compares \<open>char\<close>, which is signed on this
  target; every comparison is with a range inside the ASCII letters or digits, where
  both orders agree. The lemmas characterise the accepted names by a grammar, give
  the parse/print round trips and bound every output by its C buffer.
\<close>

section \<open>Characters\<close>

definition fat12_to_upper :: "byte \<Rightarrow> byte" where
  "fat12_to_upper c = (if 0x61 \<le> c \<and> c \<le> 0x7A then c - 32 else c)"

definition fat12_is_valid_char :: "byte \<Rightarrow> bool" where
  "fat12_is_valid_char c \<longleftrightarrow>
     (0x41 \<le> c \<and> c \<le> 0x5A) \<or> (0x30 \<le> c \<and> c \<le> 0x39) \<or> c = 0x5F \<or> c = 0x2D"

fun fat12_strlen :: "byte list option \<Rightarrow> nat" where
  "fat12_strlen None = 0"
| "fat12_strlen (Some []) = 0"
| "fat12_strlen (Some (c # cs)) = (if c = 0 then 0 else Suc (fat12_strlen (Some cs)))"

section \<open>Short names\<close>

text \<open>The copy into \<open>temp[32]\<close>: at most 31 characters, upper-cased.\<close>

fun copy_upper :: "nat \<Rightarrow> byte list \<Rightarrow> byte list" where
  "copy_upper len [] = []"
| "copy_upper len (c # cs) =
     (if c \<noteq> 0 \<and> len < 31 then fat12_to_upper c # copy_upper (len + 1) cs else [])"

text \<open>The scan for the dot: \<open>None\<close> for a second dot or a space.\<close>

fun find_dot :: "byte list \<Rightarrow> int \<Rightarrow> int \<Rightarrow> int option" where
  "find_dot [] i dot_index = Some dot_index"
| "find_dot (c # cs) i dot_index =
     (if c = 0x2E then (if dot_index \<noteq> -1 then None else find_dot cs (i + 1) i)
      else if c = 0x20 then None
      else find_dot cs (i + 1) dot_index)"

text \<open>A copy of checked characters into \<open>out\<close>, from position \<open>pos\<close> on.\<close>

fun copy_valid :: "byte list \<Rightarrow> nat \<Rightarrow> byte list \<Rightarrow> byte list option" where
  "copy_valid [] pos out = Some out"
| "copy_valid (c # cs) pos out =
     (if \<not> fat12_is_valid_char c then None else copy_valid cs (pos + 1) (out[pos := c]))"

definition fat12_make_short_name :: "byte list option \<Rightarrow> fat12_err + byte list" where
  "fat12_make_short_name input =
     (case input of
        None \<Rightarrow> Inl FAT12_ERR_INVALID_NAME
      | Some str \<Rightarrow>
          if char_at str 0 = 0 then Inl FAT12_ERR_INVALID_NAME
          else
            let temp = copy_upper 0 str; len = int (length temp) in
            case find_dot temp 0 (-1) of
              None \<Rightarrow> Inl FAT12_ERR_INVALID_NAME
            | Some dot_index \<Rightarrow>
                let base_len = (if dot_index = -1 then len else dot_index);
                    ext_len = (if dot_index = -1 then 0 else len - dot_index - 1) in
                if base_len \<le> 0 \<or> base_len > 8 then Inl FAT12_ERR_INVALID_NAME
                else if ext_len < 0 \<or> ext_len > 3 then Inl FAT12_ERR_INVALID_NAME
                else
                  case copy_valid (take (nat base_len) temp) 0 (replicate 11 0x20) of
                    None \<Rightarrow> Inl FAT12_ERR_INVALID_NAME
                  | Some out \<Rightarrow>
                      (case copy_valid (take (nat ext_len) (drop (nat (dot_index + 1)) temp)) 8 out of
                         None \<Rightarrow> Inl FAT12_ERR_INVALID_NAME
                       | Some out' \<Rightarrow> Inr out'))"

text \<open>The display form of a stored name; \<open>out\<close> holds 13 bytes with its NUL.\<close>

fun append_ext :: "byte list \<Rightarrow> byte list \<Rightarrow> byte list" where
  "append_ext [] out = out"
| "append_ext (c # cs) out =
     append_ext cs
       (if c \<noteq> 0x20 \<and> length out < FAT12_MAX_DISPLAY_NAME - 1 then out @ [c] else out)"

definition fat12_dir_name_to_string :: "byte list \<Rightarrow> byte list" where
  "fat12_dir_name_to_string raw =
     (let base = filter (\<lambda>c. c \<noteq> 0x20) (take 8 raw);
          ext = take 3 (drop 8 raw);
          has_ext = list_ex (\<lambda>c. c \<noteq> 0x20) ext;
          out = (if has_ext \<and> length base < FAT12_MAX_DISPLAY_NAME - 1 then base @ [0x2E] else base);
          out' = append_ext ext out
      in if out' = [] then [0x3F] else out')"

section \<open>Paths\<close>

definition is_sep :: "byte \<Rightarrow> bool" where
  "is_sep c \<longleftrightarrow> c = 0x2F \<or> c = 0x5C"

fun skip_seps :: "byte list \<Rightarrow> byte list" where
  "skip_seps [] = []"
| "skip_seps (c # cs) = (if is_sep c then skip_seps cs else c # cs)"

fun scan_component :: "byte list \<Rightarrow> nat \<Rightarrow> byte list \<Rightarrow> byte list \<times> byte list" where
  "scan_component [] max_len acc = (acc, [])"
| "scan_component (c # cs) max_len acc =
     (if c \<noteq> 0 \<and> \<not> is_sep c
      then scan_component cs max_len (if length acc < max_len - 1 then acc @ [c] else acc)
      else (acc, c # cs))"

text \<open>Returns the length, the component and the advanced \<open>*path_ptr\<close>.\<close>

definition fat12_path_next :: "byte list \<Rightarrow> nat \<Rightarrow> nat \<times> byte list \<times> byte list" where
  "fat12_path_next path max_len =
     (let ptr = skip_seps path in
      if char_at ptr 0 = 0 then (0, [], ptr)
      else let (component, ptr') = scan_component ptr max_len []
           in (length component, component, ptr'))"

text \<open>\<open>fat12_rebuild_cwd\<close>: \<open>acc\<close> is the string built so far, \<open>pos\<close> its length.\<close>

fun rebuild_cwd_from :: "byte list list \<Rightarrow> byte list \<Rightarrow> byte list" where
  "rebuild_cwd_from [] acc = acc"
| "rebuild_cwd_from (nm # nms) acc =
     (let name_len = fat12_strlen (Some nm) in
      if name_len = 0 then rebuild_cwd_from nms acc
      else if length acc + name_len + 1 \<ge> FAT12_PATH_MAX then acc
      else rebuild_cwd_from nms
             (acc @ take name_len nm @ (if nms \<noteq> [] then [0x2F] else [])))"

definition fat12_rebuild_cwd :: "'d fat12_state \<Rightarrow> 'd fat12_state" where
  "fat12_rebuild_cwd s =
     s\<lparr>g_cwd := (if g_path_names s = [] then [0x2F] else rebuild_cwd_from (g_path_names s) [0x2F])\<rparr>"

section \<open>The grammar of short names\<close>

definition name_pad :: "nat \<Rightarrow> byte list \<Rightarrow> byte list" where
  "name_pad n xs = xs @ replicate (n - length xs) 0x20"

definition pack83 :: "byte list \<Rightarrow> byte list \<Rightarrow> byte list" where
  "pack83 b e = name_pad 8 b @ name_pad 3 e"

definition valid_base :: "byte list \<Rightarrow> bool" where
  "valid_base b \<longleftrightarrow> b \<noteq> [] \<and> length b \<le> 8 \<and> list_all fat12_is_valid_char b"

definition valid_ext :: "byte list \<Rightarrow> bool" where
  "valid_ext e \<longleftrightarrow> length e \<le> 3 \<and> list_all fat12_is_valid_char e"

text \<open>The text \<open>b\<close> or \<open>b.e\<close> of a name (a trailing dot is allowed).\<close>

definition spells83 :: "byte list \<Rightarrow> byte list \<Rightarrow> byte list \<Rightarrow> bool" where
  "spells83 b e str \<longleftrightarrow> (e = [] \<and> str = b) \<or> str = b @ 0x2E # e"

definition dotless :: "byte list \<Rightarrow> bool" where
  "dotless xs \<longleftrightarrow> 0x2E \<notin> set xs \<and> 0x20 \<notin> set xs"

lemma dotless_simps [simp]:
  "dotless []"
  "dotless (x # xs) \<longleftrightarrow> x \<noteq> 0x2E \<and> x \<noteq> 0x20 \<and> dotless xs"
  "dotless (xs @ ys) \<longleftrightarrow> dotless xs \<and> dotless ys"
  by (auto simp: dotless_def)

lemma valid_char_facts:
  "fat12_is_valid_char c \<Longrightarrow> c \<noteq> 0x20 \<and> c \<noteq> 0x2E \<and> c \<noteq> 0 \<and> c \<noteq> 0xE5"
  by (auto simp: fat12_is_valid_char_def)

lemma valid_dotless: "list_all fat12_is_valid_char xs \<Longrightarrow> dotless xs"
  by (induction xs) (auto dest: valid_char_facts)

lemma upper_valid: "fat12_is_valid_char c \<Longrightarrow> fat12_to_upper c = c"
  unfolding fat12_is_valid_char_def fat12_to_upper_def by unat_arith

lemma map_upper_valid: "list_all fat12_is_valid_char xs \<Longrightarrow> map fat12_to_upper xs = xs"
  by (induction xs) (auto simp: upper_valid)

lemma upper_idem [simp]: "fat12_to_upper (fat12_to_upper c) = fat12_to_upper c"
  unfolding fat12_to_upper_def by unat_arith

lemma upper_eq_0 [simp]: "fat12_to_upper c = 0 \<longleftrightarrow> c = 0"
  unfolding fat12_to_upper_def by (cases "c = 32") auto

lemma cstr_map_upper: "cstr (map fat12_to_upper s) = map fat12_to_upper (cstr s)"
  by (induction s) (auto simp: cstr_def)

lemma copy_upper_eq: "len \<le> 31 \<Longrightarrow> copy_upper len s = map fat12_to_upper (take (31 - len) (cstr s))"
  by (induction len s rule: copy_upper.induct) (auto simp: cstr_def take_Cons' Suc_diff_Suc)

lemma find_dot_after:
  "d \<noteq> -1 \<Longrightarrow> find_dot cs i d = (if dotless cs then Some d else None)"
  by (induction cs i d rule: find_dot.induct) auto

lemma find_dot_SomeD:
  assumes "find_dot cs i (-1) = Some d" and "0 \<le> i"
  shows "(d = -1 \<and> dotless cs) \<or>
         (\<exists>a b. cs = a @ 0x2E # b \<and> dotless a \<and> dotless b \<and> d = i + int (length a))"
  using assms
proof (induction cs arbitrary: i)
  case Nil
  then show ?case by simp
next
  case (Cons c cs)
  show ?case
  proof (cases "c = 0x2E")
    case True
    with Cons.prems have "dotless cs" "d = i"
      by (auto simp: find_dot_after split: if_splits)
    with True have "c # cs = [] @ 0x2E # cs \<and> dotless [] \<and> dotless cs \<and> d = i + int (length ([] :: byte list))"
      by simp
    then show ?thesis by blast
  next
    case False
    with Cons.prems have c: "c \<noteq> 0x20" and rec: "find_dot cs (i + 1) (-1) = Some d"
      by (auto split: if_splits)
    from Cons.IH [OF rec] Cons.prems(2) consider "d = -1" "dotless cs"
      | a b where "cs = a @ 0x2E # b" "dotless a" "dotless b" "d = i + 1 + int (length a)"
      by auto
    then show ?thesis
    proof cases
      case 1
      with False c show ?thesis by simp
    next
      case 2
      with False c have "c # cs = (c # a) @ 0x2E # b \<and> dotless (c # a) \<and> dotless b
          \<and> d = i + int (length (c # a))" by simp
      then show ?thesis by blast
    qed
  qed
qed

lemma find_dot_none: "dotless cs \<Longrightarrow> find_dot cs i (-1) = Some (-1)"
  by (induction cs arbitrary: i) auto

lemma find_dot_one:
  "dotless a \<Longrightarrow> dotless b \<Longrightarrow> 0 \<le> i \<Longrightarrow>
   find_dot (a @ 0x2E # b) i (-1) = Some (i + int (length a))"
  by (induction a arbitrary: i) (auto simp: find_dot_after)

lemma copy_valid_eq:
  "pos + length cs \<le> length out \<Longrightarrow>
   copy_valid cs pos out =
     (if list_all fat12_is_valid_char cs
      then Some (take pos out @ cs @ drop (pos + length cs) out) else None)"
proof (induction cs pos out rule: copy_valid.induct)
  case (1 pos out)
  then show ?case by simp
next
  case (2 c cs pos out)
  have "take (pos + 1) (out[pos := c]) @ cs @ drop (pos + 1 + length cs) (out[pos := c])
      = take pos out @ (c # cs) @ drop (pos + length (c # cs)) out"
    using 2(2) by (simp add: take_Suc_conv_app_nth)
  with 2 show ?case by simp
qed

lemma pack83_copies:
  assumes "length b \<le> 8" and "length e \<le> 3"
  shows "take 8 (take 0 (replicate 11 0x20) @ b @ drop (0 + length b) (replicate 11 0x20)) @ e
      @ drop (8 + length e) (take 0 (replicate 11 0x20) @ b @ drop (0 + length b) (replicate 11 0x20))
      = pack83 b e"
  using assms by (simp add: pack83_def name_pad_def take_replicate min_def)

lemma pack83_plain: "length b \<le> 8 \<Longrightarrow> pack83 b [] = b @ replicate (11 - length b) 0x20"
  by (simp add: pack83_def name_pad_def replicate_add [symmetric])

lemma make_short_name_error:
  "fat12_make_short_name inp = Inl e \<Longrightarrow> e = FAT12_ERR_INVALID_NAME"
  by (auto simp: fat12_make_short_name_def Let_def split: option.splits if_splits)

lemma make_short_name_plain:
  assumes "char_at str 0 \<noteq> 0" and "dotless (copy_upper 0 str)"
  shows "fat12_make_short_name (Some str) =
    (if valid_base (copy_upper 0 str) then Inr (pack83 (copy_upper 0 str) [])
     else Inl FAT12_ERR_INVALID_NAME)"
proof (cases "length (copy_upper 0 str) \<le> 8 \<and> copy_upper 0 str \<noteq> []")
  case True
  then show ?thesis
    using assms
    by (simp add: fat12_make_short_name_def Let_def find_dot_none copy_valid_eq valid_base_def
        pack83_plain)
next
  case False
  then show ?thesis
    using assms by (auto simp: fat12_make_short_name_def Let_def find_dot_none valid_base_def)
qed

lemma make_short_name_dotted:
  assumes "char_at str 0 \<noteq> 0" and temp: "copy_upper 0 str = a @ 0x2E # b"
    and "dotless a" and "dotless b"
  shows "fat12_make_short_name (Some str) =
    (if valid_base a \<and> valid_ext b then Inr (pack83 a b) else Inl FAT12_ERR_INVALID_NAME)"
proof (cases "a \<noteq> [] \<and> length a \<le> 8 \<and> length b \<le> 3")
  case True
  then show ?thesis
    using assms pack83_copies [of a b]
    by (simp add: fat12_make_short_name_def Let_def find_dot_one copy_valid_eq valid_base_def
        valid_ext_def nat_add_distrib)
next
  case False
  then show ?thesis
    using assms
    by (auto simp: fat12_make_short_name_def Let_def find_dot_one valid_base_def valid_ext_def)
qed

lemma make_short_name_None [simp]: "fat12_make_short_name None = Inl FAT12_ERR_INVALID_NAME"
  by (simp add: fat12_make_short_name_def)

lemma make_short_name_empty:
  "char_at str 0 = 0 \<Longrightarrow> fat12_make_short_name (Some str) = Inl FAT12_ERR_INVALID_NAME"
  by (simp add: fat12_make_short_name_def)

lemma make_short_name_cases:
  assumes "fat12_make_short_name (Some str) = Inr out"
  obtains b e where "valid_base b" "valid_ext e" "out = pack83 b e"
    "spells83 b e (copy_upper 0 str)"
proof -
  have nz: "char_at str 0 \<noteq> 0" using assms make_short_name_empty by fastforce
  have "\<exists>d. find_dot (copy_upper 0 str) 0 (-1) = Some d"
    using assms by (auto simp: fat12_make_short_name_def Let_def split: option.splits if_splits)
  then consider "dotless (copy_upper 0 str)"
    | a b where "copy_upper 0 str = a @ 0x2E # b" "dotless a" "dotless b"
    using find_dot_SomeD [of "copy_upper 0 str" 0] by auto
  then show thesis
  proof cases
    case 1
    with assms nz have "valid_base (copy_upper 0 str)" "out = pack83 (copy_upper 0 str) []"
      by (auto simp: make_short_name_plain split: if_splits)
    then show thesis using that [of "copy_upper 0 str" "[]"] by (simp add: valid_ext_def spells83_def)
  next
    case 2
    with assms nz have "valid_base a" "valid_ext b" "out = pack83 a b"
      by (auto simp: make_short_name_dotted split: if_splits)
    with 2 show thesis using that [of a b] by (simp add: spells83_def)
  qed
qed

lemma spells83_length: "valid_base b \<Longrightarrow> valid_ext e \<Longrightarrow> spells83 b e s \<Longrightarrow> length s \<le> 12"
  by (auto simp: valid_base_def valid_ext_def spells83_def)

lemma copy_upper_short:
  assumes "length (copy_upper 0 str) \<le> 12"
  shows "copy_upper 0 str = map fat12_to_upper (cstr str)"
  using assms by (simp add: copy_upper_eq)

lemma make_short_name_spelled:
  assumes "valid_base b" "valid_ext e" "spells83 b e (map fat12_to_upper (cstr str))"
  shows "fat12_make_short_name (Some str) = Inr (pack83 b e)"
proof -
  have "length (cstr str) \<le> 12" using spells83_length [OF assms] by simp
  then have temp: "copy_upper 0 str = map fat12_to_upper (cstr str)"
    by (simp add: copy_upper_eq)
  have nz: "char_at str 0 \<noteq> 0"
  proof
    assume "char_at str 0 = 0"
    then have "cstr str = []" by (cases str) (auto simp: cstr_def)
    with assms show False by (auto simp: spells83_def valid_base_def)
  qed
  from assms(3) consider "e = []" "copy_upper 0 str = b" | "copy_upper 0 str = b @ 0x2E # e"
    unfolding temp spells83_def by blast
  then show ?thesis
  proof cases
    case 1
    with assms nz show ?thesis
      by (simp add: make_short_name_plain valid_base_def valid_dotless)
  next
    case 2
    with assms nz show ?thesis
      by (simp add: make_short_name_dotted valid_base_def valid_ext_def valid_dotless)
  qed
qed

lemma pack83_length: "valid_base b \<Longrightarrow> valid_ext e \<Longrightarrow> length (pack83 b e) = 11"
  by (simp add: pack83_def name_pad_def valid_base_def valid_ext_def)

lemma make_short_name_length: "fat12_make_short_name (Some str) = Inr out \<Longrightarrow> length out = 11"
  by (elim make_short_name_cases) (simp add: pack83_length)

lemma make_short_name_first:
  assumes "fat12_make_short_name inp = Inr out"
  shows "fat12_is_valid_char (out ! 0)"
proof -
  from assms obtain str where "inp = Some str" by (cases inp) auto
  with assms obtain b e where b: "valid_base b" and out: "out = pack83 b e"
    by (auto elim: make_short_name_cases)
  then show ?thesis
    by (cases b) (auto simp: pack83_def name_pad_def valid_base_def)
qed

text \<open>The display form of a packed name spells it.\<close>

lemma filter_name_pad:
  "list_all fat12_is_valid_char xs \<Longrightarrow> filter (\<lambda>c. c \<noteq> 0x20) (name_pad n xs) = xs"
  by (induction xs arbitrary: n) (auto simp: name_pad_def list_all_iff dest: valid_char_facts
      intro!: filter_True)

lemma append_ext_eq:
  "append_ext cs out = out @ take (12 - length out) (filter (\<lambda>c. c \<noteq> 0x20) cs)"
  by (induction cs out rule: append_ext.induct) (auto simp: take_Cons' Suc_diff_Suc)

lemma display_pack83:
  assumes "valid_base b" and "valid_ext e"
  shows "fat12_dir_name_to_string (pack83 b e) = (if e = [] then b else b @ 0x2E # e)"
proof -
  have lb: "length (name_pad 8 b) = 8" "length (name_pad 3 e) = 3"
    using assms by (auto simp: name_pad_def valid_base_def valid_ext_def)
  have fb: "filter (\<lambda>c. c \<noteq> 0x20) (name_pad 8 b) = b"
    using assms by (simp add: filter_name_pad valid_base_def)
  have fe: "filter (\<lambda>c. c \<noteq> 0x20) (name_pad 3 e) = e"
    using assms by (simp add: filter_name_pad valid_ext_def)
  have has: "list_ex (\<lambda>c. c \<noteq> 0x20) (name_pad 3 e) \<longleftrightarrow> e \<noteq> []"
    using fe by (metis filter_empty_conv list_ex_iff)
  show ?thesis
    using assms lb fb fe has
    by (auto simp: fat12_dir_name_to_string_def pack83_def append_ext_eq valid_base_def valid_ext_def)
qed

lemma display_length:
  "length raw = 11 \<Longrightarrow> length (fat12_dir_name_to_string raw) < FAT12_MAX_DISPLAY_NAME"
proof -
  have "length (filter (\<lambda>c. c \<noteq> 0x20) (take 8 raw)) \<le> 8"
    using length_filter_le [of _ "take 8 raw"] by (simp add: le_trans)
  then show ?thesis
    by (auto simp: fat12_dir_name_to_string_def append_ext_eq Let_def)
qed

section \<open>Walking a path\<close>

lemma is_sep_nonzero: "is_sep c \<Longrightarrow> c \<noteq> 0"
  by (auto simp: is_sep_def)

lemma skip_seps_eq: "skip_seps p = dropWhile is_sep p"
  by (induction p) auto

lemma skip_seps_length: "length (skip_seps p) \<le> length p"
  by (simp add: skip_seps_eq length_dropWhile_le)

lemma scan_component_eq:
  "scan_component p n acc =
     (acc @ take (n - 1 - length acc) (takeWhile (\<lambda>c. c \<noteq> 0 \<and> \<not> is_sep c) p),
      dropWhile (\<lambda>c. c \<noteq> 0 \<and> \<not> is_sep c) p)"
proof (induction p n acc rule: scan_component.induct)
  case (2 c cs n acc)
  then show ?case by (auto simp: take_Cons' Suc_diff_Suc)
qed simp

lemma path_next_eq:
  "fat12_path_next p n =
     (let ptr = dropWhile is_sep p; w = takeWhile (\<lambda>c. c \<noteq> 0 \<and> \<not> is_sep c) ptr in
      (length (take (n - 1) w), take (n - 1) w, dropWhile (\<lambda>c. c \<noteq> 0 \<and> \<not> is_sep c) ptr))"
proof (cases "dropWhile is_sep p")
  case Nil
  show ?thesis unfolding fat12_path_next_def skip_seps_eq Nil by simp
next
  case (Cons c cs)
  show ?thesis
    unfolding fat12_path_next_def skip_seps_eq Cons by (simp add: scan_component_eq Let_def)
qed

lemma path_next_shorter:
  assumes "fat12_path_next p n = (len, part, p')" and "0 < len"
  shows "length p' < length p"
proof -
  let ?P = "\<lambda>c. c \<noteq> 0 \<and> \<not> is_sep c"
  let ?ptr = "dropWhile is_sep p"
  from assms have w: "takeWhile ?P ?ptr \<noteq> []" and p': "p' = dropWhile ?P ?ptr"
    by (auto simp: path_next_eq Let_def)
  have "length (takeWhile ?P ?ptr) + length (dropWhile ?P ?ptr) = length ?ptr"
    by (metis length_append takeWhile_dropWhile_id)
  with w p' have "length p' < length ?ptr" by (cases "takeWhile ?P ?ptr") auto
  then show ?thesis using length_dropWhile_le [of is_sep p] by linarith
qed

lemma path_next_component_bound:
  "fat12_path_next p n = (len, part, p') \<Longrightarrow> len = length part \<and> length part \<le> n - 1"
  by (auto simp: path_next_eq Let_def)

lemma path_next_no_sep:
  "fat12_path_next p n = (len, part, p') \<Longrightarrow> c \<in> set part \<Longrightarrow> c \<noteq> 0 \<and> \<not> is_sep c"
  by (auto simp: path_next_eq Let_def dest!: in_set_takeD set_takeWhileD)

text \<open>A path without separators is its own only component.\<close>

lemma path_next_single:
  assumes "\<And>c. c \<in> set p \<Longrightarrow> c \<noteq> 0 \<and> \<not> is_sep c" and "length p \<le> n - 1"
  shows "fat12_path_next p n = (length p, p, [])"
proof -
  have 1: "dropWhile is_sep p = p" using assms(1) by (cases p) auto
  have 2: "takeWhile (\<lambda>c. c \<noteq> 0 \<and> \<not> is_sep c) p = p" using assms(1) by simp
  have 3: "dropWhile (\<lambda>c. c \<noteq> 0 \<and> \<not> is_sep c) p = []" using assms(1) by simp
  show ?thesis unfolding path_next_eq 1 2 3 using assms(2) by (simp add: Let_def 2 3)
qed

section \<open>The current-directory string\<close>

lemma fat12_strlen_eq: "fat12_strlen (Some s) = length (cstr s)"
  by (induction s) (auto simp: cstr_def)

lemma take_strlen: "take (fat12_strlen (Some s)) s = cstr s"
  unfolding fat12_strlen_eq cstr_def by (rule takeWhile_eq_take [symmetric])

lemma rebuild_cwd_bound: "length acc < 128 \<Longrightarrow> length (rebuild_cwd_from nms acc) < 128"
proof (induction nms arbitrary: acc)
  case Nil
  then show ?case by simp
next
  case (Cons nm nms)
  then show ?case by (simp add: Let_def take_strlen) (simp add: fat12_strlen_eq)
qed

lemma rebuild_cwd_prefix: "\<exists>ys. rebuild_cwd_from nms acc = acc @ ys"
proof (induction nms arbitrary: acc)
  case (Cons nm nms)
  obtain ys where "rebuild_cwd_from nms
      (acc @ take (fat12_strlen (Some nm)) nm @ (if nms \<noteq> [] then [0x2F] else [])) =
      (acc @ take (fat12_strlen (Some nm)) nm @ (if nms \<noteq> [] then [0x2F] else [])) @ ys"
    using Cons.IH by blast
  moreover obtain zs where "rebuild_cwd_from nms acc = acc @ zs"
    using Cons.IH by blast
  ultimately show ?case by (simp add: Let_def)
qed simp

text \<open>The path string of a list of names, with a slash between two of them.\<close>

fun join_names :: "byte list list \<Rightarrow> byte list" where
  "join_names [] = []"
| "join_names [nm] = nm"
| "join_names (nm # nms) = nm @ 0x2F # join_names nms"

lemma rebuild_cwd_join:
  assumes "\<And>nm. nm \<in> set nms \<Longrightarrow> nm \<noteq> [] \<and> 0 \<notin> set nm"
    and "length acc + length (join_names nms) < 127"
  shows "rebuild_cwd_from nms acc = acc @ join_names nms"
  using assms
proof (induction nms arbitrary: acc)
  case Nil
  then show ?case by simp
next
  case (Cons nm nms)
  have nm: "nm \<noteq> []" "0 \<notin> set nm" using Cons.prems(1) by auto
  then have len: "fat12_strlen (Some nm) = length nm"
    by (simp add: fat12_strlen_eq cstr_idem)
  have fits: "length acc + length nm + 1 < 128"
    using Cons.prems(2) by (cases nms) auto
  show ?case
  proof (cases nms)
    case Nil
    with nm len fits show ?thesis by (simp add: Let_def)
  next
    case (Cons nm' nms')
    with Cons.prems have "length (acc @ nm @ [0x2F]) + length (join_names nms) < 127" by simp
    then have "rebuild_cwd_from nms (acc @ nm @ [0x2F]) = (acc @ nm @ [0x2F]) @ join_names nms"
      using Cons.prems(1) by (intro Cons.IH) auto
    with Cons nm len fits show ?thesis by (simp add: Let_def)
  qed
qed

text \<open>
  The reference for the whole path string: a slash and the names with slashes between them,
  when these are fewer than 126 characters; a longer path is cut behind the slash of the last
  level that fits.
\<close>

definition path_fits :: "byte list list \<Rightarrow> bool" where
  "path_fits names \<longleftrightarrow> length (join_names names) < 126"

definition shows_path :: "byte list list \<Rightarrow> byte list \<Rightarrow> bool" where
  "shows_path names w \<longleftrightarrow>
     (if path_fits names then w = 0x2F # join_names names
      else \<exists>k < length names. path_fits (take k names) \<and> \<not> path_fits (take (Suc k) names)
             \<and> w = 0x2F # concat (map (\<lambda>nm. nm @ [0x2F]) (take k names)))"

lemma join_slashes: "names \<noteq> [] \<Longrightarrow> 0x2F # join_names names = concat (map (\<lambda>nm. 0x2F # nm) names)"
  by (induction names rule: join_names.induct) simp_all

lemma shows_path_fits: "shows_path names w \<Longrightarrow> length (0x2F # join_names names) \<le> 126 \<Longrightarrow> w = 0x2F # join_names names"
  by (simp add: shows_path_def path_fits_def)

lemma length_join_Cons: "length (join_names (nm # nms)) = length nm + (if nms = [] then 0 else 1 + length (join_names nms))"
  by (cases nms) simp_all

lemma rebuild_cwd_cut:
  assumes "\<And>nm. nm \<in> set nms \<Longrightarrow> nm \<noteq> [] \<and> 0 \<notin> set nm"
    and "length acc < 128" and "127 \<le> length acc + length (join_names nms)" and "nms \<noteq> []"
  shows "\<exists>k < length nms. rebuild_cwd_from nms acc = acc @ concat (map (\<lambda>nm. nm @ [0x2F]) (take k nms))
    \<and> (k = 0 \<or> length acc + length (join_names (take k nms)) < 127)
    \<and> 127 \<le> length acc + length (join_names (take (Suc k) nms))"
  using assms
proof (induction nms arbitrary: acc)
  case (Cons nm nms)
  have nm: "nm \<noteq> []" "0 \<notin> set nm" using Cons.prems(1) by auto
  then have len: "fat12_strlen (Some nm) = length nm" by (simp add: fat12_strlen_eq cstr_idem)
  show ?case
  proof (cases "length acc + length nm + 1 < 128")
    case False
    with nm len show ?thesis by (intro exI [of _ 0]) (simp add: Let_def)
  next
    case fits: True
    with Cons.prems(3) have ne: "nms \<noteq> []" by auto
    let ?acc = "acc @ nm @ [0x2F]"
    have "length ?acc < 128" "127 \<le> length ?acc + length (join_names nms)"
      using fits Cons.prems(3) ne by (simp_all add: length_join_Cons)
    then obtain k where k: "k < length nms"
      "rebuild_cwd_from nms ?acc = ?acc @ concat (map (\<lambda>nm. nm @ [0x2F]) (take k nms))"
      "k = 0 \<or> length ?acc + length (join_names (take k nms)) < 127"
      "127 \<le> length ?acc + length (join_names (take (Suc k) nms))"
      using Cons.IH [of ?acc] Cons.prems(1) ne by auto
    have "rebuild_cwd_from (nm # nms) acc = acc @ concat (map (\<lambda>nm. nm @ [0x2F]) (take (Suc k) (nm # nms)))"
      using nm len fits ne k(2) by (simp add: Let_def)
    moreover have "length acc + length (join_names (take (Suc k) (nm # nms))) < 127"
      using k(3) fits ne by (auto simp: length_join_Cons)
    moreover have "127 \<le> length acc + length (join_names (take (Suc (Suc k)) (nm # nms)))"
      using k(4) ne by (auto simp: length_join_Cons simp del: take_Suc_Cons) (simp add: length_join_Cons)
    ultimately show ?thesis using k(1) by (intro exI [of _ "Suc k"]) simp
  qed
qed simp

lemma rebuild_cwd_shows:
  assumes "\<And>nm. nm \<in> set names \<Longrightarrow> nm \<noteq> [] \<and> 0 \<notin> set nm"
  shows "shows_path names (if names = [] then [0x2F] else rebuild_cwd_from names [0x2F])"
proof (cases "path_fits names")
  case True
  then show ?thesis
    using rebuild_cwd_join [OF assms, of names "[0x2F]"] by (auto simp: shows_path_def path_fits_def)
next
  case False
  then have ne: "names \<noteq> []" by (auto simp: path_fits_def)
  obtain k where k: "k < length names"
    "rebuild_cwd_from names [0x2F] = [0x2F] @ concat (map (\<lambda>nm. nm @ [0x2F]) (take k names))"
    "k = 0 \<or> length [0x2F :: byte] + length (join_names (take k names)) < 127"
    "127 \<le> length [0x2F :: byte] + length (join_names (take (Suc k) names))"
    using rebuild_cwd_cut [OF assms, of names "[0x2F]"] False ne by (auto simp: path_fits_def)
  from k(3,4) have "path_fits (take k names)" "\<not> path_fits (take (Suc k) names)" by (auto simp: path_fits_def)
  with False ne k(1,2) show ?thesis by (auto simp: shows_path_def)
qed

end
