(* ===== verification/Fat12_Table.thy ===== *)
theory Fat12_Table
  imports Fat12_Base
begin

text \<open>
  The allocation table of \<open>src/fat12.c\<close>: cluster addressing, the packed 12-bit
  entries, allocation of a cluster and release of a chain, on the cached first FAT.

  \<open>fat12_get_fat_entry\<close> and \<open>fat12_set_fat_entry\<close> are shown to behave as an array of
  12-bit values (a store is read back, every other entry keeps its value) although
  neighbouring entries share a byte. \<open>fat12_free_chain\<close> is proved to terminate on
  every table, cyclic ones included.
\<close>

section \<open>Cluster addresses\<close>

definition fat12_cluster_to_lba :: "'d fat12_state \<Rightarrow> u16 \<Rightarrow> u32" where
  "fat12_cluster_to_lba s cluster =
     (if cluster < 2 then data_start_lba (g_fs s)
      else let rel_cluster = (ucast (cluster - 2) :: u32) in
           data_start_lba (g_fs s) + rel_cluster * ucast (sectors_per_cluster (g_fs s)))"

text \<open>Both return the status of the disk; the buffer is always \<open>g_cluster_buffer\<close>.\<close>

definition fat12_read_cluster ::
    "'d disk_ops \<Rightarrow> u16 \<Rightarrow> 'd fat12_state \<Rightarrow> int \<times> 'd fat12_state" where
  "fat12_read_cluster D cluster s =
     (let lba = fat12_cluster_to_lba s cluster;
          (rc, buf, d) = op_read_sectors D (base_lba (g_fs s) + lba) (Some 0)
                           (ucast (sectors_per_cluster (g_fs s))) (g_cluster_buffer s) (disk s)
      in (rc, s\<lparr>g_cluster_buffer := buf, disk := d\<rparr>))"

definition fat12_write_cluster ::
    "'d disk_ops \<Rightarrow> u16 \<Rightarrow> 'd fat12_state \<Rightarrow> int \<times> 'd fat12_state" where
  "fat12_write_cluster D cluster s =
     (let lba = fat12_cluster_to_lba s cluster;
          (rc, d) = op_write_sectors D (base_lba (g_fs s) + lba) (Some 0)
                      (ucast (sectors_per_cluster (g_fs s))) (g_cluster_buffer s) (disk s)
      in (rc, s\<lparr>disk := d\<rparr>))"

section \<open>Table entries\<close>

definition fat_index :: "u16 \<Rightarrow> u32" where
  "fat_index cluster = ucast cluster + ucast (cluster div 2)"

text \<open>
  The bit expressions of the two routines: a 12-bit value read from, and stored into,
  the byte pair at \<open>index\<close>, for an even and for an odd cluster number.
\<close>

definition fat_value_even :: "byte \<Rightarrow> byte \<Rightarrow> u16" where
  "fat_value_even b0 b1 = ucast b0 OR push_bit 8 (ucast (b1 AND 0x0F))"

definition fat_value_odd :: "byte \<Rightarrow> byte \<Rightarrow> u16" where
  "fat_value_odd b0 b1 = ucast (drop_bit 4 (b0 AND 0xF0)) OR push_bit 4 (ucast b1)"

definition fat_store_even :: "u16 \<Rightarrow> byte \<Rightarrow> byte \<Rightarrow> byte \<times> byte" where
  "fat_store_even value b0 b1 =
     (ucast (value AND 0xFF), (b1 AND 0xF0) OR ucast (drop_bit 8 value AND 0x0F))"

definition fat_store_odd :: "u16 \<Rightarrow> byte \<Rightarrow> byte \<Rightarrow> byte \<times> byte" where
  "fat_store_odd value b0 b1 =
     ((b0 AND 0x0F) OR ucast (push_bit 4 (value AND 0x0F)), ucast (drop_bit 4 value AND 0xFF))"

definition fat12_get_fat_entry :: "'d fat12_state \<Rightarrow> u16 \<Rightarrow> u16" where
  "fat12_get_fat_entry s cluster =
     (let index = fat_index cluster; i = unat index; p = g_fat_primary s in
      if index + 1 \<ge> fat_size_bytes (g_fs s) then FAT12_CLUSTER_EOC
      else (if cluster AND 1 = 0 then fat_value_even (p i) (p (i + 1))
            else fat_value_odd (p i) (p (i + 1))) AND 0x0FFF)"

definition fat12_set_fat_entry :: "u16 \<Rightarrow> u16 \<Rightarrow> 'd fat12_state \<Rightarrow> 'd fat12_state" where
  "fat12_set_fat_entry cluster value0 s =
     (let i = unat (fat_index cluster); value = value0 AND 0x0FFF; p = g_fat_primary s;
          (b0, b1) = (if cluster AND 1 = 0 then fat_store_even value (p i) (p (i + 1))
                      else fat_store_odd value (p i) (p (i + 1)))
      in s\<lparr>g_fat_primary := p(i := b0, i + 1 := b1), g_fat_dirty := True\<rparr>)"

section \<open>Entries as an array\<close>

lemma unat_fat_index: "unat (fat_index c) = unat c + unat c div 2"
proof -
  have "unat c < 65536" using unsigned_less [of c] by simp
  then show ?thesis
    by (simp add: fat_index_def unat_word_ariths unat_div)
qed

lemma and_1_even: "(c :: u16) AND 1 = 0 \<longleftrightarrow> even (unat c)"
proof -
  have "c AND 1 = 0 \<longleftrightarrow> \<not> bit c 0" by (simp add: and_one_eq bit_0 even_iff_mod_2_eq_zero)
  also have "bit c 0 \<longleftrightarrow> bit (unat c) 0" by (simp only: bit_unsigned_iff) simp
  finally show ?thesis by (simp add: bit_0)
qed

definition in_fat :: "'d fat12_state \<Rightarrow> u16 \<Rightarrow> bool" where
  "in_fat s c \<longleftrightarrow> fat_index c + 1 < fat_size_bytes (g_fs s)"

lemma get_out_of_fat: "\<not> in_fat s c \<Longrightarrow> fat12_get_fat_entry s c = FAT12_CLUSTER_EOC"
  by (simp add: fat12_get_fat_entry_def in_fat_def not_less)

lemma in_fat_set [simp]: "in_fat (fat12_set_fat_entry c v s) c' = in_fat s c'"
  by (simp add: in_fat_def fat12_set_fat_entry_def Let_def split: prod.split)

lemma bit_numeral_masks:
  "bit (4095 :: int) n \<longleftrightarrow> n < 12"
  "bit (255 :: int) n \<longleftrightarrow> n < 8"
  "bit (15 :: int) n \<longleftrightarrow> n < 4"
  "bit (240 :: int) n \<longleftrightarrow> 4 \<le> n \<and> n < 8"
  "bit (65520 :: int) n \<longleftrightarrow> 4 \<le> n \<and> n < 16"
proof -
  have "(4095 :: int) = mask 12" "(255 :: int) = mask 8" "(15 :: int) = mask 4"
    "(240 :: int) = push_bit 4 (mask 4)" "(65520 :: int) = push_bit 4 (mask 12)"
    by (simp_all add: mask_eq_exp_minus_1)
  then show "bit (4095 :: int) n \<longleftrightarrow> n < 12"
    "bit (255 :: int) n \<longleftrightarrow> n < 8"
    "bit (15 :: int) n \<longleftrightarrow> n < 4"
    "bit (240 :: int) n \<longleftrightarrow> 4 \<le> n \<and> n < 8"
    "bit (65520 :: int) n \<longleftrightarrow> 4 \<le> n \<and> n < 16"
    by (simp_all only: bit_push_bit_iff bit_mask_iff) auto
qed

text \<open>The two nibbles of the shared byte: what a store writes, and what it leaves alone.\<close>

lemma even_entry_bits:
  "fat_value_even (fst (fat_store_even (v AND 0xFFF) x y)) (snd (fat_store_even (v AND 0xFFF) x y))
   AND 0xFFF = v AND 0xFFF"
  unfolding fat_value_even_def fat_store_even_def fst_conv snd_conv
  by (rule bit_word_eqI) (auto simp: bit_simps bit_numeral_masks)

lemma odd_entry_bits:
  "fat_value_odd (fst (fat_store_odd (v AND 0xFFF) x y)) (snd (fat_store_odd (v AND 0xFFF) x y))
   AND 0xFFF = v AND 0xFFF" (is "?l = ?r")
proof (rule bit_word_eqI)
  fix n assume "n < LENGTH(16)"
  show "bit ?l n = bit ?r n"
  proof (cases "4 \<le> n")
    case True
    then obtain k where "n = 4 + k" using le_Suc_ex by blast
    then show ?thesis
      by (auto simp: fat_value_odd_def fat_store_odd_def bit_simps bit_numeral_masks)
  next
    case False
    then show ?thesis
      by (auto simp: fat_value_odd_def fat_store_odd_def bit_simps bit_numeral_masks)
  qed
qed

lemma high_nibble_kept:
  "fat_value_odd (snd (fat_store_even v x y)) z = fat_value_odd y z"
proof -
  have "snd (fat_store_even v x y) AND 0xF0 = y AND 0xF0"
    unfolding fat_store_even_def snd_conv
    by (rule bit_word_eqI) (auto simp: bit_simps bit_numeral_masks)
  then show ?thesis by (simp only: fat_value_odd_def)
qed

lemma low_nibble_kept:
  "fat_value_even z (fst (fat_store_odd v x y)) = fat_value_even z x"
proof -
  have "fst (fat_store_odd v x y) AND 0x0F = x AND 0x0F"
    unfolding fat_store_odd_def fst_conv
    by (rule bit_word_eqI) (auto simp: bit_simps bit_numeral_masks)
  then show ?thesis by (simp only: fat_value_even_def)
qed

lemma get_set_same:
  assumes "in_fat s c"
  shows "fat12_get_fat_entry (fat12_set_fat_entry c v s) c = v AND 0x0FFF"
proof -
  have "\<not> fat_size_bytes (g_fs s) \<le> fat_index c + 1"
    using assms by (simp add: in_fat_def not_le)
  then show ?thesis
    using even_entry_bits [of v] odd_entry_bits [of v]
    by (cases "c AND 1 = 0")
      (simp_all add: fat12_get_fat_entry_def fat12_set_fat_entry_def Let_def case_prod_beta)
qed

lemma index_apart:
  fixes k k' :: nat
  assumes "k < k'"
  shows "k + k div 2 + 2 \<le> k' + k' div 2 \<or> (k' = Suc k \<and> even k \<and> k' + k' div 2 = k + k div 2 + 1)"
proof (cases "k' = Suc k")
  case True
  then show ?thesis by (cases "even k") (auto elim!: evenE oddE)
next
  case False
  with assms have "k + 2 \<le> k'" by simp
  then show ?thesis using div_le_mono [of k k' 2] by linarith
qed

lemma get_set_other:
  assumes "c \<noteq> c'"
  shows "fat12_get_fat_entry (fat12_set_fat_entry c v s) c' = fat12_get_fat_entry s c'"
proof -
  have "unat c \<noteq> unat c'" using assms by (simp add: word_unat_eq_iff)
  then consider (below) "unat c < unat c'" | (above) "unat c' < unat c" by linarith
  then show ?thesis
  proof cases
    case below
    from index_apart [OF below] show ?thesis
    proof
      assume "unat c + unat c div 2 + 2 \<le> unat c' + unat c' div 2"
      then show ?thesis
        by (simp add: fat12_get_fat_entry_def fat12_set_fat_entry_def Let_def unat_fat_index
            case_prod_beta)
    next
      assume *: "unat c' = Suc (unat c) \<and> even (unat c) \<and>
        unat c' + unat c' div 2 = unat c + unat c div 2 + 1"
      then have "\<not> even (unat c')" by simp
      with * show ?thesis
        using high_nibble_kept [of "v AND 0xFFF" "g_fat_primary s (unat c + unat c div 2)"
            "g_fat_primary s (unat c + unat c div 2 + 1)"]
        by (simp add: fat12_get_fat_entry_def fat12_set_fat_entry_def Let_def unat_fat_index
            and_1_even case_prod_beta)
    qed
  next
    case above
    from index_apart [OF above] show ?thesis
    proof
      assume "unat c' + unat c' div 2 + 2 \<le> unat c + unat c div 2"
      then show ?thesis
        by (simp add: fat12_get_fat_entry_def fat12_set_fat_entry_def Let_def unat_fat_index
            case_prod_beta)
    next
      assume *: "unat c = Suc (unat c') \<and> even (unat c') \<and>
        unat c + unat c div 2 = unat c' + unat c' div 2 + 1"
      then have "\<not> even (unat c)" by simp
      with * show ?thesis
        using low_nibble_kept [of _ "v AND 0xFFF" "g_fat_primary s (unat c + unat c div 2)"
            "g_fat_primary s (unat c + unat c div 2 + 1)"]
        by (simp add: fat12_get_fat_entry_def fat12_set_fat_entry_def Let_def unat_fat_index
            and_1_even case_prod_beta)
    qed
  qed
qed

lemma get_set:
  "fat12_get_fat_entry (fat12_set_fat_entry c v s) c' =
     (if c = c' \<and> in_fat s c then v AND 0x0FFF else fat12_get_fat_entry s c')"
  by (cases "c = c'") (auto simp: get_set_same get_set_other get_out_of_fat)

lemma get_fat_entry_le: "unat (fat12_get_fat_entry s c) \<le> 4095"
proof -
  have "unat (x AND 0x0FFF :: u16) \<le> 4095" for x
    using word_and_le1 [of x "0x0FFF"] by (simp add: word_le_nat_alt)
  then show ?thesis by (simp add: fat12_get_fat_entry_def Let_def)
qed

lemma set_fat_entry_frame:
  "i \<noteq> unat c + unat c div 2 \<Longrightarrow> i \<noteq> unat c + unat c div 2 + 1 \<Longrightarrow>
   g_fat_primary (fat12_set_fat_entry c v s) i = g_fat_primary s i"
  by (simp add: fat12_set_fat_entry_def Let_def unat_fat_index split: prod.split)

lemma set_fat_entry_fields [simp, frame_simps]:
  "g_fs (fat12_set_fat_entry c v s) = g_fs s"
  "g_fat_secondary (fat12_set_fat_entry c v s) = g_fat_secondary s"
  "g_root_dir (fat12_set_fat_entry c v s) = g_root_dir s"
  "g_cluster_buffer (fat12_set_fat_entry c v s) = g_cluster_buffer s"
  "g_fs_ready (fat12_set_fat_entry c v s) = g_fs_ready s"
  "g_root_dirty (fat12_set_fat_entry c v s) = g_root_dirty s"
  "g_current_dir_cluster (fat12_set_fat_entry c v s) = g_current_dir_cluster s"
  "g_path_stack (fat12_set_fat_entry c v s) = g_path_stack s"
  "g_path_names (fat12_set_fat_entry c v s) = g_path_names s"
  "g_cwd (fat12_set_fat_entry c v s) = g_cwd s"
  "disk (fat12_set_fat_entry c v s) = disk s"
  "g_fat_dirty (fat12_set_fat_entry c v s)"
  by (simp_all add: fat12_set_fat_entry_def Let_def split: prod.split)

section \<open>Allocation and release\<close>

text \<open>
  The search loop of \<open>fat12_allocate_cluster\<close>: the next candidate and the number of
  candidates left. Its counter is a \<open>uint16_t\<close>; \<open>fat12_init\<close>, which the kernel calls once
  at the start, admits at most 4084 clusters, so on a mounted volume the counter never
  wraps. The result 0 means failure.
\<close>

fun allocate_from :: "'d disk_ops \<Rightarrow> nat \<Rightarrow> nat \<Rightarrow> 'd fat12_state \<Rightarrow> u16 \<times> 'd fat12_state" where
  "allocate_from D c 0 s = (0, s)"
| "allocate_from D c (Suc left) s =
     (let cluster = of_nat c in
      if fat12_get_fat_entry s cluster = FAT12_CLUSTER_FREE then
        let s1 = fat12_set_fat_entry cluster FAT12_CLUSTER_EOC s;
            s2 = s1\<lparr>g_cluster_buffer :=
                   fat12_memset (g_cluster_buffer s1) 0 0 (unat (cluster_size_bytes (g_fs s1)))\<rparr>;
            (rc, s3) = fat12_write_cluster D cluster s2
        in if rc \<noteq> 0 then (0, fat12_set_fat_entry cluster FAT12_CLUSTER_FREE s3)
           else (cluster, s3)
      else allocate_from D (Suc c) left s)"

definition fat12_allocate_cluster :: "'d disk_ops \<Rightarrow> 'd fat12_state \<Rightarrow> u16 \<times> 'd fat12_state" where
  "fat12_allocate_cluster D s = allocate_from D 2 (unat (total_clusters (g_fs s) + 2) - 2) s"

definition chain_link :: "u16 \<Rightarrow> bool" where
  "chain_link c \<longleftrightarrow> 2 \<le> c \<and> c < FAT12_CLUSTER_EOC"

text \<open>The clusters whose entry makes a traversal continue.\<close>

definition live :: "'d fat12_state \<Rightarrow> u16 set" where
  "live s = {c. chain_link c \<and> chain_link (fat12_get_fat_entry s c)}"

lemma chain_link_0 [simp]: "\<not> chain_link 0"
  by (simp add: chain_link_def)

lemma chain_link_EOC [simp]: "\<not> chain_link FAT12_CLUSTER_EOC"
  by (simp add: chain_link_def)

lemma live_free: "live (fat12_set_fat_entry c FAT12_CLUSTER_FREE s) = live s - {c}"
  by (auto simp: live_def get_set get_out_of_fat)

lemma finite_live [simp]: "finite (live s)"
  by simp

function fat12_free_chain :: "u16 \<Rightarrow> 'd fat12_state \<Rightarrow> 'd fat12_state" where
  "fat12_free_chain cluster s =
     (if chain_link cluster then
        let next_cluster = fat12_get_fat_entry s cluster in
        fat12_free_chain next_cluster (fat12_set_fat_entry cluster FAT12_CLUSTER_FREE s)
      else s)"
  by pat_completeness auto

text \<open>
  Every step frees the cluster it leaves, so a cycle is met as a free entry: the number
  of entries that continue a traversal decreases.
\<close>

termination
proof (relation "measure (\<lambda>(c, s). card (live s) + (if chain_link c then 1 else 0))")
  fix cluster :: u16 and s :: "'d fat12_state" and nxt
  assume link: "chain_link cluster" and nxt: "nxt = fat12_get_fat_entry s cluster"
  let ?s' = "fat12_set_fat_entry cluster FAT12_CLUSTER_FREE s"
  have "card (live ?s') + (if chain_link nxt then 1 else 0) < card (live s) + 1"
  proof (cases "chain_link nxt")
    case True
    with link nxt have "cluster \<in> live s" by (simp add: live_def)
    then have "card (live s - {cluster}) < card (live s)"
      by (intro card_Diff1_less finite_live)
    then show ?thesis using True by (simp only: live_free) simp
  next
    case False
    then show ?thesis by (simp add: live_free card_Diff1_le le_imp_less_Suc)
  qed
  with link show "((nxt, ?s'), (cluster, s))
      \<in> measure (\<lambda>(c, s). card (live s) + (if chain_link c then 1 else 0))"
    by simp
qed simp

declare fat12_free_chain.simps [simp del]

section \<open>Chains\<close>

text \<open>
  \<open>is_chain s c cs\<close>: a traversal that starts at \<open>c\<close> visits exactly the clusters
  \<open>cs\<close> and then stops (the test of every chain loop fails).
\<close>

fun is_chain :: "'d fat12_state \<Rightarrow> u16 \<Rightarrow> u16 list \<Rightarrow> bool" where
  "is_chain s c [] \<longleftrightarrow> \<not> chain_link c"
| "is_chain s c (x # xs) \<longleftrightarrow> c = x \<and> chain_link c \<and> is_chain s (fat12_get_fat_entry s c) xs"

lemma is_chain_unique: "is_chain s c xs \<Longrightarrow> is_chain s c ys \<Longrightarrow> xs = ys"
proof (induction xs arbitrary: c ys)
  case Nil
  then show ?case by (cases ys) auto
next
  case (Cons x xs)
  then show ?case by (cases ys) auto
qed

lemma is_chain_suffix: "is_chain s c (xs @ y # ys) \<Longrightarrow> is_chain s y (y # ys)"
  by (induction xs arbitrary: c) auto

lemma is_chain_distinct: "is_chain s c cs \<Longrightarrow> distinct cs"
proof (rule ccontr)
  assume chain: "is_chain s c cs" and "\<not> distinct cs"
  then obtain xs y ys zs where cs: "cs = xs @ [y] @ ys @ [y] @ zs"
    using not_distinct_decomp by blast
  have "is_chain s y (y # ys @ y # zs)"
    using chain is_chain_suffix [of s c xs y "ys @ y # zs"] by (simp add: cs)
  moreover have "is_chain s y (y # zs)"
    using chain is_chain_suffix [of s c "xs @ y # ys" y zs] by (simp add: cs)
  ultimately have "y # ys @ y # zs = y # zs" by (rule is_chain_unique)
  then have "length (y # ys @ y # zs) = length (y # zs)" by (rule arg_cong)
  then show False by simp
qed

lemma is_chain_cong:
  assumes "\<And>x. x \<in> set cs \<Longrightarrow> fat12_get_fat_entry s' x = fat12_get_fat_entry s x"
  shows "is_chain s' c cs = is_chain s c cs"
  using assms by (induction cs arbitrary: c) auto

lemma is_chain_links: "is_chain s c cs \<Longrightarrow> x \<in> set cs \<Longrightarrow> chain_link x"
  by (induction cs arbitrary: c) auto

text \<open>Every table has a traversal without end or a chain; a chain is what is freed.\<close>

lemma free_chain_step:
  "fat12_free_chain c s =
     (if chain_link c then fat12_free_chain (fat12_get_fat_entry s c)
                             (fat12_set_fat_entry c FAT12_CLUSTER_FREE s) else s)"
  by (subst fat12_free_chain.simps) (simp add: Let_def)

lemma free_chain_stop [simp]: "\<not> chain_link c \<Longrightarrow> fat12_free_chain c s = s"
  by (subst free_chain_step) simp

lemma free_chain_entries:
  "is_chain s c cs \<Longrightarrow>
   fat12_get_fat_entry (fat12_free_chain c s) x =
     (if x \<in> set cs \<and> in_fat s x then FAT12_CLUSTER_FREE else fat12_get_fat_entry s x)"
proof (induction cs arbitrary: c s)
  case Nil
  then show ?case by simp
next
  case (Cons y cs)
  let ?s = "fat12_set_fat_entry y FAT12_CLUSTER_FREE s"
  from Cons.prems have y: "c = y" "chain_link y" and rest: "is_chain s (fat12_get_fat_entry s y) cs"
    by auto
  have "y \<notin> set cs" using is_chain_distinct [OF Cons.prems] by simp
  then have "is_chain ?s (fat12_get_fat_entry s y) cs"
    using rest by (subst is_chain_cong) (auto simp: get_set)
  from Cons.IH [OF this] show ?case
    using y \<open>y \<notin> set cs\<close> by (subst free_chain_step) (auto simp: get_set)
qed

text \<open>Fields and entries no release touches, for chains and cycles alike.\<close>

lemma free_chain_fields [simp, frame_simps]:
  "g_fs (fat12_free_chain c s) = g_fs s"
  "g_fat_secondary (fat12_free_chain c s) = g_fat_secondary s"
  "g_root_dir (fat12_free_chain c s) = g_root_dir s"
  "g_cluster_buffer (fat12_free_chain c s) = g_cluster_buffer s"
  "g_fs_ready (fat12_free_chain c s) = g_fs_ready s"
  "g_root_dirty (fat12_free_chain c s) = g_root_dirty s"
  "g_current_dir_cluster (fat12_free_chain c s) = g_current_dir_cluster s"
  "g_path_stack (fat12_free_chain c s) = g_path_stack s"
  "g_path_names (fat12_free_chain c s) = g_path_names s"
  "g_cwd (fat12_free_chain c s) = g_cwd s"
  "disk (fat12_free_chain c s) = disk s"
  by (induction c s rule: fat12_free_chain.induct; subst free_chain_step; simp add: Let_def)+

lemma in_fat_free_chain [simp]: "in_fat (fat12_free_chain c s) x = in_fat s x"
  by (simp add: in_fat_def)

lemma free_chain_zero_or_same:
  "fat12_get_fat_entry (fat12_free_chain c s) x \<in> {FAT12_CLUSTER_FREE, fat12_get_fat_entry s x}"
proof (induction c s rule: fat12_free_chain.induct)
  case (1 c s)
  show ?case
  proof (cases "chain_link c")
    case True
    with 1 show ?thesis by (subst free_chain_step) (auto simp: get_set split: if_splits)
  next
    case False
    then show ?thesis by simp
  qed
qed

text \<open>The release ends, and leaves the freed start free: freeing again changes nothing.\<close>

lemma free_chain_frees_start:
  assumes "chain_link c" and "in_fat s c"
  shows "fat12_get_fat_entry (fat12_free_chain c s) c = FAT12_CLUSTER_FREE"
proof -
  have "fat12_get_fat_entry (fat12_set_fat_entry c FAT12_CLUSTER_FREE s) c = FAT12_CLUSTER_FREE"
    using assms(2) by (simp add: get_set)
  then show ?thesis
    using free_chain_zero_or_same [of "fat12_get_fat_entry s c"
        "fat12_set_fat_entry c FAT12_CLUSTER_FREE s" c] assms(1)
    by (subst free_chain_step) simp
qed

text \<open>Stores into the table stay inside the 64-sector array \<open>g_fat_primary\<close>.\<close>

lemma chain_link_index: "chain_link c \<Longrightarrow> unat c + unat c div 2 + 1 < 6132"
proof -
  assume "chain_link c"
  then have "unat c < 4088" by (simp add: chain_link_def word_less_nat_alt)
  then show ?thesis by linarith
qed

lemma free_chain_in_array:
  "32768 \<le> i \<Longrightarrow> g_fat_primary (fat12_free_chain c s) i = g_fat_primary s i"
proof (induction c s rule: fat12_free_chain.induct)
  case (1 c s)
  show ?case
  proof (cases "chain_link c")
    case True
    with 1 chain_link_index [OF True] show ?thesis
      by (subst free_chain_step) (simp add: set_fat_entry_frame)
  next
    case False
    then show ?thesis by simp
  qed
qed

end
