(* ===== verification/Fat12_Directory.thy ===== *)
theory Fat12_Directory
  imports Fat12_Names Fat12_Table
begin

text \<open>
  Directories of \<open>src/fat12.c\<close>: the entry predicates, listing, lookup, the search for a
  free slot (which extends a subdirectory by a cluster when it is full), storing and
  deleting an entry.

  The root directory is the cached array \<open>g_root_dir\<close>; a subdirectory is a chain of
  clusters read into \<open>g_cluster_buffer\<close>. The loops over a chain have no bound in the
  code, so they are partial functions into \<open>option\<close>, \<open>None\<close> for a traversal that does
  not end; \<open>is_chain\<close> is the condition under which they return.
\<close>

section \<open>Entries\<close>

definition fat12_is_free_entry :: "mem \<Rightarrow> nat \<Rightarrow> bool" where
  "fat12_is_free_entry m p \<longleftrightarrow> m p = 0x00 \<or> m p = 0xE5"

definition fat12_is_dot_entry :: "raw_dir_entry \<Rightarrow> bool" where
  "fat12_is_dot_entry e \<longleftrightarrow>
     (if re_attr e AND FAT12_ATTR_DIRECTORY = 0 then False
      else if re_name e ! 0 \<noteq> 0x2E then False
      else if re_name e ! 1 = 0x20 \<and> re_name e ! 2 = 0x20 then True
      else if re_name e ! 1 = 0x2E \<and> re_name e ! 2 = 0x20 then True
      else False)"

definition fat12_fill_dir_entry :: "byte list \<Rightarrow> u8 \<Rightarrow> u16 \<Rightarrow> u32 \<Rightarrow> raw_dir_entry" where
  "fat12_fill_dir_entry short_name attr first_cluster file_size =
     \<lparr>re_name = short_name, re_attr = attr, re_nt_reserved = 0, re_creation_time_tenths = 0,
      re_creation_time = 0, re_creation_date = 0, re_last_access_date = 0,
      re_first_cluster_high = 0, re_write_time = 0, re_write_date = 0,
      re_first_cluster_low = first_cluster, re_file_size = file_size\<rparr>"

definition fat12_copy_entry_info :: "raw_dir_entry \<Rightarrow> dir_entry_info" where
  "fat12_copy_entry_info e =
     \<lparr>info_name = fat12_dir_name_to_string (re_name e), info_attr = re_attr e,
      info_size = re_file_size e, info_first_cluster = re_first_cluster_low e\<rparr>"

section \<open>Listing\<close>

text \<open>
  The body shared by the two loops of \<open>fat12_iterate_directory_internal\<close>: the entries
  \<open>i, i+1, \<dots>\<close> of a block, \<open>left\<close> of them. The result is true when the traversal is over
  (an end mark, or the callback asked to stop). A callback works on its own context.
\<close>

type_synonym 'c dir_iter_cb = "(dir_entry_info \<Rightarrow> 'c \<Rightarrow> bool \<times> 'c) option"

fun iterate_scan :: "mem \<Rightarrow> nat \<Rightarrow> nat \<Rightarrow> 'c dir_iter_cb \<Rightarrow> 'c \<Rightarrow> bool \<times> 'c" where
  "iterate_scan m i 0 cb ctx = (False, ctx)"
| "iterate_scan m i (Suc left) cb ctx =
     (let e = entry_at m (FAT12_DIR_ENTRY_SIZE * i) in
      if re_name e ! 0 = 0x00 then (True, ctx)
      else if re_name e ! 0 = 0xE5 then iterate_scan m (Suc i) left cb ctx
      else if re_attr e = FAT12_ATTR_VOLUME_ID then iterate_scan m (Suc i) left cb ctx
      else if fat12_is_dot_entry e then iterate_scan m (Suc i) left cb ctx
      else case cb of
             None \<Rightarrow> iterate_scan m (Suc i) left cb ctx
           | Some f \<Rightarrow>
               (case f (fat12_copy_entry_info e) ctx of
                  (stop, ctx') \<Rightarrow>
                    if stop then (True, ctx') else iterate_scan m (Suc i) left cb ctx'))"

partial_function (option) iterate_chain ::
    "'d disk_ops \<Rightarrow> 'c dir_iter_cb \<Rightarrow> u16 \<Rightarrow> 'c \<Rightarrow> 'd fat12_state
     \<Rightarrow> ((fat12_err + unit) \<times> 'c \<times> 'd fat12_state) option" where
  "iterate_chain D cb cluster ctx s =
     (if chain_link cluster then
        (case fat12_read_cluster D cluster s of
           (rc, s1) \<Rightarrow>
             if rc \<noteq> 0 then Some (Inl FAT12_ERR_IO, ctx, s1)
             else (case iterate_scan (g_cluster_buffer s1) 0
                          ((unat (cluster_size_bytes (g_fs s1)) + 31) div 32) cb ctx of
                     (stop, ctx') \<Rightarrow>
                       if stop then Some (Inr (), ctx', s1)
                       else iterate_chain D cb (fat12_get_fat_entry s1 cluster) ctx' s1))
      else Some (Inr (), ctx, s))"

definition fat12_iterate_directory_internal ::
    "'d disk_ops \<Rightarrow> u16 \<Rightarrow> 'c dir_iter_cb \<Rightarrow> 'c \<Rightarrow> 'd fat12_state
     \<Rightarrow> ((fat12_err + unit) \<times> 'c \<times> 'd fat12_state) option" where
  "fat12_iterate_directory_internal D dir_cluster cb ctx s =
     (if dir_cluster = 0 then
        (case iterate_scan (g_root_dir s) 0 (unat (root_entry_count (g_fs s))) cb ctx of
           (_, ctx') \<Rightarrow> Some (Inr (), ctx', s))
      else iterate_chain D cb dir_cluster ctx s)"

section \<open>Lookup\<close>

text \<open>What the scan of one block for a name ends with.\<close>

datatype find_outcome = Scan_found nat | Scan_end | Scan_exhausted

fun find_scan :: "mem \<Rightarrow> byte list \<Rightarrow> nat \<Rightarrow> nat \<Rightarrow> find_outcome" where
  "find_scan m short_name i 0 = Scan_exhausted"
| "find_scan m short_name i (Suc left) =
     (let p = FAT12_DIR_ENTRY_SIZE * i in
      if m p = 0x00 then Scan_end
      else if m p = 0xE5 then find_scan m short_name (Suc i) left
      else if fat12_memcmp m p ((!) short_name) 0 11 = 0 then Scan_found i
      else find_scan m short_name (Suc i) left)"

text \<open>On success: the entry, the cluster that holds it (0 for the root) and its index.\<close>

type_synonym found_entry = "raw_dir_entry \<times> u16 \<times> u16"

partial_function (option) find_chain ::
    "'d disk_ops \<Rightarrow> byte list \<Rightarrow> u16 \<Rightarrow> 'd fat12_state
     \<Rightarrow> ((fat12_err + found_entry) \<times> 'd fat12_state) option" where
  "find_chain D short_name cluster s =
     (if chain_link cluster then
        (case fat12_read_cluster D cluster s of
           (rc, s1) \<Rightarrow>
             if rc \<noteq> 0 then Some (Inl FAT12_ERR_IO, s1)
             else (case find_scan (g_cluster_buffer s1) short_name 0
                          (unat (cluster_size_bytes (g_fs s1) div 32)) of
                     Scan_end \<Rightarrow> Some (Inl FAT12_ERR_NOT_FOUND, s1)
                   | Scan_found idx \<Rightarrow>
                       Some (Inr (entry_at (g_cluster_buffer s1) (32 * idx), cluster, of_nat idx), s1)
                   | Scan_exhausted \<Rightarrow>
                       find_chain D short_name (fat12_get_fat_entry s1 cluster) s1))
      else Some (Inl FAT12_ERR_NOT_FOUND, s))"

definition fat12_find_entry ::
    "'d disk_ops \<Rightarrow> u16 \<Rightarrow> byte list \<Rightarrow> 'd fat12_state
     \<Rightarrow> ((fat12_err + found_entry) \<times> 'd fat12_state) option" where
  "fat12_find_entry D dir_cluster short_name s =
     (if dir_cluster = 0 then
        (case find_scan (g_root_dir s) short_name 0 (unat (root_entry_count (g_fs s))) of
           Scan_found i \<Rightarrow> Some (Inr (entry_at (g_root_dir s) (32 * i), 0, of_nat i), s)
         | Scan_end \<Rightarrow> Some (Inl FAT12_ERR_NOT_FOUND, s)
         | Scan_exhausted \<Rightarrow> Some (Inl FAT12_ERR_NOT_FOUND, s))
      else find_chain D short_name dir_cluster s)"

section \<open>Storing an entry\<close>

definition fat12_write_entry ::
    "'d disk_ops \<Rightarrow> u16 \<Rightarrow> u16 \<Rightarrow> raw_dir_entry \<Rightarrow> 'd fat12_state
     \<Rightarrow> (fat12_err + unit) \<times> 'd fat12_state" where
  "fat12_write_entry D owner_cluster entry_index e s =
     (if owner_cluster = 0 then
        if entry_index \<ge> root_entry_count (g_fs s) then (Inl FAT12_ERR_OUT_OF_RANGE, s)
        else (Inr (), s\<lparr>g_root_dir := put_entry (g_root_dir s) (unat entry_index * 32) e,
                        g_root_dirty := True\<rparr>)
      else
        (case fat12_read_cluster D owner_cluster s of
           (rc, s1) \<Rightarrow>
             if rc \<noteq> 0 then (Inl FAT12_ERR_IO, s1)
             else if unat entry_index \<ge> unat (cluster_size_bytes (g_fs s1) div 32)
             then (Inl FAT12_ERR_OUT_OF_RANGE, s1)
             else
               let s2 = s1\<lparr>g_cluster_buffer :=
                             put_entry (g_cluster_buffer s1) (unat entry_index * 32) e\<rparr> in
               (case fat12_write_cluster D owner_cluster s2 of
                  (rc2, s3) \<Rightarrow> if rc2 \<noteq> 0 then (Inl FAT12_ERR_IO, s3) else (Inr (), s3))))"

section \<open>Finding a free slot\<close>

fun free_scan :: "mem \<Rightarrow> nat \<Rightarrow> nat \<Rightarrow> nat option" where
  "free_scan m i 0 = None"
| "free_scan m i (Suc left) =
     (if fat12_is_free_entry m (FAT12_DIR_ENTRY_SIZE * i) then Some i
      else free_scan m (Suc i) left)"

text \<open>The end of the chain loop: a slot, a read error, or no slot after \<open>previous_cluster\<close>.\<close>

datatype free_search = Free_io | Free_at u16 u16 | Free_full u16

partial_function (option) free_chain_search ::
    "'d disk_ops \<Rightarrow> u16 \<Rightarrow> u16 \<Rightarrow> 'd fat12_state \<Rightarrow> (free_search \<times> 'd fat12_state) option" where
  "free_chain_search D previous cluster s =
     (if chain_link cluster then
        (case fat12_read_cluster D cluster s of
           (rc, s1) \<Rightarrow>
             if rc \<noteq> 0 then Some (Free_io, s1)
             else (case free_scan (g_cluster_buffer s1) 0 (unat (cluster_size_bytes (g_fs s1) div 32)) of
                     Some idx \<Rightarrow> Some (Free_at cluster (of_nat idx), s1)
                   | None \<Rightarrow> free_chain_search D cluster (fat12_get_fat_entry s1 cluster) s1))
      else Some (Free_full previous, s))"

definition fat12_find_free_entry ::
    "'d disk_ops \<Rightarrow> u16 \<Rightarrow> 'd fat12_state
     \<Rightarrow> ((fat12_err + u16 \<times> u16) \<times> 'd fat12_state) option" where
  "fat12_find_free_entry D dir_cluster s =
     (if dir_cluster = 0 then
        (case free_scan (g_root_dir s) 0 (unat (root_entry_count (g_fs s))) of
           Some i \<Rightarrow> Some (Inr (0, of_nat i), s)
         | None \<Rightarrow> Some (Inl FAT12_ERR_DIR_FULL, s))
      else
        (case free_chain_search D 0 dir_cluster s of
           None \<Rightarrow> None
         | Some (Free_io, s1) \<Rightarrow> Some (Inl FAT12_ERR_IO, s1)
         | Some (Free_at owner idx, s1) \<Rightarrow> Some (Inr (owner, idx), s1)
         | Some (Free_full previous, s1) \<Rightarrow>
             (case fat12_allocate_cluster D s1 of
                (new_cluster, s2) \<Rightarrow>
                  if new_cluster = 0 then Some (Inl FAT12_ERR_NO_FREE_CLUSTER, s2)
                  else
                    let s3 = (if previous \<noteq> 0
                              then fat12_set_fat_entry new_cluster FAT12_CLUSTER_EOC
                                     (fat12_set_fat_entry previous new_cluster s2)
                              else s2)
                    in Some (Inr (new_cluster, 0), s3))))"

section \<open>Creating, replacing and deleting an entry\<close>

definition fat12_write_directory_entry ::
    "'d disk_ops \<Rightarrow> u16 \<Rightarrow> byte list \<Rightarrow> raw_dir_entry \<Rightarrow> 'd fat12_state
     \<Rightarrow> ((fat12_err + unit) \<times> 'd fat12_state) option" where
  "fat12_write_directory_entry D dir_cluster short_name entry_template s =
     (case fat12_find_entry D dir_cluster short_name s of
        None \<Rightarrow> None
      | Some (Inr (_, owner, idx), s1) \<Rightarrow> Some (fat12_write_entry D owner idx entry_template s1)
      | Some (Inl e, s1) \<Rightarrow>
          if e \<noteq> FAT12_ERR_NOT_FOUND then Some (Inl e, s1)
          else
            (case fat12_find_free_entry D dir_cluster s1 of
               None \<Rightarrow> None
             | Some (Inl e', s2) \<Rightarrow> Some (Inl e', s2)
             | Some (Inr (owner, idx), s2) \<Rightarrow>
                 Some (fat12_write_entry D owner idx entry_template s2)))"

definition fat12_mark_entry_deleted ::
    "'d disk_ops \<Rightarrow> u16 \<Rightarrow> byte list \<Rightarrow> 'd fat12_state
     \<Rightarrow> ((fat12_err + unit) \<times> 'd fat12_state) option" where
  "fat12_mark_entry_deleted D dir_cluster short_name s =
     (case fat12_find_entry D dir_cluster short_name s of
        None \<Rightarrow> None
      | Some (Inl e, s1) \<Rightarrow> Some (Inl e, s1)
      | Some (Inr (e, owner, idx), s1) \<Rightarrow>
          Some (fat12_write_entry D owner idx
                  (e\<lparr>re_name := (re_name e)[0 := 0xE5], re_file_size := 0,
                     re_first_cluster_low := 0\<rparr>) s1))"

end
