(* ===== verification/Fat12_Path.thy ===== *)
theory Fat12_Path
  imports Fat12_Directory
begin

text \<open>
  Path resolution of \<open>src/fat12.c\<close>: \<open>fat12_locate_directory\<close>,
  \<open>fat12_change_directory\<close>, \<open>fat12_resolve_parent_and_name\<close> and the two listing entry
  points. A relative path starts from the stack of directory clusters the driver keeps,
  and \<open>..\<close> pops that stack.

  The temporary stack (\<open>temp_stack\<close>, \<open>temp_depth\<close>) is the list of its clusters; a push
  happens only while fewer than 16 are stacked, as in the code.
\<close>

text \<open>One \<open>..\<close>: the cluster and the stack after it.\<close>

definition pop_stack :: "u16 list \<Rightarrow> u16 \<times> u16 list" where
  "pop_stack stack =
     (if stack \<noteq> [] then
        (let stack' = butlast stack in (if stack' = [] then 0 else last stack', stack'))
      else (0, stack))"

definition push_stack :: "u16 list \<Rightarrow> u16 \<Rightarrow> u16 list" where
  "push_stack stack cluster =
     (if length stack < FAT12_MAX_PATH_DEPTH then stack @ [cluster] else stack)"

text \<open>
  The part of a loop body the three walks share: a component that is neither \<open>.\<close> nor
  \<open>..\<close> is packed, looked up in \<open>cluster\<close> and must be a directory.
\<close>

definition enter_component ::
    "'d disk_ops \<Rightarrow> u16 \<Rightarrow> byte list \<Rightarrow> 'd fat12_state
     \<Rightarrow> ((fat12_err + raw_dir_entry) \<times> 'd fat12_state) option" where
  "enter_component D cluster component s =
     (case fat12_make_short_name (Some component) of
        Inl e \<Rightarrow> Some (Inl e, s)
      | Inr short_name \<Rightarrow>
          (case fat12_find_entry D cluster short_name s of
             None \<Rightarrow> None
           | Some (Inl e, s1) \<Rightarrow> Some (Inl e, s1)
           | Some (Inr (entry, _, _), s1) \<Rightarrow>
               if re_attr entry AND FAT12_ATTR_DIRECTORY = 0
               then Some (Inl FAT12_ERR_NOT_DIRECTORY, s1)
               else Some (Inr entry, s1)))"

definition is_dot :: "byte list \<Rightarrow> bool" where
  "is_dot component \<longleftrightarrow> char_at component 0 = 0x2E \<and> char_at component 1 = 0"

definition is_dotdot :: "byte list \<Rightarrow> bool" where
  "is_dotdot component \<longleftrightarrow>
     char_at component 0 = 0x2E \<and> char_at component 1 = 0x2E \<and> char_at component 2 = 0"

section \<open>Locating a directory\<close>

lemma cursor_shorter:
  "(len, component, cursor1) = fat12_path_next cursor n \<Longrightarrow> 0 < len \<Longrightarrow>
   length (skip_seps cursor1) < length cursor"
  using path_next_shorter [of cursor n len component cursor1] skip_seps_length [of cursor1]
  by simp

function locate_walk ::
    "'d disk_ops \<Rightarrow> byte list \<Rightarrow> u16 \<Rightarrow> u16 list \<Rightarrow> 'd fat12_state
     \<Rightarrow> ((fat12_err + u16) \<times> 'd fat12_state) option" where
  "locate_walk D cursor cluster stack s =
     (let (len, component, cursor1) = fat12_path_next cursor 32 in
      if 0 < len then
        let cursor2 = skip_seps cursor1 in
        if is_dot component then locate_walk D cursor2 cluster stack s
        else if is_dotdot component then
          (case pop_stack stack of (cluster', stack') \<Rightarrow> locate_walk D cursor2 cluster' stack' s)
        else
          (case enter_component D cluster component s of
             None \<Rightarrow> None
           | Some (Inl e, s1) \<Rightarrow> Some (Inl e, s1)
           | Some (Inr entry, s1) \<Rightarrow>
               locate_walk D cursor2 (re_first_cluster_low entry)
                 (push_stack stack (re_first_cluster_low entry)) s1)
      else Some (Inr cluster, s))"
  by pat_completeness auto

termination
  by (relation "measure (\<lambda>(D, cursor, _). length cursor)") (auto intro: cursor_shorter)

declare locate_walk.simps [simp del]

definition starts_at_root :: "byte list \<Rightarrow> bool" where
  "starts_at_root path \<longleftrightarrow> is_sep (char_at path 0)"

definition fat12_locate_directory ::
    "'d disk_ops \<Rightarrow> byte list option \<Rightarrow> 'd fat12_state
     \<Rightarrow> ((fat12_err + u16) \<times> 'd fat12_state) option" where
  "fat12_locate_directory D path s =
     (case path of
        None \<Rightarrow> Some (Inr (g_current_dir_cluster s), s)
      | Some p \<Rightarrow>
          if char_at p 0 = 0 then Some (Inr (g_current_dir_cluster s), s)
          else if starts_at_root p then locate_walk D p 0 [] s
          else locate_walk D p (g_current_dir_cluster s) (g_path_stack s) s)"

section \<open>Changing the current directory\<close>

text \<open>\<open>temp_stack\<close> and \<open>temp_names\<close> share \<open>temp_depth\<close>, so they grow and shrink together.\<close>

function change_walk ::
    "'d disk_ops \<Rightarrow> byte list \<Rightarrow> u16 \<Rightarrow> u16 list \<Rightarrow> byte list list \<Rightarrow> 'd fat12_state
     \<Rightarrow> ((fat12_err + u16 \<times> u16 list \<times> byte list list) \<times> 'd fat12_state) option" where
  "change_walk D cursor cluster stack names s =
     (let (len, component, cursor1) = fat12_path_next cursor 32 in
      if 0 < len then
        let cursor2 = skip_seps cursor1 in
        if is_dot component then change_walk D cursor2 cluster stack names s
        else if is_dotdot component then
          (case pop_stack stack of
             (cluster', stack') \<Rightarrow>
               change_walk D cursor2 cluster' stack' (if stack \<noteq> [] then butlast names else names) s)
        else
          (case enter_component D cluster component s of
             None \<Rightarrow> None
           | Some (Inl e, s1) \<Rightarrow> Some (Inl e, s1)
           | Some (Inr entry, s1) \<Rightarrow>
               change_walk D cursor2 (re_first_cluster_low entry)
                 (push_stack stack (re_first_cluster_low entry))
                 (if length stack < FAT12_MAX_PATH_DEPTH
                  then names @ [fat12_dir_name_to_string (re_name entry)] else names) s1)
      else Some (Inr (cluster, stack, names), s))"
  by pat_completeness auto

termination
  by (relation "measure (\<lambda>(D, cursor, _). length cursor)") (auto intro: cursor_shorter)

declare change_walk.simps [simp del]

definition fat12_change_directory ::
    "'d disk_ops \<Rightarrow> byte list option \<Rightarrow> 'd fat12_state
     \<Rightarrow> ((fat12_err + unit) \<times> 'd fat12_state) option" where
  "fat12_change_directory D path s =
     (if \<not> g_fs_ready s then Some (Inl FAT12_ERR_NOT_INITIALIZED, s)
      else
        case path of
          None \<Rightarrow> Some (Inr (), s)
        | Some p \<Rightarrow>
            if char_at p 0 = 0 then Some (Inr (), s)
            else
              (case (if starts_at_root p then change_walk D p 0 [] [] s
                     else change_walk D p (g_current_dir_cluster s) (g_path_stack s)
                            (g_path_names s) s) of
                 None \<Rightarrow> None
               | Some (Inl e, s1) \<Rightarrow> Some (Inl e, s1)
               | Some (Inr (cluster, stack, names), s1) \<Rightarrow>
                   Some (Inr (), fat12_rebuild_cwd
                     (s1\<lparr>g_current_dir_cluster := cluster, g_path_stack := stack,
                         g_path_names := names\<rparr>))))"

definition fat12_get_cwd :: "'d fat12_state \<Rightarrow> byte list" where
  "fat12_get_cwd s = g_cwd s"

section \<open>The parent directory and short name of a path\<close>

text \<open>The walk ends with the last component, or with none (\<open>[]\<close>) for an empty walk.\<close>

function parent_walk ::
    "'d disk_ops \<Rightarrow> byte list \<Rightarrow> u16 \<Rightarrow> u16 list \<Rightarrow> 'd fat12_state
     \<Rightarrow> ((fat12_err + u16 \<times> byte list) \<times> 'd fat12_state) option" where
  "parent_walk D cursor cluster stack s =
     (let (len, component, cursor1) = fat12_path_next cursor 32 in
      if 0 < len then
        let cursor2 = skip_seps cursor1 in
        if char_at cursor2 0 = 0 then Some (Inr (cluster, component), s)
        else if is_dot component then parent_walk D cursor2 cluster stack s
        else if is_dotdot component then
          (case pop_stack stack of (cluster', stack') \<Rightarrow> parent_walk D cursor2 cluster' stack' s)
        else
          (case enter_component D cluster component s of
             None \<Rightarrow> None
           | Some (Inl e, s1) \<Rightarrow> Some (Inl e, s1)
           | Some (Inr entry, s1) \<Rightarrow>
               parent_walk D cursor2 (re_first_cluster_low entry)
                 (push_stack stack (re_first_cluster_low entry)) s1)
      else Some (Inr (cluster, []), s))"
  by pat_completeness auto

termination
  by (relation "measure (\<lambda>(D, cursor, _). length cursor)") (auto intro: cursor_shorter)

declare parent_walk.simps [simp del]

definition fat12_resolve_parent_and_name ::
    "'d disk_ops \<Rightarrow> byte list option \<Rightarrow> 'd fat12_state
     \<Rightarrow> ((fat12_err + u16 \<times> byte list) \<times> 'd fat12_state) option" where
  "fat12_resolve_parent_and_name D path s =
     (case path of
        None \<Rightarrow> Some (Inl FAT12_ERR_INVALID_NAME, s)
      | Some p \<Rightarrow>
          if char_at p 0 = 0 then Some (Inl FAT12_ERR_INVALID_NAME, s)
          else
            (case (if starts_at_root p then parent_walk D p 0 [] s
                   else parent_walk D p (g_current_dir_cluster s) (g_path_stack s) s) of
               None \<Rightarrow> None
             | Some (Inl e, s1) \<Rightarrow> Some (Inl e, s1)
             | Some (Inr (cluster, last_component), s1) \<Rightarrow>
                 if char_at last_component 0 = 0 then Some (Inl FAT12_ERR_INVALID_NAME, s1)
                 else if is_dot last_component \<or> is_dotdot last_component
                 then Some (Inl FAT12_ERR_INVALID_NAME, s1)
                 else
                   (case fat12_make_short_name (Some last_component) of
                      Inl e \<Rightarrow> Some (Inl e, s1)
                    | Inr short_name \<Rightarrow> Some (Inr (cluster, short_name), s1))))"

section \<open>Listing by path\<close>

definition fat12_iterate_current_directory ::
    "'d disk_ops \<Rightarrow> 'c dir_iter_cb \<Rightarrow> 'c \<Rightarrow> 'd fat12_state
     \<Rightarrow> ((fat12_err + unit) \<times> 'c \<times> 'd fat12_state) option" where
  "fat12_iterate_current_directory D cb ctx s =
     (if \<not> g_fs_ready s then Some (Inl FAT12_ERR_NOT_INITIALIZED, ctx, s)
      else fat12_iterate_directory_internal D (g_current_dir_cluster s) cb ctx s)"

definition fat12_iterate_path ::
    "'d disk_ops \<Rightarrow> byte list option \<Rightarrow> 'c dir_iter_cb \<Rightarrow> 'c \<Rightarrow> 'd fat12_state
     \<Rightarrow> ((fat12_err + unit) \<times> 'c \<times> 'd fat12_state) option" where
  "fat12_iterate_path D path cb ctx s =
     (if \<not> g_fs_ready s then Some (Inl FAT12_ERR_NOT_INITIALIZED, ctx, s)
      else if (case path of None \<Rightarrow> True | Some p \<Rightarrow> char_at p 0 = 0)
      then fat12_iterate_current_directory D cb ctx s
      else
        (case fat12_locate_directory D path s of
           None \<Rightarrow> None
         | Some (Inl e, s1) \<Rightarrow> Some (Inl e, ctx, s1)
         | Some (Inr cluster, s1) \<Rightarrow> fat12_iterate_directory_internal D cluster cb ctx s1))"

end
