(* ===== verification/Fat12_Volume.thy ===== *)
theory Fat12_Volume
  imports Fat12_Table
begin

text \<open>
  Mounting and flushing of \<open>src/fat12.c\<close>: \<open>fat12_init\<close> with its geometry arithmetic in
  \<open>uint32_t\<close> and its partial updates of the static state on every error path, and the
  write-back of the cached root directory and of every FAT copy.
\<close>

section \<open>Sector loops\<close>

text \<open>
  \<open>for (i = \<dots>; i < n; i++) disk_read_sector(start + i, buf + i * SECTOR_SIZE)\<close> and its
  writing counterpart; the Boolean says whether every call returned 0.
\<close>

fun load_sectors ::
    "'d disk_ops \<Rightarrow> u32 \<Rightarrow> nat \<Rightarrow> nat \<Rightarrow> mem \<Rightarrow> 'd \<Rightarrow> bool \<times> mem \<times> 'd" where
  "load_sectors D start i 0 m d = (True, m, d)"
| "load_sectors D start i (Suc left) m d =
     (case op_read_sector D (start + of_nat i) (Some (i * SECTOR_SIZE)) m d of
        (rc, m', d') \<Rightarrow>
          if rc \<noteq> 0 then (False, m', d') else load_sectors D start (Suc i) left m' d')"

fun store_sectors :: "'d disk_ops \<Rightarrow> u32 \<Rightarrow> nat \<Rightarrow> nat \<Rightarrow> mem \<Rightarrow> 'd \<Rightarrow> bool \<times> 'd" where
  "store_sectors D start i 0 m d = (True, d)"
| "store_sectors D start i (Suc left) m d =
     (case op_write_sector D (start + of_nat i) (Some (i * SECTOR_SIZE)) m d of
        (rc, d') \<Rightarrow> if rc \<noteq> 0 then (False, d') else store_sectors D start (Suc i) left m d')"

section \<open>Mounting\<close>

text \<open>
  The three groups of assignments \<open>fat12_init\<close> makes to \<open>g_fs\<close>, in their order; the
  tests between them are in \<open>fat12_init\<close>.
\<close>

definition init_copy_bpb :: "fat12_bpb \<Rightarrow> u32 \<Rightarrow> fat12_fs \<Rightarrow> fat12_fs" where
  "init_copy_bpb bpb base fs =
     fs\<lparr>bytes_per_sector := bpb_bytes_per_sector bpb,
        sectors_per_cluster := bpb_sectors_per_cluster bpb,
        reserved_sectors := bpb_reserved_sectors bpb,
        num_fats := bpb_num_fats bpb,
        root_entry_count := bpb_root_entry_count bpb,
        sectors_per_fat := bpb_sectors_per_fat_16 bpb,
        total_sectors := (if bpb_total_sectors_16 bpb \<noteq> 0 then ucast (bpb_total_sectors_16 bpb)
                          else bpb_total_sectors_32 bpb),
        base_lba := base\<rparr>"

definition init_sizes :: "fat12_fs \<Rightarrow> fat12_fs" where
  "init_sizes fs =
     fs\<lparr>fat_size_bytes := ucast (sectors_per_fat fs) * 512,
        root_dir_sectors :=
          of_nat ((unat (root_entry_count fs) * FAT12_DIR_ENTRY_SIZE + (SECTOR_SIZE - 1)) div SECTOR_SIZE)\<rparr>"

definition init_layout :: "fat12_fs \<Rightarrow> fat12_fs" where
  "init_layout fs =
     (let fat_start = ucast (reserved_sectors fs);
          fat_sectors = ucast (num_fats fs) * ucast (sectors_per_fat fs);
          root_start = fat_start + fat_sectors;
          data_start = root_start + ucast (root_dir_sectors fs);
          data_sectors = total_sectors fs - ucast (reserved_sectors fs) - fat_sectors
                         - ucast (root_dir_sectors fs)
      in fs\<lparr>fat_start_lba := fat_start,
            root_dir_start_lba := root_start,
            data_start_lba := data_start,
            total_data_sectors := data_sectors,
            total_clusters := data_sectors div ucast (sectors_per_cluster fs),
            cluster_size_bytes := ucast (sectors_per_cluster fs) * 512\<rparr>)"

text \<open>
  The rest of \<open>fat12_init\<close>, once the geometry is accepted: both FAT copies and the root
  directory are read and the current directory is reset.
\<close>

definition init_load ::
    "'d disk_ops \<Rightarrow> u32 \<Rightarrow> 'd fat12_state \<Rightarrow> (fat12_err + unit) \<times> 'd fat12_state" where
  "init_load D base s3 =
     (let fs = g_fs s3 in
      case load_sectors D (base + fat_start_lba fs) 0 (unat (sectors_per_fat fs))
             (g_fat_primary s3) (disk s3) of
        (ok4, fat4, d4) \<Rightarrow>
          let s4 = s3\<lparr>g_fat_primary := fat4, disk := d4\<rparr> in
          if \<not> ok4 then (Inl FAT12_ERR_IO, s4)
          else
            (case (if num_fats fs > 1
                   then load_sectors D (base + fat_start_lba fs + ucast (sectors_per_fat fs)) 0
                          (unat (sectors_per_fat fs)) (g_fat_secondary s4) (disk s4)
                   else (True, g_fat_secondary s4, disk s4)) of
               (ok5, fat5, d5) \<Rightarrow>
                 let s5 = s4\<lparr>g_fat_secondary := fat5, disk := d5\<rparr> in
                 if \<not> ok5 then (Inl FAT12_ERR_IO, s5)
                 else
                   (case load_sectors D (base + root_dir_start_lba fs) 0
                           (unat (root_dir_sectors fs)) (g_root_dir s5) (disk s5) of
                      (ok6, root6, d6) \<Rightarrow>
                        let s6 = s5\<lparr>g_root_dir := root6, disk := d6\<rparr> in
                        if \<not> ok6 then (Inl FAT12_ERR_IO, s6)
                        else (Inr (), s6\<lparr>g_current_dir_cluster := 0,
                                g_path_stack := [], g_path_names := [],
                                g_cwd := [0x2F], g_fs_ready := True,
                                g_fat_dirty := False, g_root_dirty := False\<rparr>))))"

definition fat12_init ::
    "'d disk_ops \<Rightarrow> u32 \<Rightarrow> 'd fat12_state \<Rightarrow> (fat12_err + unit) \<times> 'd fat12_state" where
  "fat12_init D base s =
     (case op_read_sector D base (Some 0) (\<lambda>_. 0) (disk s) of
        (rc, sector, d0) \<Rightarrow>
          let s0 = s\<lparr>disk := d0\<rparr>; bpb = bpb_at sector in
          if rc \<noteq> 0 then (Inl FAT12_ERR_IO, s0)
          else if bpb_bytes_per_sector bpb \<noteq> 512 then (Inl FAT12_ERR_BAD_BPB, s0)
          else
            let fs1 = init_copy_bpb bpb base (g_fs s0); s1 = s0\<lparr>g_fs := fs1\<rparr> in
            if sectors_per_cluster fs1 = 0 \<or> sectors_per_cluster fs1 > 32
            then (Inl FAT12_ERR_NOT_FAT12, s1)
            else if sectors_per_fat fs1 = 0 \<or> sectors_per_fat fs1 > 64
            then (Inl FAT12_ERR_NOT_FAT12, s1)
            else
              let fs2 = init_sizes fs1; s2 = s1\<lparr>g_fs := fs2\<rparr> in
              if root_dir_sectors fs2 > 64 then (Inl FAT12_ERR_NOT_FAT12, s2)
              else
                let fs3 = init_layout fs2; s3 = s2\<lparr>g_fs := fs3\<rparr> in
                if total_clusters fs3 < 1 \<or> total_clusters fs3 > 4084
                then (Inl FAT12_ERR_NOT_FAT12, s3)
                else init_load D base s3)"

section \<open>Flushing\<close>

definition fat12_flush_root ::
    "'d disk_ops \<Rightarrow> 'd fat12_state \<Rightarrow> (fat12_err + unit) \<times> 'd fat12_state" where
  "fat12_flush_root D s =
     (if \<not> g_root_dirty s then (Inr (), s)
      else
        (case store_sectors D (base_lba (g_fs s) + root_dir_start_lba (g_fs s)) 0
                (unat (root_dir_sectors (g_fs s))) (g_root_dir s) (disk s) of
           (ok, d) \<Rightarrow>
             if \<not> ok then (Inl FAT12_ERR_IO, s\<lparr>disk := d\<rparr>)
             else (Inr (), s\<lparr>disk := d, g_root_dirty := False\<rparr>)))"

text \<open>The copies \<open>k, k + 1, \<dots>\<close> (\<open>fat_index\<close>), all written from \<open>g_fat_primary\<close>.\<close>

fun store_fat_copies ::
    "'d disk_ops \<Rightarrow> fat12_fs \<Rightarrow> mem \<Rightarrow> nat \<Rightarrow> nat \<Rightarrow> 'd \<Rightarrow> bool \<times> 'd" where
  "store_fat_copies D fs m k 0 d = (True, d)"
| "store_fat_copies D fs m k (Suc left) d =
     (let start_lba = base_lba fs + fat_start_lba fs + of_nat k * ucast (sectors_per_fat fs) in
      case store_sectors D start_lba 0 (unat (sectors_per_fat fs)) m d of
        (ok, d') \<Rightarrow>
          if \<not> ok then (False, d') else store_fat_copies D fs m (Suc k) left d')"

definition fat12_flush_fats ::
    "'d disk_ops \<Rightarrow> 'd fat12_state \<Rightarrow> (fat12_err + unit) \<times> 'd fat12_state" where
  "fat12_flush_fats D s =
     (if \<not> g_fat_dirty s then (Inr (), s)
      else
        (case store_fat_copies D (g_fs s) (g_fat_primary s) 0 (unat (num_fats (g_fs s))) (disk s) of
           (ok, d) \<Rightarrow>
             if \<not> ok then (Inl FAT12_ERR_IO, s\<lparr>disk := d\<rparr>)
             else (Inr (), s\<lparr>disk := d, g_fat_dirty := False\<rparr>)))"

definition fat12_flush ::
    "'d disk_ops \<Rightarrow> 'd fat12_state \<Rightarrow> (fat12_err + unit) \<times> 'd fat12_state" where
  "fat12_flush D s =
     (if \<not> g_fs_ready s then (Inl FAT12_ERR_NOT_INITIALIZED, s)
      else
        (case fat12_flush_root D s of
           (Inl e, s1) \<Rightarrow> (Inl e, s1)
         | (Inr _, s1) \<Rightarrow> fat12_flush_fats D s1))"

end
