(* ===== verification/Fat12_File.thy ===== *)
theory Fat12_File
  imports Fat12_Path Fat12_Volume
begin

text \<open>
  The file operations of \<open>src/fat12.c\<close>: \<open>fat12_read_file\<close>, \<open>fat12_write_file\<close>,
  \<open>fat12_create_directory\<close> and \<open>fat12_delete_file\<close>, with every error path and the
  order in which table, data, directory entry and write-back change.
\<close>

section \<open>Reading\<close>

text \<open>The copy loop; the buffer is the caller's, \<open>cursor\<close> the offset written next.\<close>

partial_function (option) read_loop ::
    "'d disk_ops \<Rightarrow> u16 \<Rightarrow> u32 \<Rightarrow> u32 \<Rightarrow> mem \<Rightarrow> 'd fat12_state
     \<Rightarrow> ((fat12_err + unit) \<times> mem \<times> 'd fat12_state) option" where
  "read_loop D cluster bytes_remaining cursor buffer s =
     (if bytes_remaining > 0 \<and> chain_link cluster then
        (case fat12_read_cluster D cluster s of
           (rc, s1) \<Rightarrow>
             if rc \<noteq> 0 then Some (Inl FAT12_ERR_IO, buffer, s1)
             else
               let to_copy = (if cluster_size_bytes (g_fs s1) > bytes_remaining
                              then bytes_remaining else cluster_size_bytes (g_fs s1));
                   buffer1 = fat12_memcpy buffer (unat cursor) (g_cluster_buffer s1) 0 (unat to_copy)
               in read_loop D (fat12_get_fat_entry s1 cluster) (bytes_remaining - to_copy)
                    (cursor + to_copy) buffer1 s1)
      else Some (Inr (), buffer, s))"

text \<open>On success the value is what \<open>*out_size\<close> receives.\<close>

definition fat12_read_file ::
    "'d disk_ops \<Rightarrow> byte list option \<Rightarrow> mem option \<Rightarrow> u32 \<Rightarrow> 'd fat12_state
     \<Rightarrow> ((fat12_err + u32) \<times> mem option \<times> 'd fat12_state) option" where
  "fat12_read_file D path buffer max_size s =
     (if \<not> g_fs_ready s then Some (Inl FAT12_ERR_NOT_INITIALIZED, buffer, s)
      else
        case buffer of
          None \<Rightarrow> Some (Inl FAT12_ERR_INVALID_NAME, buffer, s)
        | Some buf \<Rightarrow>
            (case fat12_resolve_parent_and_name D path s of
               None \<Rightarrow> None
             | Some (Inl e, s1) \<Rightarrow> Some (Inl e, buffer, s1)
             | Some (Inr (dir_cluster, short_name), s1) \<Rightarrow>
                 (case fat12_find_entry D dir_cluster short_name s1 of
                    None \<Rightarrow> None
                  | Some (Inl e, s2) \<Rightarrow> Some (Inl e, buffer, s2)
                  | Some (Inr (entry, _, _), s2) \<Rightarrow>
                      if re_attr entry AND FAT12_ATTR_DIRECTORY \<noteq> 0
                      then Some (Inl FAT12_ERR_NOT_FILE, buffer, s2)
                      else if re_file_size entry > max_size
                      then Some (Inl FAT12_ERR_BUFFER_SMALL, buffer, s2)
                      else
                        (case read_loop D (re_first_cluster_low entry) (re_file_size entry) 0 buf s2 of
                           None \<Rightarrow> None
                         | Some (Inl e, buf3, s3) \<Rightarrow> Some (Inl e, Some buf3, s3)
                         | Some (Inr _, buf3, s3) \<Rightarrow>
                             Some (Inr (re_file_size entry), Some buf3, s3)))))"

section \<open>Writing\<close>

text \<open>
  The allocation loop; it returns the first cluster of the new chain (0 for an empty
  file) or the error after releasing what it had allocated.
\<close>

partial_function (option) write_loop ::
    "'d disk_ops \<Rightarrow> mem \<Rightarrow> u32 \<Rightarrow> u16 \<Rightarrow> u16 \<Rightarrow> u32 \<Rightarrow> 'd fat12_state
     \<Rightarrow> ((fat12_err + u16) \<times> 'd fat12_state) option" where
  "write_loop D data sz first_cluster prev_cluster bytes_written s =
     (if bytes_written < sz then
        (case fat12_allocate_cluster D s of
           (new_cluster, s1) \<Rightarrow>
             if new_cluster = 0
             then Some (Inl FAT12_ERR_NO_FREE_CLUSTER,
                        if first_cluster \<ge> 2 then fat12_free_chain first_cluster s1 else s1)
             else
               let first_cluster1 = (if first_cluster = 0 then new_cluster else first_cluster);
                   s2 = (if prev_cluster \<ge> 2 then fat12_set_fat_entry prev_cluster new_cluster s1
                         else s1);
                   s3 = fat12_set_fat_entry new_cluster FAT12_CLUSTER_EOC s2;
                   to_copy = (if cluster_size_bytes (g_fs s3) > sz - bytes_written
                              then sz - bytes_written else cluster_size_bytes (g_fs s3));
                   buf1 = fat12_memset (g_cluster_buffer s3) 0 0 (unat (cluster_size_bytes (g_fs s3)));
                   buf2 = fat12_memcpy buf1 0 data (unat bytes_written) (unat to_copy)
               in (case fat12_write_cluster D new_cluster (s3\<lparr>g_cluster_buffer := buf2\<rparr>) of
                     (rc, s4) \<Rightarrow>
                       if rc \<noteq> 0 then Some (Inl FAT12_ERR_IO, fat12_free_chain first_cluster1 s4)
                       else write_loop D data sz first_cluster1 new_cluster
                              (bytes_written + to_copy) s4))
      else Some (Inr first_cluster, s))"

text \<open>The results of the two flushes at the end are ignored, as in the code.\<close>

definition flush_ignoring_errors :: "'d disk_ops \<Rightarrow> 'd fat12_state \<Rightarrow> 'd fat12_state" where
  "flush_ignoring_errors D s = snd (fat12_flush_fats D (snd (fat12_flush_root D s)))"

definition fat12_write_file ::
    "'d disk_ops \<Rightarrow> byte list option \<Rightarrow> mem option \<Rightarrow> u32 \<Rightarrow> 'd fat12_state
     \<Rightarrow> ((fat12_err + unit) \<times> 'd fat12_state) option" where
  "fat12_write_file D name data sz s =
     (if \<not> g_fs_ready s then Some (Inl FAT12_ERR_NOT_INITIALIZED, s)
      else if data = None \<and> sz > 0 then Some (Inl FAT12_ERR_INVALID_NAME, s)
      else
        (case fat12_resolve_parent_and_name D name s of
           None \<Rightarrow> None
         | Some (Inl e, s1) \<Rightarrow> Some (Inl e, s1)
         | Some (Inr (dir_cluster, short_name), s1) \<Rightarrow>
             (case fat12_find_entry D dir_cluster short_name s1 of
                None \<Rightarrow> None
              | Some (found, s2) \<Rightarrow>
                  (case (case found of
                           Inr (existing, _, _) \<Rightarrow>
                             if re_attr existing AND FAT12_ATTR_DIRECTORY \<noteq> 0
                             then Inl FAT12_ERR_ALREADY_EXISTS
                             else Inr (True, re_first_cluster_low existing)
                         | Inl e \<Rightarrow> if e \<noteq> FAT12_ERR_NOT_FOUND then Inl e else Inr (False, 0)) of
                     Inl e \<Rightarrow> Some (Inl e, s2)
                   | Inr (has_existing, old_cluster) \<Rightarrow>
                       (case write_loop D (case data of None \<Rightarrow> (\<lambda>_. 0) | Some m \<Rightarrow> m) sz 0 0 0 s2 of
                          None \<Rightarrow> None
                        | Some (Inl e, s3) \<Rightarrow> Some (Inl e, s3)
                        | Some (Inr first_cluster, s3) \<Rightarrow>
                            (case fat12_write_directory_entry D dir_cluster short_name
                                    (fat12_fill_dir_entry short_name FAT12_ATTR_ARCHIVE
                                       first_cluster sz) s3 of
                               None \<Rightarrow> None
                             | Some (Inl e, s4) \<Rightarrow>
                                 Some (Inl e, if first_cluster \<ge> 2
                                              then fat12_free_chain first_cluster s4 else s4)
                             | Some (Inr _, s4) \<Rightarrow>
                                 let s5 = (if has_existing \<and> old_cluster \<ge> 2
                                              \<and> old_cluster \<noteq> first_cluster
                                           then fat12_free_chain old_cluster s4 else s4)
                                 in Some (Inr (), flush_ignoring_errors D s5)))))))"

section \<open>Creating a directory\<close>

definition fat12_create_directory ::
    "'d disk_ops \<Rightarrow> byte list option \<Rightarrow> 'd fat12_state
     \<Rightarrow> ((fat12_err + unit) \<times> 'd fat12_state) option" where
  "fat12_create_directory D name s =
     (if \<not> g_fs_ready s then Some (Inl FAT12_ERR_NOT_INITIALIZED, s)
      else
        (case fat12_resolve_parent_and_name D name s of
           None \<Rightarrow> None
         | Some (Inl e, s1) \<Rightarrow> Some (Inl e, s1)
         | Some (Inr (dir_cluster, short_name), s1) \<Rightarrow>
             (case fat12_find_entry D dir_cluster short_name s1 of
                None \<Rightarrow> None
              | Some (Inr _, s2) \<Rightarrow> Some (Inl FAT12_ERR_ALREADY_EXISTS, s2)
              | Some (Inl _, s2) \<Rightarrow>
                  (case fat12_allocate_cluster D s2 of
                     (new_cluster, s3) \<Rightarrow>
                       if new_cluster = 0 then Some (Inl FAT12_ERR_NO_FREE_CLUSTER, s3)
                       else
                         let buf0 = fat12_memset (g_cluster_buffer s3) 0 0
                                      (unat (cluster_size_bytes (g_fs s3)));
                             dot_name = (replicate 11 0x20)[0 := 0x2E];
                             buf1 = put_entry buf0 0
                                      (fat12_fill_dir_entry dot_name FAT12_ATTR_DIRECTORY new_cluster 0);
                             dotdot_name = (replicate 11 0x20)[0 := 0x2E, 1 := 0x2E];
                             parent_cluster = (if dir_cluster = 0 then 0 else dir_cluster);
                             buf2 = put_entry buf1 FAT12_DIR_ENTRY_SIZE
                                      (fat12_fill_dir_entry dotdot_name FAT12_ATTR_DIRECTORY
                                         parent_cluster 0)
                         in
                         (case fat12_write_cluster D new_cluster (s3\<lparr>g_cluster_buffer := buf2\<rparr>) of
                            (rc, s4) \<Rightarrow>
                              if rc \<noteq> 0
                              then Some (Inl FAT12_ERR_IO, fat12_free_chain new_cluster s4)
                              else
                                (case fat12_write_directory_entry D dir_cluster short_name
                                        (fat12_fill_dir_entry short_name FAT12_ATTR_DIRECTORY
                                           new_cluster 0) s4 of
                                   None \<Rightarrow> None
                                 | Some (Inl e, s5) \<Rightarrow>
                                     Some (Inl e, fat12_free_chain new_cluster s5)
                                 | Some (Inr _, s5) \<Rightarrow>
                                     Some (Inr (), flush_ignoring_errors D s5))))))) "

section \<open>Deleting\<close>

definition fat12_delete_file ::
    "'d disk_ops \<Rightarrow> byte list option \<Rightarrow> 'd fat12_state
     \<Rightarrow> ((fat12_err + unit) \<times> 'd fat12_state) option" where
  "fat12_delete_file D name s =
     (if \<not> g_fs_ready s then Some (Inl FAT12_ERR_NOT_INITIALIZED, s)
      else
        (case fat12_resolve_parent_and_name D name s of
           None \<Rightarrow> None
         | Some (Inl e, s1) \<Rightarrow> Some (Inl e, s1)
         | Some (Inr (dir_cluster, short_name), s1) \<Rightarrow>
             (case fat12_find_entry D dir_cluster short_name s1 of
                None \<Rightarrow> None
              | Some (Inl e, s2) \<Rightarrow> Some (Inl e, s2)
              | Some (Inr (entry, _, _), s2) \<Rightarrow>
                  if re_attr entry AND FAT12_ATTR_DIRECTORY \<noteq> 0
                  then Some (Inl FAT12_ERR_NOT_FILE, s2)
                  else
                    let s3 = (if re_first_cluster_low entry \<ge> 2
                              then fat12_free_chain (re_first_cluster_low entry) s2 else s2)
                    in (case fat12_mark_entry_deleted D dir_cluster short_name s3 of
                          None \<Rightarrow> None
                        | Some (Inl e, s4) \<Rightarrow> Some (Inl e, s4)
                        | Some (Inr _, s4) \<Rightarrow> Some (Inr (), flush_ignoring_errors D s4)))))"

end
