(* ===== verification/Fat12_Dir_Model.thy ===== *)
theory Fat12_Dir_Model
  imports Fat12_Directory
begin

text \<open>
  A directory as the list of its 32-byte slots, and as the finite map from short names
  to entries it stands for. \<open>slot_scan\<close> and \<open>first_free\<close> are the searches of
  \<open>fat12_find_entry\<close> and \<open>fat12_find_free_entry\<close> on one list; storing into the slot they
  deliver is shown to be an update of the map, marking a slot deleted a removal.

  \<open>dir_wf\<close> is the invariant of the on-disk format: nothing follows an end mark, and no
  two live slots carry the same name.
\<close>

section \<open>Slots\<close>

definition slot_end :: "raw_dir_entry \<Rightarrow> bool" where
  "slot_end e \<longleftrightarrow> re_name e ! 0 = 0x00"

definition slot_deleted :: "raw_dir_entry \<Rightarrow> bool" where
  "slot_deleted e \<longleftrightarrow> re_name e ! 0 = 0xE5"

definition slot_live :: "raw_dir_entry \<Rightarrow> bool" where
  "slot_live e \<longleftrightarrow> \<not> slot_end e \<and> \<not> slot_deleted e"

fun slot_scan :: "raw_dir_entry list \<Rightarrow> byte list \<Rightarrow> nat \<Rightarrow> find_outcome" where
  "slot_scan [] name i = Scan_exhausted"
| "slot_scan (e # es) name i =
     (if slot_end e then Scan_end
      else if slot_deleted e then slot_scan es name (Suc i)
      else if re_name e = name then Scan_found i
      else slot_scan es name (Suc i))"

fun first_free :: "raw_dir_entry list \<Rightarrow> nat \<Rightarrow> nat option" where
  "first_free [] i = None"
| "first_free (e # es) i = (if slot_live e then first_free es (Suc i) else Some i)"

lemma slot_scan_append:
  "slot_scan (xs @ ys) name i =
     (case slot_scan xs name i of
        Scan_exhausted \<Rightarrow> slot_scan ys name (i + length xs) | r \<Rightarrow> r)"
  by (induction xs arbitrary: i) (auto split: find_outcome.splits)

lemma first_free_append:
  "first_free (xs @ ys) i =
     (case first_free xs i of None \<Rightarrow> first_free ys (i + length xs) | Some k \<Rightarrow> Some k)"
  by (induction xs arbitrary: i) (auto split: option.splits)

lemma slot_scan_found:
  "slot_scan es name i = Scan_found k \<longleftrightarrow>
     (\<exists>j < length es. k = i + j \<and> slot_live (es ! j) \<and> re_name (es ! j) = name
        \<and> (\<forall>l < j. \<not> slot_end (es ! l) \<and> (slot_live (es ! l) \<longrightarrow> re_name (es ! l) \<noteq> name)))"
proof (induction es arbitrary: i)
  case Nil
  then show ?case by simp
next
  case (Cons e es)
  have split: "(\<exists>j < length (e # es). P j) \<longleftrightarrow> P 0 \<or> (\<exists>j < length es. P (Suc j))" for P
    by (simp add: Ex_less_Suc2)
  show ?case
    unfolding split
    by (auto simp: Cons.IH All_less_Suc2 slot_live_def)
qed

lemma first_free_Some:
  "first_free es i = Some k \<longleftrightarrow>
     (\<exists>j < length es. k = i + j \<and> \<not> slot_live (es ! j) \<and> (\<forall>l < j. slot_live (es ! l)))"
  by (induction es arbitrary: i) (auto simp: Ex_less_Suc2 All_less_Suc2)

lemma first_free_None: "first_free es i = None \<longleftrightarrow> (\<forall>e \<in> set es. slot_live e)"
  by (induction es arbitrary: i) auto

lemma slot_scan_bound: "slot_scan es name i = Scan_found k \<Longrightarrow> i \<le> k \<and> k < i + length es"
  by (auto simp: slot_scan_found)

lemma first_free_bound: "first_free es i = Some k \<Longrightarrow> i \<le> k \<and> k < i + length es"
  by (auto simp: first_free_Some)

section \<open>A directory as a finite map\<close>

definition dir_find :: "raw_dir_entry list \<Rightarrow> byte list \<Rightarrow> nat option" where
  "dir_find es name = (case slot_scan es name 0 of Scan_found i \<Rightarrow> Some i | _ \<Rightarrow> None)"

definition dir_map :: "raw_dir_entry list \<Rightarrow> byte list \<rightharpoonup> raw_dir_entry" where
  "dir_map es name = map_option ((!) es) (dir_find es name)"

definition terminated :: "raw_dir_entry list \<Rightarrow> bool" where
  "terminated es \<longleftrightarrow> (\<forall>i j. i < j \<and> j < length es \<and> slot_end (es ! i) \<longrightarrow> slot_end (es ! j))"

definition unique_names :: "raw_dir_entry list \<Rightarrow> bool" where
  "unique_names es \<longleftrightarrow>
     (\<forall>i j. i < length es \<and> j < length es \<and> slot_live (es ! i) \<and> slot_live (es ! j)
        \<and> re_name (es ! i) = re_name (es ! j) \<longrightarrow> i = j)"

definition dir_wf :: "raw_dir_entry list \<Rightarrow> bool" where
  "dir_wf es \<longleftrightarrow> terminated es \<and> unique_names es"

lemma slot_live_not_end: "slot_live e \<Longrightarrow> \<not> slot_end e"
  by (simp add: slot_live_def)

lemma dir_find_Some:
  "dir_find es name = Some j \<longleftrightarrow>
     j < length es \<and> slot_live (es ! j) \<and> re_name (es ! j) = name
     \<and> (\<forall>l < j. \<not> slot_end (es ! l) \<and> (slot_live (es ! l) \<longrightarrow> re_name (es ! l) \<noteq> name))"
proof -
  have "dir_find es name = Some j \<longleftrightarrow> slot_scan es name 0 = Scan_found j"
    by (simp add: dir_find_def split: find_outcome.split)
  then show ?thesis by (simp add: slot_scan_found)
qed

text \<open>In a well-formed directory the search finds the one live slot of that name.\<close>

lemma dir_find_wf:
  assumes "dir_wf es"
  shows "dir_find es name = Some j \<longleftrightarrow> j < length es \<and> slot_live (es ! j) \<and> re_name (es ! j) = name"
proof
  assume "dir_find es name = Some j"
  then show "j < length es \<and> slot_live (es ! j) \<and> re_name (es ! j) = name"
    by (simp add: dir_find_Some)
next
  assume j: "j < length es \<and> slot_live (es ! j) \<and> re_name (es ! j) = name"
  have "\<not> slot_end (es ! l) \<and> (slot_live (es ! l) \<longrightarrow> re_name (es ! l) \<noteq> name)" if "l < j" for l
  proof
    show "\<not> slot_end (es ! l)"
      using assms j that by (auto simp: dir_wf_def terminated_def dest: slot_live_not_end)
    show "slot_live (es ! l) \<longrightarrow> re_name (es ! l) \<noteq> name"
      using assms j that unfolding dir_wf_def unique_names_def
      by (metis less_trans nat_neq_iff)
  qed
  with j show "dir_find es name = Some j" by (simp add: dir_find_Some)
qed

lemma dir_find_wf_None:
  assumes "dir_wf es"
  shows "dir_find es name = None \<longleftrightarrow> (\<forall>j < length es. slot_live (es ! j) \<longrightarrow> re_name (es ! j) \<noteq> name)"
  using dir_find_wf [OF assms, of name] by (metis not_None_eq)

lemma dir_map_wf:
  assumes "dir_wf es"
  shows "dir_map es name = Some e \<longleftrightarrow> e \<in> set es \<and> slot_live e \<and> re_name e = name"
proof -
  have "dir_map es name = Some e \<longleftrightarrow> (\<exists>j. dir_find es name = Some j \<and> es ! j = e)"
    by (auto simp: dir_map_def)
  then show ?thesis by (auto simp: dir_find_wf [OF assms] in_set_conv_nth)
qed

lemma dir_map_eqI:
  assumes "dir_wf es" and "\<And>e. slot_live e \<Longrightarrow> re_name e = name \<Longrightarrow> e \<in> set es \<longleftrightarrow> v = Some e"
    and "\<And>e. v = Some e \<Longrightarrow> slot_live e \<and> re_name e = name"
  shows "dir_map es name = v"
  using dir_map_wf [OF assms(1), of name] assms(2,3)
  by (metis (no_types, opaque_lifting) not_Some_eq)

section \<open>Storing and deleting\<close>

text \<open>
  The slot \<open>fat12_write_directory_entry\<close> stores into: the slot of that name, else the
  first free one.
\<close>

definition put_slot :: "raw_dir_entry list \<Rightarrow> byte list \<Rightarrow> nat option" where
  "put_slot es name = (case dir_find es name of Some j \<Rightarrow> Some j | None \<Rightarrow> first_free es 0)"

lemma put_slot_bound: "put_slot es name = Some j \<Longrightarrow> j < length es"
  by (auto simp: put_slot_def dir_find_Some dest: first_free_bound split: option.splits)

lemma put_slot_facts:
  assumes "dir_wf es" and "put_slot es name = Some j"
  shows "j < length es" "\<forall>l < j. \<not> slot_end (es ! l)"
    "\<forall>l < length es. l \<noteq> j \<longrightarrow> slot_live (es ! l) \<longrightarrow> re_name (es ! l) \<noteq> name"
    "slot_live (es ! j) \<Longrightarrow> re_name (es ! j) = name"
proof -
  show "j < length es" using assms(2) by (rule put_slot_bound)
  consider (found) "dir_find es name = Some j"
    | (new) "dir_find es name = None" "first_free es 0 = Some j"
    using assms(2) by (auto simp: put_slot_def split: option.splits)
  then have "(\<forall>l < j. \<not> slot_end (es ! l)) \<and>
    (\<forall>l < length es. l \<noteq> j \<longrightarrow> slot_live (es ! l) \<longrightarrow> re_name (es ! l) \<noteq> name) \<and>
    (slot_live (es ! j) \<longrightarrow> re_name (es ! j) = name)"
  proof cases
    case found
    then have *: "j < length es" "slot_live (es ! j)" "re_name (es ! j) = name"
      by (simp_all add: dir_find_Some)
    then have "\<forall>l < length es. l \<noteq> j \<longrightarrow> slot_live (es ! l) \<longrightarrow> re_name (es ! l) \<noteq> name"
      using assms(1) unfolding dir_wf_def unique_names_def by metis
    with found * show ?thesis by (simp add: dir_find_Some)
  next
    case new
    then have "\<not> slot_live (es ! j)" "\<forall>l < j. slot_live (es ! l)"
      by (auto simp: first_free_Some)
    with new(1) show ?thesis
      using dir_find_wf_None [OF assms(1), of name] by (auto dest: slot_live_not_end)
  qed
  then show "\<forall>l < j. \<not> slot_end (es ! l)"
    "\<forall>l < length es. l \<noteq> j \<longrightarrow> slot_live (es ! l) \<longrightarrow> re_name (es ! l) \<noteq> name"
    "slot_live (es ! j) \<Longrightarrow> re_name (es ! j) = name"
    by simp_all
qed

lemma dir_wf_put:
  assumes wf: "dir_wf es" and slot: "put_slot es name = Some j"
    and e: "slot_live e" "re_name e = name"
  shows "dir_wf (es[j := e])"
proof -
  note f = put_slot_facts [OF wf slot]
  have "terminated (es[j := e])"
    unfolding terminated_def
  proof (intro allI impI)
    fix a b assume ab: "a < b \<and> b < length (es[j := e]) \<and> slot_end (es[j := e] ! a)"
    then have "a \<noteq> j" using slot_live_not_end [OF e(1)] by auto
    with ab have a: "slot_end (es ! a)" by simp
    with f(2) have "\<not> a < j" by blast
    with ab \<open>a \<noteq> j\<close> a wf show "slot_end (es[j := e] ! b)"
      by (auto simp: dir_wf_def terminated_def)
  qed
  moreover have "unique_names (es[j := e])"
    using wf f(1,3) e by (auto simp: unique_names_def dir_wf_def nth_list_update)
  ultimately show ?thesis by (simp add: dir_wf_def)
qed

lemma set_list_update_other:
  "j < length es \<Longrightarrow> x \<noteq> y \<Longrightarrow> x \<noteq> es ! j \<Longrightarrow> x \<in> set (es[j := y]) \<longleftrightarrow> x \<in> set es"
  by (metis in_set_conv_nth length_list_update nth_list_update_eq nth_list_update_neq)

lemma dir_map_put:
  assumes wf: "dir_wf es" and slot: "put_slot es name = Some j"
    and e: "slot_live e" "re_name e = name"
  shows "dir_map (es[j := e]) = (dir_map es)(name \<mapsto> e)"
proof
  fix n
  note f = put_slot_facts [OF wf slot]
  note wf' = dir_wf_put [OF wf slot e]
  show "dir_map (es[j := e]) n = ((dir_map es)(name \<mapsto> e)) n"
  proof (cases "n = name")
    case True
    then show ?thesis using dir_map_wf [OF wf'] e f(1) by (simp add: set_update_memI)
  next
    case False
    have "x \<in> set (es[j := e]) \<longleftrightarrow> x \<in> set es" if "slot_live x" "re_name x = n" for x
      using that f(1,4) e(2) False by (intro set_list_update_other) auto
    then have "dir_map (es[j := e]) n = dir_map es n"
      using dir_map_wf [OF wf, of n] dir_map_wf [OF wf', of n]
      by (intro dir_map_eqI [OF wf']) auto
    with False show ?thesis by simp
  qed
qed

text \<open>Marking the slot of a name deleted.\<close>

definition erase :: "raw_dir_entry \<Rightarrow> raw_dir_entry" where
  "erase e = e\<lparr>re_name := (re_name e)[0 := 0xE5], re_file_size := 0, re_first_cluster_low := 0\<rparr>"

lemma erase_deleted:
  "wf_entry e \<Longrightarrow> slot_deleted (erase e) \<and> \<not> slot_end (erase e) \<and> \<not> slot_live (erase e)"
  by (simp add: erase_def slot_deleted_def slot_end_def slot_live_def wf_entry_def)

lemma dir_wf_erase:
  assumes wf: "dir_wf es" and j: "j < length es" and live: "slot_live (es ! j)"
    and we: "wf_entry (es ! j)"
  shows "dir_wf (es[j := erase (es ! j)])"
proof -
  note er = erase_deleted [OF we]
  have "terminated (es[j := erase (es ! j)])"
    using wf j live er unfolding dir_wf_def terminated_def slot_live_def
    by (auto simp: nth_list_update)
  moreover have "unique_names (es[j := erase (es ! j)])"
    using wf j er by (auto simp: unique_names_def dir_wf_def nth_list_update)
  ultimately show ?thesis by (simp add: dir_wf_def)
qed

lemma dir_map_erase:
  assumes wf: "dir_wf es" and find: "dir_find es name = Some j" and we: "wf_entry (es ! j)"
  shows "dir_map (es[j := erase (es ! j)]) = (dir_map es)(name := None)"
proof
  fix n
  have f: "j < length es" "slot_live (es ! j)" "re_name (es ! j) = name"
    using find by (simp_all add: dir_find_Some)
  note wf' = dir_wf_erase [OF wf f(1,2) we]
  have others: "x \<in> set (es[j := erase (es ! j)]) \<longleftrightarrow> x \<in> set es \<and> x \<noteq> es ! j" if "slot_live x" for x
  proof (cases "x = es ! j")
    case True
    have "es ! l \<noteq> es ! j" if "l < length es" "l \<noteq> j" for l
      using wf f that unfolding dir_wf_def unique_names_def by metis
    then show ?thesis
      using True that erase_deleted [OF we] f(1)
      by (auto simp: in_set_conv_nth nth_list_update)
  next
    case False
    with that erase_deleted [OF we] f(1) show ?thesis
      by (subst set_list_update_other) auto
  qed
  show "dir_map (es[j := erase (es ! j)]) n = ((dir_map es)(name := None)) n"
  proof (cases "n = name")
    case True
    have "x \<notin> set es \<or> x = es ! j" if "slot_live x" "re_name x = name" for x
      using wf f that unfolding dir_wf_def unique_names_def in_set_conv_nth by metis
    then show ?thesis using True others by (intro dir_map_eqI [OF wf']) auto
  next
    case False
    then have "dir_map (es[j := erase (es ! j)]) n = dir_map es n"
      using dir_map_wf [OF wf, of n] others f(3) by (intro dir_map_eqI [OF wf']) auto
    with False show ?thesis by simp
  qed
qed

text \<open>A fresh cluster of zeroes behind a full directory keeps the map.\<close>

lemma dir_wf_extend:
  assumes "dir_wf es" and "\<forall>e \<in> set es. slot_live e" and "\<forall>z \<in> set zs. slot_end z"
  shows "dir_wf (es @ zs)"
proof -
  have zs: "slot_end (zs ! k)" if "k < length zs" for k using assms(3) that by simp
  have live: "slot_live (es ! k)" if "k < length es" for k using assms(2) that by simp
  have "terminated (es @ zs)"
    using zs live by (auto simp: terminated_def nth_append dest: slot_live_not_end)
  moreover have "unique_names (es @ zs)"
    using assms(1) zs by (auto simp: unique_names_def dir_wf_def nth_append dest: slot_live_not_end)
  ultimately show ?thesis by (simp add: dir_wf_def)
qed

lemma dir_map_extend:
  assumes "dir_wf es" and "\<forall>e \<in> set es. slot_live e" and "\<forall>z \<in> set zs. slot_end z"
  shows "dir_map (es @ zs) = dir_map es"
proof
  fix n
  have "x \<in> set (es @ zs) \<longleftrightarrow> x \<in> set es" if "slot_live x" for x
    using assms(3) that by (auto dest: slot_live_not_end)
  then show "dir_map (es @ zs) n = dir_map es n"
    using dir_map_wf [OF assms(1), of n]
    by (intro dir_map_eqI [OF dir_wf_extend [OF assms]]) auto
qed

end
