(* ===== verification/Fat12_Geometry.thy ===== *)
theory Fat12_Geometry
  imports Fat12_Volume
begin

text \<open>
  What a successful \<open>fat12_init\<close> guarantees about the geometry record: sizes within the
  static arrays, the FAT copies, the root directory and the data area laid out one after
  the other without wrap-around, and every cluster inside the declared volume. The
  arithmetic of the code is modular; the acceptance tests are shown to exclude every
  wrapped value.
\<close>

definition geometry_ok :: "fat12_fs \<Rightarrow> bool" where
  "geometry_ok fs \<longleftrightarrow>
     1 \<le> unat (sectors_per_cluster fs) \<and> unat (sectors_per_cluster fs) \<le> 32
   \<and> unat (cluster_size_bytes fs) = 512 * unat (sectors_per_cluster fs)
   \<and> 1 \<le> unat (total_clusters fs) \<and> unat (total_clusters fs) \<le> 4084
   \<and> 1 \<le> unat (sectors_per_fat fs) \<and> unat (sectors_per_fat fs) \<le> 64
   \<and> unat (fat_size_bytes fs) = 512 * unat (sectors_per_fat fs)
   \<and> unat (root_dir_sectors fs) \<le> 64
   \<and> 32 * unat (root_entry_count fs) \<le> 512 * unat (root_dir_sectors fs)
   \<and> unat (root_dir_start_lba fs) = unat (fat_start_lba fs) + unat (num_fats fs) * unat (sectors_per_fat fs)
   \<and> unat (data_start_lba fs) = unat (root_dir_start_lba fs) + unat (root_dir_sectors fs)"

text \<open>The end of the last cluster, counted from the start of the volume.\<close>

definition volume_sectors :: "fat12_fs \<Rightarrow> nat" where
  "volume_sectors fs =
     unat (data_start_lba fs) + unat (total_clusters fs) * unat (sectors_per_cluster fs)"

definition volume_fits :: "fat12_fs \<Rightarrow> nat \<Rightarrow> bool" where
  "volume_fits fs cap \<longleftrightarrow> cap \<le> 2 ^ 28 \<and> unat (base_lba fs) + volume_sectors fs \<le> cap"

lemma geometry_simps:
  assumes "geometry_ok fs"
  shows "0 < unat (sectors_per_cluster fs)" "unat (sectors_per_cluster fs) \<le> 32"
    "unat (cluster_size_bytes fs) = 512 * unat (sectors_per_cluster fs)"
    "0 < unat (total_clusters fs)" "unat (total_clusters fs) \<le> 4084"
    "0 < unat (sectors_per_fat fs)" "unat (sectors_per_fat fs) \<le> 64"
    "unat (fat_size_bytes fs) = 512 * unat (sectors_per_fat fs)"
    "unat (root_dir_sectors fs) \<le> 64"
    "32 * unat (root_entry_count fs) \<le> 512 * unat (root_dir_sectors fs)"
    "unat (root_dir_start_lba fs) = unat (fat_start_lba fs) + unat (num_fats fs) * unat (sectors_per_fat fs)"
    "unat (data_start_lba fs) = unat (root_dir_start_lba fs) + unat (root_dir_sectors fs)"
  using assms by (auto simp: geometry_ok_def)

section \<open>The arithmetic of \<open>fat12_init\<close>\<close>

lemma unat_u32_add: "unat (a :: u32) + unat b < 2 ^ 32 \<Longrightarrow> unat (a + b) = unat a + unat b"
  by (simp add: unat_word_ariths)

lemma unat_u32_mult: "unat (a :: u32) * unat b < 2 ^ 32 \<Longrightarrow> unat (a * b) = unat a * unat b"
  by (simp add: unat_word_ariths)

lemma unat_u8_bound: "unat (b :: u8) < 256"
  using unsigned_less [of b] by simp

lemma unat_u16_bound: "unat (b :: u16) < 65536"
  using unsigned_less [of b] by simp

lemma unat_u32_bound: "unat (b :: u32) < 4294967296"
  using unsigned_less [of b] by simp

lemma unat_u8_le: "unat (b :: u8) \<le> 255"
  using unat_u8_bound [of b] by linarith

text \<open>The root directory size in sectors always fits its \<open>uint16_t\<close>.\<close>

lemma root_dir_sectors_init:
  "unat (root_dir_sectors (init_sizes fs)) = (unat (root_entry_count fs) * 32 + 511) div 512"
proof -
  have "unat (root_entry_count fs) < 65536" by (rule unat_u16_bound)
  then have "(unat (root_entry_count fs) * 32 + 511) div 512 < 65536" by linarith
  then show ?thesis by (simp add: init_sizes_def unat_of_nat)
qed

lemma fat_size_init:
  "unat (sectors_per_fat fs) \<le> 64 \<Longrightarrow>
   unat (fat_size_bytes (init_sizes fs)) = 512 * unat (sectors_per_fat fs)"
  by (simp add: init_sizes_def unat_word_ariths)

text \<open>
  The layout. If the reserved area, the tables and the root directory did not fit the
  volume, the subtraction would wrap to more than 134 million clusters and the test
  against 4084 would reject it.
\<close>

lemma init_layout_ok:
  assumes fs: "fs' = init_layout fs"
    and spc: "1 \<le> unat (sectors_per_cluster fs)" "unat (sectors_per_cluster fs) \<le> 32"
    and spf: "unat (sectors_per_fat fs) \<le> 64"
    and rds: "unat (root_dir_sectors fs) \<le> 64"
    and tc: "unat (total_clusters fs') \<le> 4084"
  shows "unat (fat_start_lba fs') = unat (reserved_sectors fs)"
    and "unat (root_dir_start_lba fs') = unat (fat_start_lba fs') + unat (num_fats fs) * unat (sectors_per_fat fs)"
    and "unat (data_start_lba fs') = unat (root_dir_start_lba fs') + unat (root_dir_sectors fs)"
    and "unat (cluster_size_bytes fs') = 512 * unat (sectors_per_cluster fs)"
    and "volume_sectors fs' \<le> unat (total_sectors fs)"
proof -
  let ?nf = "unat (num_fats fs)" and ?spf = "unat (sectors_per_fat fs)"
  let ?spc = "unat (sectors_per_cluster fs)"
  let ?fsec = "ucast (num_fats fs) * ucast (sectors_per_fat fs) :: u32"
  have prod: "?nf * ?spf \<le> 255 * 64"
    using unat_u8_le [of "num_fats fs"] spf by (intro mult_mono) auto
  then have fsec: "unat ?fsec = ?nf * ?spf"
    by (subst unat_u32_mult) auto
  have res: "unat (reserved_sectors fs) < 65536" by (rule unat_u16_bound)
  show fat: "unat (fat_start_lba fs') = unat (reserved_sectors fs)"
    by (simp add: fs init_layout_def Let_def)
  have "unat (ucast (reserved_sectors fs) + ?fsec) = unat (reserved_sectors fs) + ?nf * ?spf"
    using prod res by (subst unat_u32_add) (auto simp: fsec)
  then show root: "unat (root_dir_start_lba fs') = unat (fat_start_lba fs') + ?nf * ?spf"
    using fat by (simp add: fs init_layout_def Let_def)
  have "unat (root_dir_start_lba fs' + ucast (root_dir_sectors fs)) =
      unat (root_dir_start_lba fs') + unat (root_dir_sectors fs)"
    using root fat prod res rds by (subst unat_u32_add) auto
  then show data: "unat (data_start_lba fs') = unat (root_dir_start_lba fs') + unat (root_dir_sectors fs)"
    by (simp add: fs init_layout_def Let_def)
  show "unat (cluster_size_bytes fs') = 512 * ?spc"
    using spc by (simp add: fs init_layout_def Let_def unat_word_ariths)
  have dsum: "data_start_lba fs' = ucast (reserved_sectors fs) + ?fsec + ucast (root_dir_sectors fs)"
    by (simp add: fs init_layout_def Let_def)
  have tds: "total_data_sectors fs' = total_sectors fs - data_start_lba fs'"
    unfolding dsum by (simp add: fs init_layout_def Let_def)
  have tcl: "unat (total_clusters fs') = unat (total_data_sectors fs') div ?spc"
    by (simp add: fs init_layout_def Let_def unat_div)
  have dbound: "unat (data_start_lba fs') < 90000" using data root fat prod res rds by linarith
  have fits: "unat (data_start_lba fs') \<le> unat (total_sectors fs)"
  proof (rule ccontr)
    assume "\<not> ?thesis"
    then have lt: "unat (total_sectors fs) < unat (data_start_lba fs')" by simp
    then have "unat (total_data_sectors fs') =
        2 ^ 32 + unat (total_sectors fs) - unat (data_start_lba fs')"
      unfolding tds by (simp add: unat_sub_if' word_le_nat_alt)
    then have "4000000000 \<le> unat (total_data_sectors fs')" using dbound lt by simp
    then have "4000000000 div ?spc \<le> unat (total_data_sectors fs') div ?spc"
      by (rule div_le_mono)
    moreover have "4000000000 div 32 \<le> 4000000000 div ?spc"
      using spc by (intro div_le_mono2) auto
    ultimately show False using tc tcl by simp
  qed
  have "unat (total_data_sectors fs') = unat (total_sectors fs) - unat (data_start_lba fs')"
    unfolding tds using fits by (simp add: unat_sub word_le_nat_alt)
  moreover have "unat (total_clusters fs') * ?spc \<le> unat (total_data_sectors fs')"
    unfolding tcl by simp
  moreover have "sectors_per_cluster fs' = sectors_per_cluster fs"
    by (simp add: fs init_layout_def Let_def)
  ultimately show "volume_sectors fs' \<le> unat (total_sectors fs)"
    using fits by (simp add: volume_sectors_def)
qed

section \<open>A mounted volume\<close>

text \<open>The record that a successful mount installs, and the tests it has passed.\<close>

lemma init_load_success:
  assumes "init_load D base s = (Inr (), s')"
  shows "g_fs s' = g_fs s" "g_fs_ready s'" "\<not> g_fat_dirty s'" "\<not> g_root_dirty s'"
    "g_current_dir_cluster s' = 0" "g_path_stack s' = []" "g_path_names s' = []" "g_cwd s' = [0x2F]"
  using assms by (auto simp: init_load_def Let_def split: if_splits prod.splits)

lemma init_success_record:
  assumes "fat12_init D base s = (Inr (), s')"
  obtains bpb s3 where
    "g_fs s' = init_layout (init_sizes (init_copy_bpb bpb base (g_fs s)))"
    "bpb_sectors_per_cluster bpb \<noteq> 0" "bpb_sectors_per_cluster bpb \<le> 32"
    "bpb_sectors_per_fat_16 bpb \<noteq> 0" "bpb_sectors_per_fat_16 bpb \<le> 64"
    "root_dir_sectors (init_sizes (init_copy_bpb bpb base (g_fs s))) \<le> 64"
    "total_clusters (g_fs s') \<noteq> 0" "total_clusters (g_fs s') \<le> 4084"
    "init_load D base s3 = (Inr (), s')"
proof -
  obtain rc sector d0 where rd: "op_read_sector D base (Some 0) (\<lambda>_. 0) (disk s) = (rc, sector, d0)"
    by (metis prod_cases3)
  let ?fs1 = "init_copy_bpb (bpb_at sector) base (g_fs s)"
  let ?fs3 = "init_layout (init_sizes ?fs1)"
  let ?s3 = "s\<lparr>disk := d0, g_fs := ?fs3\<rparr>"
  have load: "init_load D base ?s3 = (Inr (), s')"
    and spc: "\<not> (sectors_per_cluster ?fs1 = 0 \<or> sectors_per_cluster ?fs1 > 32)"
    and spf: "\<not> (sectors_per_fat ?fs1 = 0 \<or> sectors_per_fat ?fs1 > 64)"
    and rds: "\<not> root_dir_sectors (init_sizes ?fs1) > 64"
    and tc: "\<not> (total_clusters ?fs3 < 1 \<or> total_clusters ?fs3 > 4084)"
    using assms unfolding fat12_init_def rd by (simp_all add: Let_def split: if_split_asm)
  have "g_fs s' = ?fs3" using init_load_success(1) [OF load] by simp
  then show thesis
    using load spc spf rds tc
    by (intro that [of "bpb_at sector" ?s3]) (auto simp: init_copy_bpb_def not_less)
qed

theorem init_geometry_aux:
  assumes "fat12_init D base s = (Inr (), s')"
  shows "geometry_ok (g_fs s') \<and> volume_sectors (g_fs s') \<le> unat (total_sectors (g_fs s'))
       \<and> base_lba (g_fs s') = base"
proof -
  from assms obtain bpb s3 where
    fs: "g_fs s' = init_layout (init_sizes (init_copy_bpb bpb base (g_fs s)))" and
    spc: "bpb_sectors_per_cluster bpb \<noteq> 0" "bpb_sectors_per_cluster bpb \<le> 32" and
    spf: "bpb_sectors_per_fat_16 bpb \<noteq> 0" "bpb_sectors_per_fat_16 bpb \<le> 64" and
    rds: "root_dir_sectors (init_sizes (init_copy_bpb bpb base (g_fs s))) \<le> 64" and
    tc: "total_clusters (g_fs s') \<noteq> 0" "total_clusters (g_fs s') \<le> 4084"
    by (rule init_success_record)
  let ?fs1 = "init_copy_bpb bpb base (g_fs s)"
  let ?fs2 = "init_sizes ?fs1"
  have f1: "sectors_per_cluster ?fs2 = bpb_sectors_per_cluster bpb"
    "sectors_per_fat ?fs2 = bpb_sectors_per_fat_16 bpb"
    by (simp_all add: init_sizes_def init_copy_bpb_def)
  have spc_n: "1 \<le> unat (sectors_per_cluster ?fs2)" "unat (sectors_per_cluster ?fs2) \<le> 32"
    using spc unat_gt_0 [of "bpb_sectors_per_cluster bpb"] by (auto simp: f1 word_le_nat_alt Suc_le_eq)
  have spf_n: "1 \<le> unat (sectors_per_fat ?fs2)" "unat (sectors_per_fat ?fs2) \<le> 64"
    using spf unat_gt_0 [of "bpb_sectors_per_fat_16 bpb"] by (auto simp: f1 word_le_nat_alt Suc_le_eq)
  have rds_n: "unat (root_dir_sectors ?fs2) \<le> 64" using rds by (simp add: word_le_nat_alt)
  have tc_n: "1 \<le> unat (total_clusters (g_fs s'))" "unat (total_clusters (g_fs s')) \<le> 4084"
    using tc unat_gt_0 [of "total_clusters (g_fs s')"] by (auto simp: word_le_nat_alt Suc_le_eq)
  note lay = init_layout_ok [OF fs spc_n spf_n(2) rds_n tc_n(2)]
  have kept: "sectors_per_cluster (g_fs s') = sectors_per_cluster ?fs2"
    "sectors_per_fat (g_fs s') = sectors_per_fat ?fs2" "num_fats (g_fs s') = num_fats ?fs2"
    "root_dir_sectors (g_fs s') = root_dir_sectors ?fs2"
    "root_entry_count (g_fs s') = root_entry_count ?fs2"
    "fat_size_bytes (g_fs s') = fat_size_bytes ?fs2"
    "total_sectors (g_fs s') = total_sectors ?fs2" "base_lba (g_fs s') = base"
    by (simp_all add: fs init_layout_def Let_def init_sizes_def init_copy_bpb_def)
  have "unat (fat_size_bytes ?fs2) = 512 * unat (sectors_per_fat ?fs2)"
    using fat_size_init [of ?fs1] spf_n by (simp add: init_sizes_def)
  moreover have "32 * unat (root_entry_count ?fs2) \<le> 512 * unat (root_dir_sectors ?fs2)"
    using root_dir_sectors_init [of ?fs1] by (simp add: init_sizes_def)
  ultimately show ?thesis
    using lay spc_n spf_n rds_n tc_n by (simp add: geometry_ok_def kept)
qed

end
