(* ===== verification/Fat12_Cluster.thy ===== *)
theory Fat12_Cluster
  imports Fat12_Geometry
begin

text \<open>
  Cluster input and output on a working disk: where a cluster lies, that the address
  arithmetic of \<open>fat12_cluster_to_lba\<close> never wraps on a mounted volume, and what
  reading, writing and allocating a cluster do to the stored bytes. The lemmas that
  need the disk's promises are proved inside the interface \<open>sector_store\<close>.
\<close>

section \<open>Clusters as blocks of the store\<close>

definition cluster_sector :: "fat12_fs \<Rightarrow> u16 \<Rightarrow> nat" where
  "cluster_sector fs c =
     unat (base_lba fs) + unat (data_start_lba fs) + (unat c - 2) * unat (sectors_per_cluster fs)"

definition valid_cluster :: "fat12_fs \<Rightarrow> u16 \<Rightarrow> bool" where
  "valid_cluster fs c \<longleftrightarrow> 2 \<le> unat c \<and> unat c < unat (total_clusters fs) + 2"

definition cluster_data :: "(nat \<Rightarrow> byte list) \<Rightarrow> fat12_fs \<Rightarrow> u16 \<Rightarrow> byte list" where
  "cluster_data S fs c = sectors_data S (cluster_sector fs c) (unat (sectors_per_cluster fs))"

definition cluster_bytes :: "fat12_fs \<Rightarrow> nat" where
  "cluster_bytes fs = 512 * unat (sectors_per_cluster fs)"

text \<open>The volume is mounted, its geometry is sound and it lies on a working disk.\<close>

definition mounted :: "('d \<Rightarrow> bool) \<Rightarrow> nat \<Rightarrow> 'd fat12_state \<Rightarrow> bool" where
  "mounted healthy cap s \<longleftrightarrow>
     g_fs_ready s \<and> healthy (disk s) \<and> geometry_ok (g_fs s) \<and> volume_fits (g_fs s) cap"

lemma valid_cluster_link:
  assumes "geometry_ok fs" and "valid_cluster fs c"
  shows "chain_link c" "c \<noteq> 0" "2 \<le> c"
proof -
  from assms have "2 \<le> unat c" "unat c < 4088" by (auto simp: valid_cluster_def geometry_ok_def)
  then show "chain_link c" by (simp add: chain_link_def word_le_nat_alt word_less_nat_alt)
  then show "c \<noteq> 0" "2 \<le> c" by (auto simp: chain_link_def)
qed

lemma cluster_sector_fits:
  assumes "volume_fits fs cap" and "valid_cluster fs c"
  shows "cluster_sector fs c + unat (sectors_per_cluster fs) \<le> cap" "cap \<le> 2 ^ 28"
proof -
  from assms(2) have "Suc (unat c - 2) \<le> unat (total_clusters fs)" by (auto simp: valid_cluster_def)
  then have "Suc (unat c - 2) * unat (sectors_per_cluster fs)
      \<le> unat (total_clusters fs) * unat (sectors_per_cluster fs)"
    by (rule mult_le_mono1)
  with assms(1) show "cluster_sector fs c + unat (sectors_per_cluster fs) \<le> cap"
    by (simp add: cluster_sector_def volume_fits_def volume_sectors_def)
  from assms(1) show "cap \<le> 2 ^ 28" by (simp add: volume_fits_def)
qed

lemma cluster_sector_apart:
  assumes "valid_cluster fs c" "valid_cluster fs c'" "c \<noteq> c'"
  shows "cluster_sector fs c + unat (sectors_per_cluster fs) \<le> cluster_sector fs c'
       \<or> cluster_sector fs c' + unat (sectors_per_cluster fs) \<le> cluster_sector fs c"
proof -
  have apart: "(unat a - 2) * n + n \<le> (unat b - 2) * n"
    if "unat a < unat b" "2 \<le> unat a" for a b :: u16 and n
  proof -
    have "Suc (unat a - 2) \<le> unat b - 2" using that by linarith
    then have "Suc (unat a - 2) * n \<le> (unat b - 2) * n" by (rule mult_le_mono1)
    then show ?thesis by simp
  qed
  have "unat c \<noteq> unat c'" using assms(3) by (simp add: word_unat_eq_iff)
  then consider "unat c < unat c'" | "unat c' < unat c" by linarith
  then show ?thesis
    using apart [of c c'] apart [of c' c] assms(1,2)
    by cases (auto simp: cluster_sector_def valid_cluster_def)
qed

text \<open>The data area starts after the tables and the root directory.\<close>

lemma cluster_sector_data_area:
  "unat (base_lba fs) + unat (data_start_lba fs) \<le> cluster_sector fs c"
  by (simp add: cluster_sector_def)

lemma cluster_lba_no_wrap:
  assumes geo: "geometry_ok (g_fs s)" and fits: "volume_fits (g_fs s) cap"
    and valid: "valid_cluster (g_fs s) c"
  shows "unat (base_lba (g_fs s) + fat12_cluster_to_lba s c) = cluster_sector (g_fs s) c"
proof -
  let ?fs = "g_fs s" and ?rel = "ucast (c - 2) :: u32"
  have ge: "2 \<le> c" using valid_cluster_link [OF geo valid] by simp
  have sub: "unat (c - 2) = unat c - 2"
    using ge by (simp add: unat_sub)
  then have rel: "unat ?rel = unat c - 2" by simp
  have total: "cluster_sector ?fs c \<le> 2 ^ 28"
    using cluster_sector_fits [OF fits valid] by linarith
  let ?off = "?rel * ucast (sectors_per_cluster ?fs)"
  have off: "unat ?off = (unat c - 2) * unat (sectors_per_cluster ?fs)"
    using total by (subst unat_u32_mult) (auto simp: sub cluster_sector_def)
  have "unat (data_start_lba ?fs + ?off) = unat (data_start_lba ?fs) + unat ?off"
    using total by (intro unat_u32_add) (simp add: off cluster_sector_def)
  moreover from this have "unat (base_lba ?fs + (data_start_lba ?fs + ?off)) =
      unat (base_lba ?fs) + unat (data_start_lba ?fs + ?off)"
    using total by (intro unat_u32_add) (simp add: off cluster_sector_def)
  moreover have "\<not> c < 2" using ge by simp
  ultimately show ?thesis
    by (simp add: fat12_cluster_to_lba_def Let_def off cluster_sector_def)
qed

lemma cluster_data_update:
  assumes "valid_cluster fs c" "valid_cluster fs x"
  shows "cluster_data (sectors_update S (cluster_sector fs c) (unat (sectors_per_cluster fs)) m 0) fs x =
    (if x = c then mem_get m 0 (cluster_bytes fs) else cluster_data S fs x)"
  using assms cluster_sector_apart [of fs x c]
  by (auto simp: cluster_data_def cluster_bytes_def sectors_data_update_same sectors_data_update_disjoint)

lemma cluster_data_update_outside:
  assumes "lba + n \<le> unat (base_lba fs) + unat (data_start_lba fs)"
  shows "cluster_data (sectors_update S lba n m off) fs x = cluster_data S fs x"
  unfolding cluster_data_def using assms cluster_sector_data_area [of fs x]
  by (intro sectors_data_update_disjoint) simp

definition free_clusters :: "'d fat12_state \<Rightarrow> u16 set" where
  "free_clusters s = {c. valid_cluster (g_fs s) c \<and> fat12_get_fat_entry s c = FAT12_CLUSTER_FREE}"

section \<open>Reading, writing and allocating on a working disk\<close>

context sector_store
begin

lemma cluster_data_length:
  assumes "healthy d" "volume_fits fs cap" "valid_cluster fs c"
  shows "length (cluster_data (sector d) fs c) = cluster_bytes fs"
  using assms cluster_sector_fits [OF assms(2,3)]
  by (simp add: cluster_data_def cluster_bytes_def sectors_length)

lemma read_cluster:
  assumes "mounted healthy cap s" and "valid_cluster (g_fs s) c"
  shows "\<exists>d'. fat12_read_cluster D c s =
      (0, s\<lparr>g_cluster_buffer := mem_put (g_cluster_buffer s) 0
                                  (cluster_data (sector (disk s)) (g_fs s) c),
            disk := d'\<rparr>) \<and> healthy d' \<and> sector d' = sector (disk s)"
proof -
  from assms(1) have g: "healthy (disk s)" "geometry_ok (g_fs s)" "volume_fits (g_fs s) cap"
    by (auto simp: mounted_def)
  let ?n = "ucast (sectors_per_cluster (g_fs s)) :: u16"
  have pos: "0 < unat ?n" using geometry_simps(1) [OF g(2)] by simp
  note lba = cluster_lba_no_wrap [OF g(2,3) assms(2)]
  from read_sectors [OF g(1) pos, of "base_lba (g_fs s) + fat12_cluster_to_lba s c" 0
      "g_cluster_buffer s"] cluster_sector_fits [OF g(3) assms(2)]
  show ?thesis by (auto simp: fat12_read_cluster_def lba cluster_data_def)
qed

lemma write_cluster:
  assumes "mounted healthy cap s" and "valid_cluster (g_fs s) c"
  shows "\<exists>d'. fat12_write_cluster D c s = (0, s\<lparr>disk := d'\<rparr>) \<and> healthy d'
      \<and> sector d' = sectors_update (sector (disk s)) (cluster_sector (g_fs s) c)
                      (unat (sectors_per_cluster (g_fs s))) (g_cluster_buffer s) 0"
proof -
  from assms(1) have g: "healthy (disk s)" "geometry_ok (g_fs s)" "volume_fits (g_fs s) cap"
    by (auto simp: mounted_def)
  let ?n = "ucast (sectors_per_cluster (g_fs s)) :: u16"
  have pos: "0 < unat ?n" using geometry_simps(1) [OF g(2)] by simp
  note lba = cluster_lba_no_wrap [OF g(2,3) assms(2)]
  from write_sectors [OF g(1) pos, of "base_lba (g_fs s) + fat12_cluster_to_lba s c" 0
      "g_cluster_buffer s"] cluster_sector_fits [OF g(3) assms(2)]
  show ?thesis by (auto simp: fat12_write_cluster_def lba)
qed

text \<open>The search meets the first free cluster at or after \<open>c\<close>, zeroes it and marks it.\<close>

lemma allocate_from_none:
  assumes "\<forall>k. c \<le> k \<and> k < c + left \<longrightarrow> fat12_get_fat_entry s (of_nat k) \<noteq> FAT12_CLUSTER_FREE"
  shows "allocate_from D c left s = (0, s)"
  using assms by (induction left arbitrary: c) auto

lemma allocate_here:
  assumes "mounted healthy cap s" and "valid_cluster (g_fs s) k"
    and "fat12_get_fat_entry s k = FAT12_CLUSTER_FREE" and "unat k = c"
  shows "\<exists>b d'. allocate_from D c (Suc left) s =
              (k, (fat12_set_fat_entry k FAT12_CLUSTER_EOC s)\<lparr>g_cluster_buffer := b, disk := d'\<rparr>)
          \<and> healthy d'
          \<and> sector d' = sectors_update (sector (disk s)) (cluster_sector (g_fs s) k)
                          (unat (sectors_per_cluster (g_fs s))) b 0
          \<and> mem_get b 0 (cluster_bytes (g_fs s)) = replicate (cluster_bytes (g_fs s)) 0"
proof -
  have geo: "geometry_ok (g_fs s)" using assms(1) by (simp add: mounted_def)
  have k: "of_nat c = k" using assms(4) by auto
  let ?s1 = "fat12_set_fat_entry k FAT12_CLUSTER_EOC s"
  let ?b = "fat12_memset (g_cluster_buffer ?s1) 0 0 (unat (cluster_size_bytes (g_fs ?s1)))"
  let ?s2 = "?s1\<lparr>g_cluster_buffer := ?b\<rparr>"
  have m2: "mounted healthy cap ?s2" using assms(1) by (simp add: mounted_def)
  have v2: "valid_cluster (g_fs ?s2) k" using assms(2) by simp
  obtain d' where w: "fat12_write_cluster D k ?s2 = (0, ?s2\<lparr>disk := d'\<rparr>)" "healthy d'"
      "sector d' = sectors_update (sector (disk s)) (cluster_sector (g_fs s) k)
                      (unat (sectors_per_cluster (g_fs s))) ?b 0"
    using write_cluster [OF m2 v2] by auto
  have zero: "mem_get ?b 0 (cluster_bytes (g_fs s)) = replicate (cluster_bytes (g_fs s)) 0"
    using geometry_simps(3) [OF geo] by (simp add: cluster_bytes_def mem_simps)
  have "allocate_from D c (Suc left) s = (k, ?s1\<lparr>g_cluster_buffer := ?b, disk := d'\<rparr>)"
    using assms(3) w(1) by (simp add: Let_def k)
  with w(2,3) zero show ?thesis by blast
qed

lemma allocate_from_found:
  assumes "mounted healthy cap s" and "valid_cluster (g_fs s) k"
    and "fat12_get_fat_entry s k = FAT12_CLUSTER_FREE"
    and "\<forall>j. c \<le> j \<and> j < unat k \<longrightarrow> fat12_get_fat_entry s (of_nat j) \<noteq> FAT12_CLUSTER_FREE"
    and "c \<le> unat k" "unat k < c + left"
  shows "\<exists>b d'. allocate_from D c left s =
              (k, (fat12_set_fat_entry k FAT12_CLUSTER_EOC s)\<lparr>g_cluster_buffer := b, disk := d'\<rparr>)
          \<and> healthy d'
          \<and> sector d' = sectors_update (sector (disk s)) (cluster_sector (g_fs s) k)
                          (unat (sectors_per_cluster (g_fs s))) b 0
          \<and> mem_get b 0 (cluster_bytes (g_fs s)) = replicate (cluster_bytes (g_fs s)) 0"
  using assms(4-6)
proof (induction left arbitrary: c)
  case 0
  then show ?case by simp
next
  case (Suc left)
  show ?case
  proof (cases "c = unat k")
    case True
    then show ?thesis using allocate_here [OF assms(1-3), of c left] by blast
  next
    case False
    then have "fat12_get_fat_entry s (of_nat c) \<noteq> FAT12_CLUSTER_FREE" using Suc.prems by auto
    moreover from Suc.prems False have "\<exists>b d'. allocate_from D (Suc c) left s =
              (k, (fat12_set_fat_entry k FAT12_CLUSTER_EOC s)\<lparr>g_cluster_buffer := b, disk := d'\<rparr>)
          \<and> healthy d'
          \<and> sector d' = sectors_update (sector (disk s)) (cluster_sector (g_fs s) k)
                          (unat (sectors_per_cluster (g_fs s))) b 0
          \<and> mem_get b 0 (cluster_bytes (g_fs s)) = replicate (cluster_bytes (g_fs s)) 0"
      by (intro Suc.IH) auto
    ultimately show ?thesis by (simp only: allocate_from.simps Let_def if_False)
  qed
qed

text \<open>The candidates of \<open>fat12_allocate_cluster\<close> are the valid clusters.\<close>

lemma candidates:
  assumes "geometry_ok fs"
  shows "unat (total_clusters fs + 2) - 2 = unat (total_clusters fs)"
proof -
  have "unat (total_clusters fs + 2) = unat (total_clusters fs) + unat (2 :: u32)"
    using geometry_simps(5) [OF assms] by (intro unat_u32_add) simp
  then show ?thesis by simp
qed

lemma valid_cluster_of_nat:
  assumes "geometry_ok fs" "2 \<le> j" "j < unat (total_clusters fs) + 2"
  shows "unat (of_nat j :: u16) = j" "valid_cluster fs (of_nat j)"
proof -
  show *: "unat (of_nat j :: u16) = j"
    using assms(3) geometry_simps(5) [OF assms(1)] by (simp add: unat_of_nat)
  show "valid_cluster fs (of_nat j)" using assms by (simp add: valid_cluster_def *)
qed

lemma allocate_cluster_spec:
  assumes m: "mounted healthy cap s"
  shows "free_clusters s = {} \<and> fat12_allocate_cluster D s = (0, s)
     \<or> (\<exists>k b d'. k \<in> free_clusters s \<and> (\<forall>j \<in> free_clusters s. k \<le> j)
          \<and> fat12_allocate_cluster D s =
              (k, (fat12_set_fat_entry k FAT12_CLUSTER_EOC s)\<lparr>g_cluster_buffer := b, disk := d'\<rparr>)
          \<and> healthy d'
          \<and> sector d' = sectors_update (sector (disk s)) (cluster_sector (g_fs s) k)
                          (unat (sectors_per_cluster (g_fs s))) b 0
          \<and> mem_get b 0 (cluster_bytes (g_fs s)) = replicate (cluster_bytes (g_fs s)) 0)"
proof -
  have geo: "geometry_ok (g_fs s)" using m by (simp add: mounted_def)
  let ?n = "unat (total_clusters (g_fs s))"
  have alloc: "fat12_allocate_cluster D s = allocate_from D 2 ?n s"
    by (simp add: fat12_allocate_cluster_def candidates [OF geo])
  show ?thesis
  proof (cases "free_clusters s = {}")
    case True
    have "fat12_get_fat_entry s (of_nat j) \<noteq> FAT12_CLUSTER_FREE" if "2 \<le> j" "j < 2 + ?n" for j
      using True valid_cluster_of_nat [OF geo, of j] that by (auto simp: free_clusters_def)
    then show ?thesis using True alloc by (intro disjI1) (simp add: allocate_from_none)
  next
    case False
    define k where "k = Min (free_clusters s)"
    have k: "k \<in> free_clusters s" "\<forall>j \<in> free_clusters s. k \<le> j"
      unfolding k_def using False by simp_all
    have "fat12_get_fat_entry s (of_nat j) \<noteq> FAT12_CLUSTER_FREE" if "2 \<le> j" "j < unat k" for j
    proof
      assume "fat12_get_fat_entry s (of_nat j) = FAT12_CLUSTER_FREE"
      moreover have j: "j < ?n + 2" using that k(1) by (simp add: free_clusters_def valid_cluster_def)
      ultimately have "of_nat j \<in> free_clusters s"
        using valid_cluster_of_nat [OF geo that(1) j] by (simp add: free_clusters_def)
      then have "unat k \<le> j"
        using k(2) valid_cluster_of_nat(1) [OF geo that(1) j] by (auto simp: word_le_nat_alt)
      with that show False by simp
    qed
    with k(1) have "\<exists>b d'. allocate_from D 2 ?n s =
              (k, (fat12_set_fat_entry k FAT12_CLUSTER_EOC s)\<lparr>g_cluster_buffer := b, disk := d'\<rparr>)
          \<and> healthy d'
          \<and> sector d' = sectors_update (sector (disk s)) (cluster_sector (g_fs s) k)
                          (unat (sectors_per_cluster (g_fs s))) b 0
          \<and> mem_get b 0 (cluster_bytes (g_fs s)) = replicate (cluster_bytes (g_fs s)) 0"
      by (intro allocate_from_found [OF m]) (auto simp: free_clusters_def valid_cluster_def)
    with k alloc show ?thesis by (intro disjI2 exI [of _ k]) simp
  qed
qed

end

end
