(* ===== verification/Fat12_Step.thy ===== *)
theory Fat12_Step
  imports Fat12_Cluster
begin

text \<open>
  What an operation may change. \<open>vol_step healthy sector s s' F C\<close> says that going from
  \<open>s\<close> to \<open>s'\<close> changed table entries only in \<open>F\<close>, stored data only in the clusters \<open>C\<close>
  (0 stands for the cached root directory), no sector outside those clusters, and set
  the dirty flag of every cache it changed. The steps compose, so the effect of a long
  operation is the union of the effects of its parts.
\<close>

section \<open>Effects\<close>

definition cluster_span :: "fat12_fs \<Rightarrow> u16 \<Rightarrow> nat set" where
  "cluster_span fs c = {cluster_sector fs c ..< cluster_sector fs c + unat (sectors_per_cluster fs)}"

definition touched :: "fat12_fs \<Rightarrow> u16 set \<Rightarrow> nat set" where
  "touched fs C = (\<Union>c \<in> C - {0}. cluster_span fs c)"

definition same_config :: "'d fat12_state \<Rightarrow> 'd fat12_state \<Rightarrow> bool" where
  "same_config s s' \<longleftrightarrow>
     g_fs s' = g_fs s \<and> g_fs_ready s' = g_fs_ready s \<and> g_fat_secondary s' = g_fat_secondary s
   \<and> g_current_dir_cluster s' = g_current_dir_cluster s \<and> g_path_stack s' = g_path_stack s
   \<and> g_path_names s' = g_path_names s \<and> g_cwd s' = g_cwd s"

definition vol_step :: "('d \<Rightarrow> bool) \<Rightarrow> ('d \<Rightarrow> nat \<Rightarrow> byte list)
    \<Rightarrow> 'd fat12_state \<Rightarrow> 'd fat12_state \<Rightarrow> u16 set \<Rightarrow> u16 set \<Rightarrow> bool" where
  "vol_step healthy sector s s' F C \<longleftrightarrow>
     same_config s s' \<and> healthy (disk s')
   \<and> (\<forall>k. k \<notin> touched (g_fs s) C \<longrightarrow> sector (disk s') k = sector (disk s) k)
   \<and> (\<forall>x. x \<notin> F \<longrightarrow> fat12_get_fat_entry s' x = fat12_get_fat_entry s x)
   \<and> (g_fat_primary s' = g_fat_primary s \<and> g_fat_dirty s' = g_fat_dirty s \<or> g_fat_dirty s')
   \<and> (g_root_dir s' = g_root_dir s \<and> g_root_dirty s' = g_root_dirty s \<or> 0 \<in> C \<and> g_root_dirty s')"

lemma same_config_refl [simp]: "same_config s s"
  by (simp add: same_config_def)

lemma same_config_trans: "same_config a b \<Longrightarrow> same_config b c \<Longrightarrow> same_config a c"
  by (simp add: same_config_def)

lemma touched_mono: "C \<subseteq> C' \<Longrightarrow> touched fs C \<subseteq> touched fs C'"
  by (auto simp: touched_def)

lemma touched_empty [simp]: "touched fs {} = {}" "touched fs {0} = {}"
  by (simp_all add: touched_def)

lemma get_fat_entry_update [simp]:
  "fat12_get_fat_entry (s\<lparr>g_cluster_buffer := b\<rparr>) c = fat12_get_fat_entry s c"
  "fat12_get_fat_entry (s\<lparr>disk := d\<rparr>) c = fat12_get_fat_entry s c"
  "fat12_get_fat_entry (s\<lparr>g_root_dir := m\<rparr>) c = fat12_get_fat_entry s c"
  "fat12_get_fat_entry (s\<lparr>g_root_dirty := r\<rparr>) c = fat12_get_fat_entry s c"
  "fat12_get_fat_entry (s\<lparr>g_fat_dirty := r\<rparr>) c = fat12_get_fat_entry s c"
  by (simp_all add: fat12_get_fat_entry_def)

lemma vol_step_buffer [simp]:
  "vol_step healthy sector s (s'\<lparr>g_cluster_buffer := b\<rparr>) F C = vol_step healthy sector s s' F C"
  "vol_step healthy sector (s\<lparr>g_cluster_buffer := b\<rparr>) s' F C = vol_step healthy sector s s' F C"
  by (simp_all add: vol_step_def same_config_def)

lemma vol_step_refl: "healthy (disk s) \<Longrightarrow> vol_step healthy sector s s F C"
  by (simp add: vol_step_def)

lemma vol_step_weaken:
  "vol_step healthy sector s s' F C \<Longrightarrow> F \<subseteq> F' \<Longrightarrow> C \<subseteq> C' \<Longrightarrow> vol_step healthy sector s s' F' C'"
  using touched_mono [of C C' "g_fs s"] unfolding vol_step_def by blast

lemma vol_step_sector:
  "vol_step healthy sector s s' F C \<Longrightarrow> k \<notin> touched (g_fs s) C \<Longrightarrow>
   sector (disk s') k = sector (disk s) k"
  by (simp add: vol_step_def)

lemma vol_step_trans:
  assumes "vol_step healthy sector a b F C" and "vol_step healthy sector b c F' C'"
  shows "vol_step healthy sector a c (F \<union> F') (C \<union> C')"
proof -
  have fs: "g_fs b = g_fs a" using assms(1) by (simp add: vol_step_def same_config_def)
  have sub: "touched (g_fs a) C \<subseteq> touched (g_fs a) (C \<union> C')"
    "touched (g_fs a) C' \<subseteq> touched (g_fs a) (C \<union> C')"
    by (auto intro!: touched_mono)
  have "same_config a c" using assms same_config_trans unfolding vol_step_def by blast
  moreover have "sector (disk c) k = sector (disk a) k" if "k \<notin> touched (g_fs a) (C \<union> C')" for k
    using that sub vol_step_sector [OF assms(1), of k] vol_step_sector [OF assms(2), of k]
    unfolding fs by (metis subsetD)
  moreover have "fat12_get_fat_entry c x = fat12_get_fat_entry a x" if "x \<notin> F \<union> F'" for x
    using assms that by (auto simp: vol_step_def)
  moreover have "g_fat_primary c = g_fat_primary a \<and> g_fat_dirty c = g_fat_dirty a \<or> g_fat_dirty c"
    using assms by (auto simp: vol_step_def)
  moreover have "g_root_dir c = g_root_dir a \<and> g_root_dirty c = g_root_dirty a
      \<or> 0 \<in> C \<union> C' \<and> g_root_dirty c"
    using assms by (auto simp: vol_step_def)
  moreover have "healthy (disk c)" using assms(2) by (simp add: vol_step_def)
  ultimately show ?thesis by (simp add: vol_step_def)
qed

lemma vol_step_same:
  assumes "vol_step healthy sector s s' F C"
  shows "g_fs s' = g_fs s" "g_fs_ready s' = g_fs_ready s"
    "g_current_dir_cluster s' = g_current_dir_cluster s" "g_path_stack s' = g_path_stack s"
    "healthy (disk s')"
  using assms by (simp_all add: vol_step_def same_config_def)

lemma vol_step_mounted:
  "vol_step healthy sector s s' F C \<Longrightarrow> mounted healthy cap s \<Longrightarrow> mounted healthy cap s'"
  by (simp add: vol_step_def same_config_def mounted_def)

lemma vol_step_entry:
  "vol_step healthy sector s s' F C \<Longrightarrow> x \<notin> F \<Longrightarrow> fat12_get_fat_entry s' x = fat12_get_fat_entry s x"
  by (simp add: vol_step_def)

lemma vol_step_chain:
  assumes "vol_step healthy sector s s' F C" and "set cs \<inter> F = {}"
  shows "is_chain s' c cs = is_chain s c cs"
  using assms by (intro is_chain_cong) (auto intro: vol_step_entry)

lemma vol_step_root:
  "vol_step healthy sector s s' F C \<Longrightarrow> 0 \<notin> C \<Longrightarrow> g_root_dir s' = g_root_dir s"
  by (auto simp: vol_step_def)

text \<open>The clusters of a set and a cluster outside it share no sector.\<close>

lemma span_disjoint:
  assumes "valid_cluster fs c" "valid_cluster fs c'" "c \<noteq> c'"
  shows "cluster_span fs c \<inter> cluster_span fs c' = {}"
  using cluster_sector_apart [OF assms] by (auto simp: cluster_span_def)

lemma vol_step_data:
  assumes step: "vol_step healthy sector s s' F C"
    and valid: "valid_cluster (g_fs s) x" "\<forall>c \<in> C - {0}. valid_cluster (g_fs s) c" and x: "x \<notin> C"
  shows "cluster_data (sector (disk s')) (g_fs s') x = cluster_data (sector (disk s)) (g_fs s) x"
proof -
  have "k \<notin> touched (g_fs s) C" if "k \<in> cluster_span (g_fs s) x" for k
    using that span_disjoint [OF valid(1)] valid(2) x by (fastforce simp: touched_def)
  then have "sector (disk s') k = sector (disk s) k" if "k \<in> cluster_span (g_fs s) x" for k
    using step that by (simp add: vol_step_def)
  then show ?thesis
    unfolding cluster_data_def vol_step_same(1) [OF step]
    by (intro sectors_data_cong) (simp add: cluster_span_def)
qed

section \<open>The elementary steps\<close>

lemma step_set_fat:
  "healthy (disk s) \<Longrightarrow> vol_step healthy sector s (fat12_set_fat_entry c v s) {c} {}"
  by (simp add: vol_step_def same_config_def get_set)

lemma step_free_chain:
  assumes "healthy (disk s)" and "is_chain s c cs"
  shows "vol_step healthy sector s (fat12_free_chain c s) (set cs) {}"
proof -
  have "g_fat_primary (fat12_free_chain c s) = g_fat_primary s
      \<and> g_fat_dirty (fat12_free_chain c s) = g_fat_dirty s \<or> g_fat_dirty (fat12_free_chain c s)"
    for c :: u16 and s :: "'a fat12_state"
  proof (induction c s rule: fat12_free_chain.induct)
    case (1 c s)
    then show ?case by (cases "chain_link c") (auto simp: free_chain_step [of c s])
  qed
  with assms show ?thesis
    by (simp add: vol_step_def same_config_def free_chain_entries)
qed

context sector_store
begin

abbreviation step :: "'d fat12_state \<Rightarrow> 'd fat12_state \<Rightarrow> u16 set \<Rightarrow> u16 set \<Rightarrow> bool" where
  "step \<equiv> vol_step healthy sector"

abbreviation data_of :: "'d fat12_state \<Rightarrow> u16 \<Rightarrow> byte list" where
  "data_of s \<equiv> cluster_data (sector (disk s)) (g_fs s)"

lemma step_read_cluster:
  assumes m: "mounted healthy cap s" and v: "valid_cluster (g_fs s) c"
  obtains s1 where "fat12_read_cluster D c s = (0, s1)" "step s s1 {} {}"
    "g_cluster_buffer s1 = mem_put (g_cluster_buffer s) 0 (data_of s c)"
    "g_fat_primary s1 = g_fat_primary s" "g_fat_dirty s1 = g_fat_dirty s"
    "g_root_dir s1 = g_root_dir s" "g_root_dirty s1 = g_root_dirty s"
    "sector (disk s1) = sector (disk s)"
proof -
  from read_cluster [OF m v] obtain d' where d: "fat12_read_cluster D c s =
      (0, s\<lparr>g_cluster_buffer := mem_put (g_cluster_buffer s) 0 (data_of s c), disk := d'\<rparr>)"
    "healthy d'" "sector d' = sector (disk s)" by blast
  then show thesis
    by (intro that [OF d(1)]) (simp_all add: vol_step_def same_config_def fat12_get_fat_entry_def)
qed

lemma step_write_cluster:
  assumes m: "mounted healthy cap s" and v: "valid_cluster (g_fs s) c"
  obtains s1 where "fat12_write_cluster D c s = (0, s1)" "step s s1 {} {c}"
    "data_of s1 c = mem_get (g_cluster_buffer s) 0 (cluster_bytes (g_fs s))"
    "s1 = s\<lparr>disk := disk s1\<rparr>"
proof -
  have geo: "geometry_ok (g_fs s)" using m by (simp add: mounted_def)
  have c0: "c \<noteq> 0" using valid_cluster_link [OF geo v] by simp
  from write_cluster [OF m v] obtain d' where d: "fat12_write_cluster D c s = (0, s\<lparr>disk := d'\<rparr>)"
    "healthy d'" "sector d' = sectors_update (sector (disk s)) (cluster_sector (g_fs s) c)
                      (unat (sectors_per_cluster (g_fs s))) (g_cluster_buffer s) 0" by blast
  show thesis
  proof (rule that [OF d(1)])
    show "step s (s\<lparr>disk := d'\<rparr>) {} {c}"
      using d(2) c0 by (auto simp: vol_step_def same_config_def fat12_get_fat_entry_def d(3)
          touched_def cluster_span_def sectors_update_def)
    show "data_of (s\<lparr>disk := d'\<rparr>) c = mem_get (g_cluster_buffer s) 0 (cluster_bytes (g_fs s))"
      using cluster_data_update [OF v v] by (simp add: d(3))
  qed simp
qed

text \<open>Allocation delivers the least free cluster, zeroed and marked as the end of a chain.\<close>

lemma step_allocate:
  assumes m: "mounted healthy cap s" and free: "free_clusters s \<noteq> {}"
  obtains k s1 where "fat12_allocate_cluster D s = (k, s1)" "k \<in> free_clusters s"
    "\<forall>j \<in> free_clusters s. k \<le> j" "step s s1 {k} {k}"
    "fat12_get_fat_entry s1 k = FAT12_CLUSTER_EOC"
    "data_of s1 k = replicate (cluster_bytes (g_fs s)) 0"
    "g_root_dir s1 = g_root_dir s"
proof -
  have geo: "geometry_ok (g_fs s)" using m by (simp add: mounted_def)
  from allocate_cluster_spec [OF m] free obtain k b d' where k: "k \<in> free_clusters s"
    "\<forall>j \<in> free_clusters s. k \<le> j" and al: "fat12_allocate_cluster D s =
       (k, (fat12_set_fat_entry k FAT12_CLUSTER_EOC s)\<lparr>g_cluster_buffer := b, disk := d'\<rparr>)"
    "healthy d'" "sector d' = sectors_update (sector (disk s)) (cluster_sector (g_fs s) k)
                          (unat (sectors_per_cluster (g_fs s))) b 0"
    "mem_get b 0 (cluster_bytes (g_fs s)) = replicate (cluster_bytes (g_fs s)) 0"
    by blast
  let ?s1 = "(fat12_set_fat_entry k FAT12_CLUSTER_EOC s)\<lparr>g_cluster_buffer := b, disk := d'\<rparr>"
  have v: "valid_cluster (g_fs s) k" and f: "fat12_get_fat_entry s k = FAT12_CLUSTER_FREE"
    using k(1) by (auto simp: free_clusters_def)
  have k0: "k \<noteq> 0" using valid_cluster_link [OF geo v] by simp
  have in_f: "in_fat s k" using f get_out_of_fat [of s k] by (cases "in_fat s k") auto
  have same_get: "fat12_get_fat_entry ?s1 x = fat12_get_fat_entry (fat12_set_fat_entry k FAT12_CLUSTER_EOC s) x" for x
    by (simp add: fat12_get_fat_entry_def)
  show thesis
  proof (rule that [OF al(1) k])
    show "step s ?s1 {k} {k}"
      using al(2) k0 by (auto simp: vol_step_def same_config_def same_get get_set al(3)
          touched_def cluster_span_def sectors_update_def)
    show "fat12_get_fat_entry ?s1 k = FAT12_CLUSTER_EOC"
      by (simp add: same_get get_set in_f)
    show "data_of ?s1 k = replicate (cluster_bytes (g_fs s)) 0"
      using cluster_data_update [OF v v] by (simp add: al(3,4))
  qed simp
qed

lemma allocate_none:
  "mounted healthy cap s \<Longrightarrow> free_clusters s = {} \<Longrightarrow> fat12_allocate_cluster D s = (0, s)"
  using allocate_cluster_spec [of s] by blast

end

end
