(* ===== verification/Fat12_Dir_Refine.thy ===== *)
theory Fat12_Dir_Refine
  imports Fat12_Dir_Model Fat12_Step
begin

text \<open>
  The directory operations of \<open>fat12.c\<close> implement the slot lists of the directory model:
  \<open>dir_entries\<close> reads the slots of a directory out of the driver state and the disk,
  \<open>fat12_find_entry\<close> is \<open>dir_find\<close> on them, \<open>fat12_write_entry\<close> a list update, and
  \<open>fat12_write_directory_entry\<close> and \<open>fat12_mark_entry_deleted\<close> an update and a removal
  of the finite map. The root directory and a chain of clusters are treated alike.
\<close>

section \<open>Blocks of slots\<close>

definition block_entries :: "mem \<Rightarrow> nat \<Rightarrow> raw_dir_entry list" where
  "block_entries m n = map (\<lambda>i. entry_at m (32 * i)) [0..<n]"

definition list_mem :: "byte list \<Rightarrow> mem" where
  "list_mem bs = (\<lambda>i. if i < length bs then bs ! i else 0)"

lemma length_block_entries [simp]: "length (block_entries m n) = n"
  by (simp add: block_entries_def)

lemma nth_block_entries [simp]: "i < n \<Longrightarrow> block_entries m n ! i = entry_at m (32 * i)"
  by (simp add: block_entries_def)

lemma block_entries_wf: "e \<in> set (block_entries m n) \<Longrightarrow> wf_entry e"
  by (auto simp: block_entries_def)

lemma block_entries_cong:
  assumes "\<And>i. i < 32 * n \<Longrightarrow> m i = m' i"
  shows "block_entries m n = block_entries m' n"
  unfolding block_entries_def by (intro map_cong entry_at_cong) (use assms in auto)

lemma block_entries_put:
  assumes "wf_entry e" and "i < n"
  shows "block_entries (put_entry m (32 * i) e) n = (block_entries m n)[i := e]"
proof (rule nth_equalityI)
  fix j assume j: "j < length (block_entries (put_entry m (32 * i) e) n)"
  show "block_entries (put_entry m (32 * i) e) n ! j = (block_entries m n)[i := e] ! j"
  proof (cases "j = i")
    case True
    then show ?thesis using assms by (simp add: entry_at_put_same)
  next
    case False
    then have "32 * j + 32 \<le> 32 * i \<or> 32 * i + 32 \<le> 32 * j" by linarith
    then show ?thesis using assms j False by (simp add: entry_at_put_other)
  qed
qed simp

lemma entry_at_name: "m p = re_name (entry_at m p) ! 0"
  by (simp add: entry_at_def)

lemma find_scan_block:
  assumes "length name = 11"
  shows "find_scan m name i left = slot_scan (map (\<lambda>i. entry_at m (32 * i)) [i..<i + left]) name i"
proof (induction left arbitrary: i)
  case 0
  then show ?case by simp
next
  case (Suc left)
  have nm: "mem_get ((!) name) 0 11 = name"
    using assms by (intro nth_equalityI) auto
  have cmp: "fat12_memcmp m (32 * i) ((!) name) 0 11 = 0 \<longleftrightarrow> re_name (entry_at m (32 * i)) = name"
    by (simp add: fat12_memcmp_eq_0_iff nm) (simp add: entry_at_def)
  have first: "re_name (entry_at m (32 * i)) ! 0 = m (32 * i)" by (simp add: entry_at_def)
  show ?case
    using Suc.IH [of "Suc i"]
    by (simp add: upt_conv_Cons Let_def cmp slot_end_def slot_deleted_def first del: upt_Suc)
qed

lemma free_scan_block:
  "free_scan m i left = first_free (map (\<lambda>i. entry_at m (32 * i)) [i..<i + left]) i"
proof (induction left arbitrary: i)
  case 0
  then show ?case by simp
next
  case (Suc left)
  have first: "re_name (entry_at m (32 * i)) ! 0 = m (32 * i)" by (simp add: entry_at_def)
  have free: "fat12_is_free_entry m (32 * i) \<longleftrightarrow> \<not> slot_live (entry_at m (32 * i))"
    by (auto simp: fat12_is_free_entry_def slot_live_def slot_end_def slot_deleted_def first)
  show ?case
    using Suc.IH [of "Suc i"] by (simp add: upt_conv_Cons free del: upt_Suc)
qed

lemma find_scan_entries:
  "length name = 11 \<Longrightarrow> find_scan m name 0 n = slot_scan (block_entries m n) name 0"
  by (simp add: find_scan_block block_entries_def)

lemma free_scan_entries: "free_scan m 0 n = first_free (block_entries m n) 0"
  by (simp add: free_scan_block block_entries_def)

section \<open>The slots of a directory\<close>

definition entries_per_cluster :: "fat12_fs \<Rightarrow> nat" where
  "entries_per_cluster fs = 16 * unat (sectors_per_cluster fs)"

definition cluster_entries :: "(nat \<Rightarrow> byte list) \<Rightarrow> fat12_fs \<Rightarrow> u16 \<Rightarrow> raw_dir_entry list" where
  "cluster_entries S fs c = block_entries (list_mem (cluster_data S fs c)) (entries_per_cluster fs)"

text \<open>\<open>cs\<close> is the chain of a subdirectory; the root (number 0) has none.\<close>

definition dir_entries ::
    "(nat \<Rightarrow> byte list) \<Rightarrow> 'd fat12_state \<Rightarrow> u16 \<Rightarrow> u16 list \<Rightarrow> raw_dir_entry list" where
  "dir_entries S s dir cs =
     (if dir = 0 then block_entries (g_root_dir s) (unat (root_entry_count (g_fs s)))
      else concat (map (cluster_entries S (g_fs s)) cs))"

definition dir_slot :: "fat12_fs \<Rightarrow> u16 \<Rightarrow> u16 list \<Rightarrow> nat \<Rightarrow> u16 \<times> u16" where
  "dir_slot fs dir cs j =
     (if dir = 0 then (0, of_nat j)
      else (cs ! (j div entries_per_cluster fs), of_nat (j mod entries_per_cluster fs)))"

definition dir_chain :: "'d fat12_state \<Rightarrow> u16 \<Rightarrow> u16 list \<Rightarrow> bool" where
  "dir_chain s dir cs \<longleftrightarrow>
     (if dir = 0 then cs = []
      else cs \<noteq> [] \<and> is_chain s dir cs \<and> (\<forall>c \<in> set cs. valid_cluster (g_fs s) c
             \<and> fat12_get_fat_entry s c \<noteq> FAT12_CLUSTER_FREE))"

definition dir_owners :: "u16 \<Rightarrow> u16 list \<Rightarrow> u16 set" where
  "dir_owners dir cs = (if dir = 0 then {0} else set cs)"

lemma length_cluster_entries [simp]: "length (cluster_entries S fs c) = entries_per_cluster fs"
  by (simp add: cluster_entries_def)

lemma entries_per_cluster_pos: "geometry_ok fs \<Longrightarrow> 0 < entries_per_cluster fs"
  using geometry_simps(1) by (simp add: entries_per_cluster_def)

lemma entries_per_cluster_code:
  "geometry_ok fs \<Longrightarrow> unat (cluster_size_bytes fs div 32) = entries_per_cluster fs"
  using geometry_simps(3) [of fs] by (simp add: entries_per_cluster_def unat_div)

lemma entries_per_cluster_bytes: "32 * entries_per_cluster fs = cluster_bytes fs"
  by (simp add: entries_per_cluster_def cluster_bytes_def)

lemma entries_per_cluster_le: "geometry_ok fs \<Longrightarrow> entries_per_cluster fs \<le> 512"
  using geometry_simps(2) by (simp add: entries_per_cluster_def)

lemma length_chain_entries:
  "length (concat (map (cluster_entries S fs) cs)) = length cs * entries_per_cluster fs"
  by (induction cs) auto

lemma nth_chain_entries:
  assumes "j < length cs * entries_per_cluster fs"
  shows "concat (map (cluster_entries S fs) cs) ! j =
    cluster_entries S fs (cs ! (j div entries_per_cluster fs)) ! (j mod entries_per_cluster fs)"
  using assms
proof (induction cs arbitrary: j)
  case Nil
  then show ?case by simp
next
  case (Cons c cs)
  let ?n = "entries_per_cluster fs"
  have pos: "0 < ?n" using Cons.prems by (cases "?n = 0") auto
  show ?case
  proof (cases "j < ?n")
    case True
    then show ?thesis by (simp add: nth_append)
  next
    case False
    then have "j - ?n < length cs * ?n" using Cons.prems by auto
    from Cons.IH [OF this] False pos show ?thesis
      by (simp add: nth_append le_div_geq le_mod_geq not_less)
  qed
qed

text \<open>The buffer a read filled shows the slots of its cluster.\<close>

lemma buffer_entries:
  assumes "length bs = cluster_bytes fs"
  shows "block_entries (mem_put m 0 bs) (entries_per_cluster fs) =
         block_entries (list_mem bs) (entries_per_cluster fs)"
  using assms entries_per_cluster_bytes [of fs]
  by (intro block_entries_cong) (simp add: mem_put_def list_mem_def)

text \<open>An operation that leaves a directory's clusters alone leaves its slots alone.\<close>

lemma dir_entries_cong:
  assumes step: "vol_step healthy sector s s' F C" and chain: "dir_chain s dir cs"
    and C: "\<forall>c \<in> C - {0}. valid_cluster (g_fs s) c" and disj: "dir_owners dir cs \<inter> C = {}"
  shows "dir_entries (sector (disk s')) s' dir cs = dir_entries (sector (disk s)) s dir cs"
proof (cases "dir = 0")
  case True
  then show ?thesis
    using disj vol_step_root [OF step] vol_step_same(1) [OF step]
    by (simp add: dir_entries_def dir_owners_def)
next
  case False
  have "cluster_entries (sector (disk s')) (g_fs s') c = cluster_entries (sector (disk s)) (g_fs s) c"
    if "c \<in> set cs" for c
  proof -
    have v: "valid_cluster (g_fs s) c" using chain False that by (simp add: dir_chain_def)
    have "c \<notin> C" using disj False that by (auto simp: dir_owners_def)
    from vol_step_data [OF step v C this] show ?thesis
      by (simp add: cluster_entries_def vol_step_same(1) [OF step])
  qed
  then show ?thesis using False by (simp add: dir_entries_def cong: map_cong)
qed

lemma dir_chain_cong:
  assumes "vol_step healthy sector s s' F C" and "set cs \<inter> F = {}"
  shows "dir_chain s' dir cs = dir_chain s dir cs"
proof -
  have "fat12_get_fat_entry s' c = fat12_get_fat_entry s c" if "c \<in> set cs" for c
    using that assms by (intro vol_step_entry) auto
  then show ?thesis
    using vol_step_chain [OF assms] vol_step_same(1) [OF assms(1)] by (auto simp: dir_chain_def)
qed

lemma dir_entries_wf: "e \<in> set (dir_entries S s dir cs) \<Longrightarrow> wf_entry e"
  by (auto simp: dir_entries_def cluster_entries_def dest: block_entries_wf split: if_splits)

lemma dir_slot_index:
  assumes "geometry_ok (g_fs s)" and "dir_chain s dir cs" and "j < length (dir_entries S s dir cs)"
    and "dir_slot (g_fs s) dir cs j = (owner, idx)"
  shows "owner = 0 \<longleftrightarrow> dir = 0" "owner \<in> dir_owners dir cs"
    "dir = 0 \<Longrightarrow> unat idx = j" "dir \<noteq> 0 \<Longrightarrow> unat idx = j mod entries_per_cluster (g_fs s)"
    "dir \<noteq> 0 \<Longrightarrow> j div entries_per_cluster (g_fs s) < length cs"
    "dir \<noteq> 0 \<Longrightarrow> valid_cluster (g_fs s) owner"
proof -
  let ?n = "entries_per_cluster (g_fs s)"
  have pos: "0 < ?n" "?n \<le> 512"
    using assms(1) by (simp_all add: entries_per_cluster_pos entries_per_cluster_le)
  show div: "j div ?n < length cs" if "dir \<noteq> 0"
    using assms(3) that pos by (simp add: dir_entries_def length_chain_entries less_mult_imp_div_less)
  show own: "owner \<in> dir_owners dir cs"
    using assms(4) div by (auto simp: dir_slot_def dir_owners_def split: if_splits)
  show v: "valid_cluster (g_fs s) owner" if "dir \<noteq> 0"
    using own that assms(2) by (simp add: dir_owners_def dir_chain_def)
  show "owner = 0 \<longleftrightarrow> dir = 0"
    using v valid_cluster_link [OF assms(1)] assms(4) by (auto simp: dir_slot_def split: if_splits)
  show "unat idx = j" if "dir = 0"
    using assms(3,4) that unat_u16_bound [of "root_entry_count (g_fs s)"]
    by (auto simp: dir_slot_def dir_entries_def unat_of_nat)
  show "unat idx = j mod ?n" if "dir \<noteq> 0"
  proof -
    have "j mod ?n < 512" using pos less_le_trans [OF mod_less_divisor [OF pos(1)]] by blast
    then show ?thesis using assms(4) that by (auto simp: dir_slot_def unat_of_nat)
  qed
qed

end
