(* ===== verification/Fat12_Dir_Ops.thy ===== *)
theory Fat12_Dir_Ops
  imports Fat12_Dir_Refine
begin

text \<open>
  The directory operations on a working disk, each as its effect on the slot list and
  as a step: lookup, storing a slot, the search for a free slot with its extension of
  the chain, and their compositions \<open>fat12_write_directory_entry\<close> and
  \<open>fat12_mark_entry_deleted\<close>.
\<close>

section \<open>Searches over several blocks\<close>

fun shift_outcome :: "nat \<Rightarrow> find_outcome \<Rightarrow> find_outcome" where
  "shift_outcome k (Scan_found i) = Scan_found (i + k)"
| "shift_outcome k Scan_end = Scan_end"
| "shift_outcome k Scan_exhausted = Scan_exhausted"

lemma slot_scan_shift: "slot_scan es name (i + k) = shift_outcome k (slot_scan es name i)"
  by (induction es arbitrary: i) (simp_all flip: add_Suc)

lemma first_free_shift: "first_free es (i + k) = map_option (\<lambda>j. j + k) (first_free es i)"
  by (induction es arbitrary: i) (simp_all flip: add_Suc)

definition found_at :: "fat12_fs \<Rightarrow> u16 \<Rightarrow> u16 list \<Rightarrow> raw_dir_entry list \<Rightarrow> nat option
    \<Rightarrow> fat12_err + found_entry" where
  "found_at fs dir cs es r =
     (case r of None \<Rightarrow> Inl FAT12_ERR_NOT_FOUND | Some j \<Rightarrow> Inr (es ! j, dir_slot fs dir cs j))"

lemma dir_find_append:
  "dir_find (xs @ ys) name =
     (case slot_scan xs name 0 of
        Scan_found i \<Rightarrow> Some i
      | Scan_end \<Rightarrow> None
      | Scan_exhausted \<Rightarrow> map_option (\<lambda>j. j + length xs) (dir_find ys name))"
  using slot_scan_shift [of ys name 0 "length xs"]
  by (cases "slot_scan ys name 0") (simp_all add: dir_find_def slot_scan_append split: find_outcome.split)

text \<open>Moving one cluster along a chain shifts slots by one cluster.\<close>

lemma found_at_Cons:
  assumes "0 < entries_per_cluster fs" and "dir \<noteq> 0" "dir' \<noteq> 0"
    and "length B = entries_per_cluster fs"
  shows "found_at fs dir (c # cs) (B @ es) (map_option (\<lambda>j. j + length B) r) =
         found_at fs dir' cs es r"
proof -
  have "(j + entries_per_cluster fs) div entries_per_cluster fs =
      Suc (j div entries_per_cluster fs)" for j
    using assms(1) by (simp add: div_add_self2)
  then show ?thesis
    using assms(2-4) by (auto simp: found_at_def dir_slot_def nth_append split: option.split)
qed

lemma found_at_first:
  assumes "dir \<noteq> 0" "i < entries_per_cluster fs" "length B = entries_per_cluster fs"
  shows "found_at fs dir (c # cs) (B @ es) (Some i) = Inr (B ! i, c, of_nat i)"
  using assms by (simp add: found_at_def dir_slot_def nth_append)

context sector_store
begin

lemma step_sector_eq: "step s s' {} {} \<Longrightarrow> sector (disk s') = sector (disk s)"
  by (rule ext) (simp add: vol_step_def)

lemma step_refl: "mounted healthy cap s \<Longrightarrow> step s s F C"
  by (rule vol_step_refl) (simp add: mounted_def)

lemma read_entries:
  assumes m: "mounted healthy cap s" and v: "valid_cluster (g_fs s) c"
  obtains s1 where "fat12_read_cluster D c s = (0, s1)" "step s s1 {} {}"
    "block_entries (g_cluster_buffer s1) (entries_per_cluster (g_fs s)) =
       cluster_entries (sector (disk s)) (g_fs s) c"
    "unat (cluster_size_bytes (g_fs s1) div 32) = entries_per_cluster (g_fs s)"
    "g_cluster_buffer s1 = mem_put (g_cluster_buffer s) 0 (data_of s c)"
proof -
  have geo: "geometry_ok (g_fs s)" and h: "healthy (disk s)" and fits: "volume_fits (g_fs s) cap"
    using m by (auto simp: mounted_def)
  obtain s1 where s1: "fat12_read_cluster D c s = (0, s1)" "step s s1 {} {}"
    "g_cluster_buffer s1 = mem_put (g_cluster_buffer s) 0 (data_of s c)"
    by (rule step_read_cluster [OF m v])
  show thesis
    using cluster_data_length [OF h fits v] entries_per_cluster_code [OF geo] s1(3)
      vol_step_same(1) [OF s1(2)]
    by (intro that [OF s1(1,2)]) (simp_all add: cluster_entries_def buffer_entries)
qed

lemma find_chain_spec:
  assumes "mounted healthy cap s" and "is_chain s c cs" and "\<forall>x \<in> set cs. valid_cluster (g_fs s) x"
    and name: "length name = 11" and "dir \<noteq> 0"
  shows "\<exists>s1. step s s1 {} {} \<and> find_chain D name c s = Some (let es = concat (map (cluster_entries (sector (disk s)) (g_fs s)) cs)
      in (found_at (g_fs s) dir cs es (dir_find es name), s1))"
  using assms(1-3)
proof (induction cs arbitrary: c s)
  case Nil
  then show ?case
    using step_refl by (subst find_chain.simps) (auto simp: dir_find_def found_at_def)
next
  case (Cons x cs)
  let ?fs = "g_fs s" and ?n = "entries_per_cluster (g_fs s)"
  let ?B = "cluster_entries (sector (disk s)) ?fs x"
  let ?R = "concat (map (cluster_entries (sector (disk s)) ?fs) cs)"
  have cx: "c = x" "chain_link c" and v: "valid_cluster ?fs x" using Cons.prems by auto
  have pos: "0 < ?n" using Cons.prems(1) by (simp add: mounted_def entries_per_cluster_pos)
  obtain s1 where s1: "fat12_read_cluster D c s = (0, s1)" "step s s1 {} {}"
    "block_entries (g_cluster_buffer s1) ?n = ?B"
    "unat (cluster_size_bytes (g_fs s1) div 32) = ?n"
    using read_entries [OF Cons.prems(1) v] cx by metis
  have scan: "find_scan (g_cluster_buffer s1) name 0 (unat (cluster_size_bytes (g_fs s1) div 32)) =
      slot_scan ?B name 0"
    using s1(3) by (simp add: s1(4) find_scan_entries [OF name])
  show ?case
  proof (cases "slot_scan ?B name 0")
    case (Scan_found i)
    then have i: "i < ?n" using slot_scan_bound by fastforce
    have "?B ! i = entry_at (g_cluster_buffer s1) (32 * i)"
      using i by (simp flip: s1(3))
    then have "find_chain D name c s = Some (found_at ?fs dir (x # cs) (?B @ ?R) (Some i), s1)"
      using cx Scan_found scan s1(1) assms(5) i
      by (subst find_chain.simps) (simp add: found_at_first)
    then show ?thesis using s1(2) Scan_found by (auto simp: dir_find_append Let_def)
  next
    case Scan_end
    then have "find_chain D name c s = Some (Inl FAT12_ERR_NOT_FOUND, s1)"
      using cx scan s1(1) by (subst find_chain.simps) simp
    then show ?thesis using s1(2) Scan_end by (auto simp: dir_find_append found_at_def Let_def)
  next
    case Scan_exhausted
    have m1: "mounted healthy cap s1" using vol_step_mounted [OF s1(2) Cons.prems(1)] .
    have fs1: "g_fs s1 = ?fs" using vol_step_same(1) [OF s1(2)] .
    have sec1: "sector (disk s1) = sector (disk s)" using step_sector_eq [OF s1(2)] .
    have "is_chain s1 (fat12_get_fat_entry s1 c) cs"
      using Cons.prems(2) cx vol_step_chain [OF s1(2)] vol_step_entry [OF s1(2)] by simp
    from Cons.IH [OF m1 this] Cons.prems(3) fs1 sec1 obtain s2 where s2: "step s1 s2 {} {}"
      "find_chain D name (fat12_get_fat_entry s1 c) s1 =
         Some (found_at ?fs dir cs ?R (dir_find ?R name), s2)"
      by (auto simp: Let_def)
    have "find_chain D name c s = find_chain D name (fat12_get_fat_entry s1 c) s1"
      using cx Scan_exhausted scan s1(1) by (subst find_chain.simps) simp
    also have "\<dots> = Some (found_at ?fs dir (x # cs) (?B @ ?R) (dir_find (?B @ ?R) name), s2)"
      using s2(2) Scan_exhausted found_at_Cons [OF pos assms(5,5), of ?B x cs ?R]
      by (simp add: dir_find_append)
    finally show ?thesis using vol_step_trans [OF s1(2) s2(1)] by (auto simp: Let_def)
  qed
qed

text \<open>Lookup: \<open>fat12_find_entry\<close> computes \<open>dir_find\<close> and changes nothing.\<close>

lemma find_entry_spec:
  assumes m: "mounted healthy cap s" and chain: "dir_chain s dir cs" and name: "length name = 11"
  obtains s1 where "step s s1 {} {}"
    "fat12_find_entry D dir name s =
       Some (found_at (g_fs s) dir cs (dir_entries (sector (disk s)) s dir cs)
               (dir_find (dir_entries (sector (disk s)) s dir cs) name), s1)"
proof (cases "dir = 0")
  case True
  let ?es = "block_entries (g_root_dir s) (unat (root_entry_count (g_fs s)))"
  have "fat12_find_entry D dir name s =
      Some (found_at (g_fs s) 0 cs ?es (dir_find ?es name), s)"
  proof (cases "slot_scan ?es name 0")
    case (Scan_found i)
    then have "i < unat (root_entry_count (g_fs s))" using slot_scan_bound by fastforce
    with True Scan_found show ?thesis
      by (simp add: fat12_find_entry_def find_scan_entries [OF name] dir_find_def found_at_def dir_slot_def)
  qed (simp_all add: True fat12_find_entry_def find_scan_entries [OF name] dir_find_def found_at_def)
  with True show thesis using that step_refl [OF m] by (auto simp: dir_entries_def)
next
  case False
  then have c: "is_chain s dir cs" "\<forall>x \<in> set cs. valid_cluster (g_fs s) x"
    using chain by (auto simp: dir_chain_def)
  from find_chain_spec [OF m c name False] False show thesis
    using that by (auto simp: fat12_find_entry_def dir_entries_def Let_def)
qed

text \<open>Storing a slot is a list update of its directory and touches only its owner.\<close>

lemma write_entry_spec:
  assumes m: "mounted healthy cap s" and chain: "dir_chain s dir cs" and e: "wf_entry e"
    and j: "j < length (dir_entries (sector (disk s)) s dir cs)"
    and slot: "dir_slot (g_fs s) dir cs j = (owner, idx)"
  obtains s1 where "fat12_write_entry D owner idx e s = (Inr (), s1)" "step s s1 {} {owner}"
    "dir_entries (sector (disk s1)) s1 dir cs = (dir_entries (sector (disk s)) s dir cs)[j := e]"
proof (cases "dir = 0")
  case True
  have geo: "geometry_ok (g_fs s)" using m by (simp add: mounted_def)
  note ix = dir_slot_index [OF geo chain j slot]
  have o: "owner = 0" "unat idx = j" using ix(1,3) True by simp_all
  have len: "j < unat (root_entry_count (g_fs s))" using j True by (simp add: dir_entries_def)
  let ?s1 = "s\<lparr>g_root_dir := put_entry (g_root_dir s) (j * 32) e, g_root_dirty := True\<rparr>"
  have "fat12_write_entry D owner idx e s = (Inr (), ?s1)"
    using o len by (simp add: fat12_write_entry_def word_le_nat_alt)
  moreover have "step s ?s1 {} {owner}"
    using m o by (simp add: vol_step_def same_config_def mounted_def fat12_get_fat_entry_def)
  moreover have "dir_entries (sector (disk ?s1)) ?s1 dir cs =
      (dir_entries (sector (disk s)) s dir cs)[j := e]"
    using True block_entries_put [OF e len, of "g_root_dir s"]
    by (simp add: dir_entries_def mult.commute)
  ultimately show thesis by (rule that)
next
  case False
  have geo: "geometry_ok (g_fs s)" using m by (simp add: mounted_def)
  let ?fs = "g_fs s" and ?n = "entries_per_cluster (g_fs s)"
  note ix = dir_slot_index [OF geo chain j slot]
  have v: "valid_cluster ?fs owner" and o0: "owner \<noteq> 0" using ix(1,6) False by simp_all
  have pos: "0 < ?n" using geo by (rule entries_per_cluster_pos)
  have idx: "unat idx = j mod ?n" "unat idx < ?n" using ix(4) False pos by simp_all
  have own: "owner = cs ! (j div ?n)" using slot False by (simp add: dir_slot_def)
  obtain s1 where s1: "fat12_read_cluster D owner s = (0, s1)" "step s s1 {} {}"
    "block_entries (g_cluster_buffer s1) ?n = cluster_entries (sector (disk s)) ?fs owner"
    "unat (cluster_size_bytes (g_fs s1) div 32) = ?n"
    by (rule read_entries [OF m v])
  let ?s2 = "s1\<lparr>g_cluster_buffer := put_entry (g_cluster_buffer s1) (unat idx * 32) e\<rparr>"
  have step2: "step s ?s2 {} {}"
    using s1(2) by simp
  have m2: "mounted healthy cap ?s2" using vol_step_mounted [OF step2 m] .
  have fs2: "g_fs ?s2 = ?fs" using vol_step_same(1) [OF step2] .
  have v2: "valid_cluster (g_fs ?s2) owner" using v fs2 by simp
  obtain s3 where s3: "fat12_write_cluster D owner ?s2 = (0, s3)" "step ?s2 s3 {} {owner}"
    "data_of s3 owner = mem_get (g_cluster_buffer ?s2) 0 (cluster_bytes ?fs)"
    using step_write_cluster [OF m2 v2] fs2 by metis
  have step3: "step s s3 {} {owner}" using vol_step_trans [OF step2 s3(2)] by simp
  have run: "fat12_write_entry D owner idx e s = (Inr (), s3)"
    using o0 s1(1,4) idx(2) s3(1) by (simp add: fat12_write_entry_def not_le Let_def)
  have fs3: "g_fs s3 = ?fs" using vol_step_same(1) [OF step3] .
  have new: "cluster_entries (sector (disk s3)) ?fs owner =
      (cluster_entries (sector (disk s)) ?fs owner)[j mod ?n := e]"
  proof -
    have "cluster_entries (sector (disk s3)) ?fs owner =
        block_entries (list_mem (mem_get (g_cluster_buffer ?s2) 0 (cluster_bytes ?fs))) ?n"
      using s3(3) by (simp add: cluster_entries_def fs3)
    also have "\<dots> = block_entries (g_cluster_buffer ?s2) ?n"
      by (intro block_entries_cong) (simp add: list_mem_def entries_per_cluster_bytes)
    also have "\<dots> = (block_entries (g_cluster_buffer s1) ?n)[j mod ?n := e]"
      using block_entries_put [OF e idx(2), of "g_cluster_buffer s1"] idx(1)
      by (simp add: mult.commute)
    finally show ?thesis by (simp add: s1(3))
  qed
  have old: "cluster_entries (sector (disk s3)) ?fs x = cluster_entries (sector (disk s)) ?fs x"
    if "x \<in> set cs" "x \<noteq> owner" for x
  proof -
    have "valid_cluster ?fs x" using chain that False by (simp add: dir_chain_def)
    from vol_step_data [OF step3 this] that(2) v show ?thesis
      by (simp add: cluster_entries_def fs3)
  qed
  have dist: "distinct cs" using chain False is_chain_distinct by (auto simp: dir_chain_def)
  have dir3: "dir_entries (sector (disk s3)) s3 dir cs = (dir_entries (sector (disk s)) s dir cs)[j := e]"
  proof (rule nth_equalityI)
    fix i assume i: "i < length (dir_entries (sector (disk s3)) s3 dir cs)"
    then have i': "i < length cs * ?n" using False by (simp add: dir_entries_def length_chain_entries fs3)
    have divs: "i div ?n < length cs" using i' by (simp add: less_mult_imp_div_less)
    have same: "cs ! (i div ?n) = owner \<longleftrightarrow> i div ?n = j div ?n"
      using dist divs ix(5) False own by (simp add: nth_eq_iff_index_eq)
    show "dir_entries (sector (disk s3)) s3 dir cs ! i =
        (dir_entries (sector (disk s)) s dir cs)[j := e] ! i"
    proof (cases "i div ?n = j div ?n")
      case True
      have "i = j \<longleftrightarrow> i mod ?n = j mod ?n"
        using True by (metis mult_div_mod_eq)
      then show ?thesis
        using False i i' j new own True pos
        by (auto simp: dir_entries_def nth_chain_entries fs3 nth_list_update length_chain_entries)
    next
      case ne: False
      then have "i \<noteq> j" by auto
      then show ?thesis
        using False i i' ne same old [of "cs ! (i div ?n)"] divs
        by (simp add: dir_entries_def nth_chain_entries fs3 length_chain_entries)
    qed
  qed (simp add: dir_entries_def length_chain_entries fs3)
  show thesis using that [OF run step3 dir3] .
qed

text \<open>Removal: \<open>fat12_mark_entry_deleted\<close> erases the slot of the name.\<close>

lemma mark_deleted_spec:
  assumes m: "mounted healthy cap s" and chain: "dir_chain s dir cs" and name: "length name = 11"
    and find: "dir_find (dir_entries (sector (disk s)) s dir cs) name = Some j"
  obtains s1 owner where "fat12_mark_entry_deleted D dir name s = Some (Inr (), s1)"
    "owner \<in> dir_owners dir cs" "step s s1 {} {owner}"
    "dir_entries (sector (disk s1)) s1 dir cs =
       (dir_entries (sector (disk s)) s dir cs)[j := erase (dir_entries (sector (disk s)) s dir cs ! j)]"
proof -
  let ?es = "dir_entries (sector (disk s)) s dir cs"
  obtain owner idx where slot: "dir_slot (g_fs s) dir cs j = (owner, idx)" by force
  have geo: "geometry_ok (g_fs s)" using m by (simp add: mounted_def)
  obtain s1 where s1: "step s s1 {} {}"
    "fat12_find_entry D dir name s = Some (found_at (g_fs s) dir cs ?es (Some j), s1)"
    using find_entry_spec [OF m chain name] find by metis
  have j: "j < length ?es" using find by (simp add: dir_find_Some)
  have m1: "mounted healthy cap s1" using vol_step_mounted [OF s1(1) m] .
  have chain1: "dir_chain s1 dir cs" using chain dir_chain_cong [OF s1(1)] by simp
  have es1: "dir_entries (sector (disk s1)) s1 dir cs = ?es"
    using dir_entries_cong [OF s1(1) chain] by simp
  have fs1: "g_fs s1 = g_fs s" using vol_step_same(1) [OF s1(1)] .
  have we: "wf_entry (erase (?es ! j))"
    using dir_entries_wf [OF nth_mem [OF j]] by (simp add: erase_def wf_entry_def)
  obtain s2 where s2: "fat12_write_entry D owner idx (erase (?es ! j)) s1 = (Inr (), s2)"
    "step s1 s2 {} {owner}" "dir_entries (sector (disk s2)) s2 dir cs = ?es[j := erase (?es ! j)]"
    using write_entry_spec [OF m1 chain1 we] j slot by (metis es1 fs1)
  have "fat12_mark_entry_deleted D dir name s = Some (Inr (), s2)"
    using s1(2) s2(1) slot by (simp add: fat12_mark_entry_deleted_def found_at_def erase_def)
  moreover have "step s s2 {} {owner}" using vol_step_trans [OF s1(1) s2(2)] by simp
  ultimately show thesis
    using that dir_slot_index(2) [OF geo chain j slot] s2(3) by blast
qed

section \<open>Finding a free slot\<close>

lemma free_chain_search_spec:
  assumes "mounted healthy cap s" and "is_chain s c cs" and "\<forall>x \<in> set cs. valid_cluster (g_fs s) x"
  shows "\<exists>s1. step s s1 {} {} \<and> free_chain_search D prev c s = Some
     (case first_free (concat (map (cluster_entries (sector (disk s)) (g_fs s)) cs)) 0 of
        Some j \<Rightarrow> Free_at (cs ! (j div entries_per_cluster (g_fs s)))
                         (of_nat (j mod entries_per_cluster (g_fs s)))
      | None \<Rightarrow> Free_full (last (prev # cs)), s1)"
  using assms
proof (induction cs arbitrary: prev c s)
  case Nil
  then show ?case
    using step_refl by (subst free_chain_search.simps) auto
next
  case (Cons x cs)
  let ?fs = "g_fs s" and ?n = "entries_per_cluster (g_fs s)"
  let ?B = "cluster_entries (sector (disk s)) ?fs x"
  let ?R = "concat (map (cluster_entries (sector (disk s)) ?fs) cs)"
  have cx: "c = x" "chain_link c" and v: "valid_cluster ?fs x" using Cons.prems by auto
  have pos: "0 < ?n" using Cons.prems(1) by (simp add: mounted_def entries_per_cluster_pos)
  obtain s1 where s1: "fat12_read_cluster D c s = (0, s1)" "step s s1 {} {}"
    "block_entries (g_cluster_buffer s1) ?n = ?B"
    "unat (cluster_size_bytes (g_fs s1) div 32) = ?n"
    using read_entries [OF Cons.prems(1) v] cx by metis
  have scan: "free_scan (g_cluster_buffer s1) 0 (unat (cluster_size_bytes (g_fs s1) div 32)) =
      first_free ?B 0"
    using s1(3) by (simp add: s1(4) free_scan_entries)
  show ?case
  proof (cases "first_free ?B 0")
    case (Some i)
    then have i: "i < ?n" using first_free_bound by fastforce
    have "free_chain_search D prev c s = Some (Free_at x (of_nat i), s1)"
      using cx scan s1(1) Some by (subst free_chain_search.simps) simp
    then show ?thesis using s1(2) Some i by (auto simp: first_free_append)
  next
    case None
    have m1: "mounted healthy cap s1" using vol_step_mounted [OF s1(2) Cons.prems(1)] .
    have fs1: "g_fs s1 = ?fs" using vol_step_same(1) [OF s1(2)] .
    have sec1: "sector (disk s1) = sector (disk s)" using step_sector_eq [OF s1(2)] .
    have "is_chain s1 (fat12_get_fat_entry s1 c) cs"
      using Cons.prems(2) cx vol_step_chain [OF s1(2)] vol_step_entry [OF s1(2)] by simp
    from Cons.IH [OF m1 this, of x, unfolded fs1 sec1] Cons.prems(3) obtain s2 where s2: "step s1 s2 {} {}"
      "free_chain_search D x (fat12_get_fat_entry s1 c) s1 = Some
         (case first_free ?R 0 of Some j \<Rightarrow> Free_at (cs ! (j div ?n)) (of_nat (j mod ?n))
          | None \<Rightarrow> Free_full (last (x # cs)), s2)"
      by auto
    have "free_chain_search D prev c s = free_chain_search D x (fat12_get_fat_entry s1 c) s1"
      using cx scan s1(1) None by (subst free_chain_search.simps) simp
    moreover have "step s s2 {} {}" using vol_step_trans [OF s1(2) s2(1)] by simp
    moreover have "first_free (?B @ ?R) 0 = map_option (\<lambda>j. j + ?n) (first_free ?R 0)"
      using None first_free_shift [of ?R 0 ?n] by (simp add: first_free_append)
    ultimately show ?thesis
      using s2(2) pos by (auto simp: div_add_self2 split: option.split)
  qed
qed

text \<open>A free slot of the directory as it is.\<close>

lemma find_free_found:
  assumes m: "mounted healthy cap s" and chain: "dir_chain s dir cs"
    and free: "first_free (dir_entries (sector (disk s)) s dir cs) 0 = Some j"
  obtains s1 where "step s s1 {} {}"
    "fat12_find_free_entry D dir s = Some (Inr (dir_slot (g_fs s) dir cs j), s1)"
proof (cases "dir = 0")
  case True
  with free show thesis
    using that [OF step_refl [OF m]]
    by (simp add: fat12_find_free_entry_def dir_entries_def free_scan_entries dir_slot_def)
next
  case False
  then have c: "is_chain s dir cs" "\<forall>x \<in> set cs. valid_cluster (g_fs s) x"
    using chain by (auto simp: dir_chain_def)
  from free_chain_search_spec [OF m c, of 0] False free show thesis
    using that by (auto simp: fat12_find_free_entry_def dir_entries_def dir_slot_def)
qed

lemma find_free_root_full:
  assumes "first_free (dir_entries S s 0 []) 0 = None"
  shows "fat12_find_free_entry D 0 s = Some (Inl FAT12_ERR_DIR_FULL, s)"
  using assms by (simp add: fat12_find_free_entry_def dir_entries_def free_scan_entries)

lemma find_free_disk_full:
  assumes m: "mounted healthy cap s" and chain: "dir_chain s dir cs" and dir: "dir \<noteq> 0"
    and free: "first_free (dir_entries (sector (disk s)) s dir cs) 0 = None"
    and none: "free_clusters s = {}"
  obtains s1 where "step s s1 {} {}"
    "fat12_find_free_entry D dir s = Some (Inl FAT12_ERR_NO_FREE_CLUSTER, s1)"
proof -
  have c: "is_chain s dir cs" "\<forall>x \<in> set cs. valid_cluster (g_fs s) x" "cs \<noteq> []"
    using chain dir by (auto simp: dir_chain_def)
  from free_chain_search_spec [OF m c(1,2), of 0] dir free obtain s1 where s1: "step s s1 {} {}"
    "free_chain_search D 0 dir s = Some (Free_full (last (0 # cs)), s1)"
    by (auto simp: dir_entries_def)
  have "free_clusters s1 = {}"
    using none vol_step_same(1) [OF s1(1)] vol_step_entry [OF s1(1)] by (simp add: free_clusters_def)
  then have "fat12_allocate_cluster D s1 = (0, s1)"
    using allocate_none vol_step_mounted [OF s1(1) m] by blast
  with s1 dir show thesis by (intro that [OF s1(1)]) (simp add: fat12_find_free_entry_def)
qed

end

end
