(* ===== verification/Fat12_Dir_Update.thy ===== *)
theory Fat12_Dir_Update
  imports Fat12_Dir_Ops
begin

text \<open>
  Creating or replacing a directory entry: the extension of a full subdirectory by a
  zeroed cluster, and \<open>fat12_write_directory_entry\<close> as an update of the finite map of
  the directory, with its two ways to run out of space.
\<close>

text \<open>
  The table has room for an entry per cluster. \<open>fat12_init\<close> does not check this; an
  entry beyond the table reads as an end mark, so only the extension of a directory
  needs it.
\<close>

definition fat_covers :: "'d fat12_state \<Rightarrow> bool" where
  "fat_covers s \<longleftrightarrow> (\<forall>c. valid_cluster (g_fs s) c \<longrightarrow> in_fat s c)"

lemma is_chain_extend:
  assumes "is_chain s c cs" and "cs \<noteq> []" and "k \<notin> set cs" and "chain_link k"
    and "\<And>x. x \<in> set cs \<Longrightarrow> x \<noteq> last cs \<Longrightarrow> fat12_get_fat_entry s' x = fat12_get_fat_entry s x"
    and "fat12_get_fat_entry s' (last cs) = k" and "\<not> chain_link (fat12_get_fat_entry s' k)"
  shows "is_chain s' c (cs @ [k])"
  using assms
proof (induction cs arbitrary: c)
  case Nil
  then show ?case by simp
next
  case (Cons x cs)
  show ?case
  proof (cases cs)
    case Nil
    with Cons.prems show ?thesis by auto
  next
    case (Cons y ys)
    have dist: "distinct (x # cs)" using is_chain_distinct [OF Cons.prems(1)] .
    have "last cs \<in> set cs" using \<open>cs = y # ys\<close> by simp
    then have ne: "x \<noteq> last cs" using dist by auto
    have "fat12_get_fat_entry s' x = fat12_get_fat_entry s x"
      using Cons.prems(5) [of x] ne \<open>cs = y # ys\<close> by simp
    moreover have "is_chain s' (fat12_get_fat_entry s x) (cs @ [k])"
      using Cons.prems \<open>cs = y # ys\<close> by (intro Cons.IH) auto
    ultimately show ?thesis using Cons.prems(1) by auto
  qed
qed

lemma free_not_in_chain:
  assumes "dir_chain s dir cs" and "k \<in> free_clusters s"
  shows "k \<notin> set cs"
  using assms by (auto simp: dir_chain_def free_clusters_def split: if_splits)

text \<open>A slot is available: the name's own, a free one, or a new cluster of them.\<close>

definition slot_available :: "(nat \<Rightarrow> byte list) \<Rightarrow> 'd fat12_state \<Rightarrow> u16 \<Rightarrow> u16 list \<Rightarrow> byte list \<Rightarrow> bool" where
  "slot_available S s dir cs name \<longleftrightarrow>
     put_slot (dir_entries S s dir cs) name \<noteq> None \<or> (dir \<noteq> 0 \<and> free_clusters s \<noteq> {})"

context sector_store
begin

lemma zero_entries:
  assumes "cluster_data S fs k = replicate (cluster_bytes fs) 0"
  shows "\<forall>z \<in> set (cluster_entries S fs k). slot_end z"
  using assms
  by (auto simp: cluster_entries_def block_entries_def list_mem_def slot_end_def entry_at_def
      mem_get_def cluster_bytes_def entries_per_cluster_def)

text \<open>A full subdirectory gets one more cluster of end marks.\<close>

lemma find_free_extend:
  assumes m: "mounted healthy cap s" and chain: "dir_chain s dir cs" and dir: "dir \<noteq> 0"
    and full: "first_free (dir_entries (sector (disk s)) s dir cs) 0 = None"
    and free: "free_clusters s \<noteq> {}" and covers: "fat_covers s"
  obtains s1 k zs where "fat12_find_free_entry D dir s = Some (Inr (k, 0), s1)"
    "k \<in> free_clusters s" "step s s1 {last cs, k} {k}" "dir_chain s1 dir (cs @ [k])"
    "dir_entries (sector (disk s1)) s1 dir (cs @ [k]) =
       dir_entries (sector (disk s)) s dir cs @ zs"
    "length zs = entries_per_cluster (g_fs s)" "\<forall>z \<in> set zs. slot_end z"
proof -
  have c: "is_chain s dir cs" "\<forall>x \<in> set cs. valid_cluster (g_fs s) x" "cs \<noteq> []"
    using chain dir by (auto simp: dir_chain_def)
  have geo: "geometry_ok (g_fs s)" using m by (simp add: mounted_def)
  let ?l = "last cs"
  have l: "valid_cluster (g_fs s) ?l" "?l \<noteq> 0" "?l \<in> set cs"
    using c valid_cluster_link [OF geo] by auto
  from free_chain_search_spec [OF m c(1,2), of 0] full dir c(3) obtain s1 where s1: "step s s1 {} {}"
    "free_chain_search D 0 dir s = Some (Free_full ?l, s1)"
    by (auto simp: dir_entries_def)
  have m1: "mounted healthy cap s1" using vol_step_mounted [OF s1(1) m] .
  have fs1: "g_fs s1 = g_fs s" using vol_step_same(1) [OF s1(1)] .
  have free1: "free_clusters s1 = free_clusters s"
    using fs1 vol_step_entry [OF s1(1)] by (simp add: free_clusters_def)
  obtain k s2 where s2: "fat12_allocate_cluster D s1 = (k, s2)" "k \<in> free_clusters s"
    "step s1 s2 {k} {k}" "fat12_get_fat_entry s2 k = FAT12_CLUSTER_EOC"
    "data_of s2 k = replicate (cluster_bytes (g_fs s)) 0"
    using step_allocate [OF m1] free free1 fs1 by metis
  have k: "valid_cluster (g_fs s) k" "k \<noteq> 0" "chain_link k"
    using s2(2) valid_cluster_link [OF geo] by (auto simp: free_clusters_def)
  have kcs: "k \<notin> set cs" using free_not_in_chain [OF chain s2(2)] .
  then have kl: "k \<noteq> ?l" using l(3) by auto
  let ?s3 = "fat12_set_fat_entry k FAT12_CLUSTER_EOC (fat12_set_fat_entry ?l k s2)"
  have h2: "healthy (disk s2)" using vol_step_same(5) [OF s2(3)] .
  have "step s2 (fat12_set_fat_entry ?l k s2) {?l} {}" using h2 by (rule step_set_fat)
  moreover have "step (fat12_set_fat_entry ?l k s2) ?s3 {k} {}" by (rule step_set_fat) (simp add: h2)
  ultimately have "step s2 ?s3 ({?l} \<union> {k}) ({} \<union> {})" by (rule vol_step_trans)
  then have step3: "step s2 ?s3 {?l, k} {}" by (simp add: insert_commute)
  have all: "step s ?s3 {?l, k} {k}"
    using vol_step_trans [OF s1(1) vol_step_trans [OF s2(3) step3]] by (simp add: insert_commute)
  have fs3: "g_fs ?s3 = g_fs s" using vol_step_same(1) [OF all] .
  then have fs2: "g_fs s2 = g_fs s" by simp
  have in_f: "in_fat s2 ?l" "in_fat s2 k"
    using covers l(1) k(1) vol_step_same(1) [OF vol_step_trans [OF s1(1) s2(3)]]
    by (auto simp: fat_covers_def in_fat_def)
  have "k AND 0xFFF = k"
  proof -
    have "unat k < 2 ^ 12" using k(1) geometry_simps(5) [OF geo] by (simp add: valid_cluster_def)
    then have "take_bit 12 k = k" by (simp add: word_unat_eq_iff unsigned_take_bit_eq take_bit_nat_eq_self)
    moreover have "(0xFFF :: u16) = mask 12" by (simp add: mask_eq_exp_minus_1)
    ultimately show ?thesis by (simp only: take_bit_eq_mask)
  qed
  then have get_l: "fat12_get_fat_entry ?s3 ?l = k" and get_k: "fat12_get_fat_entry ?s3 k = FAT12_CLUSTER_EOC"
    using in_f kl by (simp_all add: get_set)
  have get_other: "fat12_get_fat_entry ?s3 x = fat12_get_fat_entry s x" if "x \<noteq> ?l" "x \<noteq> k" for x
    using vol_step_entry [OF all] that by simp
  have "is_chain ?s3 dir (cs @ [k])"
    using c kcs k(3) get_l get_k get_other
    by (intro is_chain_extend [of s]) auto
  moreover have "valid_cluster (g_fs ?s3) x \<and> fat12_get_fat_entry ?s3 x \<noteq> FAT12_CLUSTER_FREE"
    if "x \<in> set (cs @ [k])" for x
  proof
    show "valid_cluster (g_fs ?s3) x" using that c(2) k(1) unfolding fs3 by auto
    show "fat12_get_fat_entry ?s3 x \<noteq> FAT12_CLUSTER_FREE"
    proof (cases "x = ?l \<or> x = k")
      case True
      then show ?thesis using get_l get_k k(2) by auto
    next
      case False
      then show ?thesis using that get_other [of x] chain dir by (auto simp: dir_chain_def)
    qed
  qed
  ultimately have chain3: "dir_chain ?s3 dir (cs @ [k])"
    using dir c(3) by (simp add: dir_chain_def)
  have same: "cluster_entries (sector (disk ?s3)) (g_fs ?s3) x = cluster_entries (sector (disk s)) (g_fs s) x"
    if "x \<in> set cs" for x
  proof -
    have "valid_cluster (g_fs s) x" "x \<noteq> k" using c(2) kcs that by auto
    then show ?thesis using vol_step_data [OF all] k(1) by (simp add: cluster_entries_def fs2)
  qed
  have "data_of ?s3 k = replicate (cluster_bytes (g_fs s)) 0"
    using s2(5) by simp
  then have zero: "\<forall>z \<in> set (cluster_entries (sector (disk ?s3)) (g_fs ?s3) k). slot_end z"
    by (intro zero_entries) (simp add: fs2)
  have run: "fat12_find_free_entry D dir s = Some (Inr (k, 0), ?s3)"
    using s1(2) s2(1) dir l(2) k(2) by (simp add: fat12_find_free_entry_def)
  show thesis
  proof (rule that [OF run s2(2) all chain3])
    show "dir_entries (sector (disk ?s3)) ?s3 dir (cs @ [k]) =
        dir_entries (sector (disk s)) s dir cs @ cluster_entries (sector (disk ?s3)) (g_fs ?s3) k"
      using dir same by (simp add: dir_entries_def cong: map_cong)
  qed (use zero fs2 in auto)
qed

section \<open>Creating or replacing an entry\<close>

text \<open>The entry goes to a slot the directory already has.\<close>

lemma write_directory_entry_in_place:
  assumes m: "mounted healthy cap s" and chain: "dir_chain s dir cs" and name: "length name = 11"
    and e: "wf_entry e"
    and slot: "put_slot (dir_entries (sector (disk s)) s dir cs) name = Some j"
  obtains s' owner where "fat12_write_directory_entry D dir name e s = Some (Inr (), s')"
    "step s s' {} {owner}" "owner \<in> dir_owners dir cs" "dir_chain s' dir cs"
    "dir_entries (sector (disk s')) s' dir cs = (dir_entries (sector (disk s)) s dir cs)[j := e]"
proof -
  let ?es = "dir_entries (sector (disk s)) s dir cs"
  have geo: "geometry_ok (g_fs s)" using m by (simp add: mounted_def)
  have j: "j < length ?es" using put_slot_bound [OF slot] .
  obtain owner idx where ds: "dir_slot (g_fs s) dir cs j = (owner, idx)" by force
  obtain s1 where s1: "step s s1 {} {}"
    "fat12_find_entry D dir name s = Some (found_at (g_fs s) dir cs ?es (dir_find ?es name), s1)"
    by (rule find_entry_spec [OF m chain name])
  have m1: "mounted healthy cap s1" using vol_step_mounted [OF s1(1) m] .
  have chain1: "dir_chain s1 dir cs" using chain dir_chain_cong [OF s1(1)] by simp
  have es1: "dir_entries (sector (disk s1)) s1 dir cs = ?es"
    using dir_entries_cong [OF s1(1) chain] by simp
  have fs1: "g_fs s1 = g_fs s" using vol_step_same(1) [OF s1(1)] .
  obtain s2 where s2: "step s s2 {} {}" and run: "fat12_write_directory_entry D dir name e s =
      Some (fat12_write_entry D owner idx e s2)"
  proof (cases "dir_find ?es name")
    case (Some i)
    then have "i = j" using slot by (simp add: put_slot_def)
    with Some s1(2) ds have "fat12_write_directory_entry D dir name e s =
        Some (fat12_write_entry D owner idx e s1)"
      by (simp add: fat12_write_directory_entry_def found_at_def)
    then show thesis by (rule that [OF s1(1)])
  next
    case None
    then have free: "first_free ?es 0 = Some j" using slot by (simp add: put_slot_def)
    then obtain s2 where s2: "step s1 s2 {} {}"
      "fat12_find_free_entry D dir s1 = Some (Inr (dir_slot (g_fs s1) dir cs j), s2)"
      using find_free_found [OF m1 chain1] es1 by metis
    have "step s s2 {} {}" using vol_step_trans [OF s1(1) s2(1)] by simp
    moreover from None s1(2) s2(2) ds have "fat12_write_directory_entry D dir name e s =
        Some (fat12_write_entry D owner idx e s2)"
      by (simp add: fat12_write_directory_entry_def found_at_def fs1)
    ultimately show thesis by (rule that)
  qed
  have m2: "mounted healthy cap s2" using vol_step_mounted [OF s2 m] .
  have chain2: "dir_chain s2 dir cs" using chain dir_chain_cong [OF s2] by simp
  have es2: "dir_entries (sector (disk s2)) s2 dir cs = ?es"
    using dir_entries_cong [OF s2 chain] by simp
  have fs2: "g_fs s2 = g_fs s" using vol_step_same(1) [OF s2] .
  obtain s3 where s3: "fat12_write_entry D owner idx e s2 = (Inr (), s3)" "step s2 s3 {} {owner}"
    "dir_entries (sector (disk s3)) s3 dir cs = ?es[j := e]"
    using write_entry_spec [OF m2 chain2 e] j ds by (metis es2 fs2)
  have step: "step s s3 {} {owner}" using vol_step_trans [OF s2 s3(2)] by simp
  show thesis
    using run s3(1,3) step dir_slot_index(2) [OF geo chain j ds] chain dir_chain_cong [OF step]
    by (intro that [of s3 owner]) auto
qed

text \<open>The entry goes to a new cluster of the directory.\<close>

lemma write_directory_entry_extend:
  assumes m: "mounted healthy cap s" and chain: "dir_chain s dir cs" and name: "length name = 11"
    and e: "wf_entry e" and covers: "fat_covers s" and dir: "dir \<noteq> 0"
    and slot: "put_slot (dir_entries (sector (disk s)) s dir cs) name = None"
    and free: "free_clusters s \<noteq> {}"
  obtains s' k zs where "fat12_write_directory_entry D dir name e s = Some (Inr (), s')"
    "k \<in> free_clusters s" "step s s' {last cs, k} {k}" "dir_chain s' dir (cs @ [k])"
    "dir_entries (sector (disk s')) s' dir (cs @ [k]) =
       (dir_entries (sector (disk s)) s dir cs @ zs)[length (dir_entries (sector (disk s)) s dir cs) := e]"
    "0 < length zs" "\<forall>z \<in> set zs. slot_end z"
proof -
  let ?es = "dir_entries (sector (disk s)) s dir cs" and ?n = "entries_per_cluster (g_fs s)"
  have geo: "geometry_ok (g_fs s)" using m by (simp add: mounted_def)
  have none: "dir_find ?es name = None" "first_free ?es 0 = None"
    using slot by (auto simp: put_slot_def split: option.splits)
  obtain s1 where s1: "step s s1 {} {}"
    "fat12_find_entry D dir name s = Some (found_at (g_fs s) dir cs ?es (dir_find ?es name), s1)"
    by (rule find_entry_spec [OF m chain name])
  have m1: "mounted healthy cap s1" using vol_step_mounted [OF s1(1) m] .
  have chain1: "dir_chain s1 dir cs" using chain dir_chain_cong [OF s1(1)] by simp
  have es1: "dir_entries (sector (disk s1)) s1 dir cs = ?es"
    using dir_entries_cong [OF s1(1) chain] by simp
  have fs1: "g_fs s1 = g_fs s" using vol_step_same(1) [OF s1(1)] .
  have free1: "free_clusters s1 = free_clusters s"
    using fs1 vol_step_entry [OF s1(1)] by (simp add: free_clusters_def)
  have covers1: "fat_covers s1" using covers by (simp add: fat_covers_def in_fat_def fs1)
  obtain s2 k zs where s2: "fat12_find_free_entry D dir s1 = Some (Inr (k, 0), s2)"
    "k \<in> free_clusters s1" "step s1 s2 {last cs, k} {k}" "dir_chain s2 dir (cs @ [k])"
    "dir_entries (sector (disk s2)) s2 dir (cs @ [k]) = dir_entries (sector (disk s1)) s1 dir cs @ zs"
    "length zs = entries_per_cluster (g_fs s1)" "\<forall>z \<in> set zs. slot_end z"
    using find_free_extend [OF m1 chain1 dir] none(2) es1 free free1 covers1 by metis
  have m2: "mounted healthy cap s2" using vol_step_mounted [OF s2(3) m1] .
  have es2: "dir_entries (sector (disk s2)) s2 dir (cs @ [k]) = ?es @ zs"
    using s2(5) es1 by simp
  have fs2: "g_fs s2 = g_fs s" using vol_step_same(1) [OF s2(3)] fs1 by simp
  have pos: "0 < ?n" using geo by (rule entries_per_cluster_pos)
  have len: "length ?es = length cs * ?n" using dir by (simp add: dir_entries_def length_chain_entries)
  have lt: "length ?es < length (?es @ zs)" using s2(6) pos fs1 by simp
  have ds: "dir_slot (g_fs s2) dir (cs @ [k]) (length ?es) = (k, 0)"
    using dir pos by (simp add: dir_slot_def fs2 len)
  obtain s3 where s3: "fat12_write_entry D k 0 e s2 = (Inr (), s3)" "step s2 s3 {} {k}"
    "dir_entries (sector (disk s3)) s3 dir (cs @ [k]) = (?es @ zs)[length ?es := e]"
    using write_entry_spec [OF m2 s2(4) e _ ds] lt es2 by metis
  have run: "fat12_write_directory_entry D dir name e s = Some (Inr (), s3)"
    using s1(2) none(1) s2(1) s3(1) by (simp add: fat12_write_directory_entry_def found_at_def)
  have step: "step s s3 {last cs, k} {k}"
    using vol_step_trans [OF s1(1) vol_step_trans [OF s2(3) s3(2)]] by simp
  have chain3: "dir_chain s3 dir (cs @ [k])" using s2(4) dir_chain_cong [OF s3(2)] by simp
  show thesis
    using that [OF run _ step chain3 s3(3) _ s2(7)] s2(2,6) free1 pos fs1 by simp
qed

text \<open>No slot: the directory, or the disk, is full; nothing changes.\<close>

lemma write_directory_entry_full:
  assumes m: "mounted healthy cap s" and chain: "dir_chain s dir cs" and name: "length name = 11"
    and slot: "\<not> slot_available (sector (disk s)) s dir cs name"
  obtains s' where "step s s' {} {}" "fat12_write_directory_entry D dir name e s =
    Some (Inl (if dir = 0 then FAT12_ERR_DIR_FULL else FAT12_ERR_NO_FREE_CLUSTER), s')"
proof -
  let ?es = "dir_entries (sector (disk s)) s dir cs"
  have none: "dir_find ?es name = None" "first_free ?es 0 = None"
    and disk_full: "dir \<noteq> 0 \<Longrightarrow> free_clusters s = {}"
    using slot by (auto simp: slot_available_def put_slot_def split: option.splits)
  obtain s1 where s1: "step s s1 {} {}"
    "fat12_find_entry D dir name s = Some (found_at (g_fs s) dir cs ?es (dir_find ?es name), s1)"
    by (rule find_entry_spec [OF m chain name])
  have m1: "mounted healthy cap s1" using vol_step_mounted [OF s1(1) m] .
  have chain1: "dir_chain s1 dir cs" using chain dir_chain_cong [OF s1(1)] by simp
  have es1: "dir_entries (sector (disk s1)) s1 dir cs = ?es"
    using dir_entries_cong [OF s1(1) chain] by simp
  show thesis
  proof (cases "dir = 0")
    case True
    then have "cs = []" using chain by (simp add: dir_chain_def)
    then have "fat12_find_free_entry D dir s1 = Some (Inl FAT12_ERR_DIR_FULL, s1)"
      using find_free_root_full [of "sector (disk s1)" s1] none(2) es1 True by simp
    with s1(2) none(1) True show thesis
      by (intro that [OF s1(1)]) (simp add: fat12_write_directory_entry_def found_at_def)
  next
    case False
    have "free_clusters s1 = {}"
      using disk_full [OF False] vol_step_same(1) [OF s1(1)] vol_step_entry [OF s1(1)]
      by (simp add: free_clusters_def)
    then obtain s2 where s2: "step s1 s2 {} {}"
      "fat12_find_free_entry D dir s1 = Some (Inl FAT12_ERR_NO_FREE_CLUSTER, s2)"
      using find_free_disk_full [OF m1 chain1 False] none(2) es1 by metis
    have "step s s2 {} {}" using vol_step_trans [OF s1(1) s2(1)] by simp
    with s1(2) none(1) s2(2) False show thesis
      by (intro that [of s2]) (simp_all add: fat12_write_directory_entry_def found_at_def)
  qed
qed

text \<open>Both cases as an update of the finite map.\<close>

lemma dir_map_extend_put:
  assumes wf: "dir_wf es" and full: "put_slot es name = None" and zs: "0 < length zs" "\<forall>z \<in> set zs. slot_end z"
    and e: "slot_live e" "re_name e = name"
  shows "dir_wf ((es @ zs)[length es := e]) \<and> dir_map ((es @ zs)[length es := e]) = (dir_map es)(name \<mapsto> e)"
proof -
  have none: "dir_find es name = None" "first_free es 0 = None"
    using full by (auto simp: put_slot_def split: option.splits)
  then have live: "\<forall>x \<in> set es. slot_live x" by (simp add: first_free_None)
  note wf' = dir_wf_extend [OF wf live zs(2)] and map' = dir_map_extend [OF wf live zs(2)]
  have "dir_find (es @ zs) name = None"
    using map' none(1) unfolding dir_map_def by (metis map_option_is_None)
  moreover have "first_free (es @ zs) 0 = Some (length es)"
    using none(2) zs by (cases zs) (simp_all add: first_free_append slot_live_def)
  ultimately have slot: "put_slot (es @ zs) name = Some (length es)" by (simp add: put_slot_def)
  show ?thesis using dir_wf_put [OF wf' slot e] dir_map_put [OF wf' slot e] map' by simp
qed

lemma write_directory_entry_ok:
  assumes m: "mounted healthy cap s" and chain: "dir_chain s dir cs" and e: "wf_entry e"
    and wf: "dir_wf (dir_entries (sector (disk s)) s dir cs)" and live: "slot_live e" "re_name e = name"
    and avail: "slot_available (sector (disk s)) s dir cs name"
    and covers: "put_slot (dir_entries (sector (disk s)) s dir cs) name = None \<longrightarrow> fat_covers s"
  obtains s' cs' F C where "fat12_write_directory_entry D dir name e s = Some (Inr (), s')"
    "step s s' F C" "F \<subseteq> set cs \<union> free_clusters s" "C \<subseteq> dir_owners dir cs \<union> free_clusters s"
    "dir_chain s' dir cs'" "set cs' \<subseteq> set cs \<union> free_clusters s"
    "dir_wf (dir_entries (sector (disk s')) s' dir cs')"
    "dir_map (dir_entries (sector (disk s')) s' dir cs') =
       (dir_map (dir_entries (sector (disk s)) s dir cs))(name \<mapsto> e)"
proof -
  let ?es = "dir_entries (sector (disk s)) s dir cs"
  have name: "length name = 11" using e live(2) by (simp add: wf_entry_def)
  show thesis
  proof (cases "put_slot ?es name")
    case (Some j)
    obtain s' owner where s': "fat12_write_directory_entry D dir name e s = Some (Inr (), s')"
      "step s s' {} {owner}" "owner \<in> dir_owners dir cs" "dir_chain s' dir cs"
      "dir_entries (sector (disk s')) s' dir cs = ?es[j := e]"
      by (rule write_directory_entry_in_place [OF m chain name e Some])
    show thesis
      using dir_wf_put [OF wf Some live] dir_map_put [OF wf Some live] s'(3,5)
      by (intro that [OF s'(1,2) _ _ s'(4)]) auto
  next
    case None
    then have dir: "dir \<noteq> 0" and free: "free_clusters s \<noteq> {}"
      using avail by (auto simp: slot_available_def)
    have cov: "fat_covers s" using covers None by blast
    obtain s' k zs where s': "fat12_write_directory_entry D dir name e s = Some (Inr (), s')"
      "k \<in> free_clusters s" "step s s' {last cs, k} {k}" "dir_chain s' dir (cs @ [k])"
      "dir_entries (sector (disk s')) s' dir (cs @ [k]) = (?es @ zs)[length ?es := e]"
      "0 < length zs" "\<forall>z \<in> set zs. slot_end z"
      by (rule write_directory_entry_extend [OF m chain name e cov dir None free])
    have "last cs \<in> set cs" using chain dir by (simp add: dir_chain_def)
    then show thesis
      using dir_map_extend_put [OF wf None s'(6,7) live] s'(2,5)
      by (intro that [OF s'(1,3) _ _ s'(4)]) auto
  qed
qed

end

end
