(* ===== verification/Fat12_Transfer.thy ===== *)
theory Fat12_Transfer
  imports Fat12_File Fat12_Dir_Update
begin

text \<open>
  The two transfer loops on a working disk. \<open>read_loop\<close> copies the data of a chain in
  order, cut at the file size; \<open>write_loop\<close> either stores the data on a fresh chain of
  free clusters, or runs out of clusters and gives back every one it had taken.
\<close>

section \<open>Reading a chain\<close>

context sector_store
begin

lemma read_loop_spec:
  assumes "mounted healthy cap s" and "is_chain s c cs" and "\<forall>x \<in> set cs. valid_cluster (g_fs s) x"
    and "unat cursor + unat rem < 2 ^ 32"
  shows "\<exists>s1. step s s1 {} {} \<and> read_loop D c rem cursor buf s =
    Some (Inr (), mem_put buf (unat cursor) (take (unat rem) (concat (map (data_of s) cs))), s1)"
  using assms
proof (induction cs arbitrary: c s buf cursor rem)
  case Nil
  then show ?case using step_refl by (subst read_loop.simps) auto
next
  case (Cons x cs)
  show ?case
  proof (cases "rem = 0")
    case True
    then show ?thesis using step_refl [OF Cons.prems(1)] by (subst read_loop.simps) auto
  next
    case False
    have cx: "c = x" "chain_link c" and v: "valid_cluster (g_fs s) x" using Cons.prems by auto
    have geo: "geometry_ok (g_fs s)" and h: "healthy (disk s)" and fits: "volume_fits (g_fs s) cap"
      using Cons.prems(1) by (auto simp: mounted_def)
    have len: "length (data_of s x) = cluster_bytes (g_fs s)" using cluster_data_length [OF h fits v] .
    obtain s1 where s1: "fat12_read_cluster D c s = (0, s1)" "step s s1 {} {}"
      "g_cluster_buffer s1 = mem_put (g_cluster_buffer s) 0 (data_of s x)"
      using read_entries [OF Cons.prems(1) v] cx by metis
    have fs1: "g_fs s1 = g_fs s" using vol_step_same(1) [OF s1(2)] .
    have sec1: "sector (disk s1) = sector (disk s)" using step_sector_eq [OF s1(2)] .
    define m where "m = (if rem < cluster_size_bytes (g_fs s) then rem else cluster_size_bytes (g_fs s))"
    have n: "unat m = min (unat rem) (cluster_bytes (g_fs s))"
      using geometry_simps(3) [OF geo] by (simp add: m_def cluster_bytes_def word_less_nat_alt)
    have rem': "unat (rem - m) = unat rem - unat m"
      by (simp add: m_def unat_sub word_le_nat_alt not_less)
    have cur': "unat (cursor + m) = unat cursor + unat m"
      using Cons.prems(4) n by (intro unat_u32_add) simp
    let ?buf1 = "mem_put buf (unat cursor) (take (unat m) (data_of s x))"
    have copy: "fat12_memcpy buf (unat cursor) (g_cluster_buffer s1) 0 (unat m) = ?buf1"
      using n len by (simp add: s1(3) fat12_memcpy_block mem_get_put_prefix)
    have m1: "mounted healthy cap s1" using vol_step_mounted [OF s1(2) Cons.prems(1)] .
    have chain1: "is_chain s1 (fat12_get_fat_entry s1 c) cs"
      using Cons.prems(2) cx vol_step_chain [OF s1(2)] vol_step_entry [OF s1(2)] by simp
    have "unat (cursor + m) + unat (rem - m) < 2 ^ 32"
      unfolding rem' cur' using Cons.prems(4) n by simp
    from Cons.IH [OF m1 chain1 _ this, of ?buf1] Cons.prems(3) obtain s2 where s2: "step s1 s2 {} {}"
      "read_loop D (fat12_get_fat_entry s1 c) (rem - m) (cursor + m) ?buf1 s1 =
        Some (Inr (), mem_put ?buf1 (unat (cursor + m))
          (take (unat (rem - m)) (concat (map (data_of s1) cs))), s2)"
      by (auto simp: fs1)
    have m1_def: "m = (if rem < cluster_size_bytes (g_fs s1) then rem else cluster_size_bytes (g_fs s1))"
      by (simp add: m_def fs1)
    have "read_loop D c rem cursor buf s =
        read_loop D (fat12_get_fat_entry s1 c) (rem - m) (cursor + m) ?buf1 s1"
      using False cx s1(1) copy by (subst read_loop.simps) (simp add: Let_def word_gt_0 flip: m1_def)
    also note s2(2)
    also have "mem_put ?buf1 (unat (cursor + m)) (take (unat (rem - m)) (concat (map (data_of s1) cs))) =
        mem_put buf (unat cursor) (take (unat rem) (concat (map (data_of s) (x # cs))))"
      unfolding rem' cur' using n len by (simp add: mem_put_append fs1 sec1 min_def)
    finally show ?thesis using vol_step_trans [OF s1(2) s2(1)] by auto
  qed
qed

end

section \<open>Writing a chain\<close>

definition blocks_needed :: "nat \<Rightarrow> nat \<Rightarrow> nat" where
  "blocks_needed cb n = (n + cb - 1) div cb"

lemma blocks_needed_0 [simp]: "0 < cb \<Longrightarrow> blocks_needed cb 0 = 0"
  by (simp add: blocks_needed_def)

lemma blocks_needed_step:
  assumes "0 < cb" "0 < n"
  shows "blocks_needed cb n = Suc (blocks_needed cb (n - min n cb))"
proof (cases "n \<le> cb")
  case True
  have "n + cb - 1 = (n - 1) + cb" using assms by simp
  then have "(n + cb - 1) div cb = Suc ((n - 1) div cb)"
    using assms(1) by (simp only: div_add_self2 Suc_eq_plus1)
  also have "(n - 1) div cb = 0" using True assms by (intro div_less) simp
  finally show ?thesis using True assms by (simp add: blocks_needed_def)
next
  case False
  then have "n + cb - 1 = cb + (n - cb + cb - 1)" using assms by simp
  then have "(n + cb - 1) div cb = Suc ((n - cb + cb - 1) div cb)"
    using assms(1) by (simp only: div_add_self1)
  then show ?thesis using False by (simp add: blocks_needed_def min_def)
qed

text \<open>One round of the loop, as it is written.\<close>

lemma write_loop_unfold:
  assumes "bw < sz" and "fat12_allocate_cluster D s = (k, s1)" and "k \<noteq> 0"
    and "s2 = (if prev \<ge> 2 then fat12_set_fat_entry prev k s1 else s1)"
    and "s3 = fat12_set_fat_entry k FAT12_CLUSTER_EOC s2"
    and "n = (if cluster_size_bytes (g_fs s3) > sz - bw then sz - bw else cluster_size_bytes (g_fs s3))"
    and "buf = fat12_memcpy (fat12_memset (g_cluster_buffer s3) 0 0 (unat (cluster_size_bytes (g_fs s3))))
                 0 data (unat bw) (unat n)"
    and "fat12_write_cluster D k (s3\<lparr>g_cluster_buffer := buf\<rparr>) = (0, s4)"
  shows "write_loop D data sz first prev bw s =
         write_loop D data sz (if first = 0 then k else first) k (bw + n) s4"
proof -
  have "write_loop D data sz first prev bw s =
      (case fat12_write_cluster D k (s3\<lparr>g_cluster_buffer := buf\<rparr>) of
         (rc, s4) \<Rightarrow>
           if rc \<noteq> 0 then Some (Inl FAT12_ERR_IO, fat12_free_chain (if first = 0 then k else first) s4)
           else write_loop D data sz (if first = 0 then k else first) k (bw + n) s4)"
    by (subst write_loop.simps)
      (simp only: assms(1-2) assms(3-7) [symmetric] assms(3) Let_def prod.case if_True if_False
        refl not_False_eq_True)
  then show ?thesis by (simp add: assms(8))
qed

text \<open>The state of the loop: the clusters written so far are a chain ended by a mark.\<close>

definition partial_chain :: "'d fat12_state \<Rightarrow> u16 \<Rightarrow> u16 \<Rightarrow> u16 list \<Rightarrow> bool" where
  "partial_chain s first prev ds \<longleftrightarrow>
     is_chain s first ds \<and> (ds = [] \<longrightarrow> first = 0 \<and> prev = 0) \<and> (ds \<noteq> [] \<longrightarrow> prev = last ds)
   \<and> (\<forall>x \<in> set ds. valid_cluster (g_fs s) x \<and> in_fat s x \<and> fat12_get_fat_entry s x \<noteq> FAT12_CLUSTER_FREE)"

lemma partial_chain_Nil [simp]: "partial_chain s 0 0 []"
  by (simp add: partial_chain_def)

lemma cluster_value:
  assumes "geometry_ok fs" "valid_cluster fs k"
  shows "k AND 0xFFF = k"
proof -
  have "unat k < 2 ^ 12" using assms(2) geometry_simps(5) [OF assms(1)] by (simp add: valid_cluster_def)
  then have "take_bit 12 k = k" by (simp add: word_unat_eq_iff unsigned_take_bit_eq take_bit_nat_eq_self)
  moreover have "(0xFFF :: u16) = mask 12" by (simp add: mask_eq_exp_minus_1)
  ultimately show ?thesis by (simp only: take_bit_eq_mask)
qed

lemma chain_head: "is_chain s c cs \<Longrightarrow> cs \<noteq> [] \<Longrightarrow> c = hd cs"
  by (cases cs) auto

context sector_store
begin

text \<open>One round of the loop.\<close>

lemma write_loop_round:
  assumes m: "mounted healthy cap s" and part: "partial_chain s first prev ds"
    and more: "unat bw < unat sz" and free: "free_clusters s \<noteq> {}"
    and n_def: "n = min (unat sz - unat bw) (cluster_bytes (g_fs s))"
  obtains k first1 bw1 s1 where
    "write_loop D data sz first prev bw s = write_loop D data sz first1 k bw1 s1"
    "k \<in> free_clusters s" "unat bw1 = unat bw + n" "step s s1 (insert k (set ds)) {k}"
    "partial_chain s1 first1 k (ds @ [k])" "free_clusters s1 = free_clusters s - {k}"
    "take n (data_of s1 k) = mem_get data (unat bw) n" "length (data_of s1 k) = cluster_bytes (g_fs s)"
proof -
  have geo: "geometry_ok (g_fs s)" using m by (simp add: mounted_def)
  obtain k s1 where s1: "fat12_allocate_cluster D s = (k, s1)" "k \<in> free_clusters s"
    "step s s1 {k} {k}" "fat12_get_fat_entry s1 k = FAT12_CLUSTER_EOC"
    using step_allocate [OF m free] by metis
  have kv: "valid_cluster (g_fs s) k" and kf: "fat12_get_fat_entry s k = FAT12_CLUSTER_FREE"
    using s1(2) by (auto simp: free_clusters_def)
  have k0: "k \<noteq> 0" "chain_link k" using valid_cluster_link [OF geo kv] by auto
  have kd: "k \<notin> set ds" using part kf by (auto simp: partial_chain_def)
  have k_in: "in_fat s k" using kf get_out_of_fat [of s k] by (cases "in_fat s k") auto
  have prev: "\<not> 2 \<le> prev" if "ds = []" using that part by (simp add: partial_chain_def)
  have prev': "prev = last ds" "prev \<in> set ds" "prev \<noteq> k" "2 \<le> prev" if "ds \<noteq> []"
    using that part kd valid_cluster_link(3) [OF geo] by (auto simp: partial_chain_def)
  define s2 where "s2 = (if prev \<ge> 2 then fat12_set_fat_entry prev k s1 else s1)"
  define s3 where "s3 = fat12_set_fat_entry k FAT12_CLUSTER_EOC s2"
  have h1: "healthy (disk s1)" using vol_step_same(5) [OF s1(3)] .
  have "step s1 s2 (set ds) {}"
  proof (cases "ds = []")
    case True
    then show ?thesis using prev h1 by (simp add: s2_def vol_step_refl)
  next
    case False
    have "step s1 (fat12_set_fat_entry prev k s1) {prev} {}" using h1 by (rule step_set_fat)
    then show ?thesis using prev' False by (auto simp: s2_def intro: vol_step_weaken)
  qed
  moreover have "step s2 s3 {k} {}"
    unfolding s3_def using h1 by (intro step_set_fat) (simp add: s2_def)
  ultimately have "step s1 s3 (set ds \<union> {k}) ({} \<union> {})" by (rule vol_step_trans)
  from vol_step_trans [OF s1(3) this] have step3: "step s s3 (insert k (set ds)) {k}" by simp
  have fs3: "g_fs s3 = g_fs s" using vol_step_same(1) [OF step3] .
  let ?cb = "cluster_size_bytes (g_fs s)"
  define w where "w = (if sz - bw < ?cb then sz - bw else ?cb)"
  have cb: "unat ?cb = cluster_bytes (g_fs s)" using geometry_simps(3) [OF geo] by (simp add: cluster_bytes_def)
  have n: "unat w = n" using more cb by (simp add: w_def n_def word_less_nat_alt unat_sub word_le_nat_alt)
  let ?buf = "fat12_memcpy (fat12_memset (g_cluster_buffer s3) 0 0 (unat ?cb)) 0 data (unat bw) (unat w)"
  let ?s3b = "s3\<lparr>g_cluster_buffer := ?buf\<rparr>"
  have step3b: "step s ?s3b (insert k (set ds)) {k}" using step3 by simp
  have m3: "mounted healthy cap ?s3b" using vol_step_mounted [OF step3b m] .
  have v3: "valid_cluster (g_fs ?s3b) k" using kv fs3 by simp
  obtain s4 where s4: "fat12_write_cluster D k ?s3b = (0, s4)" "step ?s3b s4 {} {k}"
    "data_of s4 k = mem_get (g_cluster_buffer ?s3b) 0 (cluster_bytes (g_fs ?s3b))"
    "s4 = ?s3b\<lparr>disk := disk s4\<rparr>"
    by (rule step_write_cluster [OF m3 v3])
  have step4: "step s s4 (insert k (set ds)) {k}" using vol_step_trans [OF step3b s4(2)] by simp
  have get4: "fat12_get_fat_entry s4 x = fat12_get_fat_entry s3 x" for x
    using s4(4) by (metis get_fat_entry_update(1,2))
  have fs4: "g_fs s4 = g_fs s" using vol_step_same(1) [OF step4] .
  have in1: "in_fat s1 x = in_fat s x" "in_fat s2 x = in_fat s x" "in_fat s4 x = in_fat s x" for x
    using vol_step_same(1) [OF s1(3)] fs4 by (simp_all add: in_fat_def s2_def)
  have get_k: "fat12_get_fat_entry s4 k = FAT12_CLUSTER_EOC"
    using k_in by (simp add: get4 s3_def get_set in1)
  have get_prev: "fat12_get_fat_entry s4 prev = k" if "ds \<noteq> []"
    using prev' [OF that] part that cluster_value [OF geo kv]
    by (auto simp: get4 s3_def s2_def get_set in1 partial_chain_def)
  have get_other: "fat12_get_fat_entry s4 x = fat12_get_fat_entry s x" if "x \<noteq> k" "ds \<noteq> [] \<Longrightarrow> x \<noteq> prev" for x
    using that prev prev'(1,4) vol_step_entry [OF s1(3)]
    by (cases "ds = []") (auto simp: get4 s3_def s2_def get_set)
  let ?first1 = "if first = 0 then k else first" and ?bw1 = "bw + w"
  have chain4: "is_chain s4 ?first1 (ds @ [k])"
  proof (cases "ds = []")
    case True
    then show ?thesis using part k0 get_k by (simp add: partial_chain_def)
  next
    case False
    have c: "is_chain s first ds" using part by (simp add: partial_chain_def)
    have "first \<noteq> 0" using c False by (cases ds) auto
    moreover have "fat12_get_fat_entry s4 x = fat12_get_fat_entry s x" if "x \<in> set ds" "x \<noteq> last ds" for x
      using get_other [of x] that kd prev'(1) [OF False] by auto
    ultimately show ?thesis
      using is_chain_extend [OF c False kd k0(2), of s4] get_prev [OF False] get_k prev'(1) [OF False]
      by simp
  qed
  have "fat12_get_fat_entry s4 x \<noteq> FAT12_CLUSTER_FREE" if "x \<in> set (ds @ [k])" for x
  proof (cases "x = k \<or> ds \<noteq> [] \<and> x = prev")
    case True
    then show ?thesis using get_k get_prev k0 by auto
  next
    case False
    then show ?thesis using that get_other [of x] part by (auto simp: partial_chain_def)
  qed
  then have part4: "partial_chain s4 ?first1 k (ds @ [k])"
    using chain4 part kv k_in by (auto simp: partial_chain_def fs4 in1)
  have free4: "free_clusters s4 = free_clusters s - {k}"
  proof -
    have "x \<in> free_clusters s4 \<longleftrightarrow> x \<in> free_clusters s - {k}" for x
    proof -
      consider "x = k" | "ds \<noteq> []" "x = prev" "x \<noteq> k" | "x \<noteq> k" "ds = [] \<or> x \<noteq> prev" by blast
      then show ?thesis
      proof cases
        case 1
        then show ?thesis using get_k by (simp add: free_clusters_def)
      next
        case 2
        then show ?thesis
          using get_prev k0 part prev'(2) by (simp add: free_clusters_def partial_chain_def)
      next
        case 3
        then show ?thesis using get_other [of x] by (auto simp: free_clusters_def fs4)
      qed
    qed
    then show ?thesis by blast
  qed
  have nle: "n \<le> cluster_bytes (g_fs s)" by (simp add: n_def)
  have data4: "take n (data_of s4 k) = mem_get data (unat bw) n"
    using nle by (simp add: s4(3) fs3 n fat12_memcpy_block take_mem_get mem_get_put_same min_absorb1)
  have bw1: "unat ?bw1 = unat bw + n"
    using more unat_u32_bound [of sz] n by (subst unat_u32_add) (auto simp: n_def)
  have run: "write_loop D data sz first prev bw s = write_loop D data sz ?first1 k ?bw1 s4"
    using more s4(1)
    by (intro write_loop_unfold [OF _ s1(1) k0(1) s2_def s3_def])
      (simp_all add: word_less_nat_alt fs3 w_def)
  show thesis
    using that [OF run s1(2) bw1 step4 part4 free4 data4] by (simp add: s4(3) fs3)
qed

text \<open>Enough free clusters: the data lies on a fresh chain.\<close>

lemma write_loop_stores:
  assumes "mounted healthy cap s" and "partial_chain s first prev ds" and "unat bw \<le> unat sz"
    and "blocks_needed (cluster_bytes (g_fs s)) (unat sz - unat bw) \<le> card (free_clusters s)"
  shows "\<exists>ns first1 prev1 s1. write_loop D data sz first prev bw s = Some (Inr first1, s1)
    \<and> set ns \<subseteq> free_clusters s \<and> step s s1 (set ds \<union> set ns) (set ns)
    \<and> partial_chain s1 first1 prev1 (ds @ ns)
    \<and> length ns = blocks_needed (cluster_bytes (g_fs s)) (unat sz - unat bw)
    \<and> take (unat sz - unat bw) (concat (map (data_of s1) ns)) =
        mem_get data (unat bw) (unat sz - unat bw)"
  using assms
proof (induction "unat sz - unat bw" arbitrary: s first prev ds bw rule: less_induct)
  case less
  let ?cb = "cluster_bytes (g_fs s)"
  have geo: "geometry_ok (g_fs s)" using less.prems(1) by (simp add: mounted_def)
  have cb: "0 < ?cb" using geometry_simps(1) [OF geo] by (simp add: cluster_bytes_def)
  show ?case
  proof (cases "unat bw < unat sz")
    case False
    then have "unat sz - unat bw = 0" by simp
    moreover have "write_loop D data sz first prev bw s = Some (Inr first, s)"
      using False by (subst write_loop.simps) (simp add: word_less_nat_alt)
    ultimately show ?thesis
      using less.prems(2) step_refl [OF less.prems(1)] cb
      by (intro exI [of _ "[]"] exI [of _ first] exI [of _ prev] exI [of _ s]) simp
  next
    case True
    define rem n where "rem = unat sz - unat bw" and "n = min rem ?cb"
    have need: "blocks_needed ?cb rem = Suc (blocks_needed ?cb (rem - n))"
      using True cb by (simp add: rem_def n_def blocks_needed_step)
    then have "free_clusters s \<noteq> {}" using less.prems(4) by (auto simp: rem_def)
    then obtain k first1 bw1 s1 where s1:
      "write_loop D data sz first prev bw s = write_loop D data sz first1 k bw1 s1"
      "k \<in> free_clusters s" "unat bw1 = unat bw + n" "step s s1 (insert k (set ds)) {k}"
      "partial_chain s1 first1 k (ds @ [k])" "free_clusters s1 = free_clusters s - {k}"
      "take n (data_of s1 k) = mem_get data (unat bw) n" "length (data_of s1 k) = ?cb"
      using write_loop_round [OF less.prems(1,2) True _ refl] unfolding n_def rem_def by metis
    have npos: "0 < n" "n \<le> rem" using True cb by (auto simp: n_def rem_def)
    have rem1: "unat sz - unat bw1 = rem - n" by (simp add: s1(3) rem_def)
    have m1: "mounted healthy cap s1" using vol_step_mounted [OF s1(4) less.prems(1)] .
    have fs1: "g_fs s1 = g_fs s" using vol_step_same(1) [OF s1(4)] .
    have card1: "blocks_needed ?cb (rem - n) \<le> card (free_clusters s1)"
      using less.prems(4) need s1(2) by (simp add: s1(6) rem_def)
    have le1: "unat bw1 \<le> unat sz" using npos(2) True by (simp add: s1(3) rem_def)
    have dec: "unat sz - unat bw1 < unat sz - unat bw"
      using npos by (simp only: rem1) (simp add: rem_def)
    have kv: "valid_cluster (g_fs s) k" using s1(2) by (simp add: free_clusters_def)
    from less.hyps [OF dec m1 s1(5) le1] card1 obtain ns first2 prev2 s2 where s2:
      "write_loop D data sz first1 k bw1 s1 = Some (Inr first2, s2)"
      "set ns \<subseteq> free_clusters s1" "step s1 s2 (set (ds @ [k]) \<union> set ns) (set ns)"
      "partial_chain s2 first2 prev2 ((ds @ [k]) @ ns)"
      "length ns = blocks_needed ?cb (rem - n)"
      "take (rem - n) (concat (map (data_of s2) ns)) = mem_get data (unat bw1) (rem - n)"
      unfolding rem1 fs1 by blast
    have ns: "set ns \<subseteq> free_clusters s" "k \<notin> set ns" using s2(2) s1(6) by auto
    have step: "step s s2 (set ds \<union> set (k # ns)) (set (k # ns))"
      using vol_step_trans [OF s1(4) s2(3)] by (auto elim: vol_step_weaken)
    have "data_of s2 k = data_of s1 k"
    proof (rule vol_step_data [OF s2(3)])
      show "valid_cluster (g_fs s1) k" using kv fs1 by simp
      show "\<forall>c \<in> set ns - {0}. valid_cluster (g_fs s1) c"
        using s2(2) by (auto simp: free_clusters_def)
    qed (fact ns(2))
    moreover have "take rem (concat (map (data_of s2) (k # ns))) =
        take n (data_of s2 k) @ take (rem - n) (concat (map (data_of s2) ns))"
      if "length (data_of s2 k) = ?cb"
      using that by (auto simp: n_def min_def)
    ultimately have "take rem (concat (map (data_of s2) (k # ns))) = mem_get data (unat bw) rem"
      using s1(3,7,8) s2(6) npos(2) by (simp add: mem_get_add [symmetric])
    moreover have "length (k # ns) = blocks_needed ?cb rem" using s2(5) need by simp
    ultimately show ?thesis
      unfolding rem_def [symmetric]
      using s1(1,2) s2(1,4) ns(1) step
      by (intro exI [of _ "k # ns"] exI [of _ first2] exI [of _ prev2] exI [of _ s2]) simp
  qed
qed

text \<open>Too few free clusters: an error, and the table is as before.\<close>

lemma write_loop_full:
  assumes "mounted healthy cap s" and "partial_chain s first prev ds" and "unat bw \<le> unat sz"
    and "card (free_clusters s) < blocks_needed (cluster_bytes (g_fs s)) (unat sz - unat bw)"
  shows "\<exists>s1. write_loop D data sz first prev bw s = Some (Inl FAT12_ERR_NO_FREE_CLUSTER, s1)
    \<and> step s s1 (set ds \<union> free_clusters s) (free_clusters s)
    \<and> (\<forall>x. fat12_get_fat_entry s1 x =
          (if x \<in> set ds then FAT12_CLUSTER_FREE else fat12_get_fat_entry s x))"
  using assms
proof (induction "unat sz - unat bw" arbitrary: s first prev ds bw rule: less_induct)
  case less
  let ?cb = "cluster_bytes (g_fs s)"
  have geo: "geometry_ok (g_fs s)" using less.prems(1) by (simp add: mounted_def)
  have cb: "0 < ?cb" using geometry_simps(1) [OF geo] by (simp add: cluster_bytes_def)
  have True: "unat bw < unat sz"
  proof (rule ccontr)
    assume "\<not> ?thesis"
    then have "unat sz - unat bw = 0" by simp
    with less.prems(4) cb show False by simp
  qed
  show ?case
  proof (cases "free_clusters s = {}")
    case none: True
    then have al: "fat12_allocate_cluster D s = (0, s)" using allocate_none less.prems(1) by blast
    have chain: "is_chain s first ds" and ds: "\<forall>x \<in> set ds. valid_cluster (g_fs s) x \<and> in_fat s x"
      using less.prems(2) by (auto simp: partial_chain_def)
    have "write_loop D data sz first prev bw s =
        Some (Inl FAT12_ERR_NO_FREE_CLUSTER, fat12_free_chain first s)"
    proof (cases "2 \<le> first")
      case True
      then show ?thesis using \<open>unat bw < unat sz\<close> al
        by (subst write_loop.simps) (simp add: word_less_nat_alt)
    next
      case False
      then show ?thesis using \<open>unat bw < unat sz\<close> al
        by (subst write_loop.simps) (simp add: word_less_nat_alt chain_link_def)
    qed
    moreover have "step s (fat12_free_chain first s) (set ds) {}"
      using less.prems(1) chain by (intro step_free_chain) (simp_all add: mounted_def)
    ultimately show ?thesis
      using free_chain_entries [OF chain] ds none by (intro exI [of _ "fat12_free_chain first s"]) simp
  next
    case some: False
    define rem n where "rem = unat sz - unat bw" and "n = min rem ?cb"
    have need: "blocks_needed ?cb rem = Suc (blocks_needed ?cb (rem - n))"
      using True cb by (simp add: rem_def n_def blocks_needed_step)
    obtain k first1 bw1 s1 where s1:
      "write_loop D data sz first prev bw s = write_loop D data sz first1 k bw1 s1"
      "k \<in> free_clusters s" "unat bw1 = unat bw + n" "step s s1 (insert k (set ds)) {k}"
      "partial_chain s1 first1 k (ds @ [k])" "free_clusters s1 = free_clusters s - {k}"
      using write_loop_round [OF less.prems(1,2) True some refl] unfolding n_def rem_def by metis
    have npos: "0 < n" "n \<le> rem" using True cb by (auto simp: n_def rem_def)
    have rem1: "unat sz - unat bw1 = rem - n" by (simp add: s1(3) rem_def)
    have m1: "mounted healthy cap s1" using vol_step_mounted [OF s1(4) less.prems(1)] .
    have fs1: "g_fs s1 = g_fs s" using vol_step_same(1) [OF s1(4)] .
    have card1: "card (free_clusters s1) < blocks_needed ?cb (rem - n)"
    proof -
      have "card (free_clusters s) = Suc (card (free_clusters s1))"
        unfolding s1(6) using s1(2) by (intro card.remove) simp_all
      then show ?thesis using less.prems(4) need by (simp add: rem_def)
    qed
    have le1: "unat bw1 \<le> unat sz" using npos(2) True by (simp add: s1(3) rem_def)
    have dec: "unat sz - unat bw1 < unat sz - unat bw"
      using npos by (simp only: rem1) (simp add: rem_def)
    from less.hyps [OF dec m1 s1(5) le1] card1 obtain s2 where s2:
      "write_loop D data sz first1 k bw1 s1 = Some (Inl FAT12_ERR_NO_FREE_CLUSTER, s2)"
      "step s1 s2 (set (ds @ [k]) \<union> free_clusters s1) (free_clusters s1)"
      "\<forall>x. fat12_get_fat_entry s2 x =
          (if x \<in> set (ds @ [k]) then FAT12_CLUSTER_FREE else fat12_get_fat_entry s1 x)"
      unfolding rem1 fs1 by blast
    have "step s s2 (set ds \<union> free_clusters s) (free_clusters s)"
      using vol_step_trans [OF s1(4) s2(2)] s1(2,6) by (auto elim!: vol_step_weaken)
    moreover have "fat12_get_fat_entry s2 x =
        (if x \<in> set ds then FAT12_CLUSTER_FREE else fat12_get_fat_entry s x)" for x
      using s2(3) s1(2) vol_step_entry [OF s1(4), of x] by (auto simp: free_clusters_def)
    ultimately show ?thesis using s1(1) s2(1) by auto
  qed
qed

end

end
