(* ===== verification/Fat12_Flush.thy ===== *)
theory Fat12_Flush
  imports Fat12_Step
begin

text \<open>
  Write-back on a working disk. \<open>coherent\<close> says that a cache without its dirty flag
  equals its sectors on the disk; every step preserves it, flushing makes both caches
  clean, and a flush touches only the allocation tables and the root directory.
\<close>

section \<open>The reserved regions of the volume\<close>

definition fat_region :: "fat12_fs \<Rightarrow> nat" where
  "fat_region fs = unat (base_lba fs) + unat (fat_start_lba fs)"

definition root_region :: "fat12_fs \<Rightarrow> nat" where
  "root_region fs = unat (base_lba fs) + unat (root_dir_start_lba fs)"

definition stored_at :: "(nat \<Rightarrow> byte list) \<Rightarrow> nat \<Rightarrow> nat \<Rightarrow> mem \<Rightarrow> bool" where
  "stored_at S lba n m \<longleftrightarrow> (\<forall>i < n. S (lba + i) = mem_get m (512 * i) 512)"

definition fat_on_disk :: "(nat \<Rightarrow> byte list) \<Rightarrow> 'd fat12_state \<Rightarrow> nat \<Rightarrow> bool" where
  "fat_on_disk S s k \<longleftrightarrow>
     stored_at S (fat_region (g_fs s) + k * unat (sectors_per_fat (g_fs s)))
       (unat (sectors_per_fat (g_fs s))) (g_fat_primary s)"

definition root_on_disk :: "(nat \<Rightarrow> byte list) \<Rightarrow> 'd fat12_state \<Rightarrow> bool" where
  "root_on_disk S s \<longleftrightarrow>
     stored_at S (root_region (g_fs s)) (unat (root_dir_sectors (g_fs s))) (g_root_dir s)"

definition coherent :: "(nat \<Rightarrow> byte list) \<Rightarrow> 'd fat12_state \<Rightarrow> bool" where
  "coherent S s \<longleftrightarrow>
     (\<not> g_fat_dirty s \<longrightarrow> fat_on_disk S s 0) \<and> (\<not> g_root_dirty s \<longrightarrow> root_on_disk S s)"

text \<open>Both caches are clean and on the disk.\<close>

definition synced :: "(nat \<Rightarrow> byte list) \<Rightarrow> 'd fat12_state \<Rightarrow> bool" where
  "synced S s \<longleftrightarrow> \<not> g_fat_dirty s \<and> \<not> g_root_dirty s \<and> fat_on_disk S s 0 \<and> root_on_disk S s"

lemma regions:
  assumes "geometry_ok fs"
  shows "fat_region fs + unat (num_fats fs) * unat (sectors_per_fat fs) = root_region fs"
    "root_region fs + unat (root_dir_sectors fs) = unat (base_lba fs) + unat (data_start_lba fs)"
  using geometry_simps(11,12) [OF assms] by (simp_all add: fat_region_def root_region_def)

lemma stored_at_cong:
  assumes "\<And>i. i < n \<Longrightarrow> S (lba + i) = S' (lba + i)"
  shows "stored_at S lba n m = stored_at S' lba n m"
  using assms by (simp add: stored_at_def)

lemma touched_data_area:
  "k < unat (base_lba fs) + unat (data_start_lba fs) \<Longrightarrow> k \<notin> touched fs C"
  using cluster_sector_data_area [of fs] by (auto simp: touched_def cluster_span_def dest: le_less_trans less_le_trans)

lemma copy_below_data:
  assumes "geometry_ok fs" and "k < unat (num_fats fs)" and "i < unat (sectors_per_fat fs)"
  shows "fat_region fs + k * unat (sectors_per_fat fs) + i < root_region fs"
proof -
  have "Suc k * unat (sectors_per_fat fs) \<le> unat (num_fats fs) * unat (sectors_per_fat fs)"
    using assms(2) by (intro mult_le_mono1) simp
  with assms(3) regions(1) [OF assms(1)] show ?thesis by simp
qed

lemma coherent_step:
  assumes step: "vol_step healthy sector s s' F C" and geo: "geometry_ok (g_fs s)"
    and nf: "0 < unat (num_fats (g_fs s))" and coh: "coherent (sector (disk s)) s"
  shows "coherent (sector (disk s')) s'"
proof -
  have fs: "g_fs s' = g_fs s" using vol_step_same(1) [OF step] .
  have meta: "sector (disk s') k = sector (disk s) k"
    if "k < unat (base_lba (g_fs s)) + unat (data_start_lba (g_fs s))" for k
    using vol_step_sector [OF step touched_data_area [OF that]] .
  have "fat_on_disk (sector (disk s')) s 0 = fat_on_disk (sector (disk s)) s 0"
    unfolding fat_on_disk_def using copy_below_data [OF geo nf] regions(2) [OF geo]
    by (intro stored_at_cong meta) fastforce
  moreover have "root_on_disk (sector (disk s')) s = root_on_disk (sector (disk s)) s"
    unfolding root_on_disk_def using regions(2) [OF geo] by (intro stored_at_cong meta) simp
  ultimately show ?thesis
    using step coh unfolding coherent_def fat_on_disk_def root_on_disk_def fs vol_step_def by auto
qed

section \<open>Sector loops on a working disk\<close>

context sector_store
begin

lemma store_sectors_spec:
  assumes "healthy d" and "unat start + i + left \<le> cap"
  shows "\<exists>d'. store_sectors D start i left m d = (True, d') \<and> healthy d'
    \<and> sector d' = sectors_update (sector d) (unat start + i) left m (i * 512)"
  using assms
proof (induction left arbitrary: i d)
  case 0
  have "sectors_update (sector d) (unat start + i) 0 m (i * 512) = sector d"
    by (rule ext) (auto simp: sectors_update_def)
  with 0 show ?case by simp
next
  case (Suc left)
  have "unat (start + of_nat i) = unat start + i"
    using Suc.prems(2) cap_bound by (subst unat_u32_add) (simp_all add: unat_of_nat_u32)
  then have "unat (start + of_nat i) < cap" "unat (start + of_nat i) = unat start + i"
    using Suc.prems(2) by simp_all
  from write_sector [OF Suc.prems(1) this(1), of "i * 512" m] this(2) obtain d1 where d1:
    "op_write_sector D (start + of_nat i) (Some (i * 512)) m d = (0, d1)" "healthy d1"
    "sector d1 = sectors_update (sector d) (unat start + i) 1 m (i * 512)" by auto
  from Suc.IH [OF d1(2), of "Suc i"] Suc.prems(2) obtain d2 where d2:
    "store_sectors D start (Suc i) left m d1 = (True, d2)" "healthy d2"
    "sector d2 = sectors_update (sector d1) (Suc (unat start + i)) left m (i * 512 + 512)"
    by (auto simp: add.commute)
  have "sector d2 = sectors_update (sector d) (unat start + i) (Suc left) m (i * 512)"
    unfolding d2(3) d1(3) by (rule sectors_update_Suc)
  with d1(1) d2(1,2) show ?case by simp
qed

lemma store_fat_copies_spec:
  assumes "healthy d" and geo: "geometry_ok fs" and "volume_fits fs cap"
    and "k + left = unat (num_fats fs)"
  shows "\<exists>d'. store_fat_copies D fs m k left d = (True, d') \<and> healthy d'
    \<and> (\<forall>j. k \<le> j \<and> j < k + left \<longrightarrow>
          stored_at (sector d') (fat_region fs + j * unat (sectors_per_fat fs)) (unat (sectors_per_fat fs)) m)
    \<and> (\<forall>n. n < fat_region fs + k * unat (sectors_per_fat fs) \<or> root_region fs \<le> n \<longrightarrow>
          sector d' n = sector d n)"
  using assms(1,4)
proof (induction left arbitrary: k d)
  case 0
  then show ?case by auto
next
  case (Suc left)
  let ?spf = "unat (sectors_per_fat fs)"
  have k: "k < unat (num_fats fs)" "k < 256"
    using Suc.prems(2) unat_u8_le [of "num_fats fs"] by simp_all
  have "Suc k * ?spf \<le> unat (num_fats fs) * ?spf" using k by (intro mult_le_mono1) simp
  then have ends: "fat_region fs + k * ?spf + ?spf \<le> root_region fs" using regions(1) [OF geo] by simp
  have total: "root_region fs \<le> cap" "cap \<le> 2 ^ 28"
    using assms(3) regions(2) [OF geo] by (auto simp: volume_fits_def volume_sectors_def)
  let ?start = "base_lba fs + fat_start_lba fs + of_nat k * ucast (sectors_per_fat fs) :: u32"
  have "unat (of_nat k * ucast (sectors_per_fat fs) :: u32) = k * ?spf"
    using ends total k by (subst unat_u32_mult) (simp_all add: unat_of_nat_u32)
  moreover have "unat (base_lba fs + fat_start_lba fs) = fat_region fs"
    unfolding fat_region_def using ends total by (intro unat_u32_add) (simp add: fat_region_def)
  ultimately have start: "unat ?start = fat_region fs + k * ?spf"
    using ends total by (subst unat_u32_add) simp_all
  have "unat ?start + 0 + ?spf \<le> cap" using start ends total by simp
  from store_sectors_spec [OF Suc.prems(1) this, of m] obtain d1 where d1:
    "store_sectors D ?start 0 ?spf m d = (True, d1)" "healthy d1"
    "sector d1 = sectors_update (sector d) (fat_region fs + k * ?spf) ?spf m 0"
    unfolding start by auto
  from Suc.IH [OF d1(2), of "Suc k"] Suc.prems(2) obtain d2 where d2:
    "store_fat_copies D fs m (Suc k) left d1 = (True, d2)" "healthy d2"
    "\<forall>j. Suc k \<le> j \<and> j < Suc k + left \<longrightarrow>
          stored_at (sector d2) (fat_region fs + j * ?spf) ?spf m"
    "\<forall>n. n < fat_region fs + Suc k * ?spf \<or> root_region fs \<le> n \<longrightarrow> sector d2 n = sector d1 n"
    by auto
  have here: "stored_at (sector d2) (fat_region fs + k * ?spf) ?spf m"
    using d2(4) by (simp add: stored_at_def d1(3) sectors_update_def)
  have "stored_at (sector d2) (fat_region fs + j * ?spf) ?spf m" if "k \<le> j" "j < k + Suc left" for j
    using that here d2(3) by (cases "j = k") auto
  moreover have "sector d2 n = sector d n"
    if "n < fat_region fs + k * ?spf \<or> root_region fs \<le> n" for n
    using that d2(4) ends by (auto simp: d1(3) sectors_update_def)
  ultimately show ?case using d1(1) d2(1,2) by (simp add: Let_def)
qed

text \<open>Flushing: both caches end up clean and stored; the data area is not touched.\<close>

lemma flush_root_spec:
  assumes m: "mounted healthy cap s"
  obtains s1 where "fat12_flush_root D s = (Inr (), s1)" "s1 = s\<lparr>disk := disk s1, g_root_dirty := False\<rparr>"
    "healthy (disk s1)" "g_root_dirty s \<longrightarrow> root_on_disk (sector (disk s1)) s"
    "\<not> g_root_dirty s \<longrightarrow> sector (disk s1) = sector (disk s)"
    "\<forall>n. n < root_region (g_fs s) \<or> root_region (g_fs s) + unat (root_dir_sectors (g_fs s)) \<le> n \<longrightarrow>
       sector (disk s1) n = sector (disk s) n"
proof (cases "g_root_dirty s")
  case False
  with m show thesis by (intro that [of s]) (simp_all add: fat12_flush_root_def mounted_def)
next
  case True
  have geo: "geometry_ok (g_fs s)" and h: "healthy (disk s)" and fits: "volume_fits (g_fs s) cap"
    using m by (auto simp: mounted_def)
  let ?rds = "unat (root_dir_sectors (g_fs s))"
  let ?start = "base_lba (g_fs s) + root_dir_start_lba (g_fs s)"
  have total: "root_region (g_fs s) + ?rds \<le> cap" "cap \<le> 2 ^ 28"
    using fits regions(2) [OF geo] by (auto simp: volume_fits_def volume_sectors_def)
  have start: "unat ?start = root_region (g_fs s)"
    unfolding root_region_def using total by (intro unat_u32_add) (simp add: root_region_def)
  obtain d1 where d1: "store_sectors D ?start 0 ?rds (g_root_dir s) (disk s) = (True, d1)" "healthy d1"
    "sector d1 = sectors_update (sector (disk s)) (root_region (g_fs s)) ?rds (g_root_dir s) 0"
    using store_sectors_spec [OF h, of ?start 0 ?rds "g_root_dir s"] start total by auto
  show thesis
    using True d1
    by (intro that [of "s\<lparr>disk := d1, g_root_dirty := False\<rparr>"])
      (simp_all add: fat12_flush_root_def root_on_disk_def stored_at_def sectors_update_def)
qed

lemma flush_fats_spec:
  assumes m: "mounted healthy cap s"
  obtains s1 where "fat12_flush_fats D s = (Inr (), s1)" "s1 = s\<lparr>disk := disk s1, g_fat_dirty := False\<rparr>"
    "healthy (disk s1)" "g_fat_dirty s \<longrightarrow> (\<forall>k < unat (num_fats (g_fs s)). fat_on_disk (sector (disk s1)) s k)"
    "\<not> g_fat_dirty s \<longrightarrow> sector (disk s1) = sector (disk s)"
    "\<forall>n. n < fat_region (g_fs s) \<or> root_region (g_fs s) \<le> n \<longrightarrow>
       sector (disk s1) n = sector (disk s) n"
proof (cases "g_fat_dirty s")
  case False
  with m show thesis by (intro that [of s]) (simp_all add: fat12_flush_fats_def mounted_def)
next
  case True
  have geo: "geometry_ok (g_fs s)" and h: "healthy (disk s)" and fits: "volume_fits (g_fs s) cap"
    using m by (auto simp: mounted_def)
  obtain d1 where d1: "store_fat_copies D (g_fs s) (g_fat_primary s) 0 (unat (num_fats (g_fs s))) (disk s) = (True, d1)"
    "healthy d1" "\<forall>k < unat (num_fats (g_fs s)). fat_on_disk (sector d1) s k"
    "\<forall>n. n < fat_region (g_fs s) \<or> root_region (g_fs s) \<le> n \<longrightarrow> sector d1 n = sector (disk s) n"
    using store_fat_copies_spec [OF h geo fits, of 0 "unat (num_fats (g_fs s))" "g_fat_primary s"]
    by (auto simp: fat_on_disk_def)
  show thesis
    using True d1
    by (intro that [of "s\<lparr>disk := d1, g_fat_dirty := False\<rparr>"]) (simp_all add: fat12_flush_fats_def)
qed

text \<open>The effect of both, in the order every operation ends with.\<close>

lemma flush_both_spec:
  assumes m: "mounted healthy cap s"
  obtains s2 where "fat12_flush_fats D (snd (fat12_flush_root D s)) = (Inr (), s2)"
    "fat12_flush D s = (Inr (), s2)"
    "s2 = s\<lparr>disk := disk s2, g_root_dirty := False, g_fat_dirty := False\<rparr>" "healthy (disk s2)"
    "g_fat_dirty s \<longrightarrow> (\<forall>k < unat (num_fats (g_fs s)). fat_on_disk (sector (disk s2)) s k)"
    "coherent (sector (disk s)) s \<and> 0 < unat (num_fats (g_fs s)) \<longrightarrow> fat_on_disk (sector (disk s2)) s 0"
    "coherent (sector (disk s)) s \<longrightarrow> root_on_disk (sector (disk s2)) s"
    "\<forall>n. n < fat_region (g_fs s) \<or> unat (base_lba (g_fs s)) + unat (data_start_lba (g_fs s)) \<le> n \<longrightarrow>
       sector (disk s2) n = sector (disk s) n"
proof -
  have geo: "geometry_ok (g_fs s)" using m by (simp add: mounted_def)
  note reg = regions [OF geo]
  obtain s1 where s1: "fat12_flush_root D s = (Inr (), s1)" "s1 = s\<lparr>disk := disk s1, g_root_dirty := False\<rparr>"
    "healthy (disk s1)" "g_root_dirty s \<longrightarrow> root_on_disk (sector (disk s1)) s"
    "\<not> g_root_dirty s \<longrightarrow> sector (disk s1) = sector (disk s)"
    "\<forall>n. n < root_region (g_fs s) \<or> root_region (g_fs s) + unat (root_dir_sectors (g_fs s)) \<le> n \<longrightarrow>
       sector (disk s1) n = sector (disk s) n"
    by (rule flush_root_spec [OF m])
  have fs1: "g_fs s1 = g_fs s" "g_fat_primary s1 = g_fat_primary s" "g_fat_dirty s1 = g_fat_dirty s"
    "g_fs_ready s1 = g_fs_ready s" by (subst s1(2), simp)+
  have m1: "mounted healthy cap s1" using m s1(3) by (simp add: mounted_def fs1)
  obtain s2 where s2: "fat12_flush_fats D s1 = (Inr (), s2)" "s2 = s1\<lparr>disk := disk s2, g_fat_dirty := False\<rparr>"
    "healthy (disk s2)" "g_fat_dirty s1 \<longrightarrow> (\<forall>k < unat (num_fats (g_fs s1)). fat_on_disk (sector (disk s2)) s1 k)"
    "\<not> g_fat_dirty s1 \<longrightarrow> sector (disk s2) = sector (disk s1)"
    "\<forall>n. n < fat_region (g_fs s1) \<or> root_region (g_fs s1) \<le> n \<longrightarrow> sector (disk s2) n = sector (disk s1) n"
    by (rule flush_fats_spec [OF m1])
  show thesis
  proof (rule that [of s2])
    show "fat12_flush_fats D (snd (fat12_flush_root D s)) = (Inr (), s2)" using s1(1) s2(1) by simp
    show "fat12_flush D s = (Inr (), s2)" using m s1(1) s2(1) by (simp add: fat12_flush_def mounted_def)
    show "s2 = s\<lparr>disk := disk s2, g_root_dirty := False, g_fat_dirty := False\<rparr>"
      by (subst s2(2), subst s1(2)) simp
    show "g_fat_dirty s \<longrightarrow> (\<forall>k < unat (num_fats (g_fs s)). fat_on_disk (sector (disk s2)) s k)"
      using s2(4) by (simp add: fs1 fat_on_disk_def)
    show "coherent (sector (disk s)) s \<and> 0 < unat (num_fats (g_fs s)) \<longrightarrow>
        fat_on_disk (sector (disk s2)) s 0"
    proof (cases "g_fat_dirty s", safe)
      assume coh: "coherent (sector (disk s)) s" and nf: "0 < unat (num_fats (g_fs s))"
        and True: "g_fat_dirty s"
      then show "fat_on_disk (sector (disk s2)) s 0"
        using s2(4) nf by (auto simp: fs1 fat_on_disk_def)
    next
      assume coh: "coherent (sector (disk s)) s" and nf: "0 < unat (num_fats (g_fs s))"
        and False: "\<not> g_fat_dirty s"
      have "fat_on_disk (sector (disk s1)) s 0 = fat_on_disk (sector (disk s)) s 0"
        unfolding fat_on_disk_def using s1(6) copy_below_data [OF geo nf]
        by (intro stored_at_cong) fastforce
      then show "fat_on_disk (sector (disk s2)) s 0"
        using coh False s2(5) by (simp add: coherent_def fs1)
    qed
    show "coherent (sector (disk s)) s \<longrightarrow> root_on_disk (sector (disk s2)) s"
    proof
      assume "coherent (sector (disk s)) s"
      then have "root_on_disk (sector (disk s1)) s"
        using s1(4,5) by (cases "g_root_dirty s") (simp_all add: coherent_def)
      moreover have "root_on_disk (sector (disk s2)) s = root_on_disk (sector (disk s1)) s"
        unfolding root_on_disk_def using s2(6) by (intro stored_at_cong) (simp add: fs1)
      ultimately show "root_on_disk (sector (disk s2)) s" by simp
    qed
    show "\<forall>n. n < fat_region (g_fs s) \<or> unat (base_lba (g_fs s)) + unat (data_start_lba (g_fs s)) \<le> n \<longrightarrow>
       sector (disk s2) n = sector (disk s) n"
      using s1(6) s2(6) reg by (auto simp: fs1)
  qed (fact s2(3))
qed

end

end
