(* ===== verification/Fat12_File_Spec.thy ===== *)
theory Fat12_File_Spec
  imports Fat12_Transfer Fat12_Flush
begin

text \<open>
  What the file operations promise on a working disk, for a name in the current
  directory: \<open>fat12_write_file\<close> binds the name to an entry whose chain carries the data
  and leaves every other file alone, \<open>fat12_read_file\<close> returns the bytes, and
  \<open>fat12_delete_file\<close> unbinds the name and frees its chain. The directory is the root
  or any subdirectory.
\<close>

section \<open>Names and files\<close>

text \<open>A path of one component and the short name it spells.\<close>

definition plain_path :: "byte list \<Rightarrow> byte list \<Rightarrow> bool" where
  "plain_path p name \<longleftrightarrow>
     (\<forall>c \<in> set p. c \<noteq> 0 \<and> \<not> is_sep c) \<and> fat12_make_short_name (Some p) = Inr name"

text \<open>The data clusters of a file, all valid and allocated.\<close>

definition file_chain :: "'d fat12_state \<Rightarrow> u16 \<Rightarrow> u16 list \<Rightarrow> bool" where
  "file_chain s c cs \<longleftrightarrow>
     is_chain s c cs \<and> (\<forall>x \<in> set cs. valid_cluster (g_fs s) x \<and> in_fat s x
                          \<and> fat12_get_fat_entry s x \<noteq> FAT12_CLUSTER_FREE)"

definition is_directory :: "raw_dir_entry \<Rightarrow> bool" where
  "is_directory e \<longleftrightarrow> re_attr e AND FAT12_ATTR_DIRECTORY \<noteq> 0"

text \<open>The slots of the current directory, \<open>dcs\<close> its chain.\<close>

abbreviation cwd_entries :: "(nat \<Rightarrow> byte list) \<Rightarrow> 'd fat12_state \<Rightarrow> u16 list \<Rightarrow> raw_dir_entry list" where
  "cwd_entries S s dcs \<equiv> dir_entries S s (g_current_dir_cluster s) dcs"

definition cwd_ok :: "(nat \<Rightarrow> byte list) \<Rightarrow> 'd fat12_state \<Rightarrow> u16 list \<Rightarrow> bool" where
  "cwd_ok S s dcs \<longleftrightarrow> dir_chain s (g_current_dir_cluster s) dcs \<and> dir_wf (cwd_entries S s dcs)"

lemma plain_path_facts:
  assumes "plain_path p name"
  shows "length name = 11" "p \<noteq> []" "length p \<le> 12" "fat12_is_valid_char (name ! 0)"
    "char_at p 0 \<noteq> 0" "\<not> starts_at_root p" "\<not> is_dot p" "\<not> is_dotdot p"
proof -
  have mk: "fat12_make_short_name (Some p) = Inr name" and ch: "\<forall>c \<in> set p. c \<noteq> 0 \<and> \<not> is_sep c"
    using assms by (auto simp: plain_path_def)
  show "length name = 11" using make_short_name_length [OF mk] .
  show "fat12_is_valid_char (name ! 0)" using make_short_name_first [OF mk] .
  obtain b e where be: "valid_base b" "valid_ext e" "spells83 b e (copy_upper 0 p)"
    by (rule make_short_name_cases [OF mk])
  have "length (copy_upper 0 p) \<le> 12" using spells83_length [OF be] .
  then have up: "copy_upper 0 p = map fat12_to_upper (cstr p)" by (rule copy_upper_short)
  have "cstr p = p" using ch by (intro cstr_idem) auto
  with up have up: "copy_upper 0 p = map fat12_to_upper p" by simp
  with \<open>length (copy_upper 0 p) \<le> 12\<close> show "length p \<le> 12" by simp
  have ne: "copy_upper 0 p \<noteq> []" using be by (auto simp: spells83_def valid_base_def)
  then show "p \<noteq> []" using up by auto
  then obtain a as where p: "p = a # as" by (cases p) auto
  show "char_at p 0 \<noteq> 0" using ch p by simp
  show "\<not> starts_at_root p" using ch p by (simp add: starts_at_root_def)
  have "fat12_to_upper a \<noteq> 0x2E"
  proof -
    obtain b0 bs where "b = b0 # bs" "fat12_is_valid_char b0"
      using be(1) by (cases b) (auto simp: valid_base_def)
    then have "hd (copy_upper 0 p) = b0" "b0 \<noteq> 0x2E"
      using be(3) valid_char_facts by (auto simp: spells83_def)
    then show ?thesis using up p by simp
  qed
  then have "a \<noteq> 0x2E" by (auto simp: fat12_to_upper_def)
  then show "\<not> is_dot p" "\<not> is_dotdot p" using p by (simp_all add: is_dot_def is_dotdot_def)
qed

lemma resolve_plain:
  assumes "plain_path p name"
  shows "fat12_resolve_parent_and_name D (Some p) s = Some (Inr (g_current_dir_cluster s, name), s)"
proof -
  note f = plain_path_facts [OF assms]
  have mk: "fat12_make_short_name (Some p) = Inr name" and ch: "\<And>c. c \<in> set p \<Longrightarrow> c \<noteq> 0 \<and> \<not> is_sep c"
    using assms by (auto simp: plain_path_def)
  have next_eq: "fat12_path_next p 32 = (length p, p, [])"
    using path_next_single [of p 32] ch f(3) by simp
  have "parent_walk D p c st s = Some (Inr (c, p), s)" for c st
    using f(2) by (subst parent_walk.simps) (simp add: next_eq)
  then show ?thesis
    using f by (simp add: fat12_resolve_parent_and_name_def mk)
qed

lemma file_chain_step:
  assumes step: "vol_step healthy sector s s' F C" and "set cs \<inter> F = {}" and "file_chain s c cs"
  shows "file_chain s' c cs"
proof -
  have "fat12_get_fat_entry s' x = fat12_get_fat_entry s x" if "x \<in> set cs" for x
    using that assms by (intro vol_step_entry [OF step]) auto
  then show ?thesis
    using assms(3) vol_step_chain [OF assms(1,2)] vol_step_same(1) [OF step]
    by (auto simp: file_chain_def in_fat_def)
qed

lemma file_data_step:
  assumes step: "vol_step healthy sector s s' F C" and C: "\<forall>c \<in> C - {0}. valid_cluster (g_fs s) c"
    and "set cs \<inter> C = {}" and "file_chain s c cs"
  shows "map (cluster_data (sector (disk s')) (g_fs s')) cs = map (cluster_data (sector (disk s)) (g_fs s)) cs"
  using assms by (intro map_cong vol_step_data) (auto simp: file_chain_def)

lemma free_step:
  assumes "vol_step healthy sector s s' {} C"
  shows "free_clusters s' = free_clusters s"
  using vol_step_same(1) [OF assms] vol_step_entry [OF assms] by (simp add: free_clusters_def)

lemma wf_fill: "length name = 11 \<Longrightarrow> wf_entry (fat12_fill_dir_entry name attr c sz)"
  by (simp add: wf_entry_def fat12_fill_dir_entry_def)

lemma live_fill:
  "fat12_is_valid_char (name ! 0) \<Longrightarrow> slot_live (fat12_fill_dir_entry name attr c sz)"
  using valid_char_facts [of "name ! 0"]
  by (simp add: slot_live_def slot_end_def slot_deleted_def fat12_fill_dir_entry_def)

lemma fill_name [simp]:
  "re_name (fat12_fill_dir_entry name attr c sz) = name"
  "re_first_cluster_low (fat12_fill_dir_entry name attr c sz) = c"
  "re_file_size (fat12_fill_dir_entry name attr c sz) = sz"
  "re_attr (fat12_fill_dir_entry name attr c sz) = attr"
  by (simp_all add: fat12_fill_dir_entry_def)

section \<open>Reading\<close>

context sector_store
begin

lemma cwd_find:
  assumes m: "mounted healthy cap s" and ok: "cwd_ok (sector (disk s)) s dcs"
    and name: "length name = 11"
  obtains s1 where "step s s1 {} {}" "dir_map (cwd_entries (sector (disk s)) s dcs) name = None \<longrightarrow>
      fat12_find_entry D (g_current_dir_cluster s) name s = Some (Inl FAT12_ERR_NOT_FOUND, s1)"
    "\<forall>e. dir_map (cwd_entries (sector (disk s)) s dcs) name = Some e \<longrightarrow>
      (\<exists>owner idx. fat12_find_entry D (g_current_dir_cluster s) name s = Some (Inr (e, owner, idx), s1))"
proof -
  let ?es = "cwd_entries (sector (disk s)) s dcs"
  have chain: "dir_chain s (g_current_dir_cluster s) dcs" using ok by (simp add: cwd_ok_def)
  obtain s1 where s1: "step s s1 {} {}" "fat12_find_entry D (g_current_dir_cluster s) name s =
      Some (found_at (g_fs s) (g_current_dir_cluster s) dcs ?es (dir_find ?es name), s1)"
    by (rule find_entry_spec [OF m chain name])
  have "\<exists>owner idx. dir_slot (g_fs s) (g_current_dir_cluster s) dcs j = (owner, idx)" for j
    by (metis surj_pair)
  then show thesis
    using s1(2) by (intro that [OF s1(1)]) (auto simp: dir_map_def found_at_def)
qed

lemma cwd_ok_step:
  assumes "step s s' F C" and "set dcs \<inter> F = {}" and "\<forall>c \<in> C - {0}. valid_cluster (g_fs s) c"
    and "dir_owners (g_current_dir_cluster s) dcs \<inter> C = {}" and "cwd_ok (sector (disk s)) s dcs"
  shows "cwd_ok (sector (disk s')) s' dcs"
    "cwd_entries (sector (disk s')) s' dcs = cwd_entries (sector (disk s)) s dcs"
proof -
  have chain: "dir_chain s (g_current_dir_cluster s) dcs" using assms(5) by (simp add: cwd_ok_def)
  show "cwd_entries (sector (disk s')) s' dcs = cwd_entries (sector (disk s)) s dcs"
    using dir_entries_cong [OF assms(1) chain assms(3,4)] vol_step_same(3) [OF assms(1)] by simp
  then show "cwd_ok (sector (disk s')) s' dcs"
    using assms(5) dir_chain_cong [OF assms(1,2)] vol_step_same(3) [OF assms(1)]
    by (simp add: cwd_ok_def)
qed

text \<open>\<open>fat12_read_file\<close> on a file of the current directory.\<close>

lemma read_file_spec:
  assumes m: "mounted healthy cap s" and p: "plain_path p name" and ok: "cwd_ok (sector (disk s)) s dcs"
    and e: "dir_map (cwd_entries (sector (disk s)) s dcs) name = Some e" "\<not> is_directory e"
    and cs: "file_chain s (re_first_cluster_low e) cs" and sz: "re_file_size e \<le> max_size"
  obtains s1 where "step s s1 {} {}" "fat12_read_file D (Some p) (Some buf) max_size s =
    Some (Inr (re_file_size e),
          Some (mem_put buf 0 (take (unat (re_file_size e)) (concat (map (data_of s) cs)))), s1)"
proof -
  have ready: "g_fs_ready s" using m by (simp add: mounted_def)
  obtain s1 owner idx where s1: "step s s1 {} {}"
    "fat12_find_entry D (g_current_dir_cluster s) name s = Some (Inr (e, owner, idx), s1)"
    using cwd_find [OF m ok plain_path_facts(1) [OF p]] e(1) by metis
  have m1: "mounted healthy cap s1" using vol_step_mounted [OF s1(1) m] .
  have "file_chain s1 (re_first_cluster_low e) cs" using file_chain_step [OF s1(1) _ cs] by simp
  then have c1: "is_chain s1 (re_first_cluster_low e) cs" "\<forall>x \<in> set cs. valid_cluster (g_fs s1) x"
    by (auto simp: file_chain_def)
  have data: "map (data_of s1) cs = map (data_of s) cs"
    using file_data_step [OF s1(1) _ _ cs] by simp
  have "unat (0 :: u32) + unat (re_file_size e) < 2 ^ 32" using unat_u32_bound [of "re_file_size e"] by simp
  from read_loop_spec [OF m1 c1 this, of buf] obtain s2 where s2: "step s1 s2 {} {}"
    "read_loop D (re_first_cluster_low e) (re_file_size e) 0 buf s1 = Some (Inr (),
       mem_put buf 0 (take (unat (re_file_size e)) (concat (map (data_of s) cs))), s2)"
    by (auto simp: data)
  have "fat12_read_file D (Some p) (Some buf) max_size s = Some (Inr (re_file_size e),
          Some (mem_put buf 0 (take (unat (re_file_size e)) (concat (map (data_of s) cs)))), s2)"
    using ready resolve_plain [OF p, of D s] s1(2) s2(2) e(2) sz
    by (simp add: fat12_read_file_def is_directory_def not_less)
  moreover have "step s s2 {} {}" using vol_step_trans [OF s1(1) s2(1)] by simp
  ultimately show thesis by (rule that [rotated])
qed

end

end
