(* ===== verification/Fat12_Write_Spec.thy ===== *)
theory Fat12_Write_Spec
  imports Fat12_File_Spec
begin

text \<open>
  \<open>fat12_write_file\<close> and \<open>fat12_delete_file\<close> on a working disk, for a name in the
  current directory: the new binding, the data, what is written back, and everything
  that stays as it was.
\<close>

text \<open>The clusters of the file a name is bound to, none for an unbound name.\<close>

definition bound_file :: "(nat \<Rightarrow> byte list) \<Rightarrow> 'd fat12_state \<Rightarrow> u16 list \<Rightarrow> byte list \<Rightarrow> u16 list \<Rightarrow> bool" where
  "bound_file S s dcs name ocs \<longleftrightarrow>
     (case dir_map (cwd_entries S s dcs) name of
        None \<Rightarrow> ocs = []
      | Some e \<Rightarrow> \<not> is_directory e \<and> file_chain s (re_first_cluster_low e) ocs)
     \<and> set ocs \<inter> set dcs = {}"

text \<open>Clusters for the data, and a slot (or one more cluster) for the entry.\<close>

definition room_for :: "(nat \<Rightarrow> byte list) \<Rightarrow> 'd fat12_state \<Rightarrow> u16 list \<Rightarrow> byte list \<Rightarrow> nat \<Rightarrow> bool" where
  "room_for S s dcs name n \<longleftrightarrow>
     (let blocks = blocks_needed (cluster_bytes (g_fs s)) n; free = card (free_clusters s) in
      blocks \<le> free
      \<and> (put_slot (cwd_entries S s dcs) name \<noteq> None
         \<or> g_current_dir_cluster s \<noteq> 0 \<and> fat_covers s \<and> blocks < free))"

text \<open>What an operation on one file may not change.\<close>

definition others_kept :: "('d \<Rightarrow> nat \<Rightarrow> byte list) \<Rightarrow> u16 set \<Rightarrow> 'd fat12_state \<Rightarrow> 'd fat12_state \<Rightarrow> bool" where
  "others_kept sector X s s' \<longleftrightarrow>
     (\<forall>x. valid_cluster (g_fs s) x \<and> x \<notin> X \<longrightarrow>
        fat12_get_fat_entry s' x = fat12_get_fat_entry s x
        \<and> cluster_data (sector (disk s')) (g_fs s') x = cluster_data (sector (disk s)) (g_fs s) x)
   \<and> (\<forall>n. n < fat_region (g_fs s) \<or> unat (base_lba (g_fs s)) + volume_sectors (g_fs s) \<le> n \<longrightarrow>
        sector (disk s') n = sector (disk s) n)"

lemma span_in_volume:
  assumes "valid_cluster fs c" and "k \<in> cluster_span fs c"
  shows "unat (base_lba fs) + unat (data_start_lba fs) \<le> k" "k < unat (base_lba fs) + volume_sectors fs"
proof -
  have "Suc (unat c - 2) \<le> unat (total_clusters fs)" using assms(1) by (auto simp: valid_cluster_def)
  then have "Suc (unat c - 2) * unat (sectors_per_cluster fs)
      \<le> unat (total_clusters fs) * unat (sectors_per_cluster fs)" by (rule mult_le_mono1)
  with assms(2) show "k < unat (base_lba fs) + volume_sectors fs"
    by (simp add: cluster_span_def cluster_sector_def volume_sectors_def)
  show "unat (base_lba fs) + unat (data_start_lba fs) \<le> k"
    using assms(2) cluster_sector_data_area [of fs c] by (simp add: cluster_span_def)
qed

lemma step_others_kept:
  assumes step: "vol_step healthy sector s s' F C" and C: "\<forall>c \<in> C - {0}. valid_cluster (g_fs s) c"
    and sub: "F \<subseteq> X" "C - {0} \<subseteq> X" and geo: "geometry_ok (g_fs s)"
  shows "others_kept sector X s s'"
proof -
  have meta: "sector (disk s') n = sector (disk s) n"
    if n: "n < fat_region (g_fs s) \<or> unat (base_lba (g_fs s)) + volume_sectors (g_fs s) \<le> n" for n
  proof -
    have "fat_region (g_fs s) \<le> unat (base_lba (g_fs s)) + unat (data_start_lba (g_fs s))"
      using regions [OF geo] by simp
    then have "n \<notin> cluster_span (g_fs s) c" if "c \<in> C - {0}" for c
      using span_in_volume [of "g_fs s" c n] C that n by fastforce
    then show ?thesis by (intro vol_step_sector [OF step]) (auto simp: touched_def)
  qed
  have "fat12_get_fat_entry s' x = fat12_get_fat_entry s x
      \<and> cluster_data (sector (disk s')) (g_fs s') x = cluster_data (sector (disk s)) (g_fs s) x"
    if "valid_cluster (g_fs s) x" "x \<notin> X" for x
  proof
    show "fat12_get_fat_entry s' x = fat12_get_fat_entry s x"
      using that sub by (intro vol_step_entry [OF step]) auto
    have "x \<noteq> 0" using valid_cluster_link [OF geo that(1)] by simp
    then show "cluster_data (sector (disk s')) (g_fs s') x = cluster_data (sector (disk s)) (g_fs s) x"
      using that sub by (intro vol_step_data [OF step _ C]) auto
  qed
  with meta show ?thesis by (simp add: others_kept_def)
qed

context sector_store
begin

text \<open>The two flushes at the end of an operation.\<close>

lemma finish_spec:
  assumes m: "mounted healthy cap s"
  obtains s' where "flush_ignoring_errors D s = s'" "mounted healthy cap s'" "same_config s s'"
    "g_fat_primary s' = g_fat_primary s" "g_root_dir s' = g_root_dir s"
    "\<forall>n. n < fat_region (g_fs s) \<or> unat (base_lba (g_fs s)) + unat (data_start_lba (g_fs s)) \<le> n \<longrightarrow>
       sector (disk s') n = sector (disk s) n"
    "coherent (sector (disk s)) s \<and> 0 < unat (num_fats (g_fs s)) \<longrightarrow> synced (sector (disk s')) s'"
proof -
  obtain s2 where s2: "fat12_flush_fats D (snd (fat12_flush_root D s)) = (Inr (), s2)"
    "s2 = s\<lparr>disk := disk s2, g_root_dirty := False, g_fat_dirty := False\<rparr>" "healthy (disk s2)"
    "coherent (sector (disk s)) s \<and> 0 < unat (num_fats (g_fs s)) \<longrightarrow> fat_on_disk (sector (disk s2)) s 0"
    "coherent (sector (disk s)) s \<longrightarrow> root_on_disk (sector (disk s2)) s"
    "\<forall>n. n < fat_region (g_fs s) \<or> unat (base_lba (g_fs s)) + unat (data_start_lba (g_fs s)) \<le> n \<longrightarrow>
       sector (disk s2) n = sector (disk s) n"
    by (rule flush_both_spec [OF m])
  have f: "g_fs s2 = g_fs s" "g_fs_ready s2 = g_fs_ready s" "g_fat_primary s2 = g_fat_primary s"
    "g_root_dir s2 = g_root_dir s" "\<not> g_fat_dirty s2" "\<not> g_root_dirty s2" "same_config s s2"
    by (subst s2(2), simp add: same_config_def)+
  have "mounted healthy cap s2" using m s2(3) by (simp add: mounted_def f)
  moreover have "coherent (sector (disk s)) s \<and> 0 < unat (num_fats (g_fs s)) \<longrightarrow>
      synced (sector (disk s2)) s2"
    using s2(4,5) f by (simp add: synced_def fat_on_disk_def root_on_disk_def)
  ultimately show thesis
    using s2(1,6) f by (intro that [of s2]) (simp_all add: flush_ignoring_errors_def)
qed

lemma finish_keeps:
  assumes geo: "geometry_ok (g_fs s)" and "same_config s s'" and "g_fat_primary s' = g_fat_primary s"
    and "g_root_dir s' = g_root_dir s"
    and meta: "\<forall>n. n < fat_region (g_fs s) \<or> unat (base_lba (g_fs s)) + unat (data_start_lba (g_fs s)) \<le> n \<longrightarrow>
       sector (disk s') n = sector (disk s) n"
  shows "fat12_get_fat_entry s' x = fat12_get_fat_entry s x"
    and "valid_cluster (g_fs s) y \<Longrightarrow> data_of s' y = data_of s y"
    and "is_chain s' c cs = is_chain s c cs"
    and "file_chain s' c cs = file_chain s c cs"
    and "dir_chain s' c cs = dir_chain s c cs"
    and "dir_chain s c cs \<Longrightarrow> dir_entries (sector (disk s')) s' c cs = dir_entries (sector (disk s)) s c cs"
proof -
  have fs: "g_fs s' = g_fs s" using assms(2) by (simp add: same_config_def)
  show get: "fat12_get_fat_entry s' x = fat12_get_fat_entry s x" for x
    by (simp add: fat12_get_fat_entry_def fs assms(3))
  show data: "data_of s' y = data_of s y" if "valid_cluster (g_fs s) y" for y
    using meta cluster_sector_data_area [of "g_fs s" y] unfolding cluster_data_def fs
    by (intro sectors_data_cong) simp
  show chain: "is_chain s' c cs = is_chain s c cs" by (intro is_chain_cong get)
  show "file_chain s' c cs = file_chain s c cs"
    by (simp add: file_chain_def chain fs get in_fat_def)
  show "dir_chain s' c cs = dir_chain s c cs" by (simp add: dir_chain_def chain fs get)
  show "dir_entries (sector (disk s')) s' c cs = dir_entries (sector (disk s)) s c cs" if "dir_chain s c cs"
  proof -
    have "cluster_entries (sector (disk s')) (g_fs s') x = cluster_entries (sector (disk s)) (g_fs s) x"
      if "c \<noteq> 0" "x \<in> set cs" for x
      using data [of x] that \<open>dir_chain s c cs\<close> by (simp add: cluster_entries_def dir_chain_def fs)
    then show ?thesis
      by (cases "c = 0") (simp_all add: dir_entries_def fs assms(4) cong: map_cong)
  qed
qed

section \<open>Writing a file\<close>

text \<open>Step one: the lookup and the data, on clusters that were free.\<close>

lemma write_file_data:
  assumes m: "mounted healthy cap s" and p: "plain_path p name" and ok: "cwd_ok (sector (disk s)) s dcs"
    and old: "bound_file (sector (disk s)) s dcs name ocs"
    and room: "blocks_needed (cluster_bytes (g_fs s)) (unat sz) \<le> card (free_clusters s)"
  obtains found s2 first ns s3 where
    "fat12_find_entry D (g_current_dir_cluster s) name s = Some (found, s2)"
    "case dir_map (cwd_entries (sector (disk s)) s dcs) name of
       None \<Rightarrow> found = Inl FAT12_ERR_NOT_FOUND | Some e \<Rightarrow> \<exists>owner idx. found = Inr (e, owner, idx)"
    "write_loop D data sz 0 0 0 s2 = Some (Inr first, s3)"
    "step s s3 (set ns) (set ns)" "set ns \<subseteq> free_clusters s"
    "length ns = blocks_needed (cluster_bytes (g_fs s)) (unat sz)"
    "file_chain s3 first ns" "take (unat sz) (concat (map (data_of s3) ns)) = mem_get data 0 (unat sz)"
    "cwd_ok (sector (disk s3)) s3 dcs"
    "cwd_entries (sector (disk s3)) s3 dcs = cwd_entries (sector (disk s)) s dcs"
    "\<forall>c. file_chain s c ocs \<longrightarrow> file_chain s3 c ocs"
proof -
  obtain s2 where s2: "step s s2 {} {}" "dir_map (cwd_entries (sector (disk s)) s dcs) name = None \<longrightarrow>
      fat12_find_entry D (g_current_dir_cluster s) name s = Some (Inl FAT12_ERR_NOT_FOUND, s2)"
    "\<forall>e. dir_map (cwd_entries (sector (disk s)) s dcs) name = Some e \<longrightarrow>
      (\<exists>owner idx. fat12_find_entry D (g_current_dir_cluster s) name s = Some (Inr (e, owner, idx), s2))"
    by (rule cwd_find [OF m ok plain_path_facts(1) [OF p]])
  have "\<exists>found. fat12_find_entry D (g_current_dir_cluster s) name s = Some (found, s2) \<and>
      (case dir_map (cwd_entries (sector (disk s)) s dcs) name of
         None \<Rightarrow> found = Inl FAT12_ERR_NOT_FOUND | Some e \<Rightarrow> \<exists>owner idx. found = Inr (e, owner, idx))"
    using s2(2,3) by (cases "dir_map (cwd_entries (sector (disk s)) s dcs) name") auto
  then obtain found where found: "fat12_find_entry D (g_current_dir_cluster s) name s = Some (found, s2)"
    "case dir_map (cwd_entries (sector (disk s)) s dcs) name of
       None \<Rightarrow> found = Inl FAT12_ERR_NOT_FOUND | Some e \<Rightarrow> \<exists>owner idx. found = Inr (e, owner, idx)"
    by blast
  have m2: "mounted healthy cap s2" using vol_step_mounted [OF s2(1) m] .
  have fs2: "g_fs s2 = g_fs s" using vol_step_same(1) [OF s2(1)] .
  have free2: "free_clusters s2 = free_clusters s" by (rule free_step [OF s2(1)])
  have part: "partial_chain s2 0 0 []" by simp
  have card2: "blocks_needed (cluster_bytes (g_fs s2)) (unat sz - unat (0 :: u32)) \<le> card (free_clusters s2)"
    using room free2 fs2 by simp
  from write_loop_stores [OF m2 part _ card2, of data] obtain ns first prev1 s3 where s3:
    "write_loop D data sz 0 0 0 s2 = Some (Inr first, s3)" "set ns \<subseteq> free_clusters s"
    "step s2 s3 (set ns) (set ns)" "partial_chain s3 first prev1 ns"
    "length ns = blocks_needed (cluster_bytes (g_fs s)) (unat sz)"
    "take (unat sz) (concat (map (data_of s3) ns)) = mem_get data 0 (unat sz)"
    by (auto simp: free2 fs2)
  have step: "step s s3 (set ns) (set ns)" using vol_step_trans [OF s2(1) s3(3)] by simp
  have chain: "dir_chain s (g_current_dir_cluster s) dcs" using ok by (simp add: cwd_ok_def)
  have geo: "geometry_ok (g_fs s)" using m by (simp add: mounted_def)
  have nv: "valid_cluster (g_fs s) c" "c \<noteq> 0" "c \<notin> set dcs" if "c \<in> set ns" for c
    using that s3(2) free_not_in_chain [OF chain] valid_cluster_link [OF geo]
    by (auto simp: free_clusters_def)
  have dcs: "set dcs \<inter> set ns = {}" "dir_owners (g_current_dir_cluster s) dcs \<inter> set ns = {}"
    using nv by (auto simp: dir_owners_def)
  have nval: "\<forall>c \<in> set ns - {0}. valid_cluster (g_fs s) c" using nv by blast
  have "file_chain s3 first ns" using s3(4) by (auto simp: partial_chain_def file_chain_def)
  moreover have "file_chain s3 c ocs" if "file_chain s c ocs" for c
    using that s3(2) by (intro file_chain_step [OF step]) (auto simp: file_chain_def free_clusters_def)
  ultimately show thesis
    using cwd_ok_step [OF step dcs(1) nval dcs(2) ok]
    by (intro that [OF found s3(1) step s3(2,5) _ s3(6)]) auto
qed

text \<open>Step two: the directory entry, then the release of the replaced chain.\<close>

lemma write_file_entry:
  assumes m: "mounted healthy cap s3" and ok: "cwd_ok (sector (disk s3)) s3 dcs"
    and name: "length name = 11" "fat12_is_valid_char (name ! 0)"
    and slot: "put_slot (cwd_entries (sector (disk s3)) s3 dcs) name \<noteq> None
       \<or> g_current_dir_cluster s3 \<noteq> 0 \<and> fat_covers s3 \<and> free_clusters s3 \<noteq> {}"
    and new: "file_chain s3 first ns" "set ns \<inter> set dcs = {}"
    and old: "ocs \<noteq> [] \<longrightarrow> file_chain s3 oc ocs \<and> oc \<noteq> first" "set ocs \<inter> set dcs = {}" "set ocs \<inter> set ns = {}"
    and s5_def: "\<And>s4. s5 s4 = (if ex \<and> oc \<ge> 2 \<and> oc \<noteq> first then fat12_free_chain oc s4 else s4)"
    and ex: "ex \<longrightarrow> \<not> chain_link oc \<and> ocs = [] \<or> ocs \<noteq> []" "\<not> ex \<longrightarrow> ocs = []"
    and e_def: "e = fat12_fill_dir_entry name FAT12_ATTR_ARCHIVE first sz"
  obtains s4 dcs' F C where
    "fat12_write_directory_entry D (g_current_dir_cluster s3) name e s3 = Some (Inr (), s4)"
    "step s3 (s5 s4) F C" "F \<subseteq> set dcs \<union> free_clusters s3 \<union> set ocs"
    "C \<subseteq> dir_owners (g_current_dir_cluster s3) dcs \<union> free_clusters s3"
    "cwd_ok (sector (disk (s5 s4))) (s5 s4) dcs'"
    "dir_map (cwd_entries (sector (disk (s5 s4))) (s5 s4) dcs') =
       (dir_map (cwd_entries (sector (disk s3)) s3 dcs))(name \<mapsto> e)"
    "file_chain (s5 s4) first ns" "map (data_of (s5 s4)) ns = map (data_of s3) ns"
    "\<forall>x \<in> set ocs. fat12_get_fat_entry (s5 s4) x = FAT12_CLUSTER_FREE"
    "set dcs' \<subseteq> set dcs \<union> free_clusters s3"
proof -
  let ?dir = "g_current_dir_cluster s3"
  have geo: "geometry_ok (g_fs s3)" using m by (simp add: mounted_def)
  have chain: "dir_chain s3 ?dir dcs" and wf: "dir_wf (cwd_entries (sector (disk s3)) s3 dcs)"
    using ok by (auto simp: cwd_ok_def)
  have avail: "slot_available (sector (disk s3)) s3 ?dir dcs name"
    "put_slot (cwd_entries (sector (disk s3)) s3 dcs) name = None \<longrightarrow> fat_covers s3"
    using slot by (auto simp: slot_available_def)
  have live: "slot_live e" "re_name e = name" and we: "wf_entry e"
    using live_fill [OF name(2)] wf_fill [OF name(1)] by (simp_all add: e_def)
  obtain s4 dcs' F C where s4: "fat12_write_directory_entry D ?dir name e s3 = Some (Inr (), s4)"
    "step s3 s4 F C" "F \<subseteq> set dcs \<union> free_clusters s3" "C \<subseteq> dir_owners ?dir dcs \<union> free_clusters s3"
    "dir_chain s4 ?dir dcs'" "set dcs' \<subseteq> set dcs \<union> free_clusters s3"
    "dir_wf (dir_entries (sector (disk s4)) s4 ?dir dcs')"
    "dir_map (dir_entries (sector (disk s4)) s4 ?dir dcs') =
       (dir_map (cwd_entries (sector (disk s3)) s3 dcs))(name \<mapsto> e)"
    by (rule write_directory_entry_ok [OF m chain we wf live avail])
  have dir4: "g_current_dir_cluster s4 = ?dir" using vol_step_same(3) [OF s4(2)] .
  have nonfree: "x \<notin> free_clusters s3" if "file_chain s3 c xs" "x \<in> set xs" for c xs x
    using that by (auto simp: file_chain_def free_clusters_def)
  have own: "dir_owners ?dir dcs \<subseteq> insert 0 (set dcs)" by (auto simp: dir_owners_def)
  have valid_pos: "0 \<notin> set xs" if "file_chain s3 c xs" for c xs
    using that valid_cluster_link(2) [OF geo] by (auto simp: file_chain_def)
  have nsF: "set ns \<inter> F = {}" "set ns \<inter> C = {}"
    using s4(3,4) own new nonfree [OF new(1)] valid_pos [OF new(1)] by fastforce+
  have Cval: "\<forall>c \<in> C - {0}. valid_cluster (g_fs s3) c"
    using s4(4) own chain by (auto simp: free_clusters_def dir_chain_def split: if_splits)
  have ns4: "file_chain s4 first ns" "map (data_of s4) ns = map (data_of s3) ns"
    using file_chain_step [OF s4(2) nsF(1) new(1)] file_data_step [OF s4(2) Cval nsF(2) new(1)] by simp_all
  have ocs4: "file_chain s4 oc ocs" if "ocs \<noteq> []"
    using that old s4(3) nonfree by (intro file_chain_step [OF s4(2)]) fastforce+
  have h4: "healthy (disk s4)" using vol_step_same(5) [OF s4(2)] .
  have ge2: "oc \<ge> 2" if "ocs \<noteq> []"
    using ocs4 [OF that] that by (cases ocs) (auto simp: file_chain_def chain_link_def)
  have s5: "s5 s4 = (if ocs = [] then s4 else fat12_free_chain oc s4)"
    using ex old(1) ge2 by (auto simp: s5_def)
  have step5: "step s4 (s5 s4) (set ocs) {}"
    using h4 ocs4 by (auto simp: s5 file_chain_def vol_step_refl intro: step_free_chain)
  have step35: "step s3 (s5 s4) (F \<union> set ocs) C" using vol_step_trans [OF s4(2) step5] by simp
  have dcs'_ocs: "set dcs' \<inter> set ocs = {}"
  proof (cases "ocs = []")
    case False
    then show ?thesis using s4(6) old(1,2) nonfree by fastforce
  qed simp
  have ok4: "cwd_ok (sector (disk s4)) s4 dcs'" using s4(5,7) by (simp add: cwd_ok_def dir4)
  have ok5: "cwd_ok (sector (disk (s5 s4))) (s5 s4) dcs'"
    "cwd_entries (sector (disk (s5 s4))) (s5 s4) dcs' = cwd_entries (sector (disk s4)) s4 dcs'"
    using cwd_ok_step [OF step5 dcs'_ocs _ _ ok4] by simp_all
  have freed: "\<forall>x \<in> set ocs. fat12_get_fat_entry (s5 s4) x = FAT12_CLUSTER_FREE"
    using ocs4 free_chain_entries [of s4 oc ocs] by (auto simp: s5 file_chain_def)
  show thesis
  proof (rule that [OF s4(1) step35 _ s4(4) ok5(1) _ _ _ freed s4(6)])
    show "file_chain (s5 s4) first ns"
      using old(3) by (intro file_chain_step [OF step5 _ ns4(1)]) auto
    show "map (data_of (s5 s4)) ns = map (data_of s3) ns"
      using file_data_step [OF step5 _ _ ns4(1)] ns4(2) by simp
  qed (use s4(3,8) ok5(2) dir4 in auto)
qed

text \<open>The whole operation.\<close>

lemma write_file_spec:
  assumes m: "mounted healthy cap s" and p: "plain_path p name" and ok: "cwd_ok (sector (disk s)) s dcs"
    and old: "bound_file (sector (disk s)) s dcs name ocs"
    and room: "room_for (sector (disk s)) s dcs name (unat sz)"
  obtains s' dcs' first ns where
    "fat12_write_file D (Some p) (Some data) sz s = Some (Inr (), s')"
    "mounted healthy cap s'" "same_config s s'" "cwd_ok (sector (disk s')) s' dcs'"
    "dir_map (cwd_entries (sector (disk s')) s' dcs') =
       (dir_map (cwd_entries (sector (disk s)) s dcs))
         (name \<mapsto> fat12_fill_dir_entry name FAT12_ATTR_ARCHIVE first sz)"
    "file_chain s' first ns" "take (unat sz) (concat (map (data_of s') ns)) = mem_get data 0 (unat sz)"
    "others_kept sector (free_clusters s \<union> set dcs \<union> set ocs) s s'"
    "\<forall>x \<in> set ocs. fat12_get_fat_entry s' x = FAT12_CLUSTER_FREE"
    "set ns \<inter> set dcs' = {}" "set dcs' \<subseteq> set dcs \<union> free_clusters s"
    "coherent (sector (disk s)) s \<and> 0 < unat (num_fats (g_fs s)) \<longrightarrow> synced (sector (disk s')) s'"
proof -
  let ?dir = "g_current_dir_cluster s" and ?es = "cwd_entries (sector (disk s)) s dcs"
  have geo: "geometry_ok (g_fs s)" and ready: "g_fs_ready s" using m by (auto simp: mounted_def)
  have chain: "dir_chain s ?dir dcs" using ok by (simp add: cwd_ok_def)
  let ?blocks = "blocks_needed (cluster_bytes (g_fs s)) (unat sz)"
  have enough: "?blocks \<le> card (free_clusters s)" using room by (simp add: room_for_def Let_def)
  obtain found s2 first ns s3 where s3: "fat12_find_entry D ?dir name s = Some (found, s2)"
    "case dir_map ?es name of
       None \<Rightarrow> found = Inl FAT12_ERR_NOT_FOUND | Some e \<Rightarrow> \<exists>owner idx. found = Inr (e, owner, idx)"
    "write_loop D data sz 0 0 0 s2 = Some (Inr first, s3)"
    "step s s3 (set ns) (set ns)" "set ns \<subseteq> free_clusters s" "length ns = ?blocks"
    "file_chain s3 first ns" "take (unat sz) (concat (map (data_of s3) ns)) = mem_get data 0 (unat sz)"
    "cwd_ok (sector (disk s3)) s3 dcs" "cwd_entries (sector (disk s3)) s3 dcs = ?es"
    and keep_old: "\<forall>c. file_chain s c ocs \<longrightarrow> file_chain s3 c ocs"
    by (rule write_file_data [OF m p ok old enough, where data = data])
  have m3: "mounted healthy cap s3" using vol_step_mounted [OF s3(4) m] .
  have fs3: "g_fs s3 = g_fs s" and dir3: "g_current_dir_cluster s3 = ?dir"
    using vol_step_same [OF s3(4)] by simp_all
  have ns_free: "x \<in> free_clusters s" if "x \<in> set ns" for x using s3(5) that by blast
  have free3: "free_clusters s3 = free_clusters s - set ns"
    using s3(7) vol_step_entry [OF s3(4)] by (auto simp: free_clusters_def file_chain_def fs3)
  have ocs_nf: "x \<notin> free_clusters s" if "x \<in> set ocs" for x
    using old that by (auto simp: bound_file_def file_chain_def free_clusters_def split: option.splits)
  have disj: "set ns \<inter> set dcs = {}" "set ocs \<inter> set dcs = {}" "set ocs \<inter> set ns = {}"
    using free_not_in_chain [OF chain] ns_free ocs_nf old by (auto simp: bound_file_def)
  have slot: "put_slot (cwd_entries (sector (disk s3)) s3 dcs) name \<noteq> None
       \<or> g_current_dir_cluster s3 \<noteq> 0 \<and> fat_covers s3 \<and> free_clusters s3 \<noteq> {}"
  proof (cases "put_slot ?es name = None")
    case True
    then have *: "?dir \<noteq> 0" "fat_covers s" "?blocks < card (free_clusters s)"
      using room by (auto simp: room_for_def Let_def)
    have "card (set ns) < card (free_clusters s)"
      using *(3) s3(6) card_length [of ns] by linarith
    then have "free_clusters s3 \<noteq> {}" unfolding free3 using s3(5)
      by (metis Diff_eq_empty_iff card_mono finite linorder_not_le)
    with * show ?thesis by (simp add: dir3 fat_covers_def in_fat_def fs3)
  next
    case False
    then show ?thesis using s3(10) by simp
  qed
  let ?ex = "dir_map ?es name \<noteq> None"
  define oc where "oc = (case dir_map ?es name of None \<Rightarrow> 0 | Some e \<Rightarrow> re_first_cluster_low e)"
  define fin where "fin s4 = (if ?ex \<and> oc \<ge> 2 \<and> oc \<noteq> first then fat12_free_chain oc s4 else s4)"
    for s4 :: "'d fat12_state"
  have oc: "file_chain s oc ocs" if ?ex using that old by (auto simp: bound_file_def oc_def)
  have none: "ocs = []" if "\<not> ?ex" using that old by (auto simp: bound_file_def)
  have oc_first: "oc \<noteq> first" if "ocs \<noteq> []"
  proof
    assume "oc = first"
    have ?ex using that none by blast
    from oc [OF this] have a: "oc = hd ocs" "chain_link oc"
      using that by (cases ocs; auto simp: file_chain_def)+
    then have "first = hd ns" "ns \<noteq> []"
      using s3(7) \<open>oc = first\<close> by (cases ns; auto simp: file_chain_def)+
    with a that \<open>oc = first\<close> disj(3) show False
      by (metis disjoint_iff list.set_sel(1))
  qed
  have old3: "ocs \<noteq> [] \<longrightarrow> file_chain s3 oc ocs \<and> oc \<noteq> first"
    using oc none oc_first keep_old by blast
  have ex: "?ex \<longrightarrow> \<not> chain_link oc \<and> ocs = [] \<or> ocs \<noteq> []" "\<not> ?ex \<longrightarrow> ocs = []"
    using oc none by (cases ocs; auto simp: file_chain_def)+
  define e where "e = fat12_fill_dir_entry name FAT12_ATTR_ARCHIVE first sz"
  obtain s4 dcs' F C where s4: "fat12_write_directory_entry D (g_current_dir_cluster s3) name e s3 = Some (Inr (), s4)"
    "step s3 (fin s4) F C" "F \<subseteq> set dcs \<union> free_clusters s3 \<union> set ocs"
    "C \<subseteq> dir_owners (g_current_dir_cluster s3) dcs \<union> free_clusters s3"
    "cwd_ok (sector (disk (fin s4))) (fin s4) dcs'"
    "dir_map (cwd_entries (sector (disk (fin s4))) (fin s4) dcs') =
       (dir_map (cwd_entries (sector (disk s3)) s3 dcs))(name \<mapsto> e)"
    "file_chain (fin s4) first ns" "map (data_of (fin s4)) ns = map (data_of s3) ns"
    "\<forall>x \<in> set ocs. fat12_get_fat_entry (fin s4) x = FAT12_CLUSTER_FREE"
    "set dcs' \<subseteq> set dcs \<union> free_clusters s3"
    by (rule write_file_entry [OF m3 s3(9) plain_path_facts(1,4) [OF p] slot s3(7) disj(1) old3 disj(2,3)
          fin_def ex e_def])
  have all: "step s (fin s4) (set ns \<union> F) (set ns \<union> C)" using vol_step_trans [OF s3(4) s4(2)] .
  have m5: "mounted healthy cap (fin s4)" using vol_step_mounted [OF all m] .
  have fs5: "g_fs (fin s4) = g_fs s" using vol_step_same(1) [OF all] .
  obtain s6 where s6: "flush_ignoring_errors D (fin s4) = s6" "mounted healthy cap s6"
    "same_config (fin s4) s6" "g_fat_primary s6 = g_fat_primary (fin s4)" "g_root_dir s6 = g_root_dir (fin s4)"
    "\<forall>n. n < fat_region (g_fs (fin s4)) \<or>
         unat (base_lba (g_fs (fin s4))) + unat (data_start_lba (g_fs (fin s4))) \<le> n \<longrightarrow>
       sector (disk s6) n = sector (disk (fin s4)) n"
    "coherent (sector (disk (fin s4))) (fin s4) \<and> 0 < unat (num_fats (g_fs (fin s4))) \<longrightarrow>
       synced (sector (disk s6)) s6"
    by (rule finish_spec [OF m5])
  have geo5: "geometry_ok (g_fs (fin s4))" using geo fs5 by simp
  note kept = finish_keeps [OF geo5 s6(3-6)]
  have fs6: "g_fs s6 = g_fs s" and dir6: "g_current_dir_cluster s6 = ?dir"
    "g_current_dir_cluster (fin s4) = ?dir"
    using s6(3) fs5 all by (auto simp: same_config_def vol_step_def)
  have es6: "cwd_entries (sector (disk s6)) s6 dcs' = cwd_entries (sector (disk (fin s4))) (fin s4) dcs'"
    using kept(6) s4(5) dir6 by (simp add: cwd_ok_def)
  have own: "dir_owners ?dir dcs \<subseteq> insert 0 (set dcs)" by (auto simp: dir_owners_def)
  have CX: "(set ns \<union> C) - {0} \<subseteq> free_clusters s \<union> set dcs \<union> set ocs"
    and FX: "set ns \<union> F \<subseteq> free_clusters s \<union> set dcs \<union> set ocs"
    using s4(3,4) s3(5) own by (auto simp: free3 dir3)
  have Cval: "\<forall>c \<in> (set ns \<union> C) - {0}. valid_cluster (g_fs s) c"
  proof
    fix c assume c: "c \<in> (set ns \<union> C) - {0}"
    then have "c \<in> free_clusters s \<or> c \<in> set dcs"
      using s4(4) s3(5) own by (auto simp: free3 dir3)
    then show "valid_cluster (g_fs s) c"
      using chain by (auto simp: free_clusters_def dir_chain_def split: if_splits)
  qed
  have others5: "others_kept sector (free_clusters s \<union> set dcs \<union> set ocs) s (fin s4)"
    by (rule step_others_kept [OF all Cval FX CX geo])
  have others6: "others_kept sector (free_clusters s \<union> set dcs \<union> set ocs) s s6"
    using others5 kept(1,2) s6(6) unfolding others_kept_def fs5 fs6 volume_sectors_def
    by (simp add: fs6)
  have run: "fat12_write_file D (Some p) (Some data) sz s = Some (Inr (), s6)"
    using ready resolve_plain [OF p, of D s] s3(1,2,3) s4(1) s6(1) old
    by (auto simp: fat12_write_file_def bound_file_def is_directory_def e_def fin_def oc_def dir3 Let_def
        split: option.splits)
  have data6: "map (data_of s6) ns = map (data_of s3) ns"
    using s4(8) kept(2) s3(7) by (simp add: fs5 fs3 file_chain_def cong: map_cong)
  show thesis
  proof (rule that [OF run s6(2)])
    show "same_config s s6" using all s6(3) same_config_trans unfolding vol_step_def by blast
    show "cwd_ok (sector (disk s6)) s6 dcs'" using s4(5) kept(5) es6 dir6 by (simp add: cwd_ok_def)
    show "dir_map (cwd_entries (sector (disk s6)) s6 dcs') = (dir_map ?es)
         (name \<mapsto> fat12_fill_dir_entry name FAT12_ATTR_ARCHIVE first sz)"
      using s4(6) s3(10) by (simp add: es6 e_def)
    show "file_chain s6 first ns" using s4(7) kept(4) by simp
    show "take (unat sz) (concat (map (data_of s6) ns)) = mem_get data 0 (unat sz)"
      using s3(8) by (simp add: data6)
    show "\<forall>x \<in> set ocs. fat12_get_fat_entry s6 x = FAT12_CLUSTER_FREE"
      using s4(9) kept(1) by simp
    show "set dcs' \<subseteq> set dcs \<union> free_clusters s" using s4(10) by (auto simp: free3)
    show "set ns \<inter> set dcs' = {}" using s4(10) disj(1) by (auto simp: free3)
    show "coherent (sector (disk s)) s \<and> 0 < unat (num_fats (g_fs s)) \<longrightarrow> synced (sector (disk s6)) s6"
      using s6(7) coherent_step [OF all geo] by (simp add: fs5)
  qed (fact others6)
qed

end

end
