(* ===== verification/Fat12_Delete_Spec.thy ===== *)
theory Fat12_Delete_Spec
  imports Fat12_Write_Spec
begin

text \<open>
  \<open>fat12_delete_file\<close>, the disk-full branch of \<open>fat12_write_file\<close>, and the refusal of
  both on a directory, for a name in the current directory of a working disk.
\<close>

context sector_store
begin

lemma delete_file_spec:
  assumes m: "mounted healthy cap s" and p: "plain_path p name" and ok: "cwd_ok (sector (disk s)) s dcs"
    and e: "dir_map (cwd_entries (sector (disk s)) s dcs) name = Some e"
    and old: "bound_file (sector (disk s)) s dcs name ocs"
  obtains s' where
    "fat12_delete_file D (Some p) s = Some (Inr (), s')"
    "mounted healthy cap s'" "same_config s s'" "cwd_ok (sector (disk s')) s' dcs"
    "dir_map (cwd_entries (sector (disk s')) s' dcs) =
       (dir_map (cwd_entries (sector (disk s)) s dcs))(name := None)"
    "free_clusters s' = free_clusters s \<union> set ocs"
    "others_kept sector (set dcs \<union> set ocs) s s'"
    "coherent (sector (disk s)) s \<and> 0 < unat (num_fats (g_fs s)) \<longrightarrow> synced (sector (disk s')) s'"
proof -
  let ?dir = "g_current_dir_cluster s" and ?es = "cwd_entries (sector (disk s)) s dcs"
  have geo: "geometry_ok (g_fs s)" and ready: "g_fs_ready s" using m by (auto simp: mounted_def)
  have chain: "dir_chain s ?dir dcs" and wf: "dir_wf ?es" using ok by (auto simp: cwd_ok_def)
  have fl: "\<not> is_directory e" "file_chain s (re_first_cluster_low e) ocs" and disj: "set ocs \<inter> set dcs = {}"
    using old e by (auto simp: bound_file_def)
  obtain s2 owner idx where s2: "step s s2 {} {}"
    "fat12_find_entry D ?dir name s = Some (Inr (e, owner, idx), s2)"
    using cwd_find [OF m ok plain_path_facts(1) [OF p]] e by metis
  have m2: "mounted healthy cap s2" using vol_step_mounted [OF s2(1) m] .
  have h2: "healthy (disk s2)" using vol_step_same(5) [OF s2(1)] .
  define s3 where "s3 = (if re_first_cluster_low e \<ge> 2
                         then fat12_free_chain (re_first_cluster_low e) s2 else s2)"
  have file2: "file_chain s2 (re_first_cluster_low e) ocs" using file_chain_step [OF s2(1) _ fl(2)] by simp
  have s3: "s3 = fat12_free_chain (re_first_cluster_low e) s2"
    by (auto simp: s3_def chain_link_def)
  have step3: "step s2 s3 (set ocs) {}"
    unfolding s3 using h2 file2 by (intro step_free_chain) (simp_all add: file_chain_def)
  have step23: "step s s3 (set ocs) {}" using vol_step_trans [OF s2(1) step3] by simp
  have m3: "mounted healthy cap s3" using vol_step_mounted [OF step23 m] .
  have dir3: "g_current_dir_cluster s3 = ?dir" and fs3: "g_fs s3 = g_fs s"
    using vol_step_same [OF step23] by simp_all
  have ok3: "cwd_ok (sector (disk s3)) s3 dcs" "cwd_entries (sector (disk s3)) s3 dcs = ?es"
    using cwd_ok_step [OF step23 _ _ _ ok] disj by (auto simp: Int_commute)
  have chain3: "dir_chain s3 ?dir dcs" using ok3(1) by (simp add: cwd_ok_def dir3)
  obtain j where j: "dir_find ?es name = Some j" "?es ! j = e" using e by (auto simp: dir_map_def)
  have es3: "dir_entries (sector (disk s3)) s3 ?dir dcs = ?es" using ok3(2) dir3 by simp
  have find3: "dir_find (dir_entries (sector (disk s3)) s3 ?dir dcs) name = Some j" using j(1) es3 by simp
  obtain s4 own where s4: "fat12_mark_entry_deleted D ?dir name s3 = Some (Inr (), s4)"
    "own \<in> dir_owners ?dir dcs" "step s3 s4 {} {own}"
    "dir_entries (sector (disk s4)) s4 ?dir dcs = ?es[j := erase (?es ! j)]"
    using mark_deleted_spec [OF m3 chain3 plain_path_facts(1) [OF p] find3] es3 by metis
  have all: "step s s4 (set ocs) {own}" using vol_step_trans [OF step23 s4(3)] by simp
  have m4: "mounted healthy cap s4" using vol_step_mounted [OF all m] .
  have fs4: "g_fs s4 = g_fs s" and dir4: "g_current_dir_cluster s4 = ?dir"
    using vol_step_same [OF all] by simp_all
  have jl: "j < length ?es" "slot_live (?es ! j)" using j(1) by (simp_all add: dir_find_Some)
  have we: "wf_entry (?es ! j)" using dir_entries_wf [OF nth_mem [OF jl(1)]] .
  have ok4: "cwd_ok (sector (disk s4)) s4 dcs"
    using chain3 dir_chain_cong [OF s4(3)] dir_wf_erase [OF wf jl we] s4(4) by (simp add: cwd_ok_def dir4)
  have map4: "dir_map (cwd_entries (sector (disk s4)) s4 dcs) = (dir_map ?es)(name := None)"
    using dir_map_erase [OF wf j(1) we] s4(4) dir4 by simp
  obtain s6 where s6: "flush_ignoring_errors D s4 = s6" "mounted healthy cap s6"
    "same_config s4 s6" "g_fat_primary s6 = g_fat_primary s4" "g_root_dir s6 = g_root_dir s4"
    "\<forall>n. n < fat_region (g_fs s4) \<or> unat (base_lba (g_fs s4)) + unat (data_start_lba (g_fs s4)) \<le> n \<longrightarrow>
       sector (disk s6) n = sector (disk s4) n"
    "coherent (sector (disk s4)) s4 \<and> 0 < unat (num_fats (g_fs s4)) \<longrightarrow> synced (sector (disk s6)) s6"
    by (rule finish_spec [OF m4])
  have geo4: "geometry_ok (g_fs s4)" using geo fs4 by simp
  note kept = finish_keeps [OF geo4 s6(3-6)]
  have fs6: "g_fs s6 = g_fs s" and dir6: "g_current_dir_cluster s6 = ?dir"
    using s6(3) fs4 dir4 by (auto simp: same_config_def)
  have es6: "cwd_entries (sector (disk s6)) s6 dcs = cwd_entries (sector (disk s4)) s4 dcs"
    using kept(6) ok4 dir6 dir4 by (simp add: cwd_ok_def)
  have own: "own \<in> insert 0 (set dcs)" using s4(2) by (auto simp: dir_owners_def split: if_splits)
  have ownv: "\<forall>c \<in> {own} - {0}. valid_cluster (g_fs s) c"
    using own chain by (auto simp: dir_chain_def split: if_splits)
  have others4: "others_kept sector (set dcs \<union> set ocs) s s4"
    using own by (intro step_others_kept [OF all ownv _ _ geo]) auto
  have others6: "others_kept sector (set dcs \<union> set ocs) s s6"
    using others4 kept(1,2) s6(6) unfolding others_kept_def fs4 fs6 volume_sectors_def
    by (simp add: fs6)
  have entries6: "fat12_get_fat_entry s6 x =
      (if x \<in> set ocs then FAT12_CLUSTER_FREE else fat12_get_fat_entry s x)" for x
  proof (cases "x \<in> set ocs")
    case True
    have "fat12_get_fat_entry s4 x = fat12_get_fat_entry s3 x" using vol_step_entry [OF s4(3)] by simp
    then show ?thesis
      using True kept(1) free_chain_entries [of s2 "re_first_cluster_low e" ocs x] file2
      by (simp add: s3 file_chain_def)
  next
    case False
    then show ?thesis using kept(1) vol_step_entry [OF all] by simp
  qed
  have "free_clusters s6 = free_clusters s \<union> set ocs"
    using fl(2) by (auto simp: free_clusters_def fs6 entries6 file_chain_def)
  moreover have "fat12_delete_file D (Some p) s = Some (Inr (), s6)"
    using ready resolve_plain [OF p, of D s] s2(2) s4(1) s6(1) fl(1)
    by (simp add: fat12_delete_file_def is_directory_def Let_def flip: s3_def)
  moreover have "same_config s s6" using all s6(3) same_config_trans unfolding vol_step_def by blast
  moreover have "cwd_ok (sector (disk s6)) s6 dcs"
    using ok4 kept(5) es6 dir6 dir4 by (simp add: cwd_ok_def)
  moreover have "coherent (sector (disk s)) s \<and> 0 < unat (num_fats (g_fs s)) \<longrightarrow>
      synced (sector (disk s6)) s6"
    using s6(7) coherent_step [OF all geo] by (simp add: fs4)
  ultimately show thesis
    using that s6(2) others6 map4 es6 by simp
qed

text \<open>No room for the data: the error, and the table and the directory as before.\<close>

lemma write_file_disk_full:
  assumes m: "mounted healthy cap s" and p: "plain_path p name" and ok: "cwd_ok (sector (disk s)) s dcs"
    and old: "bound_file (sector (disk s)) s dcs name ocs"
    and full: "card (free_clusters s) < blocks_needed (cluster_bytes (g_fs s)) (unat sz)"
  obtains s' where
    "fat12_write_file D (Some p) (Some data) sz s = Some (Inl FAT12_ERR_NO_FREE_CLUSTER, s')"
    "mounted healthy cap s'" "same_config s s'" "cwd_ok (sector (disk s')) s' dcs"
    "cwd_entries (sector (disk s')) s' dcs = cwd_entries (sector (disk s)) s dcs"
    "\<forall>x. fat12_get_fat_entry s' x = fat12_get_fat_entry s x"
    "others_kept sector (free_clusters s) s s'"
proof -
  let ?dir = "g_current_dir_cluster s" and ?es = "cwd_entries (sector (disk s)) s dcs"
  have geo: "geometry_ok (g_fs s)" and ready: "g_fs_ready s" using m by (auto simp: mounted_def)
  have chain: "dir_chain s ?dir dcs" using ok by (simp add: cwd_ok_def)
  obtain s2 where s2: "step s s2 {} {}" "dir_map ?es name = None \<longrightarrow>
      fat12_find_entry D ?dir name s = Some (Inl FAT12_ERR_NOT_FOUND, s2)"
    "\<forall>e. dir_map ?es name = Some e \<longrightarrow>
      (\<exists>owner idx. fat12_find_entry D ?dir name s = Some (Inr (e, owner, idx), s2))"
    by (rule cwd_find [OF m ok plain_path_facts(1) [OF p]])
  have m2: "mounted healthy cap s2" using vol_step_mounted [OF s2(1) m] .
  have fs2: "g_fs s2 = g_fs s" using vol_step_same(1) [OF s2(1)] .
  have free2: "free_clusters s2 = free_clusters s" by (rule free_step [OF s2(1)])
  have part: "partial_chain s2 0 0 []" by simp
  have card2: "card (free_clusters s2) < blocks_needed (cluster_bytes (g_fs s2)) (unat sz - unat (0 :: u32))"
    using full free2 fs2 by simp
  from write_loop_full [OF m2 part _ card2, of data] obtain s3 where s3:
    "write_loop D data sz 0 0 0 s2 = Some (Inl FAT12_ERR_NO_FREE_CLUSTER, s3)"
    "step s2 s3 (free_clusters s) (free_clusters s)"
    "\<forall>x. fat12_get_fat_entry s3 x = fat12_get_fat_entry s2 x"
    by (auto simp: free2)
  have all: "step s s3 (free_clusters s) (free_clusters s)" using vol_step_trans [OF s2(1) s3(2)] by simp
  have get: "\<forall>x. fat12_get_fat_entry s3 x = fat12_get_fat_entry s x"
    using s3(3) vol_step_entry [OF s2(1)] by simp
  have fv: "\<forall>c \<in> free_clusters s - {0}. valid_cluster (g_fs s) c" "0 \<notin> free_clusters s"
    using valid_cluster_link(2) [OF geo] by (auto simp: free_clusters_def)
  have "set dcs \<inter> free_clusters s = {}" "dir_owners ?dir dcs \<inter> free_clusters s = {}"
    using free_not_in_chain [OF chain] fv(2) by (auto simp: dir_owners_def)
  note ok3 = cwd_ok_step [OF all this(1) fv(1) this(2) ok]
  have "fat12_write_file D (Some p) (Some data) sz s = Some (Inl FAT12_ERR_NO_FREE_CLUSTER, s3)"
    using ready resolve_plain [OF p, of D s] s2(2,3) s3(1) old
    by (auto simp: fat12_write_file_def bound_file_def is_directory_def split: option.splits)
  moreover have "same_config s s3" using all by (simp add: vol_step_def)
  ultimately show thesis
    using that ok3 get vol_step_mounted [OF all m] step_others_kept [OF all fv(1) _ _ geo] by auto
qed

text \<open>A directory of that name is neither overwritten nor deleted.\<close>

lemma file_ops_refuse_directory:
  assumes m: "mounted healthy cap s" and p: "plain_path p name" and ok: "cwd_ok (sector (disk s)) s dcs"
    and e: "dir_map (cwd_entries (sector (disk s)) s dcs) name = Some e" "is_directory e"
  obtains s' where "step s s' {} {}"
    "fat12_write_file D (Some p) (Some data) sz s = Some (Inl FAT12_ERR_ALREADY_EXISTS, s')"
    "fat12_delete_file D (Some p) s = Some (Inl FAT12_ERR_NOT_FILE, s')"
    "fat12_read_file D (Some p) (Some buf) max_size s = Some (Inl FAT12_ERR_NOT_FILE, Some buf, s')"
    "fat12_create_directory D (Some p) s = Some (Inl FAT12_ERR_ALREADY_EXISTS, s')"
proof -
  obtain s2 owner idx where s2: "step s s2 {} {}"
    "fat12_find_entry D (g_current_dir_cluster s) name s = Some (Inr (e, owner, idx), s2)"
    using cwd_find [OF m ok plain_path_facts(1) [OF p]] e(1) by metis
  have ready: "g_fs_ready s" using m by (simp add: mounted_def)
  show thesis
    using ready resolve_plain [OF p, of D s] s2(2) e(2)
    by (intro that [OF s2(1)])
      (simp_all add: fat12_write_file_def fat12_delete_file_def fat12_read_file_def
        fat12_create_directory_def is_directory_def)
qed

lemma missing_file_errors:
  assumes m: "mounted healthy cap s" and p: "plain_path p name" and ok: "cwd_ok (sector (disk s)) s dcs"
    and e: "dir_map (cwd_entries (sector (disk s)) s dcs) name = None"
  obtains s' where "step s s' {} {}"
    "fat12_delete_file D (Some p) s = Some (Inl FAT12_ERR_NOT_FOUND, s')"
    "fat12_read_file D (Some p) (Some buf) max_size s = Some (Inl FAT12_ERR_NOT_FOUND, Some buf, s')"
proof -
  obtain s2 where s2: "step s s2 {} {}"
    "fat12_find_entry D (g_current_dir_cluster s) name s = Some (Inl FAT12_ERR_NOT_FOUND, s2)"
    using cwd_find [OF m ok plain_path_facts(1) [OF p]] e by metis
  have ready: "g_fs_ready s" using m by (simp add: mounted_def)
  show thesis
    using ready resolve_plain [OF p, of D s] s2(2)
    by (intro that [OF s2(1)]) (simp_all add: fat12_delete_file_def fat12_read_file_def)
qed

end

end
