(* ===== verification/Fat12_Mount_Spec.thy ===== *)
theory Fat12_Mount_Spec
  imports Fat12_File_Spec
begin

text \<open>
  Mounting a working disk: \<open>fat12_init\<close> succeeds on every volume whose boot sector
  describes a sound geometry, loads the caches from it, and after a flush finds the same
  table and the same directories again.
\<close>

text \<open>The boot sector describes the geometry.\<close>

definition boot_describes :: "(nat \<Rightarrow> byte list) \<Rightarrow> fat12_fs \<Rightarrow> bool" where
  "boot_describes S fs \<longleftrightarrow>
     (let bpb = bpb_at (list_mem (S (unat (base_lba fs)))) in
      bpb_bytes_per_sector bpb = 512 \<and> fs = init_layout (init_sizes (init_copy_bpb bpb (base_lba fs) fs)))"

lemma init_record_fresh:
  "init_layout (init_sizes (init_copy_bpb bpb base fs)) = init_layout (init_sizes (init_copy_bpb bpb base fs'))"
  by (cases fs; cases fs') (simp add: init_layout_def init_sizes_def init_copy_bpb_def Let_def)

lemma bpb_at_cong:
  assumes "\<And>i. i < 36 \<Longrightarrow> m i = m' i"
  shows "bpb_at m = bpb_at m'"
  by (simp add: bpb_at_def assms)

lemma stored_at_block:
  assumes "\<And>k. lba \<le> k \<Longrightarrow> k < lba + n \<Longrightarrow> length (S k) = 512"
  shows "stored_at S lba n (mem_put m 0 (sectors_data S lba n))"
proof -
  have "mem_get (mem_put m 0 (sectors_data S lba j)) (512 * i) 512 = S (lba + i)"
    if "i < j" "j \<le> n" for i j
    using that
  proof (induction j)
    case 0
    then show ?case by simp
  next
    case (Suc j)
    have len: "length (sectors_data S lba j) = 512 * j"
      using assms Suc.prems(2) by (intro length_sectors_data) auto
    show ?case
    proof (cases "i = j")
      case True
      have "length (S (lba + j)) = 512" using assms Suc.prems(2) by simp
      then show ?thesis
        using True len by (simp add: sectors_data_Suc mem_put_append mem_get_put_same)
    next
      case False
      then have "i < j" using Suc.prems by simp
      with Suc len show ?thesis
        by (simp add: sectors_data_Suc mem_put_append mem_get_put_disjoint)
    qed
  qed
  then show ?thesis by (simp add: stored_at_def)
qed

text \<open>The stored caches determine the table and the root directory.\<close>

lemma stored_at_agree:
  assumes "stored_at S lba n m" and "stored_at S lba n m'" and "i < 512 * n"
  shows "m i = m' i"
proof -
  have "i div 512 < n" using assms(3) by (simp add: less_mult_imp_div_less mult.commute)
  with assms(1,2) have "mem_get m (512 * (i div 512)) 512 = mem_get m' (512 * (i div 512)) 512"
    by (simp add: stored_at_def)
  then have "m (512 * (i div 512) + i mod 512) = m' (512 * (i div 512) + i mod 512)"
    by (rule mem_get_eqD) simp
  then show ?thesis by simp
qed

lemma same_table:
  assumes geo: "geometry_ok (g_fs s)" and fs: "g_fs s' = g_fs s"
    and agree: "\<And>i. i < 512 * unat (sectors_per_fat (g_fs s)) \<Longrightarrow> g_fat_primary s' i = g_fat_primary s i"
  shows "fat12_get_fat_entry s' c = fat12_get_fat_entry s c"
proof (cases "in_fat s c")
  case False
  then have "\<not> in_fat s' c" by (simp add: in_fat_def fs)
  with False show ?thesis by (simp add: get_out_of_fat)
next
  case True
  have "unat (fat_index c + 1) = unat (fat_index c) + 1"
    using unat_u16_bound [of c] by (subst unat_u32_add) (simp_all add: unat_fat_index)
  with True have "unat (fat_index c) + 1 < 512 * unat (sectors_per_fat (g_fs s))"
    using geometry_simps(8) [OF geo] by (simp add: in_fat_def word_less_nat_alt)
  then have "g_fat_primary s' (unat (fat_index c)) = g_fat_primary s (unat (fat_index c))"
    "g_fat_primary s' (unat (fat_index c) + 1) = g_fat_primary s (unat (fat_index c) + 1)"
    by (simp_all add: agree)
  then show ?thesis by (simp add: fat12_get_fat_entry_def fs Let_def)
qed

lemma same_root:
  assumes geo: "geometry_ok (g_fs s)" and fs: "g_fs s' = g_fs s"
    and agree: "\<And>i. i < 512 * unat (root_dir_sectors (g_fs s)) \<Longrightarrow> g_root_dir s' i = g_root_dir s i"
  shows "dir_entries S s' dir cs = dir_entries S s dir cs"
proof (cases "dir = 0")
  case True
  then show ?thesis
    using geometry_simps(10) [OF geo] agree
    by (simp add: dir_entries_def fs) (rule block_entries_cong, simp)
qed (simp add: dir_entries_def fs)

context sector_store
begin

lemma load_sectors_spec:
  assumes "healthy d" and "unat start + i + left \<le> cap"
  shows "\<exists>d'. load_sectors D start i left m d =
      (True, mem_put m (i * 512) (sectors_data (sector d) (unat start + i) left), d')
    \<and> healthy d' \<and> sector d' = sector d"
  using assms
proof (induction left arbitrary: i d m)
  case 0
  then show ?case by auto
next
  case (Suc left)
  have a: "unat (start + of_nat i) = unat start + i"
    using Suc.prems(2) cap_bound by (subst unat_u32_add) (simp_all add: unat_of_nat_u32)
  then have "unat (start + of_nat i) < cap" using Suc.prems(2) by simp
  from read_sector [OF Suc.prems(1) this, of "i * 512" m] a obtain d1 where d1:
    "op_read_sector D (start + of_nat i) (Some (i * 512)) m d =
       (0, mem_put m (i * 512) (sector d (unat start + i)), d1)" "healthy d1" "sector d1 = sector d" by auto
  have len: "length (sector d (unat start + i)) = 512"
    using sector_length Suc.prems by simp
  let ?m1 = "mem_put m (i * 512) (sector d (unat start + i))"
  from Suc.IH [OF d1(2), of "Suc i" ?m1] Suc.prems(2) obtain d2 where d2:
    "load_sectors D start (Suc i) left ?m1 d1 =
       (True, mem_put ?m1 (i * 512 + 512) (sectors_data (sector d) (Suc (unat start + i)) left), d2)"
    "healthy d2" "sector d2 = sector d"
    by (auto simp: d1(3) add.commute)
  have "sectors_data (sector d) (unat start + i) (Suc left) =
      sector d (unat start + i) @ sectors_data (sector d) (Suc (unat start + i)) left"
    by (simp add: sectors_data_def upt_conv_Cons del: upt_Suc)
  with d1(1) d2 len show ?case by (simp add: mem_put_append)
qed

lemma init_load_spec:
  assumes h: "healthy (disk s)" and geo: "geometry_ok (g_fs s)" and fits: "volume_fits (g_fs s) cap"
    and base: "base_lba (g_fs s) = base" and nf: "0 < unat (num_fats (g_fs s))"
  obtains s' where "init_load D base s = (Inr (), s')" "g_fs s' = g_fs s" "mounted healthy cap s'"
    "sector (disk s') = sector (disk s)" "synced (sector (disk s)) s'"
    "g_current_dir_cluster s' = 0" "g_path_stack s' = []" "g_path_names s' = []" "g_cwd s' = [0x2F]"
proof -
  let ?fs = "g_fs s" and ?S = "sector (disk s)"
  let ?spf = "unat (sectors_per_fat ?fs)" and ?rds = "unat (root_dir_sectors ?fs)"
  have total: "root_region ?fs + ?rds \<le> cap" "cap \<le> 2 ^ 28"
    using fits regions(2) [OF geo] by (auto simp: volume_fits_def volume_sectors_def)
  have fr: "fat_region ?fs + unat (num_fats ?fs) * ?spf = root_region ?fs" using regions(1) [OF geo] .
  have first: "fat_region ?fs + ?spf \<le> root_region ?fs" using fr nf by (cases "unat (num_fats ?fs)") auto
  have a1: "unat (base + fat_start_lba ?fs) = fat_region ?fs"
    unfolding fat_region_def base [symmetric] using first total
    by (intro unat_u32_add) (simp add: fat_region_def)
  have a3: "unat (base + root_dir_start_lba ?fs) = root_region ?fs"
    unfolding root_region_def base [symmetric] using total
    by (intro unat_u32_add) (simp add: root_region_def)
  obtain d4 where d4: "load_sectors D (base + fat_start_lba ?fs) 0 ?spf (g_fat_primary s) (disk s) =
      (True, mem_put (g_fat_primary s) 0 (sectors_data ?S (fat_region ?fs) ?spf), d4)"
    "healthy d4" "sector d4 = ?S"
    using load_sectors_spec [OF h, of "base + fat_start_lba ?fs" 0 ?spf] a1 first total by auto
  obtain sec5 d5 where d5: "(if num_fats ?fs > 1
      then load_sectors D (base + fat_start_lba ?fs + ucast (sectors_per_fat ?fs)) 0 ?spf (g_fat_secondary s) d4
      else (True, g_fat_secondary s, d4)) = (True, sec5, d5)" "healthy d5" "sector d5 = ?S"
  proof (cases "num_fats ?fs > 1")
    case False
    then show thesis using that d4(2,3) by simp
  next
    case True
    then have "2 * ?spf \<le> unat (num_fats ?fs) * ?spf"
      by (intro mult_le_mono1) (simp add: word_less_nat_alt)
    then have second: "fat_region ?fs + ?spf + ?spf \<le> root_region ?fs" using fr by linarith
    have "unat (base + fat_start_lba ?fs + ucast (sectors_per_fat ?fs)) = fat_region ?fs + ?spf"
      using second total by (subst unat_u32_add) (simp_all add: a1)
    then show thesis
      using load_sectors_spec [OF d4(2), of "base + fat_start_lba ?fs + ucast (sectors_per_fat ?fs)" 0 ?spf]
        second total True d4(3) that by auto
  qed
  obtain d6 where d6: "load_sectors D (base + root_dir_start_lba ?fs) 0 ?rds (g_root_dir s) d5 =
      (True, mem_put (g_root_dir s) 0 (sectors_data ?S (root_region ?fs) ?rds), d6)"
    "healthy d6" "sector d6 = ?S"
    using load_sectors_spec [OF d5(2), of "base + root_dir_start_lba ?fs" 0 ?rds] a3 total d5(3) by auto
  let ?s' = "s\<lparr>g_fat_primary := mem_put (g_fat_primary s) 0 (sectors_data ?S (fat_region ?fs) ?spf),
    g_fat_secondary := sec5, g_root_dir := mem_put (g_root_dir s) 0 (sectors_data ?S (root_region ?fs) ?rds),
    disk := d6, g_current_dir_cluster := 0, g_path_stack := [], g_path_names := [], g_cwd := [0x2F],
    g_fs_ready := True, g_fat_dirty := False, g_root_dirty := False\<rparr>"
  have len: "length (?S k) = 512" if "k < cap" for k using sector_length [OF h that] .
  have "fat_on_disk ?S ?s' 0" "root_on_disk ?S ?s'"
    unfolding fat_on_disk_def root_on_disk_def using first total len
    by (auto intro!: stored_at_block)
  moreover have "init_load D base s = (Inr (), ?s')"
    using d4(1) d5(1) d6(1) by (cases "num_fats ?fs > 1") (simp_all add: init_load_def Let_def)
  ultimately show thesis
    using h geo fits d6(2,3) by (intro that [of ?s']) (simp_all add: mounted_def synced_def)
qed

text \<open>A sound boot sector is accepted and the volume is mounted at its root.\<close>

lemma init_spec:
  assumes h: "healthy (disk s)" and geo: "geometry_ok fs" and fits: "volume_fits fs cap"
    and nf: "0 < unat (num_fats fs)" and boot: "boot_describes (sector (disk s)) fs"
  obtains s' where "fat12_init D (base_lba fs) s = (Inr (), s')" "g_fs s' = fs" "mounted healthy cap s'"
    "sector (disk s') = sector (disk s)" "synced (sector (disk s)) s'"
    "g_current_dir_cluster s' = 0" "g_path_stack s' = []" "g_path_names s' = []" "g_cwd s' = [0x2F]"
proof -
  let ?base = "base_lba fs"
  have "0 < unat (total_clusters fs) * unat (sectors_per_cluster fs)"
    using geometry_simps(1,4) [OF geo] by (rule mult_pos_pos [rotated])
  then have lt: "unat ?base < cap"
    using fits unfolding volume_fits_def volume_sectors_def by linarith
  obtain d0 where d0: "op_read_sector D ?base (Some 0) (\<lambda>_. 0) (disk s) =
      (0, mem_put (\<lambda>_. 0) 0 (sector (disk s) (unat ?base)), d0)" "healthy d0" "sector d0 = sector (disk s)"
    using read_sector [OF h lt] by blast
  let ?bpb = "bpb_at (mem_put (\<lambda>_. 0) 0 (sector (disk s) (unat ?base)))"
  have bpb: "?bpb = bpb_at (list_mem (sector (disk s) (unat ?base)))"
    by (rule bpb_at_cong) (simp add: mem_put_def list_mem_def)
  have fs: "bpb_bytes_per_sector ?bpb = 512"
    "\<And>g. init_layout (init_sizes (init_copy_bpb ?bpb ?base g)) = fs"
    using boot init_record_fresh unfolding boot_describes_def Let_def bpb by metis+
  let ?fs1 = "init_copy_bpb ?bpb ?base (g_fs s)"
  have eqs: "sectors_per_cluster ?fs1 = sectors_per_cluster fs" "sectors_per_fat ?fs1 = sectors_per_fat fs"
    "root_dir_sectors (init_sizes ?fs1) = root_dir_sectors fs"
    using arg_cong [OF fs(2) [of "g_fs s"], of sectors_per_cluster]
      arg_cong [OF fs(2) [of "g_fs s"], of sectors_per_fat]
      arg_cong [OF fs(2) [of "g_fs s"], of root_dir_sectors]
    by (simp_all add: init_layout_def init_sizes_def Let_def)
  let ?s3 = "s\<lparr>disk := d0, g_fs := fs\<rparr>"
  have ok: "\<not> (sectors_per_cluster fs = 0 \<or> sectors_per_cluster fs > 32)"
    "\<not> (sectors_per_fat fs = 0 \<or> sectors_per_fat fs > 64)" "\<not> root_dir_sectors fs > 64"
    "\<not> (total_clusters fs < 1 \<or> total_clusters fs > 4084)"
    using geo by (auto simp: geometry_ok_def word_le_nat_alt word_less_nat_alt)
  have "fat12_init D ?base s = init_load D ?base ?s3"
    unfolding fat12_init_def d0(1) prod.case Let_def
    using fs(1) ok by (simp add: eqs fs(2))
  moreover obtain s' where "init_load D ?base ?s3 = (Inr (), s')" "g_fs s' = g_fs ?s3"
    "mounted healthy cap s'" "sector (disk s') = sector (disk ?s3)" "synced (sector (disk ?s3)) s'"
    "g_current_dir_cluster s' = 0" "g_path_stack s' = []" "g_path_names s' = []" "g_cwd s' = [0x2F]"
    using init_load_spec [of ?s3 ?base] d0(2) geo fits nf by auto
  ultimately show thesis using d0(3) by (intro that [of s']) simp_all
qed

text \<open>After a flush, mounting again finds the same table, directories and data.\<close>

lemma remount_spec:
  assumes m: "mounted healthy cap s" and sync: "synced (sector (disk s)) s"
    and boot: "boot_describes (sector (disk s)) (g_fs s)" and nf: "0 < unat (num_fats (g_fs s))"
    and d: "disk t = disk s"
  obtains s' where "fat12_init D (base_lba (g_fs s)) t = (Inr (), s')" "g_fs s' = g_fs s"
    "mounted healthy cap s'" "sector (disk s') = sector (disk s)" "g_current_dir_cluster s' = 0"
    "\<forall>c. fat12_get_fat_entry s' c = fat12_get_fat_entry s c"
    "\<forall>dir cs. dir_entries (sector (disk s')) s' dir cs = dir_entries (sector (disk s)) s dir cs"
    "coherent (sector (disk s')) s'" "g_path_stack s' = []" "g_path_names s' = []" "g_cwd s' = [0x2F]"
proof -
  have geo: "geometry_ok (g_fs s)" and fits: "volume_fits (g_fs s) cap" and h: "healthy (disk t)"
    using m d by (auto simp: mounted_def)
  have boot': "boot_describes (sector (disk t)) (g_fs s)" using boot d by simp
  obtain s' where s': "fat12_init D (base_lba (g_fs s)) t = (Inr (), s')" "g_fs s' = g_fs s"
    "mounted healthy cap s'" "sector (disk s') = sector (disk t)" "synced (sector (disk t)) s'"
    "g_current_dir_cluster s' = 0" "g_path_stack s' = []" "g_path_names s' = []" "g_cwd s' = [0x2F]"
    by (rule init_spec [OF h geo fits nf boot'])
  have agree: "g_fat_primary s' i = g_fat_primary s i" if "i < 512 * unat (sectors_per_fat (g_fs s))" for i
    using stored_at_agree [OF _ _ that] sync s'(5) d by (auto simp: synced_def fat_on_disk_def s'(2))
  have agree': "g_root_dir s' i = g_root_dir s i" if "i < 512 * unat (root_dir_sectors (g_fs s))" for i
    using stored_at_agree [OF _ _ that] sync s'(5) d by (auto simp: synced_def root_on_disk_def s'(2))
  have "coherent (sector (disk s')) s'" using s'(4,5) by (simp add: coherent_def synced_def)
  then show thesis
    using s' d same_table [OF geo s'(2) agree] same_root [OF geo s'(2) agree']
    by (intro that [OF s'(1-3)]) simp_all
qed

end

end
