(* ===== verification/Fat12_Contract.thy ===== *)
theory Fat12_Contract
  imports Fat12_Delete_Spec Fat12_Mount_Spec
begin

text \<open>
  What a client of the file system sees: which files the current directory holds, with
  which bytes, and the laws of the operations in these terms. The lemmas combine the
  specifications of single operations into the sequences a client runs (write then
  read, write then look at another file, write then mount again) and are proved over
  the interface \<open>sector_store\<close>.
\<close>

section \<open>Files as the client sees them\<close>

definition holds_file ::
    "(nat \<Rightarrow> byte list) \<Rightarrow> 'd fat12_state \<Rightarrow> u16 list \<Rightarrow> byte list \<Rightarrow> u16 list \<Rightarrow> byte list \<Rightarrow> bool" where
  "holds_file S s dcs name cs content \<longleftrightarrow>
     (\<exists>e. dir_map (cwd_entries S s dcs) name = Some e \<and> \<not> is_directory e
        \<and> file_chain s (re_first_cluster_low e) cs \<and> set cs \<inter> set dcs = {}
        \<and> length content = unat (re_file_size e)
        \<and> content = take (unat (re_file_size e)) (concat (map (cluster_data S (g_fs s)) cs)))"

lemma holds_file_bound: "holds_file S s dcs name cs content \<Longrightarrow> bound_file S s dcs name cs"
  by (auto simp: holds_file_def bound_file_def)

lemma chain_not_free: "file_chain s c cs \<Longrightarrow> set cs \<inter> free_clusters s = {}"
  by (auto simp: file_chain_def free_clusters_def)

lemma holds_file_not_free: "holds_file S s dcs name cs content \<Longrightarrow> set cs \<inter> free_clusters s = {}"
  using chain_not_free by (auto simp: holds_file_def)

lemma file_chain_kept:
  assumes "file_chain s c cs" and "g_fs s' = g_fs s"
    and "\<forall>x \<in> set cs. fat12_get_fat_entry s' x = fat12_get_fat_entry s x"
  shows "file_chain s' c cs"
proof -
  have "is_chain s' c cs = is_chain s c cs"
    using assms(3) by (induction cs arbitrary: c) auto
  with assms show ?thesis by (auto simp: file_chain_def in_fat_def)
qed

text \<open>A file none of whose clusters was touched keeps its content.\<close>

lemma holds_file_kept:
  assumes "holds_file (sector (disk s)) s dcs name cs content" and "others_kept sector X s s'"
    and "g_fs s' = g_fs s" and "set cs \<inter> X = {}" and "set cs \<inter> set dcs' = {}"
    and "dir_map (cwd_entries (sector (disk s')) s' dcs') name = dir_map (cwd_entries (sector (disk s)) s dcs) name"
  shows "holds_file (sector (disk s')) s' dcs' name cs content"
proof -
  obtain e where e: "dir_map (cwd_entries (sector (disk s)) s dcs) name = Some e" "\<not> is_directory e"
    "file_chain s (re_first_cluster_low e) cs" "length content = unat (re_file_size e)"
    "content = take (unat (re_file_size e)) (concat (map (cluster_data (sector (disk s)) (g_fs s)) cs))"
    using assms(1) by (auto simp: holds_file_def)
  have k: "fat12_get_fat_entry s' x = fat12_get_fat_entry s x"
    "cluster_data (sector (disk s')) (g_fs s) x = cluster_data (sector (disk s)) (g_fs s) x" if "x \<in> set cs" for x
    using e(3) assms(2-4) that by (auto simp: others_kept_def file_chain_def)
  have "file_chain s' (re_first_cluster_low e) cs"
    by (rule file_chain_kept [OF e(3) assms(3)]) (simp add: k)
  moreover have "map (cluster_data (sector (disk s')) (g_fs s)) cs = map (cluster_data (sector (disk s)) (g_fs s)) cs"
    using k(2) by simp
  ultimately have "content = take (unat (re_file_size e)) (concat (map (cluster_data (sector (disk s')) (g_fs s')) cs))"
    using e(5) by (simp only: assms(3))
  then show ?thesis using \<open>file_chain s' _ cs\<close> e(1,2,4) assms(5,6) unfolding holds_file_def by auto
qed

section \<open>Sequences of operations\<close>

context sector_store
begin

text \<open>Reading a file the directory holds.\<close>

lemma read_held_file:
  assumes m: "mounted healthy cap s" and p: "plain_path p name" and ok: "cwd_ok (sector (disk s)) s dcs"
    and f: "holds_file (sector (disk s)) s dcs name cs content" and sz: "length content \<le> unat max_size"
  shows "\<exists>s'. fat12_read_file D (Some p) (Some buf) max_size s =
      Some (Inr (of_nat (length content)), Some (mem_put buf 0 content), s') \<and> step s s' {} {}"
proof -
  obtain e where e: "dir_map (cwd_entries (sector (disk s)) s dcs) name = Some e" "\<not> is_directory e"
    "file_chain s (re_first_cluster_low e) cs" "length content = unat (re_file_size e)"
    "content = take (unat (re_file_size e)) (concat (map (data_of s) cs))"
    using f by (auto simp: holds_file_def)
  have unat_back: "(of_nat (unat (re_file_size e)) :: u32) = re_file_size e" by simp
  have "re_file_size e \<le> max_size" using sz e(4) by (simp add: word_le_nat_alt)
  from read_file_spec [OF m p ok e(1-3) this, of buf] e(4,5) unat_back show ?thesis
    by metis
qed

text \<open>A write binds the name to the data and leaves every other file alone.\<close>

lemma write_held_file:
  assumes m: "mounted healthy cap s" and p: "plain_path p name" and ok: "cwd_ok (sector (disk s)) s dcs"
    and old: "bound_file (sector (disk s)) s dcs name ocs"
    and room: "room_for (sector (disk s)) s dcs name (unat sz)"
  obtains s' dcs' ns where
    "fat12_write_file D (Some p) (Some data) sz s = Some (Inr (), s')"
    "mounted healthy cap s'" "same_config s s'" "cwd_ok (sector (disk s')) s' dcs'"
    "holds_file (sector (disk s')) s' dcs' name ns (mem_get data 0 (unat sz))"
    "\<forall>x \<in> set ocs. fat12_get_fat_entry s' x = FAT12_CLUSTER_FREE"
    "\<forall>name' cs content. name' \<noteq> name \<and> holds_file (sector (disk s)) s dcs name' cs content
       \<and> set cs \<inter> set ocs = {} \<longrightarrow> holds_file (sector (disk s')) s' dcs' name' cs content"
    "\<forall>name'. name' \<noteq> name \<longrightarrow> dir_map (cwd_entries (sector (disk s')) s' dcs') name' =
       dir_map (cwd_entries (sector (disk s)) s dcs) name'"
    "others_kept sector (free_clusters s \<union> set dcs \<union> set ocs) s s'"
    "coherent (sector (disk s)) s \<and> 0 < unat (num_fats (g_fs s)) \<longrightarrow> synced (sector (disk s')) s'"
proof -
  obtain s' dcs' first ns where w: "fat12_write_file D (Some p) (Some data) sz s = Some (Inr (), s')"
    "mounted healthy cap s'" "same_config s s'" "cwd_ok (sector (disk s')) s' dcs'"
    "dir_map (cwd_entries (sector (disk s')) s' dcs') =
       (dir_map (cwd_entries (sector (disk s)) s dcs))
         (name \<mapsto> fat12_fill_dir_entry name FAT12_ATTR_ARCHIVE first sz)"
    "file_chain s' first ns" "take (unat sz) (concat (map (data_of s') ns)) = mem_get data 0 (unat sz)"
    "others_kept sector (free_clusters s \<union> set dcs \<union> set ocs) s s'"
    "\<forall>x \<in> set ocs. fat12_get_fat_entry s' x = FAT12_CLUSTER_FREE"
    "set ns \<inter> set dcs' = {}" "set dcs' \<subseteq> set dcs \<union> free_clusters s"
    "coherent (sector (disk s)) s \<and> 0 < unat (num_fats (g_fs s)) \<longrightarrow> synced (sector (disk s')) s'"
    by (rule write_file_spec [OF m p ok old room, where data = data])
  have fs: "g_fs s' = g_fs s" using w(3) by (simp add: same_config_def)
  have "holds_file (sector (disk s')) s' dcs' name ns (mem_get data 0 (unat sz))"
    using w(5-7,10) by (simp add: holds_file_def is_directory_def)
  moreover have "holds_file (sector (disk s')) s' dcs' name' cs content"
    if "name' \<noteq> name" "holds_file (sector (disk s)) s dcs name' cs content" "set cs \<inter> set ocs = {}"
    for name' cs content
  proof (rule holds_file_kept [OF that(2) w(8) fs])
    have "set cs \<inter> set dcs = {}" using that(2) by (auto simp: holds_file_def)
    with holds_file_not_free [OF that(2)] that(3) w(11)
    show "set cs \<inter> (free_clusters s \<union> set dcs \<union> set ocs) = {}" "set cs \<inter> set dcs' = {}" by blast+
  qed (use that(1) w(5) in simp)
  ultimately show thesis
    using w(5) by (intro that [OF w(1-4) _ w(9) _ _ w(8,12)]) auto
qed

text \<open>The data written comes back when the file is read, and when the volume is mounted again.\<close>

lemma write_read_spec:
  assumes m: "mounted healthy cap s" and p: "plain_path p name" and ok: "cwd_ok (sector (disk s)) s dcs"
    and old: "bound_file (sector (disk s)) s dcs name ocs"
    and room: "room_for (sector (disk s)) s dcs name (unat sz)" and sz: "sz \<le> max_size"
  shows "\<exists>s1 s2. fat12_write_file D (Some p) (Some data) sz s = Some (Inr (), s1)
    \<and> fat12_read_file D (Some p) (Some buf) max_size s1 =
        Some (Inr sz, Some (mem_put buf 0 (mem_get data 0 (unat sz))), s2)"
proof -
  obtain s1 dcs' ns where w: "fat12_write_file D (Some p) (Some data) sz s = Some (Inr (), s1)"
    "mounted healthy cap s1" "cwd_ok (sector (disk s1)) s1 dcs'"
    "holds_file (sector (disk s1)) s1 dcs' name ns (mem_get data 0 (unat sz))"
    by (rule write_held_file [OF m p ok old room, where data = data])
  have "length (mem_get data 0 (unat sz)) \<le> unat max_size" using sz by (simp add: word_le_nat_alt)
  from read_held_file [OF w(2) p w(3,4) this, of buf] w(1) show ?thesis by auto
qed

lemma write_remount_spec:
  assumes m: "mounted healthy cap s" and p: "plain_path p name" and ok: "cwd_ok (sector (disk s)) s []"
    and root: "g_current_dir_cluster s = 0"
    and old: "bound_file (sector (disk s)) s [] name ocs"
    and room: "room_for (sector (disk s)) s [] name (unat sz)" and sz: "sz \<le> max_size"
    and coh: "coherent (sector (disk s)) s" and nf: "0 < unat (num_fats (g_fs s))"
    and res: "0 < unat (fat_start_lba (g_fs s))" and boot: "boot_describes (sector (disk s)) (g_fs s)"
  shows "\<exists>s1. fat12_write_file D (Some p) (Some data) sz s = Some (Inr (), s1)
    \<and> (\<forall>t. disk t = disk s1 \<longrightarrow> (\<exists>s2 s3. fat12_init D (base_lba (g_fs s)) t = (Inr (), s2)
          \<and> fat12_read_file D (Some p) (Some buf) max_size s2 =
              Some (Inr sz, Some (mem_put buf 0 (mem_get data 0 (unat sz))), s3)))"
proof -
  obtain s1 dcs' ns where w: "fat12_write_file D (Some p) (Some data) sz s = Some (Inr (), s1)"
    "mounted healthy cap s1" "same_config s s1" "cwd_ok (sector (disk s1)) s1 dcs'"
    "holds_file (sector (disk s1)) s1 dcs' name ns (mem_get data 0 (unat sz))"
    "others_kept sector (free_clusters s \<union> set [] \<union> set ocs) s s1"
    "coherent (sector (disk s)) s \<and> 0 < unat (num_fats (g_fs s)) \<longrightarrow> synced (sector (disk s1)) s1"
    by (rule write_held_file [OF m p ok old room, where data = data])
  have fs: "g_fs s1 = g_fs s" and dir: "g_current_dir_cluster s1 = 0"
    using w(3) root by (auto simp: same_config_def)
  have "sector (disk s1) (unat (base_lba (g_fs s))) = sector (disk s) (unat (base_lba (g_fs s)))"
    using w(6) res by (simp add: others_kept_def fat_region_def)
  then have boot1: "boot_describes (sector (disk s1)) (g_fs s1)" using boot by (simp add: boot_describes_def fs)
  have "\<exists>s2 s3. fat12_init D (base_lba (g_fs s)) t = (Inr (), s2)
          \<and> fat12_read_file D (Some p) (Some buf) max_size s2 =
              Some (Inr sz, Some (mem_put buf 0 (mem_get data 0 (unat sz))), s3)"
    if t: "disk t = disk s1" for t
  proof -
    obtain s2 where s2: "fat12_init D (base_lba (g_fs s1)) t = (Inr (), s2)" "g_fs s2 = g_fs s1"
      "mounted healthy cap s2" "sector (disk s2) = sector (disk s1)" "g_current_dir_cluster s2 = 0"
      "\<forall>c. fat12_get_fat_entry s2 c = fat12_get_fat_entry s1 c"
      "\<forall>dir cs. dir_entries (sector (disk s2)) s2 dir cs = dir_entries (sector (disk s1)) s1 dir cs"
      using nf coh w(7) by (auto simp: fs intro: remount_spec [OF w(2) _ boot1 _ t])
    have dcs': "dcs' = []" using w(4) dir by (simp add: cwd_ok_def dir_chain_def)
    have ok2: "cwd_ok (sector (disk s2)) s2 []"
      using w(4) s2(5,7) dcs' dir by (simp add: cwd_ok_def dir_chain_def)
    have same: "others_kept sector {} s1 s2" using s2(2,4,6) by (simp add: others_kept_def)
    have "holds_file (sector (disk s2)) s2 [] name ns (mem_get data 0 (unat sz))"
      using s2(5,7) dir dcs' by (intro holds_file_kept [OF w(5) same s2(2)]) simp_all
    moreover have "length (mem_get data 0 (unat sz)) \<le> unat max_size" using sz by (simp add: word_le_nat_alt)
    ultimately obtain s3 where "fat12_read_file D (Some p) (Some buf) max_size s2 =
        Some (Inr sz, Some (mem_put buf 0 (mem_get data 0 (unat sz))), s3)"
      using read_held_file [OF s2(3) p ok2, of ns "mem_get data 0 (unat sz)" max_size buf] by auto
    with s2(1) fs show ?thesis by auto
  qed
  with w(1) show ?thesis by blast
qed

text \<open>Deleting a file unbinds its name and leaves every other file alone.\<close>

lemma delete_held_file:
  assumes m: "mounted healthy cap s" and p: "plain_path p name" and ok: "cwd_ok (sector (disk s)) s dcs"
    and f: "holds_file (sector (disk s)) s dcs name ocs content"
  obtains s' where
    "fat12_delete_file D (Some p) s = Some (Inr (), s')"
    "mounted healthy cap s'" "same_config s s'" "cwd_ok (sector (disk s')) s' dcs"
    "dir_map (cwd_entries (sector (disk s')) s' dcs) name = None"
    "free_clusters s' = free_clusters s \<union> set ocs"
    "\<forall>name' cs content. name' \<noteq> name \<and> holds_file (sector (disk s)) s dcs name' cs content
       \<and> set cs \<inter> set ocs = {} \<longrightarrow> holds_file (sector (disk s')) s' dcs name' cs content"
proof -
  obtain e where e: "dir_map (cwd_entries (sector (disk s)) s dcs) name = Some e"
    using f by (auto simp: holds_file_def)
  obtain s' where d: "fat12_delete_file D (Some p) s = Some (Inr (), s')"
    "mounted healthy cap s'" "same_config s s'" "cwd_ok (sector (disk s')) s' dcs"
    "dir_map (cwd_entries (sector (disk s')) s' dcs) =
       (dir_map (cwd_entries (sector (disk s)) s dcs))(name := None)"
    "free_clusters s' = free_clusters s \<union> set ocs"
    "others_kept sector (set dcs \<union> set ocs) s s'"
    by (rule delete_file_spec [OF m p ok e holds_file_bound [OF f]])
  have fs: "g_fs s' = g_fs s" using d(3) by (simp add: same_config_def)
  have "holds_file (sector (disk s')) s' dcs name' cs content"
    if "name' \<noteq> name" "holds_file (sector (disk s)) s dcs name' cs content" "set cs \<inter> set ocs = {}"
    for name' cs content
  proof (rule holds_file_kept [OF that(2) d(7) fs])
    show "set cs \<inter> set dcs = {}" using that(2) by (auto simp: holds_file_def)
    with that(3) show "set cs \<inter> (set dcs \<union> set ocs) = {}" by blast
  qed (use that(1) d(5) in simp)
  then show thesis using d(5,6) by (intro that [OF d(1-4)]) auto
qed

end

end
