(* ===== verification/Fat12_Session.thy ===== *)
theory Fat12_Session
  imports Fat12_Contract
begin

text \<open>
  A session of the file system on an arbitrary disk, failing or not: the calls a client
  makes after the mount as a step relation, and the invariant of every reachable state.
  The calls keep the mounted geometry, and the path the driver keeps for \<open>..\<close> and the
  prompt stays well-formed: at most 16 levels, one shown name for each, the current
  directory on top of the stack, the text of the path rebuilt from the names.
\<close>

section \<open>What every call leaves alone\<close>

text \<open>
  The session part of the state. Only \<open>fat12_init\<close> and \<open>fat12_change_directory\<close> change it;
  the lemmas hold for every disk, every outcome and every loop that returns.
\<close>

definition config_of :: "'d fat12_state \<Rightarrow> fat12_fs \<times> bool \<times> mem \<times> u16 \<times> u16 list \<times> byte list list \<times> byte list" where
  "config_of s = (g_fs s, g_fs_ready s, g_fat_secondary s, g_current_dir_cluster s, g_path_stack s,
     g_path_names s, g_cwd s)"

lemma config_of_update [simp]:
  "config_of (s\<lparr>g_cluster_buffer := b\<rparr>) = config_of s"
  "config_of (s\<lparr>disk := d\<rparr>) = config_of s"
  "config_of (s\<lparr>g_root_dir := m\<rparr>) = config_of s"
  "config_of (s\<lparr>g_root_dirty := r\<rparr>) = config_of s"
  "config_of (s\<lparr>g_fat_dirty := r\<rparr>) = config_of s"
  "config_of (fat12_set_fat_entry c v s) = config_of s"
  "config_of (fat12_free_chain c s) = config_of s"
  by (simp_all add: config_of_def)

lemma read_cluster_config: "fat12_read_cluster D c s = (rc, s') \<Longrightarrow> config_of s' = config_of s"
  by (auto simp: fat12_read_cluster_def Let_def split: prod.splits)

lemma write_cluster_config: "fat12_write_cluster D c s = (rc, s') \<Longrightarrow> config_of s' = config_of s"
  by (auto simp: fat12_write_cluster_def Let_def split: prod.splits)

lemma allocate_from_config: "allocate_from D n left s = (c, s') \<Longrightarrow> config_of s' = config_of s"
  by (induction D n left s rule: allocate_from.induct)
    (auto simp: Let_def dest: write_cluster_config split: if_splits prod.splits)

lemma allocate_config: "fat12_allocate_cluster D s = (c, s') \<Longrightarrow> config_of s' = config_of s"
  by (auto simp: fat12_allocate_cluster_def dest: allocate_from_config)

lemma find_scan_name: "find_scan m name i n = Scan_found k \<Longrightarrow> mem_get m (32 * k) 11 = mem_get ((!) name) 0 11"
  by (induction m name i n rule: find_scan.induct) (auto simp: Let_def fat12_memcmp_eq_0_iff split: if_splits)


lemma find_chain_config: "find_chain D name c s = Some q \<Longrightarrow>
    config_of (snd q) = config_of s
    \<and> (\<forall>e owner idx. fst q = Inr (e, owner, idx) \<longrightarrow> re_name e = mem_get ((!) name) 0 11)"
  by (erule find_chain.raw_induct [rotated])
    (auto simp: entry_at_def dest: read_cluster_config split: if_splits prod.splits find_outcome.splits,
      metis find_scan_name)

lemma find_entry_config:
  assumes "fat12_find_entry D dir name s = Some (r, s')"
  shows "config_of s' = config_of s"
    and "r = Inr (e, owner, idx) \<Longrightarrow> length name = 11 \<Longrightarrow> re_name e = name"
proof -
  have "mem_get ((!) name) 0 11 = name" if "length name = 11"
    using that by (intro nth_equalityI) simp_all
  then show "config_of s' = config_of s"
    and "r = Inr (e, owner, idx) \<Longrightarrow> length name = 11 \<Longrightarrow> re_name e = name"
    using assms find_chain_config [of D name dir s "(r, s')"]
    by (auto simp: fat12_find_entry_def entry_at_def dest: find_scan_name split: if_splits find_outcome.splits)
qed

lemma iterate_chain_config: "iterate_chain D cb c ctx s = Some q \<Longrightarrow> config_of (snd (snd q)) = config_of s"
  by (erule iterate_chain.raw_induct [rotated])
    (auto dest: read_cluster_config split: if_splits prod.splits)

lemma iterate_config:
  "fat12_iterate_directory_internal D dir cb ctx s = Some (r, ctx', s') \<Longrightarrow> config_of s' = config_of s"
  by (auto simp: fat12_iterate_directory_internal_def dest: iterate_chain_config split: if_splits prod.splits)

lemma free_chain_search_config: "free_chain_search D p c s = Some q \<Longrightarrow> config_of (snd q) = config_of s"
  by (erule free_chain_search.raw_induct [rotated])
    (auto dest!: read_cluster_config split: if_splits prod.splits option.splits)

lemma find_free_config:
  "fat12_find_free_entry D dir s = Some (r, s') \<Longrightarrow> config_of s' = config_of s"
  by (auto simp: fat12_find_free_entry_def Let_def dest!: free_chain_search_config allocate_config
      split: if_splits prod.splits option.splits free_search.splits)

lemma write_entry_config: "fat12_write_entry D o_c i e s = (r, s') \<Longrightarrow> config_of s' = config_of s"
  by (auto simp: fat12_write_entry_def Let_def dest!: read_cluster_config write_cluster_config
      split: if_splits prod.splits)

lemma write_directory_entry_config:
  "fat12_write_directory_entry D dir name e s = Some (r, s') \<Longrightarrow> config_of s' = config_of s"
  by (auto simp: fat12_write_directory_entry_def dest!: find_entry_config find_free_config write_entry_config
      split: if_splits prod.splits option.splits sum.splits)

lemma mark_deleted_config:
  "fat12_mark_entry_deleted D dir name s = Some (r, s') \<Longrightarrow> config_of s' = config_of s"
  by (auto simp: fat12_mark_entry_deleted_def dest!: find_entry_config write_entry_config
      split: if_splits prod.splits option.splits sum.splits)

lemma enter_component_config: "enter_component D c w s = Some (r, s') \<Longrightarrow> config_of s' = config_of s"
  by (auto simp: enter_component_def dest!: find_entry_config
      split: if_splits prod.splits option.splits sum.splits)


lemma locate_walk_config: "locate_walk D p c st s = Some (r, s') \<Longrightarrow> config_of s' = config_of s"
  by (induction D p c st s arbitrary: r s' rule: locate_walk.induct, subst (asm) locate_walk.simps)
    (auto simp: Let_def dest!: enter_component_config split: if_splits prod.splits option.splits sum.splits)

lemma parent_walk_config: "parent_walk D p c st s = Some (r, s') \<Longrightarrow> config_of s' = config_of s"
  by (induction D p c st s arbitrary: r s' rule: parent_walk.induct, subst (asm) parent_walk.simps)
    (auto simp: Let_def dest!: enter_component_config split: if_splits prod.splits option.splits sum.splits)


lemma change_walk_config: "change_walk D p c st ns s = Some (r, s') \<Longrightarrow> config_of s' = config_of s"
  by (induction D p c st ns s arbitrary: r s' rule: change_walk.induct, subst (asm) change_walk.simps)
    (auto simp: Let_def dest!: enter_component_config split: if_splits prod.splits option.splits sum.splits)

lemma locate_config: "fat12_locate_directory D p s = Some (r, s') \<Longrightarrow> config_of s' = config_of s"
  by (auto simp: fat12_locate_directory_def dest!: locate_walk_config split: if_splits option.splits)

lemma resolve_config: "fat12_resolve_parent_and_name D p s = Some (r, s') \<Longrightarrow> config_of s' = config_of s"
  by (auto simp: fat12_resolve_parent_and_name_def dest!: parent_walk_config
      split: if_splits option.splits sum.splits prod.splits)

lemma iterate_path_config: "fat12_iterate_path D p cb ctx s = Some (r, ctx', s') \<Longrightarrow> config_of s' = config_of s"
  by (auto simp: fat12_iterate_path_def fat12_iterate_current_directory_def dest!: locate_config iterate_config
      split: if_splits option.splits sum.splits prod.splits)

lemma iterate_current_config:
  "fat12_iterate_current_directory D cb ctx s = Some (r, ctx', s') \<Longrightarrow> config_of s' = config_of s"
  by (auto simp: fat12_iterate_current_directory_def dest!: iterate_config split: if_splits)

lemma flush_root_config: "fat12_flush_root D s = (r, s') \<Longrightarrow> config_of s' = config_of s"
  by (auto simp: fat12_flush_root_def config_of_def split: if_splits prod.splits)

lemma flush_fats_config: "fat12_flush_fats D s = (r, s') \<Longrightarrow> config_of s' = config_of s"
  by (auto simp: fat12_flush_fats_def config_of_def split: if_splits prod.splits)

lemma flush_config: "fat12_flush D s = (r, s') \<Longrightarrow> config_of s' = config_of s"
  by (auto simp: fat12_flush_def dest!: flush_root_config flush_fats_config
      split: if_splits prod.splits sum.splits)

lemma flush_ignoring_config [simp]: "config_of (flush_ignoring_errors D s) = config_of s"
  using flush_root_config flush_fats_config by (metis flush_ignoring_errors_def prod.collapse)

lemma read_loop_config: "read_loop D c rest cur buf s = Some q \<Longrightarrow> config_of (snd (snd q)) = config_of s"
  by (erule read_loop.raw_induct [rotated])
    (auto simp: Let_def dest: read_cluster_config split: if_splits prod.splits)

lemma read_file_config: "fat12_read_file D p buf n s = Some (r, buf', s') \<Longrightarrow> config_of s' = config_of s"
  by (auto simp: fat12_read_file_def dest!: resolve_config find_entry_config read_loop_config
      split: if_splits option.splits sum.splits prod.splits)

lemma write_loop_config: "write_loop D data sz f p n s = Some q \<Longrightarrow> config_of (snd q) = config_of s"
proof (erule write_loop.raw_induct [rotated], goal_cases)
  case (1 wl data sz f p n s q)
  show ?case
    using 1(2) by (auto simp: Let_def dest!: 1(1) allocate_config write_cluster_config split: if_splits prod.splits)
qed

lemma write_file_config:
  assumes "fat12_write_file D p data sz s = Some (r, s')"
  shows "config_of s' = config_of s"
  using assms unfolding fat12_write_file_def
  by (auto simp: Let_def dest!: resolve_config find_entry_config write_loop_config write_directory_entry_config
      split: if_splits option.split_asm sum.split_asm prod.split_asm)

lemma create_directory_config:
  assumes "fat12_create_directory D p s = Some (r, s')"
  shows "config_of s' = config_of s"
  using assms unfolding fat12_create_directory_def
  by (auto simp: Let_def dest!: resolve_config find_entry_config allocate_config write_cluster_config
      write_directory_entry_config split: if_splits option.split_asm sum.split_asm prod.split_asm)

lemma delete_file_config:
  assumes "fat12_delete_file D p s = Some (r, s')"
  shows "config_of s' = config_of s"
  using assms unfolding fat12_delete_file_def
  by (auto simp: Let_def dest!: resolve_config find_entry_config mark_deleted_config
      split: if_splits option.split_asm sum.split_asm prod.split_asm)


section \<open>The path the driver keeps\<close>

definition shown_name :: "byte list \<Rightarrow> bool" where
  "shown_name nm \<longleftrightarrow> (\<exists>b e. valid_base b \<and> valid_ext e \<and> nm = (if e = [] then b else b @ 0x2E # e))"

definition stack_top :: "u16 list \<Rightarrow> u16" where
  "stack_top stack = (if stack = [] then 0 else last stack)"

definition path_ok :: "u16 \<Rightarrow> u16 list \<Rightarrow> byte list list \<Rightarrow> bool" where
  "path_ok cluster stack names \<longleftrightarrow>
     length names = length stack \<and> length stack \<le> FAT12_MAX_PATH_DEPTH
   \<and> (\<forall>nm \<in> set names. shown_name nm)
   \<and> (length stack < FAT12_MAX_PATH_DEPTH \<longrightarrow> cluster = stack_top stack)"

definition cwd_string :: "byte list list \<Rightarrow> byte list" where
  "cwd_string names = (if names = [] then [0x2F] else rebuild_cwd_from names [0x2F])"

lemma shown_name_chars: "shown_name nm \<Longrightarrow> nm \<noteq> [] \<and> 0 \<notin> set nm"
proof -
  have "0 \<notin> set w" if "list_all fat12_is_valid_char w" for w
    using that valid_char_facts [of 0] by (auto simp: list_all_iff)
  then show "shown_name nm \<Longrightarrow> nm \<noteq> [] \<and> 0 \<notin> set nm"
    by (auto simp: shown_name_def valid_base_def valid_ext_def split: if_splits)
qed

text \<open>The string of displayable names is the path of the reference.\<close>

lemma cwd_string_shows: "\<forall>nm \<in> set names. shown_name nm \<Longrightarrow> shows_path names (cwd_string names)"
  unfolding cwd_string_def by (rule rebuild_cwd_shows) (blast dest: shown_name_chars)

lemma path_ok_empty [simp]: "path_ok 0 [] []"
  by (simp add: path_ok_def stack_top_def)

lemma path_ok_pop:
  assumes "path_ok c stack names"
  shows "path_ok (fst (pop_stack stack)) (snd (pop_stack stack)) (if stack \<noteq> [] then butlast names else names)"
  using assms by (auto simp: path_ok_def pop_stack_def Let_def stack_top_def dest: in_set_butlastD)

lemma path_ok_push:
  assumes "path_ok c stack names" and "shown_name nm"
  shows "path_ok c' (push_stack stack c') (if length stack < FAT12_MAX_PATH_DEPTH then names @ [nm] else names)"
  using assms by (auto simp: path_ok_def push_stack_def stack_top_def)

lemma enter_component_name:
  assumes "enter_component D c w s = Some (Inr e, s')"
  shows "shown_name (fat12_dir_name_to_string (re_name e))"
proof -
  obtain name owner idx where n: "fat12_make_short_name (Some w) = Inr name"
    "fat12_find_entry D c name s = Some (Inr (e, owner, idx), s')"
    using assms by (auto simp: enter_component_def split: sum.splits option.splits if_splits prod.splits)
  have "re_name e = name" using find_entry_config(2) [OF n(2) refl make_short_name_length [OF n(1)]] .
  moreover obtain b x where "valid_base b" "valid_ext x" "name = pack83 b x"
    using n(1) by (rule make_short_name_cases)
  ultimately show ?thesis using display_pack83 by (auto simp: shown_name_def)
qed

lemma change_walk_path:
  "change_walk D p c st ns s = Some (r, s') \<Longrightarrow> path_ok c st ns \<Longrightarrow>
   config_of s' = config_of s
   \<and> (\<forall>c' st' ns'. r = Inr (c', st', ns') \<longrightarrow> path_ok c' st' ns')"
proof (induction D p c st ns s arbitrary: r s' rule: change_walk.induct)
  case (1 D p c st ns s)
  obtain len w p1 where next_eq: "fat12_path_next p 32 = (len, w, p1)" by (metis prod_cases3)
  note run = 1(4) [unfolded change_walk.simps [of D p] next_eq prod.case Let_def]
  note IH = 1(1-3) [OF next_eq [symmetric] refl refl _ refl]
  consider "len = 0" | "0 < len" "is_dot w" | "0 < len" "\<not> is_dot w" "is_dotdot w"
    | "0 < len" "\<not> is_dot w" "\<not> is_dotdot w" by blast
  then show ?case
  proof cases
    case 1
    then show ?thesis using run \<open>path_ok c st ns\<close> by auto
  next
    case 2
    then show ?thesis using run \<open>path_ok c st ns\<close> IH(1) by simp
  next
    case 3
    then show ?thesis using run IH(2) [of "fst (pop_stack st)" "snd (pop_stack st)"] path_ok_pop [OF \<open>path_ok c st ns\<close>]
      by (cases "pop_stack st") auto
  next
    case 4
    then obtain res s1 where e: "enter_component D c w s = Some (res, s1)"
      using run by (auto split: option.splits)
    show ?thesis
    proof (cases res)
      case (Inl err)
      then show ?thesis using run 4 e enter_component_config [OF e] by auto
    next
      case (Inr entry)
      then have e': "enter_component D c w s = Some (Inr entry, s1)" using e by simp
      show ?thesis
        using run 4 e' IH(3) [OF 4(1,2,3) e' refl refl] enter_component_config [OF e']
          path_ok_push [OF \<open>path_ok c st ns\<close> enter_component_name [OF e']] by auto
    qed
  qed
qed


section \<open>Sessions\<close>

text \<open>
  The static variables before \<open>fat12_init\<close> (zero, and \<open>g_cwd = "/"\<close>), the calls a client
  makes afterwards, and the states they reach. A call that does not return gives no step.
\<close>

definition boot_state :: "'d \<Rightarrow> 'd fat12_state" where
  "boot_state d =
     \<lparr>g_fs = \<lparr>bytes_per_sector = 0, sectors_per_cluster = 0, reserved_sectors = 0, num_fats = 0,
        root_entry_count = 0, root_dir_sectors = 0, total_sectors = 0, sectors_per_fat = 0,
        fat_start_lba = 0, root_dir_start_lba = 0, data_start_lba = 0, total_data_sectors = 0,
        total_clusters = 0, cluster_size_bytes = 0, base_lba = 0, fat_size_bytes = 0\<rparr>,
      g_fat_primary = (\<lambda>_. 0), g_fat_secondary = (\<lambda>_. 0), g_root_dir = (\<lambda>_. 0),
      g_cluster_buffer = (\<lambda>_. 0), g_fs_ready = False, g_fat_dirty = False, g_root_dirty = False,
      g_current_dir_cluster = 0, g_path_stack = [], g_path_names = [], g_cwd = [0x2F], disk = d\<rparr>"

inductive fs_call :: "'d disk_ops \<Rightarrow> 'd fat12_state \<Rightarrow> 'd fat12_state \<Rightarrow> bool" for D :: "'d disk_ops" where
  call_chdir: "fat12_change_directory D p s = Some (r, s') \<Longrightarrow> fs_call D s s'"
| call_read: "fat12_read_file D p buf n s = Some (r', buf', s') \<Longrightarrow> fs_call D s s'"
| call_write: "fat12_write_file D p data sz s = Some (r, s') \<Longrightarrow> fs_call D s s'"
| call_mkdir: "fat12_create_directory D p s = Some (r, s') \<Longrightarrow> fs_call D s s'"
| call_delete: "fat12_delete_file D p s = Some (r, s') \<Longrightarrow> fs_call D s s'"
| call_list: "fat12_iterate_path D p cb ctx s = Some (r, ctx' :: nat, s') \<Longrightarrow> fs_call D s s'"
| call_list_here: "fat12_iterate_current_directory D cb ctx s = Some (r, ctx' :: nat, s') \<Longrightarrow> fs_call D s s'"
| call_flush: "fat12_flush D s = (r, s') \<Longrightarrow> fs_call D s s'"

inductive fs_session :: "'d disk_ops \<Rightarrow> 'd fat12_state \<Rightarrow> bool" for D :: "'d disk_ops" where
  session_mount: "fat12_init D base (boot_state d) = (r, s) \<Longrightarrow> fs_session D s"
| session_call: "fs_session D s \<Longrightarrow> fs_call D s s' \<Longrightarrow> fs_session D s'"

definition session_ok :: "'d fat12_state \<Rightarrow> bool" where
  "session_ok s \<longleftrightarrow>
     (g_fs_ready s \<longrightarrow> geometry_ok (g_fs s))
   \<and> path_ok (g_current_dir_cluster s) (g_path_stack s) (g_path_names s)
   \<and> g_cwd s = cwd_string (g_path_names s)"

lemma session_ok_config: "config_of s' = config_of s \<Longrightarrow> session_ok s \<Longrightarrow> session_ok s'"
  by (simp add: session_ok_def config_of_def)

lemma init_failure_path:
  assumes "fat12_init D base s = (Inl e, s')"
  shows "g_fs_ready s' = g_fs_ready s" "g_current_dir_cluster s' = g_current_dir_cluster s"
    "g_path_stack s' = g_path_stack s" "g_path_names s' = g_path_names s" "g_cwd s' = g_cwd s"
  using assms by (auto simp: fat12_init_def init_load_def Let_def split: if_splits prod.splits)

lemma init_session_ok: "fat12_init D base (boot_state d) = (r, s) \<Longrightarrow> session_ok s"
proof (cases r)
  case (Inl e)
  assume "fat12_init D base (boot_state d) = (r, s)"
  with Inl init_failure_path [of D base "boot_state d" e s] show ?thesis
    by (simp add: session_ok_def boot_state_def cwd_string_def)
next
  case (Inr u)
  assume "fat12_init D base (boot_state d) = (r, s)"
  with Inr have "fat12_init D base (boot_state d) = (Inr (), s)" by simp
  moreover from this obtain s3 where "init_load D base s3 = (Inr (), s)" by (rule init_success_record)
  ultimately show ?thesis
    using init_load_success(2-) [of D base s3 s] init_geometry_aux [of D base "boot_state d" s]
    by (auto simp: session_ok_def cwd_string_def)
qed

lemma change_directory_ok:
  assumes "fat12_change_directory D p s = Some (r, s')" and "session_ok s"
  shows "session_ok s'"
proof -
  have ok: "path_ok (g_current_dir_cluster s) (g_path_stack s) (g_path_names s)"
    using assms(2) by (simp add: session_ok_def)
  show ?thesis
  proof (cases r)
    case (Inl e)
    then have "config_of s' = config_of s"
      using assms(1)
      by (auto simp: fat12_change_directory_def dest!: change_walk_path [OF _ ok] change_walk_path [OF _ path_ok_empty]
          split: if_splits option.splits sum.splits prod.splits)
    then show ?thesis using assms(2) by (rule session_ok_config)
  next
    case (Inr u)
    then consider "s' = s" | c st ns s1 where "config_of s1 = config_of s" "path_ok c st ns"
      "s' = fat12_rebuild_cwd (s1\<lparr>g_current_dir_cluster := c, g_path_stack := st, g_path_names := ns\<rparr>)"
      using assms(1)
      by (auto simp: fat12_change_directory_def dest!: change_walk_path [OF _ ok] change_walk_path [OF _ path_ok_empty]
          split: if_splits option.splits sum.splits prod.splits)
    then show ?thesis
    proof cases
      case (2 c st ns s1)
      then show ?thesis using assms(2)
        by (simp add: session_ok_def fat12_rebuild_cwd_def cwd_string_def config_of_def)
    qed (use assms(2) in simp)
  qed
qed

lemma call_session_ok: "fs_call D s s' \<Longrightarrow> session_ok s \<Longrightarrow> session_ok s'"
  by (induction rule: fs_call.induct)
    (auto intro: change_directory_ok dest: read_file_config write_file_config create_directory_config
      delete_file_config iterate_path_config iterate_current_config flush_config session_ok_config)

lemma session_invariant: "fs_session D s \<Longrightarrow> session_ok s"
  by (induction rule: fs_session.induct) (auto intro: init_session_ok call_session_ok)

end
