(* ===== verification/Fat12_Tree.thy ===== *)
theory Fat12_Tree
  imports Fat12_Session
begin

text \<open>
  Path resolution against the directory tree of the volume. \<open>path_components\<close> is the
  sequence \<open>fat12_path_next\<close> delivers to the three walks, \<open>tree_walk\<close> the walk over a
  lookup function; on a mounted volume whose directories are chains, the walks of
  \<open>fat12.c\<close> return and compute \<open>tree_walk\<close>.
\<close>

section \<open>Components of a path\<close>

function path_components :: "byte list \<Rightarrow> byte list list" where
  "path_components p =
     (case fat12_path_next p 32 of
        (len, w, p') \<Rightarrow> if 0 < len then w # path_components (skip_seps p') else [])"
  by pat_completeness auto
termination
  by (relation "measure length") (auto intro: cursor_shorter)

declare path_components.simps [simp del]

text \<open>The reference: maximal runs of characters that are no separators, up to the NUL.\<close>

fun split_path :: "byte list \<Rightarrow> byte list \<Rightarrow> byte list list" where
  "split_path [] w = (if w = [] then [] else [w])"
| "split_path (c # cs) w =
     (if c = 0 then (if w = [] then [] else [w])
      else if is_sep c then (if w = [] then split_path cs [] else w # split_path cs [])
      else split_path cs (w @ [c]))"

lemma split_path_run:
  "\<forall>c \<in> set w. c \<noteq> 0 \<and> \<not> is_sep c \<Longrightarrow> split_path (w @ p) acc = split_path p (acc @ w)"
  by (induction w arbitrary: acc) simp_all

lemma split_path_seps: "\<forall>c \<in> set w. is_sep c \<Longrightarrow> split_path (w @ p) [] = split_path p []"
  by (induction w) (simp_all add: is_sep_nonzero)

lemma split_path_end:
  "char_at p 0 = 0 \<Longrightarrow> split_path p w = (if w = [] then [] else [w])"
  by (cases p) simp_all

lemma takeWhile_all: "\<forall>c \<in> set (takeWhile P xs). P c"
  by (auto dest: set_takeWhileD)

lemma split_path_stop:
  assumes "r = [] \<or> \<not> (hd r \<noteq> 0 \<and> \<not> is_sep (hd r))" and "w \<noteq> []"
  shows "split_path r w = w # split_path (skip_seps r) []"
proof (cases r)
  case (Cons c cs)
  then show ?thesis
    using assms split_path_seps [OF takeWhile_all [of is_sep cs], of "dropWhile is_sep cs"]
    by (cases "c = 0") (simp_all add: skip_seps_eq is_sep_def)
qed (use assms in simp)

lemma path_components_split: "path_components p = map (take 31) (split_path p [])"
proof (induction p rule: path_components.induct)
  case (1 p)
  let ?ptr = "dropWhile is_sep p" and ?P = "\<lambda>c. c \<noteq> 0 \<and> \<not> is_sep c"
  let ?w = "takeWhile ?P ?ptr" and ?rest = "dropWhile ?P ?ptr"
  have next_eq: "fat12_path_next p 32 = (length (take 31 ?w), take 31 ?w, ?rest)"
    by (simp add: path_next_eq Let_def)
  have ptr: "split_path p [] = split_path ?ptr []"
    using split_path_seps [OF takeWhile_all [of is_sep p], of ?ptr] by simp
  have w: "split_path ?ptr [] = split_path ?rest ?w"
    using split_path_run [OF takeWhile_all [of ?P ?ptr], of ?rest "[]"] by simp
  show ?case
  proof (cases "?w = []")
    case True
    have "char_at ?ptr 0 = 0"
    proof (cases ?ptr)
      case Nil
      then show ?thesis unfolding Nil by simp
    next
      case (Cons a as)
      then have "\<not> is_sep a" using hd_dropWhile [of is_sep p] by auto
      moreover have "\<not> ?P a" using True unfolding Cons by (auto split: if_splits)
      ultimately show ?thesis unfolding Cons by simp
    qed
    then show ?thesis using True by (simp add: path_components.simps [of p] next_eq ptr split_path_end)
  next
    case False
    have "?rest = [] \<or> \<not> ?P (hd ?rest)" using hd_dropWhile [of ?P ?ptr] by blast
    then have rest: "split_path ?rest ?w = ?w # split_path (skip_seps ?rest) []"
      using False by (rule split_path_stop)
    have "path_components (skip_seps ?rest) = map (take 31) (split_path (skip_seps ?rest) [])"
      using 1 [OF next_eq [symmetric] refl] False by simp
    then show ?thesis using False by (simp add: path_components.simps [of p] next_eq ptr w rest)
  qed
qed

section \<open>Walking the tree\<close>

definition tree_enter :: "(byte list \<rightharpoonup> raw_dir_entry) \<Rightarrow> byte list \<Rightarrow> fat12_err + raw_dir_entry" where
  "tree_enter m w =
     (case fat12_make_short_name (Some w) of
        Inl e \<Rightarrow> Inl e
      | Inr name \<Rightarrow>
          (case m name of
             None \<Rightarrow> Inl FAT12_ERR_NOT_FOUND
           | Some e \<Rightarrow> if is_directory e then Inr e else Inl FAT12_ERR_NOT_DIRECTORY))"

fun tree_walk :: "(u16 \<Rightarrow> byte list \<rightharpoonup> raw_dir_entry) \<Rightarrow> byte list list \<Rightarrow> u16 \<Rightarrow> u16 list \<Rightarrow> byte list list
    \<Rightarrow> fat12_err + u16 \<times> u16 list \<times> byte list list" where
  "tree_walk T [] c st ns = Inr (c, st, ns)"
| "tree_walk T (w # ws) c st ns =
     (if is_dot w then tree_walk T ws c st ns
      else if is_dotdot w then
        tree_walk T ws (fst (pop_stack st)) (snd (pop_stack st)) (if st \<noteq> [] then butlast ns else ns)
      else
        (case tree_enter (T c) w of
           Inl e \<Rightarrow> Inl e
         | Inr e \<Rightarrow>
             tree_walk T ws (re_first_cluster_low e) (push_stack st (re_first_cluster_low e))
               (if length st < FAT12_MAX_PATH_DEPTH
                then ns @ [fat12_dir_name_to_string (re_name e)] else ns)))"

definition start_walk :: "(u16 \<Rightarrow> byte list \<rightharpoonup> raw_dir_entry) \<Rightarrow> byte list \<Rightarrow> 'd fat12_state
    \<Rightarrow> fat12_err + u16 \<times> u16 list \<times> byte list list" where
  "start_walk T p s =
     (if starts_at_root p then tree_walk T (map (take 31) (split_path p [])) 0 [] []
      else tree_walk T (map (take 31) (split_path p [])) (g_current_dir_cluster s) (g_path_stack s)
             (g_path_names s))"

text \<open>
  The directories \<open>N\<close> of a volume, each with its chain: they include the root, and every
  subdirectory entry of one of them leads to another.
\<close>

definition tree_of :: "(nat \<Rightarrow> byte list) \<Rightarrow> 'd fat12_state \<Rightarrow> (u16 \<Rightarrow> u16 list) \<Rightarrow> u16 \<Rightarrow> byte list \<rightharpoonup> raw_dir_entry" where
  "tree_of S s ch c = dir_map (dir_entries S s c (ch c))"

definition tree_ok :: "(nat \<Rightarrow> byte list) \<Rightarrow> 'd fat12_state \<Rightarrow> (u16 \<Rightarrow> u16 list) \<Rightarrow> u16 set \<Rightarrow> bool" where
  "tree_ok S s ch N \<longleftrightarrow>
     0 \<in> N \<and> (\<forall>c \<in> N. dir_chain s c (ch c)
       \<and> (\<forall>name e. tree_of S s ch c name = Some e \<and> is_directory e \<longrightarrow> re_first_cluster_low e \<in> N))"

lemma tree_enter_node:
  assumes "tree_ok S s ch N" and "c \<in> N" and "tree_enter (tree_of S s ch c) w = Inr e"
  shows "re_first_cluster_low e \<in> N"
  using assms by (auto simp: tree_ok_def tree_enter_def split: sum.splits option.splits if_splits)

lemma pop_node: "0 \<in> N \<Longrightarrow> set st \<subseteq> N \<Longrightarrow> fst (pop_stack st) \<in> N \<and> set (snd (pop_stack st)) \<subseteq> N"
  using in_set_butlastD [OF last_in_set [of "butlast st"]]
  by (auto simp: pop_stack_def Let_def dest: in_set_butlastD)

lemma push_node: "c \<in> N \<Longrightarrow> set st \<subseteq> N \<Longrightarrow> set (push_stack st c) \<subseteq> N"
  by (auto simp: push_stack_def)

lemma tree_walk_cong:
  assumes "tree_ok S s ch N" and "\<And>c. c \<in> N \<Longrightarrow> T c = tree_of S s ch c" and "c \<in> N" and "set st \<subseteq> N"
  shows "tree_walk T ws c st ns = tree_walk (tree_of S s ch) ws c st ns"
  using assms(3,4)
proof (induction ws arbitrary: c st ns)
  case (Cons w ws)
  have "0 \<in> N" using assms(1) by (simp add: tree_ok_def)
  note popped = pop_node [OF this Cons.prems(2)]
  have pop: "tree_walk T ws (fst (pop_stack st)) (snd (pop_stack st)) ns =
      tree_walk (tree_of S s ch) ws (fst (pop_stack st)) (snd (pop_stack st)) ns" for ns
    by (rule Cons.IH [OF conjunct1 [OF popped] conjunct2 [OF popped]])
  note node = tree_enter_node [OF assms(1) Cons.prems(1)]
  have push: "tree_walk T ws (re_first_cluster_low e) (push_stack st (re_first_cluster_low e)) ns =
      tree_walk (tree_of S s ch) ws (re_first_cluster_low e) (push_stack st (re_first_cluster_low e)) ns"
    if "tree_enter (tree_of S s ch c) w = Inr e" for e ns
    by (rule Cons.IH [OF node push_node [OF node Cons.prems(2)]]) (fact that)+
  have here: "T c = tree_of S s ch c" using assms(2) Cons.prems(1) .
  have stay: "tree_walk T ws c st ns = tree_walk (tree_of S s ch) ws c st ns"
    using Cons.IH [OF Cons.prems] .
  show ?case
    by (cases "tree_enter (tree_of S s ch c) w") (simp_all add: here stay pop push)
qed simp

lemma get_fat_entry_session [simp]:
  "fat12_get_fat_entry (s\<lparr>g_current_dir_cluster := c\<rparr>) x = fat12_get_fat_entry s x"
  "fat12_get_fat_entry (s\<lparr>g_path_stack := st\<rparr>) x = fat12_get_fat_entry s x"
  "fat12_get_fat_entry (s\<lparr>g_path_names := ns\<rparr>) x = fat12_get_fat_entry s x"
  "fat12_get_fat_entry (s\<lparr>g_cwd := w\<rparr>) x = fat12_get_fat_entry s x"
  by (simp_all add: fat12_get_fat_entry_def)

lemma is_chain_session:
  "is_chain (s\<lparr>g_current_dir_cluster := c, g_path_stack := st, g_path_names := ns, g_cwd := w\<rparr>) x cs =
   is_chain s x cs"
  by (rule is_chain_cong) simp

lemma change_directory_secondary:
  "fat12_change_directory D p s = Some (r, s') \<Longrightarrow> g_fat_secondary s' = g_fat_secondary s"
  by (auto simp: fat12_change_directory_def fat12_rebuild_cwd_def config_of_def dest!: change_walk_config
      split: if_splits option.splits sum.splits prod.splits)

text \<open>Two sessions with the same table and the same directories have the same tree.\<close>

lemma tree_same:
  assumes "g_fs s' = g_fs s" and "\<forall>c. fat12_get_fat_entry s' c = fat12_get_fat_entry s c"
    and "\<forall>dir cs. dir_entries S' s' dir cs = dir_entries S s dir cs"
  shows "tree_of S' s' ch = tree_of S s ch" "tree_ok S' s' ch N = tree_ok S s ch N"
proof -
  show t: "tree_of S' s' ch = tree_of S s ch" by (rule ext) (simp add: tree_of_def assms(3))
  have "is_chain s' c cs = is_chain s c cs" for c cs by (rule is_chain_cong) (simp add: assms(2))
  then have "dir_chain s' c cs = dir_chain s c cs" for c cs by (simp add: dir_chain_def assms(1,2))
  then show "tree_ok S' s' ch N = tree_ok S s ch N" by (simp add: tree_ok_def t)
qed

context sector_store
begin

lemma tree_step:
  assumes "step s s' {} {}" and "tree_ok (sector (disk s)) s ch N"
  shows "tree_ok (sector (disk s')) s' ch N"
    and "c \<in> N \<Longrightarrow> tree_of (sector (disk s')) s' ch c = tree_of (sector (disk s)) s ch c"
proof -
  have a: "dir_chain s' c (ch c)"
    "tree_of (sector (disk s')) s' ch c = tree_of (sector (disk s)) s ch c" if "c \<in> N" for c
    using that assms(2) dir_chain_cong [OF assms(1)] dir_entries_cong [OF assms(1)]
    by (auto simp: tree_ok_def tree_of_def)
  then show "tree_ok (sector (disk s')) s' ch N" using assms(2) by (auto simp: tree_ok_def)
  show "tree_of (sector (disk s')) s' ch c = tree_of (sector (disk s)) s ch c" if "c \<in> N"
    using a(2) that .
qed

lemma enter_component_tree:
  assumes m: "mounted healthy cap s" and tree: "tree_ok (sector (disk s)) s ch N" and c: "c \<in> N"
  obtains s' where "enter_component D c w s = Some (tree_enter (tree_of (sector (disk s)) s ch c) w, s')"
    "step s s' {} {}"
proof (cases "fat12_make_short_name (Some w)")
  case (Inl e)
  then show thesis using m by (intro that [of s]) (simp_all add: enter_component_def tree_enter_def mounted_def vol_step_refl)
next
  case (Inr name)
  have chain: "dir_chain s c (ch c)" using tree c by (simp add: tree_ok_def)
  let ?es = "dir_entries (sector (disk s)) s c (ch c)"
  obtain s1 where s1: "step s s1 {} {}"
    "fat12_find_entry D c name s = Some (found_at (g_fs s) c (ch c) ?es (dir_find ?es name), s1)"
    by (rule find_entry_spec [OF m chain make_short_name_length [OF Inr]])
  then show thesis
    using Inr by (intro that [of s1])
      (auto simp: enter_component_def tree_enter_def tree_of_def dir_map_def found_at_def is_directory_def
        split: option.splits prod.splits)
qed


text \<open>The walk of \<open>fat12_change_directory\<close>, step by step.\<close>

lemma change_walk_tree:
  "mounted healthy cap s \<Longrightarrow> tree_ok (sector (disk s)) s ch N \<Longrightarrow> c \<in> N \<Longrightarrow> set st \<subseteq> N \<Longrightarrow>
   \<exists>s'. change_walk D p c st ns s =
          Some (tree_walk (tree_of (sector (disk s)) s ch) (path_components p) c st ns, s')
      \<and> step s s' {} {}"
proof (induction "length p" arbitrary: p c st ns s rule: less_induct)
  case less
  obtain len w p1 where next_eq: "fat12_path_next p 32 = (len, w, p1)" by (metis prod_cases3)
  note m = less.prems(1) and tree = less.prems(2) and N = less.prems(3,4)
  note run = change_walk.simps [of D p c st ns s, unfolded next_eq prod.case Let_def]
  note comps = path_components.simps [of p, unfolded next_eq prod.case]
  have zero: "0 \<in> N" using tree by (simp add: tree_ok_def)
  have h: "healthy (disk s)" using m by (simp add: mounted_def)
  show ?case
  proof (cases "0 < len")
    case False
    then show ?thesis using h run comps by (auto simp: vol_step_refl)
  next
    case True
    note IH = less.hyps [OF cursor_shorter [OF next_eq [symmetric] True]]
    consider "is_dot w" | "\<not> is_dot w" "is_dotdot w" | "\<not> is_dot w" "\<not> is_dotdot w" by blast
    then show ?thesis
    proof cases
      case 1
      then show ?thesis using True run comps IH [OF m tree N] by simp
    next
      case 2
      then show ?thesis using True run comps IH [OF m tree conjunct1 conjunct2, OF pop_node pop_node, OF zero N(2) zero N(2)]
        by (simp add: case_prod_beta)
    next
      case 3
      obtain s1 where s1: "enter_component D c w s = Some (tree_enter (tree_of (sector (disk s)) s ch c) w, s1)"
        "step s s1 {} {}"
        by (rule enter_component_tree [OF m tree N(1)])
      have m1: "mounted healthy cap s1" using vol_step_mounted [OF s1(2) m] .
      note tree1 = tree_step(1) [OF s1(2) tree]
      have same: "tree_walk (tree_of (sector (disk s1)) s1 ch) ws c' st' ns' =
          tree_walk (tree_of (sector (disk s)) s ch) ws c' st' ns'" if "c' \<in> N" "set st' \<subseteq> N" for ws c' st' ns'
        by (rule tree_walk_cong [OF tree tree_step(2) [OF s1(2) tree] that])
      show ?thesis
      proof (cases "tree_enter (tree_of (sector (disk s)) s ch c) w")
        case (Inl e)
        then show ?thesis using 3 True run comps s1 by auto
      next
        case (Inr e)
        have e: "re_first_cluster_low e \<in> N" using tree_enter_node [OF tree N(1) Inr] .
        note st = push_node [OF e N(2)]
        let ?ns = "if length st < FAT12_MAX_PATH_DEPTH then ns @ [fat12_dir_name_to_string (re_name e)] else ns"
        obtain s' where s': "change_walk D (skip_seps p1) (re_first_cluster_low e)
            (push_stack st (re_first_cluster_low e)) ?ns s1 =
            Some (tree_walk (tree_of (sector (disk s)) s ch) (path_components (skip_seps p1))
              (re_first_cluster_low e) (push_stack st (re_first_cluster_low e)) ?ns, s')" "step s1 s' {} {}"
          using IH [OF m1 tree1 e st, of ?ns] same [OF e st] by auto
        have "step s s' {} {}" using vol_step_trans [OF s1(2) s'(2)] by simp
        then show ?thesis using 3 True run comps s1(1) s'(1) Inr by simp
      qed
    qed
  qed
qed


lemma change_directory_tree:
  assumes m: "mounted healthy cap s" and tree: "tree_ok (sector (disk s)) s ch N"
    and N: "g_current_dir_cluster s \<in> N" "set (g_path_stack s) \<subseteq> N" and p: "char_at p 0 \<noteq> 0"
  shows "\<exists>s'. (case start_walk (tree_of (sector (disk s)) s ch) p s of
      Inl e \<Rightarrow> fat12_change_directory D (Some p) s = Some (Inl e, s') \<and> step s s' {} {}
    | Inr (c, st, ns) \<Rightarrow> fat12_change_directory D (Some p) s = Some (Inr (), s')
        \<and> g_current_dir_cluster s' = c \<and> g_path_stack s' = st \<and> g_path_names s' = ns
        \<and> fat12_get_cwd s' = cwd_string ns \<and> mounted healthy cap s' \<and> g_fs s' = g_fs s
        \<and> tree_ok (sector (disk s')) s' ch N
        \<and> (\<forall>c \<in> N. tree_of (sector (disk s')) s' ch c = tree_of (sector (disk s)) s ch c))"
proof -
  let ?c = "if starts_at_root p then 0 else g_current_dir_cluster s"
  let ?st = "if starts_at_root p then [] else g_path_stack s"
  let ?ns = "if starts_at_root p then [] else g_path_names s"
  have zero: "0 \<in> N" using tree by (simp add: tree_ok_def)
  have c: "?c \<in> N" and st: "set ?st \<subseteq> N" using N zero by auto
  obtain s1 where s1: "change_walk D p ?c ?st ?ns s = Some (start_walk (tree_of (sector (disk s)) s ch) p s, s1)"
    "step s s1 {} {}"
    using change_walk_tree [OF m tree c st, of p ?ns] by (auto simp: start_walk_def path_components_split)
  have ready: "g_fs_ready s" using m by (simp add: mounted_def)
  have walk: "(if starts_at_root p then change_walk D p 0 [] [] s
      else change_walk D p (g_current_dir_cluster s) (g_path_stack s) (g_path_names s) s) =
      Some (start_walk (tree_of (sector (disk s)) s ch) p s, s1)"
    using s1(1) by (simp split: if_splits)
  show ?thesis
  proof (cases "start_walk (tree_of (sector (disk s)) s ch) p s")
    case (Inl e)
    then show ?thesis using ready p walk s1(2) by (simp add: fat12_change_directory_def)
  next
    case (Inr r)
    obtain c' st' ns' where r: "r = (c', st', ns')" by (metis prod_cases3)
    let ?s2 = "s1\<lparr>g_current_dir_cluster := c', g_path_stack := st', g_path_names := ns', g_cwd := cwd_string ns'\<rparr>"
    have run: "fat12_change_directory D (Some p) s = Some (Inr (), ?s2)"
      using ready p walk Inr r by (simp add: fat12_change_directory_def fat12_rebuild_cwd_def cwd_string_def)
    have same: "tree_of S ?s2 ch = tree_of S s1 ch" "dir_chain ?s2 x cs = dir_chain s1 x cs" for S x cs
      by (simp_all add: tree_of_def dir_entries_def dir_chain_def fun_eq_iff is_chain_session)
    have tree2: "tree_ok (sector (disk ?s2)) ?s2 ch N"
      using tree_step(1) [OF s1(2) tree] unfolding tree_ok_def same by auto
    have "mounted healthy cap ?s2" using vol_step_mounted [OF s1(2) m] by (simp add: mounted_def)
    then show ?thesis
      using run Inr r tree2 same(1) tree_step(2) [OF s1(2) tree] vol_step_same(1) [OF s1(2)]
      by (auto simp: fat12_get_cwd_def)
  qed
qed


text \<open>Into a subdirectory and back with \<open>..\<close>: the session is the one before.\<close>

lemma cd_and_back:
  assumes m: "mounted healthy cap s" and tree: "tree_ok (sector (disk s)) s ch N"
    and N: "g_current_dir_cluster s \<in> N" "set (g_path_stack s) \<subseteq> N"
    and ok: "session_ok s" and depth: "length (g_path_stack s) < FAT12_MAX_PATH_DEPTH"
    and p: "plain_path p name" and e: "tree_of (sector (disk s)) s ch (g_current_dir_cluster s) name = Some e"
    and dir: "is_directory e"
  shows "\<exists>s1 s2. fat12_change_directory D (Some p) s = Some (Inr (), s1)
    \<and> g_current_dir_cluster s1 = re_first_cluster_low e
    \<and> shows_path (g_path_names s @ [fat12_dir_name_to_string (re_name e)]) (fat12_get_cwd s1)
    \<and> fat12_change_directory D (Some [0x2E, 0x2E]) s1 = Some (Inr (), s2)
    \<and> config_of s2 = config_of s"
proof -
  note f = plain_path_facts [OF p]
  have mk: "fat12_make_short_name (Some p) = Inr name" and ch: "\<forall>c \<in> set p. c \<noteq> 0 \<and> \<not> is_sep c"
    using p by (auto simp: plain_path_def)
  let ?T = "tree_of (sector (disk s)) s ch"
  let ?c' = "re_first_cluster_low e" and ?nm = "fat12_dir_name_to_string (re_name e)"
  have comps: "map (take 31) (split_path p []) = [p]" "map (take 31) (split_path [0x2E, 0x2E] []) = [[0x2E, 0x2E]]"
    using split_path_run [OF ch, of "[]" "[]"] f(2,3) by (simp_all add: is_sep_def)
  have enter: "tree_enter (?T (g_current_dir_cluster s)) p = Inr e" using mk e dir by (simp add: tree_enter_def)
  have path: "path_ok (g_current_dir_cluster s) (g_path_stack s) (g_path_names s)"
    "g_cwd s = cwd_string (g_path_names s)" using ok by (auto simp: session_ok_def)
  have down: "start_walk ?T p s = Inr (?c', g_path_stack s @ [?c'], g_path_names s @ [?nm])"
    using f(6-8) depth enter by (simp add: start_walk_def comps push_stack_def)
  obtain s1 where s1: "fat12_change_directory D (Some p) s = Some (Inr (), s1)" "g_current_dir_cluster s1 = ?c'"
    "g_path_stack s1 = g_path_stack s @ [?c']" "g_path_names s1 = g_path_names s @ [?nm]"
    "fat12_get_cwd s1 = cwd_string (g_path_names s @ [?nm])" "mounted healthy cap s1" "g_fs s1 = g_fs s"
    "tree_ok (sector (disk s1)) s1 ch N" "g_fat_secondary s1 = g_fat_secondary s"
    using change_directory_tree [OF m tree N f(5)] change_directory_secondary [of D "Some p" s] by (auto simp: down)
  have c': "?c' \<in> N" using tree_enter_node [OF tree N(1) enter] .
  have up: "start_walk T [0x2E, 0x2E] s1 = Inr (g_current_dir_cluster s, g_path_stack s, g_path_names s)" for T
    using path(1) depth
    by (simp add: start_walk_def comps s1(2-4) starts_at_root_def is_sep_def is_dot_def is_dotdot_def
        pop_stack_def Let_def path_ok_def stack_top_def char_at_def)
  obtain s2 where s2: "fat12_change_directory D (Some [0x2E, 0x2E]) s1 = Some (Inr (), s2)"
    "g_current_dir_cluster s2 = g_current_dir_cluster s" "g_path_stack s2 = g_path_stack s"
    "g_path_names s2 = g_path_names s" "fat12_get_cwd s2 = cwd_string (g_path_names s)"
    "mounted healthy cap s2" "g_fs s2 = g_fs s1" "g_fat_secondary s2 = g_fat_secondary s1"
    using change_directory_tree [OF s1(6,8), of "[0x2E, 0x2E]"] change_directory_secondary [of D "Some [0x2E, 0x2E]" s1]
      c' N by (auto simp: up s1(2,3))
  have "config_of s2 = config_of s"
    using s1 s2 m path(2) by (simp add: config_of_def fat12_get_cwd_def mounted_def)
  moreover have "shows_path (g_path_names s1) (fat12_get_cwd s1)"
    using call_session_ok [OF call_chdir [OF s1(1)] ok] cwd_string_shows
    by (auto simp: session_ok_def path_ok_def fat12_get_cwd_def)
  ultimately show ?thesis using s1 s2 by auto
qed

end

end
