(* ===== verification/Ata_Driver.thy ===== *)
theory Ata_Driver
  imports Disk_Interface
begin

text \<open>
  The ATA PIO driver \<open>src/disk.c\<close>. The machine is a parameter: \<open>'h ata_hw\<close> gives the
  four port instructions on a hardware state \<open>'h\<close>. The driver's own state is the six
  performance counters. Every polling loop has the code's limit of 10000 polls.
\<close>

section \<open>Registers, commands and status bits\<close>

abbreviation (input) ATA_DATA_REG :: u16 where "ATA_DATA_REG \<equiv> 0x1F0"
abbreviation (input) ATA_SECCOUNT0_REG :: u16 where "ATA_SECCOUNT0_REG \<equiv> 0x1F2"
abbreviation (input) ATA_LBA0_REG :: u16 where "ATA_LBA0_REG \<equiv> 0x1F3"
abbreviation (input) ATA_LBA1_REG :: u16 where "ATA_LBA1_REG \<equiv> 0x1F4"
abbreviation (input) ATA_LBA2_REG :: u16 where "ATA_LBA2_REG \<equiv> 0x1F5"
abbreviation (input) ATA_DRIVE_REG :: u16 where "ATA_DRIVE_REG \<equiv> 0x1F6"
abbreviation (input) ATA_COMMAND_REG :: u16 where "ATA_COMMAND_REG \<equiv> 0x1F7"
abbreviation (input) ATA_STATUS_REG :: u16 where "ATA_STATUS_REG \<equiv> 0x1F7"

abbreviation (input) ATA_CMD_READ_SECTORS :: u8 where "ATA_CMD_READ_SECTORS \<equiv> 0x20"
abbreviation (input) ATA_CMD_READ_SECTORS_MULTI :: u8 where "ATA_CMD_READ_SECTORS_MULTI \<equiv> 0xC4"
abbreviation (input) ATA_CMD_WRITE_SECTORS :: u8 where "ATA_CMD_WRITE_SECTORS \<equiv> 0x30"
abbreviation (input) ATA_CMD_WRITE_SECTORS_MULTI :: u8 where "ATA_CMD_WRITE_SECTORS_MULTI \<equiv> 0xC5"
abbreviation (input) ATA_CMD_IDENTIFY_DEVICE :: u8 where "ATA_CMD_IDENTIFY_DEVICE \<equiv> 0xEC"

abbreviation (input) ATA_STATUS_BSY :: u8 where "ATA_STATUS_BSY \<equiv> 0x80"
abbreviation (input) ATA_STATUS_DRDY :: u8 where "ATA_STATUS_DRDY \<equiv> 0x40"
abbreviation (input) ATA_STATUS_DRQ :: u8 where "ATA_STATUS_DRQ \<equiv> 0x08"
abbreviation (input) ATA_STATUS_ERR :: u8 where "ATA_STATUS_ERR \<equiv> 0x01"

abbreviation (input) ATA_DRIVE_LBA :: u8 where "ATA_DRIVE_LBA \<equiv> 0x40"
abbreviation (input) ATA_DRIVE_MASTER :: u8 where "ATA_DRIVE_MASTER \<equiv> 0xA0"

section \<open>State\<close>

record 'h ata_hw =
  inb :: "u16 \<Rightarrow> 'h \<Rightarrow> u8 \<times> 'h"
  outb :: "u16 \<Rightarrow> u8 \<Rightarrow> 'h \<Rightarrow> 'h"
  inw :: "u16 \<Rightarrow> 'h \<Rightarrow> u16 \<times> 'h"
  outw :: "u16 \<Rightarrow> u16 \<Rightarrow> 'h \<Rightarrow> 'h"

record 'h disk_state =
  g_disk_reads :: u32
  g_disk_writes :: u32
  g_disk_multi_reads :: u32
  g_disk_multi_writes :: u32
  g_disk_read_sectors :: u32
  g_disk_write_sectors :: u32
  ports :: 'h

section \<open>Polling\<close>

fun wait_for_bsy_loop :: "'h ata_hw \<Rightarrow> nat \<Rightarrow> 'h \<Rightarrow> int \<times> 'h" where
  "wait_for_bsy_loop H 0 h = (-1, h)"
| "wait_for_bsy_loop H (Suc timeout) h =
     (case inb H ATA_STATUS_REG h of
        (status, h1) \<Rightarrow>
          if status AND ATA_STATUS_BSY = 0 then (0, h1) else wait_for_bsy_loop H timeout h1)"

definition wait_for_bsy :: "'h ata_hw \<Rightarrow> 'h \<Rightarrow> int \<times> 'h" where
  "wait_for_bsy H h = wait_for_bsy_loop H 10000 h"

fun wait_for_drq_loop :: "'h ata_hw \<Rightarrow> nat \<Rightarrow> 'h \<Rightarrow> int \<times> 'h" where
  "wait_for_drq_loop H 0 h = (-1, h)"
| "wait_for_drq_loop H (Suc timeout) h =
     (case inb H ATA_STATUS_REG h of
        (status, h1) \<Rightarrow>
          if status AND ATA_STATUS_ERR \<noteq> 0 then (-1, h1)
          else if status AND ATA_STATUS_DRQ \<noteq> 0 then (0, h1)
          else wait_for_drq_loop H timeout h1)"

definition wait_for_drq :: "'h ata_hw \<Rightarrow> 'h \<Rightarrow> int \<times> 'h" where
  "wait_for_drq H h = wait_for_drq_loop H 10000 h"

definition select_drive :: "'h ata_hw \<Rightarrow> 'h \<Rightarrow> 'h" where
  "select_drive H h = outb H ATA_DRIVE_REG (ATA_DRIVE_MASTER OR ATA_DRIVE_LBA) h"

section \<open>Transfers\<close>

text \<open>The 256-word loops; \<open>p\<close> is the address of \<open>buffer[i * 2]\<close>.\<close>

fun read_words :: "'h ata_hw \<Rightarrow> nat \<Rightarrow> nat \<Rightarrow> mem \<Rightarrow> 'h \<Rightarrow> mem \<times> 'h" where
  "read_words H p 0 m h = (m, h)"
| "read_words H p (Suc left) m h =
     (case inw H ATA_DATA_REG h of
        (data, h1) \<Rightarrow>
          read_words H (p + 2) left
            (m(p := ucast (data AND 0xFF), p + 1 := ucast (drop_bit 8 data AND 0xFF))) h1)"

fun write_words :: "'h ata_hw \<Rightarrow> nat \<Rightarrow> nat \<Rightarrow> mem \<Rightarrow> 'h \<Rightarrow> 'h" where
  "write_words H p 0 m h = h"
| "write_words H p (Suc left) m h =
     write_words H (p + 2) left m
       (outw H ATA_DATA_REG (ucast (m p) OR push_bit 8 (ucast (m (p + 1)))) h)"

text \<open>The task file of a command: sector count, LBA bytes, drive and the top LBA bits.\<close>

definition setup_lba :: "'h ata_hw \<Rightarrow> u8 \<Rightarrow> u32 \<Rightarrow> 'h \<Rightarrow> 'h" where
  "setup_lba H count lba h =
     (let h1 = outb H ATA_SECCOUNT0_REG count h;
          h2 = outb H ATA_LBA0_REG (ucast (lba AND 0xFF)) h1;
          h3 = outb H ATA_LBA1_REG (ucast (drop_bit 8 lba AND 0xFF)) h2;
          h4 = outb H ATA_LBA2_REG (ucast (drop_bit 16 lba AND 0xFF)) h3
      in outb H ATA_DRIVE_REG
           (ATA_DRIVE_MASTER OR ATA_DRIVE_LBA OR ucast (drop_bit 24 lba AND 0x0F)) h4)"

definition disk_init :: "'h ata_hw \<Rightarrow> 'h disk_state \<Rightarrow> int \<times> 'h disk_state" where
  "disk_init H d =
     (case wait_for_bsy H (select_drive H (ports d)) of
        (rc, h1) \<Rightarrow>
          if rc \<noteq> 0 then (-1, d\<lparr>ports := h1\<rparr>)
          else
            (case inb H ATA_STATUS_REG h1 of
               (status, h2) \<Rightarrow>
                 if status AND ATA_STATUS_DRDY = 0 then (-2, d\<lparr>ports := h2\<rparr>)
                 else
                   let h3 = outb H ATA_SECCOUNT0_REG 0 h2;
                       h4 = outb H ATA_LBA0_REG 0 h3;
                       h5 = outb H ATA_LBA1_REG 0 h4;
                       h6 = outb H ATA_LBA2_REG 0 h5;
                       h7 = outb H ATA_COMMAND_REG ATA_CMD_IDENTIFY_DEVICE h6
                   in (case inb H ATA_STATUS_REG h7 of
                         (status2, h8) \<Rightarrow>
                           if status2 = 0 then (-3, d\<lparr>ports := h8\<rparr>)
                           else
                             (case wait_for_drq H h8 of
                                (rc2, h9) \<Rightarrow>
                                  if rc2 \<noteq> 0 then (-4, d\<lparr>ports := h9\<rparr>)
                                  else (0, d\<lparr>ports := snd (read_words H 0 256 (\<lambda>_. 0) h9)\<rparr>)))))"

definition disk_read_sector ::
    "'h ata_hw \<Rightarrow> u32 \<Rightarrow> nat option \<Rightarrow> mem \<Rightarrow> 'h disk_state \<Rightarrow> int \<times> mem \<times> 'h disk_state" where
  "disk_read_sector H lba buffer m d =
     (case buffer of
        None \<Rightarrow> (-1, m, d)
      | Some p \<Rightarrow>
          (case wait_for_bsy H (select_drive H (ports d)) of
             (rc, h1) \<Rightarrow>
               if rc \<noteq> 0 then (-2, m, d\<lparr>ports := h1\<rparr>)
               else
                 let h2 = outb H ATA_COMMAND_REG ATA_CMD_READ_SECTORS (setup_lba H 1 lba h1) in
                 (case wait_for_drq H h2 of
                    (rc2, h3) \<Rightarrow>
                      if rc2 \<noteq> 0 then (-3, m, d\<lparr>ports := h3\<rparr>)
                      else
                        (case read_words H p 256 m h3 of
                           (m', h4) \<Rightarrow>
                             (0, m', d\<lparr>ports := h4, g_disk_reads := g_disk_reads d + 1,
                                       g_disk_read_sectors := g_disk_read_sectors d + 1\<rparr>)))))"

definition disk_write_sector ::
    "'h ata_hw \<Rightarrow> u32 \<Rightarrow> nat option \<Rightarrow> mem \<Rightarrow> 'h disk_state \<Rightarrow> int \<times> 'h disk_state" where
  "disk_write_sector H lba buffer m d =
     (case buffer of
        None \<Rightarrow> (-1, d)
      | Some p \<Rightarrow>
          (case wait_for_bsy H (select_drive H (ports d)) of
             (rc, h1) \<Rightarrow>
               if rc \<noteq> 0 then (-2, d\<lparr>ports := h1\<rparr>)
               else
                 let h2 = outb H ATA_COMMAND_REG ATA_CMD_WRITE_SECTORS (setup_lba H 1 lba h1) in
                 (case wait_for_drq H h2 of
                    (rc2, h3) \<Rightarrow>
                      if rc2 \<noteq> 0 then (-3, d\<lparr>ports := h3\<rparr>)
                      else
                        (case wait_for_bsy H (write_words H p 256 m h3) of
                           (rc3, h5) \<Rightarrow>
                             if rc3 \<noteq> 0 then (-4, d\<lparr>ports := h5\<rparr>)
                             else
                               (case inb H ATA_STATUS_REG h5 of
                                  (status, h6) \<Rightarrow>
                                    if status AND ATA_STATUS_ERR \<noteq> 0 then (-5, d\<lparr>ports := h6\<rparr>)
                                    else (0, d\<lparr>ports := h6, g_disk_writes := g_disk_writes d + 1,
                                               g_disk_write_sectors := g_disk_write_sectors d + 1\<rparr>))))))"

text \<open>The sector loops of the multi-sector commands; false for a timeout or an error.\<close>

fun read_blocks :: "'h ata_hw \<Rightarrow> nat \<Rightarrow> nat \<Rightarrow> mem \<Rightarrow> 'h \<Rightarrow> bool \<times> mem \<times> 'h" where
  "read_blocks H p 0 m h = (True, m, h)"
| "read_blocks H p (Suc left) m h =
     (case wait_for_drq H h of
        (rc, h1) \<Rightarrow>
          if rc \<noteq> 0 then (False, m, h1)
          else (case read_words H p 256 m h1 of
                  (m', h2) \<Rightarrow> read_blocks H (p + SECTOR_SIZE) left m' h2))"

fun write_blocks :: "'h ata_hw \<Rightarrow> nat \<Rightarrow> nat \<Rightarrow> mem \<Rightarrow> 'h \<Rightarrow> bool \<times> 'h" where
  "write_blocks H p 0 m h = (True, h)"
| "write_blocks H p (Suc left) m h =
     (case wait_for_drq H h of
        (rc, h1) \<Rightarrow>
          if rc \<noteq> 0 then (False, h1)
          else write_blocks H (p + SECTOR_SIZE) left m (write_words H p 256 m h1))"

definition disk_read_sectors_multi_pio ::
    "'h ata_hw \<Rightarrow> u32 \<Rightarrow> nat option \<Rightarrow> u16 \<Rightarrow> mem \<Rightarrow> 'h disk_state \<Rightarrow> int \<times> mem \<times> 'h disk_state" where
  "disk_read_sectors_multi_pio H lba buffer num_sectors m d =
     (case buffer of
        None \<Rightarrow> (-1, m, d)
      | Some p \<Rightarrow>
          if num_sectors = 0 \<or> num_sectors > 256 then (-1, m, d)
          else
            (case wait_for_bsy H (select_drive H (ports d)) of
               (rc, h1) \<Rightarrow>
                 if rc \<noteq> 0 then (-2, m, d\<lparr>ports := h1\<rparr>)
                 else
                   let h2 = outb H ATA_COMMAND_REG ATA_CMD_READ_SECTORS_MULTI
                              (setup_lba H (ucast num_sectors) lba h1) in
                   (case read_blocks H p (unat num_sectors) m h2 of
                      (ok, m', h3) \<Rightarrow>
                        if \<not> ok then (-3, m', d\<lparr>ports := h3\<rparr>)
                        else (0, m', d\<lparr>ports := h3,
                                g_disk_multi_reads := g_disk_multi_reads d + 1,
                                g_disk_reads := g_disk_reads d + 1,
                                g_disk_read_sectors := g_disk_read_sectors d + ucast num_sectors\<rparr>))))"

text \<open>The one-by-one loops; \<open>i\<close> is the loop counter.\<close>

fun read_each ::
    "'h ata_hw \<Rightarrow> u32 \<Rightarrow> nat \<Rightarrow> nat \<Rightarrow> nat \<Rightarrow> mem \<Rightarrow> 'h disk_state \<Rightarrow> int \<times> mem \<times> 'h disk_state" where
  "read_each H lba p i 0 m d = (0, m, d)"
| "read_each H lba p i (Suc left) m d =
     (case disk_read_sector H (lba + of_nat i) (Some (p + i * SECTOR_SIZE)) m d of
        (result, m', d') \<Rightarrow>
          if result \<noteq> 0 then (result, m', d') else read_each H lba p (Suc i) left m' d')"

fun write_each ::
    "'h ata_hw \<Rightarrow> u32 \<Rightarrow> nat \<Rightarrow> nat \<Rightarrow> nat \<Rightarrow> mem \<Rightarrow> 'h disk_state \<Rightarrow> int \<times> 'h disk_state" where
  "write_each H lba p i 0 m d = (0, d)"
| "write_each H lba p i (Suc left) m d =
     (case disk_write_sector H (lba + of_nat i) (Some (p + i * SECTOR_SIZE)) m d of
        (result, d') \<Rightarrow>
          if result \<noteq> 0 then (result, d') else write_each H lba p (Suc i) left m d')"

definition disk_read_sectors ::
    "'h ata_hw \<Rightarrow> u32 \<Rightarrow> nat option \<Rightarrow> u16 \<Rightarrow> mem \<Rightarrow> 'h disk_state \<Rightarrow> int \<times> mem \<times> 'h disk_state" where
  "disk_read_sectors H lba buffer num_sectors m d =
     (case buffer of
        None \<Rightarrow> (-1, m, d)
      | Some p \<Rightarrow>
          if num_sectors = 0 then (-1, m, d)
          else
            (case (if num_sectors > 1 \<and> num_sectors \<le> 256
                   then disk_read_sectors_multi_pio H lba (Some p) num_sectors m d
                   else (-1, m, d)) of
               (result, m1, d1) \<Rightarrow>
                 if num_sectors > 1 \<and> num_sectors \<le> 256 \<and> result = 0 then (0, m1, d1)
                 else read_each H lba p 0 (unat num_sectors) m1 d1))"

definition disk_write_sectors_multi_pio ::
    "'h ata_hw \<Rightarrow> u32 \<Rightarrow> nat option \<Rightarrow> u16 \<Rightarrow> mem \<Rightarrow> 'h disk_state \<Rightarrow> int \<times> 'h disk_state" where
  "disk_write_sectors_multi_pio H lba buffer num_sectors m d =
     (case buffer of
        None \<Rightarrow> (-1, d)
      | Some p \<Rightarrow>
          if num_sectors = 0 \<or> num_sectors > 256 then (-1, d)
          else
            (case wait_for_bsy H (select_drive H (ports d)) of
               (rc, h1) \<Rightarrow>
                 if rc \<noteq> 0 then (-2, d\<lparr>ports := h1\<rparr>)
                 else
                   let h2 = outb H ATA_COMMAND_REG ATA_CMD_WRITE_SECTORS_MULTI
                              (setup_lba H (ucast num_sectors) lba h1) in
                   (case write_blocks H p (unat num_sectors) m h2 of
                      (ok, h3) \<Rightarrow>
                        if \<not> ok then (-3, d\<lparr>ports := h3\<rparr>)
                        else
                          (case wait_for_bsy H h3 of
                             (rc2, h4) \<Rightarrow>
                               if rc2 \<noteq> 0 then (-4, d\<lparr>ports := h4\<rparr>)
                               else
                                 (case inb H ATA_STATUS_REG h4 of
                                    (status, h5) \<Rightarrow>
                                      if status AND ATA_STATUS_ERR \<noteq> 0 then (-5, d\<lparr>ports := h5\<rparr>)
                                      else (0, d\<lparr>ports := h5,
                                              g_disk_multi_writes := g_disk_multi_writes d + 1,
                                              g_disk_writes := g_disk_writes d + 1,
                                              g_disk_write_sectors :=
                                                g_disk_write_sectors d + ucast num_sectors\<rparr>))))))"

definition disk_write_sectors ::
    "'h ata_hw \<Rightarrow> u32 \<Rightarrow> nat option \<Rightarrow> u16 \<Rightarrow> mem \<Rightarrow> 'h disk_state \<Rightarrow> int \<times> 'h disk_state" where
  "disk_write_sectors H lba buffer num_sectors m d =
     (case buffer of
        None \<Rightarrow> (-1, d)
      | Some p \<Rightarrow>
          if num_sectors = 0 then (-1, d)
          else
            (case (if num_sectors > 1 \<and> num_sectors \<le> 256
                   then disk_write_sectors_multi_pio H lba (Some p) num_sectors m d
                   else (-1, d)) of
               (result, d1) \<Rightarrow>
                 if num_sectors > 1 \<and> num_sectors \<le> 256 \<and> result = 0 then (0, d1)
                 else write_each H lba p 0 (unat num_sectors) m d1))"

section \<open>Self-test and statistics\<close>

fun has_data :: "mem \<Rightarrow> nat \<Rightarrow> nat \<Rightarrow> bool" where
  "has_data m i 0 = False"
| "has_data m i (Suc left) = (if m i \<noteq> 0 then True else has_data m (Suc i) left)"

definition disk_self_test :: "'h ata_hw \<Rightarrow> 'h disk_state \<Rightarrow> int \<times> 'h disk_state" where
  "disk_self_test H d =
     (case disk_read_sector H 0 (Some 0) (\<lambda>_. 0) d of
        (result, m, d1) \<Rightarrow>
          if result \<noteq> 0 then (result, d1)
          else if m 510 = 0x55 \<and> m 511 = 0xAA then (0, d1)
          else if has_data m 0 SECTOR_SIZE then (0, d1)
          else (-1, d1))"

record disk_stats =
  read_ops :: u32
  write_ops :: u32
  read_multi_ops :: u32
  write_multi_ops :: u32
  read_sectors_count :: u32
  write_sectors_count :: u32

definition disk_get_stats :: "'h disk_state \<Rightarrow> disk_stats" where
  "disk_get_stats d =
     \<lparr>read_ops = g_disk_reads d, write_ops = g_disk_writes d,
      read_multi_ops = g_disk_multi_reads d, write_multi_ops = g_disk_multi_writes d,
      read_sectors_count = g_disk_read_sectors d, write_sectors_count = g_disk_write_sectors d\<rparr>"

definition disk_reset_stats :: "'h disk_state \<Rightarrow> 'h disk_state" where
  "disk_reset_stats d =
     d\<lparr>g_disk_reads := 0, g_disk_writes := 0, g_disk_multi_reads := 0, g_disk_multi_writes := 0,
       g_disk_read_sectors := 0, g_disk_write_sectors := 0\<rparr>"

section \<open>The driver as the file system's disk\<close>

definition ata_disk :: "'h ata_hw \<Rightarrow> 'h disk_state disk_ops" where
  "ata_disk H =
     \<lparr>op_read_sector = disk_read_sector H, op_write_sector = disk_write_sector H,
      op_read_sectors = disk_read_sectors H, op_write_sectors = disk_write_sectors H\<rparr>"

end
