(* ===== verification/Ata_Device.thy ===== *)
theory Ata_Device
  imports Ata_Driver
begin

text \<open>
  The drive behind the ports. \<open>ata_device\<close> states the PIO protocol the driver relies on
  as laws about an abstract view of the hardware: a phase, the task file, the stored
  sectors, and \<open>av_lag\<close>, the number of status polls for which BSY still reads as set.
  Commands may leave any lag below the driver's limit. READ MULTIPLE and WRITE MULTIPLE
  may be aborted, which a drive does while no multiple mode is set.

  Under these laws the driver is a \<open>sector_store\<close> below the drive's capacity, whatever
  the lags, and whether or not the multi-sector commands work.
\<close>

section \<open>The view of a drive\<close>

datatype ata_phase =
    Ready
  | Aborted
  | Data_in "u16 list"              \<comment> \<open>the words still to be read\<close>
  | Data_out nat nat "u16 list"     \<comment> \<open>next sector, sectors left, words of this sector\<close>

record ata_view =
  av_phase :: ata_phase
  av_lag :: nat
  av_count :: u8
  av_lba0 :: u8
  av_lba1 :: u8
  av_lba2 :: u8
  av_drive :: u8
  av_media :: "nat \<Rightarrow> byte list"

fun bytes_to_words :: "byte list \<Rightarrow> u16 list" where
  "bytes_to_words (a # b # bs) = le16 a b # bytes_to_words bs"
| "bytes_to_words _ = []"

fun words_to_bytes :: "u16 list \<Rightarrow> byte list" where
  "words_to_bytes [] = []"
| "words_to_bytes (w # ws) = bytes16 w @ words_to_bytes ws"

definition command_lba :: "ata_view \<Rightarrow> nat" where
  "command_lba v = unat (av_lba0 v) + 2 ^ 8 * unat (av_lba1 v) + 2 ^ 16 * unat (av_lba2 v)
     + 2 ^ 24 * unat (av_drive v AND 0x0F)"

definition command_count :: "ata_view \<Rightarrow> nat" where
  "command_count v = (if av_count v = 0 then 256 else unat (av_count v))"

text \<open>The phase a transfer command starts, for addresses the drive has.\<close>

definition start_read :: "ata_view \<Rightarrow> ata_phase" where
  "start_read v = Data_in (concat (map (bytes_to_words \<circ> av_media v)
                             [command_lba v ..< command_lba v + command_count v]))"

definition start_write :: "ata_view \<Rightarrow> ata_phase" where
  "start_write v = Data_out (command_lba v) (command_count v) []"

definition take_word :: "u16 \<Rightarrow> nat \<Rightarrow> nat \<Rightarrow> u16 list \<Rightarrow> ata_view \<Rightarrow> ata_view" where
  "take_word w lba left ws v =
     (if length ws + 1 < 256 then v\<lparr>av_phase := Data_out lba left (ws @ [w])\<rparr>
      else v\<lparr>av_media := (av_media v)(lba := words_to_bytes (ws @ [w])),
             av_phase := (if left \<le> 1 then Ready else Data_out (lba + 1) (left - 1) [])\<rparr>)"

definition accepts_commands :: "ata_view \<Rightarrow> bool" where
  "accepts_commands v \<longleftrightarrow> av_lag v = 0 \<and> (av_phase v = Ready \<or> av_phase v = Aborted)"

lemma accepts_task_file [simp]:
  "accepts_commands (v\<lparr>av_count := x\<rparr>) = accepts_commands v"
  "accepts_commands (v\<lparr>av_lba0 := x\<rparr>) = accepts_commands v"
  "accepts_commands (v\<lparr>av_lba1 := x\<rparr>) = accepts_commands v"
  "accepts_commands (v\<lparr>av_lba2 := x\<rparr>) = accepts_commands v"
  "accepts_commands (v\<lparr>av_drive := x\<rparr>) = accepts_commands v"
  by (simp_all add: accepts_commands_def)

definition has_drq :: "ata_view \<Rightarrow> bool" where
  "has_drq v \<longleftrightarrow> (case av_phase v of Data_in _ \<Rightarrow> True | Data_out _ _ _ \<Rightarrow> True | _ \<Rightarrow> False)"

text \<open>The drive behind the driver is idle and sound; its sectors are the store.\<close>

definition drive_ok :: "('h \<Rightarrow> ata_view) \<Rightarrow> nat \<Rightarrow> 'h disk_state \<Rightarrow> bool" where
  "drive_ok view cap d \<longleftrightarrow> accepts_commands (view (ports d))
     \<and> (\<forall>n < cap. length (av_media (view (ports d)) n) = 512)"

definition stored :: "('h \<Rightarrow> ata_view) \<Rightarrow> 'h disk_state \<Rightarrow> nat \<Rightarrow> byte list" where
  "stored view d = av_media (view (ports d))"

locale ata_device =
  fixes H :: "'h ata_hw"
    and view :: "'h \<Rightarrow> ata_view"
    and cap :: nat
  assumes cap_lba28: "cap \<le> 2 ^ 28"
    and status_busy: "av_lag (view h) = Suc n \<Longrightarrow>
      \<exists>st h'. inb H ATA_STATUS_REG h = (st, h') \<and> st AND ATA_STATUS_BSY \<noteq> 0
        \<and> st AND ATA_STATUS_ERR = 0 \<and> st AND ATA_STATUS_DRQ = 0
        \<and> view h' = (view h)\<lparr>av_lag := n\<rparr>"
    and status_ready: "av_lag (view h) = 0 \<Longrightarrow>
      \<exists>st h'. inb H ATA_STATUS_REG h = (st, h') \<and> st AND ATA_STATUS_BSY = 0
        \<and> (st AND ATA_STATUS_ERR \<noteq> 0 \<longleftrightarrow> av_phase (view h) = Aborted)
        \<and> (st AND ATA_STATUS_DRQ \<noteq> 0 \<longleftrightarrow> has_drq (view h)) \<and> view h' = view h"
    and write_count: "accepts_commands (view h) \<Longrightarrow>
      view (outb H ATA_SECCOUNT0_REG b h) = (view h)\<lparr>av_count := b\<rparr>"
    and write_lba0: "accepts_commands (view h) \<Longrightarrow>
      view (outb H ATA_LBA0_REG b h) = (view h)\<lparr>av_lba0 := b\<rparr>"
    and write_lba1: "accepts_commands (view h) \<Longrightarrow>
      view (outb H ATA_LBA1_REG b h) = (view h)\<lparr>av_lba1 := b\<rparr>"
    and write_lba2: "accepts_commands (view h) \<Longrightarrow>
      view (outb H ATA_LBA2_REG b h) = (view h)\<lparr>av_lba2 := b\<rparr>"
    and write_drive: "accepts_commands (view h) \<Longrightarrow>
      view (outb H ATA_DRIVE_REG b h) = (view h)\<lparr>av_drive := b\<rparr>"
    and command_read: "accepts_commands (view h) \<Longrightarrow>
      command_lba (view h) + command_count (view h) \<le> cap \<Longrightarrow>
      \<exists>n < 10000. view (outb H ATA_COMMAND_REG ATA_CMD_READ_SECTORS h) =
        (view h)\<lparr>av_phase := start_read (view h), av_lag := n\<rparr>"
    and command_write: "accepts_commands (view h) \<Longrightarrow>
      command_lba (view h) + command_count (view h) \<le> cap \<Longrightarrow>
      \<exists>n < 10000. view (outb H ATA_COMMAND_REG ATA_CMD_WRITE_SECTORS h) =
        (view h)\<lparr>av_phase := start_write (view h), av_lag := n\<rparr>"
    and command_read_multi: "accepts_commands (view h) \<Longrightarrow>
      command_lba (view h) + command_count (view h) \<le> cap \<Longrightarrow>
      \<exists>n < 10000. \<exists>ph \<in> {start_read (view h), Aborted}.
        view (outb H ATA_COMMAND_REG ATA_CMD_READ_SECTORS_MULTI h) =
          (view h)\<lparr>av_phase := ph, av_lag := n\<rparr>"
    and command_write_multi: "accepts_commands (view h) \<Longrightarrow>
      command_lba (view h) + command_count (view h) \<le> cap \<Longrightarrow>
      \<exists>n < 10000. \<exists>ph \<in> {start_write (view h), Aborted}.
        view (outb H ATA_COMMAND_REG ATA_CMD_WRITE_SECTORS_MULTI h) =
          (view h)\<lparr>av_phase := ph, av_lag := n\<rparr>"
    and data_in: "av_lag (view h) = 0 \<Longrightarrow> av_phase (view h) = Data_in (w # ws) \<Longrightarrow>
      \<exists>h' n. inw H ATA_DATA_REG h = (w, h') \<and> n < 10000
        \<and> (ws = [] \<or> length ws mod 256 \<noteq> 0 \<longrightarrow> n = 0)
        \<and> view h' = (view h)\<lparr>av_phase := (if ws = [] then Ready else Data_in ws), av_lag := n\<rparr>"
    and data_out: "av_lag (view h) = 0 \<Longrightarrow> av_phase (view h) = Data_out lba left ws \<Longrightarrow>
      \<exists>n < 10000. (length ws + 1 < 256 \<longrightarrow> n = 0)
        \<and> view (outw H ATA_DATA_REG w h) = (take_word w lba left ws (view h))\<lparr>av_lag := n\<rparr>"

section \<open>Words and bytes\<close>

lemma bytes_to_words_to_bytes: "even (length bs) \<Longrightarrow> words_to_bytes (bytes_to_words bs) = bs"
  by (induction bs rule: bytes_to_words.induct) auto

lemma length_bytes_to_words: "length (bytes_to_words bs) = length bs div 2"
  by (induction bs rule: bytes_to_words.induct) auto

lemma length_words_to_bytes [simp]: "length (words_to_bytes ws) = 2 * length ws"
  by (induction ws) auto

lemma words_to_bytes_append: "words_to_bytes (xs @ ys) = words_to_bytes xs @ words_to_bytes ys"
  by (induction xs) auto

lemma word_low_high:
  "(ucast (w AND 0xFF) :: byte) = ucast w" "(ucast (drop_bit 8 w AND 0xFF) :: byte) = ucast (drop_bit 8 w)"
  for w :: u16
proof -
  have m: "(0xFF :: u16) = mask 8" by (simp add: mask_eq_exp_minus_1)
  show "(ucast (w AND 0xFF) :: byte) = ucast w"
    unfolding m by (rule bit_word_eqI) (auto simp: bit_simps)
  show "(ucast (drop_bit 8 w AND 0xFF) :: byte) = ucast (drop_bit 8 w)"
    unfolding m by (rule bit_word_eqI) (auto simp: bit_simps)
qed

lemma unat_drop_bit_u32: "unat (drop_bit k (w :: u32)) = unat w div 2 ^ k"
proof -
  have "take_bit LENGTH(32) (unat w) = unat w"
    using unsigned_less [of w] by (intro take_bit_nat_eq_self) simp
  then have "unat (drop_bit k w) = drop_bit k (unat w)" by (simp only: unsigned_drop_bit_eq)
  then show ?thesis by (simp only: drop_bit_eq_div [where 'a = nat])
qed

text \<open>The bytes of the task file denote the 28-bit address.\<close>

lemma lba_bytes:
  "unat (ucast (lba AND 0xFF) :: u8) = unat lba mod 2 ^ 8"
  "unat (ucast (drop_bit 8 lba AND 0xFF) :: u8) = unat lba div 2 ^ 8 mod 2 ^ 8"
  "unat (ucast (drop_bit 16 lba AND 0xFF) :: u8) = unat lba div 2 ^ 16 mod 2 ^ 8"
  for lba :: u32
proof -
  have *: "unat (ucast (drop_bit k lba AND 0xFF) :: u8) = unat lba div 2 ^ k mod 2 ^ 8" for k
  proof -
    have m: "(0xFF :: u32) = mask 8" by (simp add: mask_eq_exp_minus_1)
    have "(ucast (drop_bit k lba AND 0xFF) :: u8) = ucast (drop_bit k lba)"
      unfolding m by (rule bit_word_eqI) (auto simp: bit_simps)
    then show ?thesis
      by (simp only: unsigned_ucast_eq unat_drop_bit_u32) (simp add: take_bit_eq_mod)
  qed
  from * [of 0] show "unat (ucast (lba AND 0xFF) :: u8) = unat lba mod 2 ^ 8" by simp
  from * show "unat (ucast (drop_bit 8 lba AND 0xFF) :: u8) = unat lba div 2 ^ 8 mod 2 ^ 8"
    "unat (ucast (drop_bit 16 lba AND 0xFF) :: u8) = unat lba div 2 ^ 16 mod 2 ^ 8" by blast+
qed

lemma lba_drive:
  "unat ((0xA0 OR 0x40 OR ucast (drop_bit 24 lba AND 0x0F)) AND 0x0F :: u8) = unat lba div 2 ^ 24 mod 2 ^ 4"
  for lba :: u32
proof -
  have top: "(0xA0 OR 0x40 OR x) AND 0x0F = x AND 0x0F" for x :: u8
  proof (rule bit_word_eqI)
    fix n assume "n < LENGTH(8)"
    then have "n \<in> {0,1,2,3,4,5,6,7}" by auto
    then show "bit ((0xA0 OR 0x40 OR x) AND 0x0F) n = bit (x AND 0x0F) n"
      by (auto simp: bit_simps)
  qed
  have low: "(ucast (drop_bit 24 lba AND 0x0F) :: u8) AND 0x0F = ucast (take_bit 4 (drop_bit 24 lba))"
  proof -
    have m: "(0x0F :: u8) = mask 4" "(0x0F :: u32) = mask 4" by (simp_all add: mask_eq_exp_minus_1)
    show ?thesis unfolding m by (rule bit_word_eqI) (auto simp: bit_simps)
  qed
  have val: "unat (ucast (take_bit 4 (drop_bit 24 lba)) :: u8) = unat lba div 2 ^ 24 mod 2 ^ 4"
  proof -
    have v: "unat (take_bit 4 (drop_bit 24 lba)) = unat lba div 2 ^ 24 mod 2 ^ 4"
      by (simp only: unsigned_take_bit_eq unat_drop_bit_u32) (simp add: take_bit_eq_mod)
    have "unat lba div 2 ^ 24 mod 2 ^ 4 < 2 ^ 4" by (rule mod_less_divisor) simp
    then show ?thesis by (simp only: unsigned_ucast_eq v) (simp add: take_bit_nat_eq_self)
  qed
  show ?thesis by (simp only: top low val)
qed

lemma lba_recombine:
  fixes n :: nat
  assumes "n < 2 ^ 28"
  shows "n mod 2 ^ 8 + 2 ^ 8 * (n div 2 ^ 8 mod 2 ^ 8) + 2 ^ 16 * (n div 2 ^ 16 mod 2 ^ 8)
    + 2 ^ 24 * (n div 2 ^ 24 mod 2 ^ 4) = n"
proof -
  have e1: "n = n mod 2 ^ 8 + 2 ^ 8 * (n div 2 ^ 8)" by simp
  have e2: "n div 2 ^ 8 = n div 2 ^ 8 mod 2 ^ 8 + 2 ^ 8 * (n div 2 ^ 8 div 2 ^ 8)" by simp
  have e3: "n div 2 ^ 8 div 2 ^ 8 = n div 2 ^ 16" by (simp add: div_mult2_eq [symmetric])
  have e4: "n div 2 ^ 16 = n div 2 ^ 16 mod 2 ^ 8 + 2 ^ 8 * (n div 2 ^ 16 div 2 ^ 8)" by simp
  have e5: "n div 2 ^ 16 div 2 ^ 8 = n div 2 ^ 24" by (simp add: div_mult2_eq [symmetric])
  have "n div 2 ^ 24 < 2 ^ 4" using assms by (simp add: less_mult_imp_div_less)
  then have e6: "n div 2 ^ 24 mod 2 ^ 4 = n div 2 ^ 24" by simp
  have "n mod 2 ^ 8 + 2 ^ 8 * (n div 2 ^ 8 mod 2 ^ 8) + 2 ^ 16 * (n div 2 ^ 16 mod 2 ^ 8) + 2 ^ 24 * (n div 2 ^ 24)
      = n mod 2 ^ 8 + 2 ^ 8 * (n div 2 ^ 8 mod 2 ^ 8 + 2 ^ 8 * (n div 2 ^ 16 mod 2 ^ 8 + 2 ^ 8 * (n div 2 ^ 24)))"
    by simp
  also have "\<dots> = n mod 2 ^ 8 + 2 ^ 8 * (n div 2 ^ 8 mod 2 ^ 8 + 2 ^ 8 * (n div 2 ^ 16))"
    using e4 by (simp only: e5)
  also have "\<dots> = n mod 2 ^ 8 + 2 ^ 8 * (n div 2 ^ 8)" using e2 by (simp only: e3)
  also have "\<dots> = n" using e1 by (rule sym)
  finally show ?thesis by (simp only: e6)
qed

section \<open>Polling\<close>

context ata_device
begin

lemma wait_for_bsy_loop_spec:
  "av_lag (view h) < timeout \<Longrightarrow>
   \<exists>h'. wait_for_bsy_loop H timeout h = (0, h') \<and> view h' = (view h)\<lparr>av_lag := 0\<rparr>"
proof (induction timeout arbitrary: h)
  case 0
  then show ?case by simp
next
  case (Suc timeout)
  show ?case
  proof (cases "av_lag (view h)")
    case 0
    from status_ready [OF 0] show ?thesis using 0 by auto
  next
    case (Suc n)
    from status_busy [OF Suc] obtain st h1 where h1: "inb H ATA_STATUS_REG h = (st, h1)"
      "st AND ATA_STATUS_BSY \<noteq> 0" "view h1 = (view h)\<lparr>av_lag := n\<rparr>" by blast
    have "av_lag (view h1) < timeout" using h1(3) Suc Suc.prems by simp
    from Suc.IH [OF this] h1 show ?thesis by auto
  qed
qed

lemma wait_for_bsy_ready:
  assumes "av_lag (view h) < 10000"
  obtains h' where "wait_for_bsy H h = (0, h')" "view h' = (view h)\<lparr>av_lag := 0\<rparr>"
  using wait_for_bsy_loop_spec [OF assms] by (auto simp: wait_for_bsy_def)

lemma wait_for_drq_loop_spec:
  assumes "av_lag (view h) < timeout" and "has_drq (view h) \<or> av_phase (view h) = Aborted"
  shows "\<exists>h'. wait_for_drq_loop H timeout h = (if has_drq (view h) then 0 else -1, h')
    \<and> view h' = (view h)\<lparr>av_lag := 0\<rparr>"
  using assms
proof (induction timeout arbitrary: h)
  case 0
  then show ?case by simp
next
  case (Suc timeout)
  show ?case
  proof (cases "av_lag (view h)")
    case 0
    from status_ready [OF 0] obtain st h1 where h1: "inb H ATA_STATUS_REG h = (st, h1)"
      "st AND ATA_STATUS_ERR \<noteq> 0 \<longleftrightarrow> av_phase (view h) = Aborted"
      "st AND ATA_STATUS_DRQ \<noteq> 0 \<longleftrightarrow> has_drq (view h)" "view h1 = view h" by blast
    then show ?thesis using Suc.prems(2) 0 by (auto simp: has_drq_def)
  next
    case (Suc n)
    from status_busy [OF Suc] obtain st h1 where h1: "inb H ATA_STATUS_REG h = (st, h1)"
      "st AND ATA_STATUS_ERR = 0" "st AND ATA_STATUS_DRQ = 0" "view h1 = (view h)\<lparr>av_lag := n\<rparr>" by blast
    have "av_lag (view h1) < timeout" using h1(4) Suc Suc.prems by simp
    moreover have "has_drq (view h1) = has_drq (view h)" "av_phase (view h1) = av_phase (view h)"
      using h1(4) by (simp_all add: has_drq_def)
    ultimately show ?thesis using Suc.IH [of h1] Suc.prems(2) h1 by auto
  qed
qed

lemma wait_for_drq_data:
  assumes "av_lag (view h) < 10000" and "has_drq (view h)"
  obtains h' where "wait_for_drq H h = (0, h')" "view h' = (view h)\<lparr>av_lag := 0\<rparr>"
  using wait_for_drq_loop_spec [OF assms(1)] assms(2) by (auto simp: wait_for_drq_def)

lemma wait_for_drq_aborted:
  assumes "av_lag (view h) < 10000" and "av_phase (view h) = Aborted"
  obtains h' where "wait_for_drq H h = (-1, h')" "view h' = (view h)\<lparr>av_lag := 0\<rparr>"
  using wait_for_drq_loop_spec [OF assms(1)] assms(2) by (auto simp: wait_for_drq_def has_drq_def)

section \<open>Issuing a command\<close>

lemma setup_spec:
  assumes acc: "accepts_commands (view h)" and lba: "unat lba < 2 ^ 28"
  shows "accepts_commands (view (setup_lba H c lba h))"
    "av_media (view (setup_lba H c lba h)) = av_media (view h)"
    "command_lba (view (setup_lba H c lba h)) = unat lba"
    "command_count (view (setup_lba H c lba h)) = (if c = 0 then 256 else unat c)"
proof -
  let ?a = "ucast (lba AND 0xFF) :: u8" and ?b = "ucast (drop_bit 8 lba AND 0xFF) :: u8"
  let ?c = "ucast (drop_bit 16 lba AND 0xFF) :: u8"
  let ?d = "0xA0 OR 0x40 OR ucast (drop_bit 24 lba AND 0x0F) :: u8"
  define h1 where "h1 = outb H ATA_SECCOUNT0_REG c h"
  define h2 where "h2 = outb H ATA_LBA0_REG ?a h1"
  define h3 where "h3 = outb H ATA_LBA1_REG ?b h2"
  define h4 where "h4 = outb H ATA_LBA2_REG ?c h3"
  have v1: "view h1 = (view h)\<lparr>av_count := c\<rparr>" unfolding h1_def by (rule write_count [OF acc])
  then have a1: "accepts_commands (view h1)" using acc by simp
  have v2: "view h2 = (view h1)\<lparr>av_lba0 := ?a\<rparr>" unfolding h2_def by (rule write_lba0 [OF a1])
  then have a2: "accepts_commands (view h2)" using a1 by simp
  have v3: "view h3 = (view h2)\<lparr>av_lba1 := ?b\<rparr>" unfolding h3_def by (rule write_lba1 [OF a2])
  then have a3: "accepts_commands (view h3)" using a2 by simp
  have v4: "view h4 = (view h3)\<lparr>av_lba2 := ?c\<rparr>" unfolding h4_def by (rule write_lba2 [OF a3])
  then have a4: "accepts_commands (view h4)" using a3 by simp
  have stp: "setup_lba H c lba h = outb H ATA_DRIVE_REG ?d h4"
    by (simp only: setup_lba_def Let_def h1_def h2_def h3_def h4_def)
  have v5: "view (setup_lba H c lba h) = (view h4)\<lparr>av_drive := ?d\<rparr>"
    unfolding stp by (rule write_drive [OF a4])
  show "accepts_commands (view (setup_lba H c lba h))" using a4 v5 by simp
  show "av_media (view (setup_lba H c lba h)) = av_media (view h)" by (simp add: v5 v4 v3 v2 v1)
  show "command_count (view (setup_lba H c lba h)) = (if c = 0 then 256 else unat c)"
    by (simp add: command_count_def v5 v4 v3 v2 v1)
  have regs: "av_lba0 (view (setup_lba H c lba h)) = ?a" "av_lba1 (view (setup_lba H c lba h)) = ?b"
    "av_lba2 (view (setup_lba H c lba h)) = ?c" "av_drive (view (setup_lba H c lba h)) = ?d"
    by (simp_all add: v5 v4 v3 v2 v1)
  show "command_lba (view (setup_lba H c lba h)) = unat lba"
    unfolding command_lba_def regs lba_bytes(1) unat_drop_bit_u32 lba_drive
    by (rule lba_recombine [OF lba])
qed

lemma select_ready:
  assumes "accepts_commands (view h)"
  obtains h1 where "wait_for_bsy H (select_drive H h) = (0, h1)" "accepts_commands (view h1)"
    "av_media (view h1) = av_media (view h)"
proof -
  have v: "view (select_drive H h) = (view h)\<lparr>av_drive := 0xA0 OR 0x40\<rparr>"
    unfolding select_drive_def by (rule write_drive [OF assms])
  then have "av_lag (view (select_drive H h)) < 10000" using assms by (simp add: accepts_commands_def)
  then obtain h1 where "wait_for_bsy H (select_drive H h) = (0, h1)"
    "view h1 = (view (select_drive H h))\<lparr>av_lag := 0\<rparr>" by (rule wait_for_bsy_ready)
  with v assms that show thesis by (auto simp: accepts_commands_def)
qed

section \<open>Transferring sectors\<close>

lemma read_words_spec:
  assumes "av_lag (view h) = 0" and "av_phase (view h) = Data_in (ws @ rest)"
    and "0 < length ws" "length ws \<le> 256" "length rest mod 256 = 0"
  shows "\<exists>h' n. read_words H p (length ws) m h = (mem_put m p (words_to_bytes ws), h')
    \<and> n < 10000 \<and> (rest = [] \<longrightarrow> n = 0)
    \<and> view h' = (view h)\<lparr>av_phase := (if rest = [] then Ready else Data_in rest), av_lag := n\<rparr>"
  using assms
proof (induction ws arbitrary: h p m)
  case Nil
  then show ?case by simp
next
  case (Cons w ws)
  have ph: "av_phase (view h) = Data_in (w # (ws @ rest))" using Cons.prems(2) by simp
  from data_in [OF Cons.prems(1) ph] obtain h1 n where h1: "inw H ATA_DATA_REG h = (w, h1)" "n < 10000"
    "ws @ rest = [] \<or> length (ws @ rest) mod 256 \<noteq> 0 \<longrightarrow> n = 0"
    "view h1 = (view h)\<lparr>av_phase := (if ws @ rest = [] then Ready else Data_in (ws @ rest)), av_lag := n\<rparr>"
    by blast
  define m1 where "m1 = m(p := ucast (w AND 0xFF), p + 1 := ucast (drop_bit 8 w AND 0xFF))"
  have put: "mem_put m1 (p + 2) bs = mem_put m p (bytes16 w @ bs)" for bs
    unfolding m1_def by (simp only: word_low_high) (simp add: bytes16_def mem_put_Cons)
  have run: "read_words H p (length (w # ws)) m h = read_words H (p + 2) (length ws) m1 h1"
    using h1(1) by (simp add: m1_def fun_upd_def)
  show ?case
  proof (cases "ws = []")
    case True
    have "mem_put m p (words_to_bytes [w]) = m1" using put [of "[]"] by simp
    with True h1 run show ?thesis by (intro exI [of _ h1] exI [of _ n]) simp
  next
    case False
    have "length (ws @ rest) mod 256 = length ws mod 256"
      using Cons.prems(5) by (simp add: mod_add_eq [symmetric] del: mod_add_right_eq mod_add_left_eq)
    also have "\<dots> \<noteq> 0" using False Cons.prems(4) by simp
    finally have n0: "n = 0" using h1(3) by blast
    have "av_lag (view h1) = 0" "av_phase (view h1) = Data_in (ws @ rest)"
      using h1(4) n0 False by simp_all
    from Cons.IH [OF this, of "p + 2" m1] False Cons.prems(4,5) obtain h2 k where h2:
      "read_words H (p + 2) (length ws) m1 h1 = (mem_put m1 (p + 2) (words_to_bytes ws), h2)" "k < 10000"
      "rest = [] \<longrightarrow> k = 0"
      "view h2 = (view h1)\<lparr>av_phase := (if rest = [] then Ready else Data_in rest), av_lag := k\<rparr>"
      by auto
    then show ?thesis using run put h1(4) by (intro exI [of _ h2] exI [of _ k]) simp
  qed
qed

lemma le16_bytes_word: "bytes16 (ucast a OR push_bit 8 (ucast b)) = [a, b]"
  using bytes16_le16 [of a b] by (simp add: le16_def)

lemma write_words_spec:
  assumes "av_lag (view h) = 0" and "av_phase (view h) = Data_out lba k ws"
    and "length ws + left = 256" and "0 < left"
  shows "\<exists>h' n. write_words H p left m h = h' \<and> n < 10000
    \<and> view h' = (view h)\<lparr>av_media := (av_media (view h))(lba := words_to_bytes ws @ mem_get m p (2 * left)),
          av_phase := (if k \<le> 1 then Ready else Data_out (lba + 1) (k - 1) []), av_lag := n\<rparr>"
  using assms
proof (induction left arbitrary: h p ws)
  case 0
  then show ?case by simp
next
  case (Suc left)
  let ?w = "ucast (m p) OR push_bit 8 (ucast (m (p + 1))) :: u16"
  from data_out [OF Suc.prems(1,2), of ?w] obtain n where n: "n < 10000"
    "length ws + 1 < 256 \<longrightarrow> n = 0"
    "view (outw H ATA_DATA_REG ?w h) = (take_word ?w lba k ws (view h))\<lparr>av_lag := n\<rparr>" by blast
  have bytes: "words_to_bytes (ws @ [?w]) = words_to_bytes ws @ [m p, m (p + 1)]"
    by (simp add: words_to_bytes_append le16_bytes_word)
  have two: "mem_get m p (2 * Suc left) = [m p, m (p + 1)] @ mem_get m (p + 2) (2 * left)"
    by (simp add: mem_get_Suc)
  show ?case
  proof (cases "left = 0")
    case True
    then have "length ws = 255" using Suc.prems(3) by simp
    with True n(1) n(3) [unfolded take_word_def bytes] two show ?thesis
      by (intro exI [of _ "outw H ATA_DATA_REG ?w h"] exI [of _ n]) (simp add: fun_upd_def)
  next
    case False
    then have l: "length ws + 1 < 256" using Suc.prems(3) by simp
    define h1 where "h1 = outw H ATA_DATA_REG ?w h"
    have v1: "view h1 = (view h)\<lparr>av_phase := Data_out lba k (ws @ [?w]), av_lag := 0\<rparr>"
      using n l by (simp add: h1_def take_word_def)
    then have st: "av_lag (view h1) = 0" "av_phase (view h1) = Data_out lba k (ws @ [?w])" by simp_all
    have "length (ws @ [?w]) + left = 256" "0 < left" using False Suc.prems(3) by simp_all
    from Suc.IH [OF st this, of "p + 2"] obtain h2 n2 where h2:
      "write_words H (p + 2) left m h1 = h2" "n2 < 10000"
      "view h2 = (view h1)\<lparr>av_media := (av_media (view h1))
            (lba := words_to_bytes (ws @ [?w]) @ mem_get m (p + 2) (2 * left)),
          av_phase := (if k \<le> 1 then Ready else Data_out (lba + 1) (k - 1) []), av_lag := n2\<rparr>"
      by blast
    have "words_to_bytes (ws @ [?w]) @ mem_get m (p + 2) (2 * left) =
        words_to_bytes ws @ mem_get m p (2 * Suc left)"
      by (simp only: bytes two append_assoc)
    then have "view h2 = (view h)\<lparr>av_media := (av_media (view h))
            (lba := words_to_bytes ws @ mem_get m p (2 * Suc left)),
          av_phase := (if k \<le> 1 then Ready else Data_out (lba + 1) (k - 1) []), av_lag := n2\<rparr>"
      using h2(3) v1 by simp
    moreover have "write_words H p (Suc left) m h = h2" using h2(1) by (simp add: h1_def)
    ultimately show ?thesis using h2(2) by blast
  qed
qed

section \<open>The sector operations\<close>

lemma sector_words:
  assumes "drive_ok view cap d" and "n < cap"
  shows "length (bytes_to_words (stored view d n)) = 256" "words_to_bytes (bytes_to_words (stored view d n)) = stored view d n"
  using assms by (simp_all add: drive_ok_def stored_def length_bytes_to_words bytes_to_words_to_bytes)

text \<open>Up to the command: the drive is selected, ready and addressed.\<close>

lemma issue_spec:
  assumes ok: "drive_ok view cap d" and lba: "unat lba < cap"
  obtains h1 where "wait_for_bsy H (select_drive H (ports d)) = (0, h1)"
    "accepts_commands (view (setup_lba H c lba h1))"
    "av_media (view (setup_lba H c lba h1)) = stored view d"
    "command_lba (view (setup_lba H c lba h1)) = unat lba"
    "command_count (view (setup_lba H c lba h1)) = (if c = 0 then 256 else unat c)"
proof -
  have acc: "accepts_commands (view (ports d))" using ok by (simp add: drive_ok_def)
  obtain h1 where h1: "wait_for_bsy H (select_drive H (ports d)) = (0, h1)" "accepts_commands (view h1)"
    "av_media (view h1) = av_media (view (ports d))" by (rule select_ready [OF acc])
  have "unat lba < 2 ^ 28" using lba cap_lba28 by linarith
  from setup_spec [OF h1(2) this, of c] show thesis
    using that [OF h1(1)] h1(3) by (simp add: stored_def)
qed

lemma disk_read_sector_spec:
  assumes ok: "drive_ok view cap d" and lba: "unat lba < cap"
  shows "\<exists>d'. disk_read_sector H lba (Some p) m d = (0, mem_put m p (stored view d (unat lba)), d')
    \<and> drive_ok view cap d' \<and> stored view d' = stored view d"
proof -
  let ?v = "\<lambda>h. view (setup_lba H 1 lba h)"
  obtain h1 where h1: "wait_for_bsy H (select_drive H (ports d)) = (0, h1)"
    "accepts_commands (?v h1)" "av_media (?v h1) = stored view d" "command_lba (?v h1) = unat lba"
    "command_count (?v h1) = 1"
    using issue_spec [OF ok lba, of 1] by auto
  define h2 where "h2 = outb H ATA_COMMAND_REG ATA_CMD_READ_SECTORS (setup_lba H 1 lba h1)"
  have "command_lba (?v h1) + command_count (?v h1) \<le> cap" using h1(4,5) lba by simp
  from command_read [OF h1(2) this] obtain n where n: "n < 10000"
    "view h2 = (?v h1)\<lparr>av_phase := start_read (?v h1), av_lag := n\<rparr>" by (auto simp: h2_def)
  let ?ws = "bytes_to_words (stored view d (unat lba))"
  have ph: "av_phase (view h2) = Data_in ?ws" using n(2) h1(3-5) by (simp add: start_read_def)
  then have "has_drq (view h2)" "av_lag (view h2) < 10000" using n by (simp_all add: has_drq_def)
  then obtain h3 where h3: "wait_for_drq H h2 = (0, h3)" "view h3 = (view h2)\<lparr>av_lag := 0\<rparr>"
    using wait_for_drq_data by metis
  have "av_phase (view h3) = Data_in (?ws @ [])" "av_lag (view h3) = 0" using h3(2) ph by simp_all
  from read_words_spec [OF this(2,1), of p m] sector_words [OF ok lba] obtain h4 where h4:
    "read_words H p 256 m h3 = (mem_put m p (stored view d (unat lba)), h4)"
    "view h4 = (view h3)\<lparr>av_phase := Ready, av_lag := 0\<rparr>" by auto
  let ?d = "d\<lparr>ports := h4, g_disk_reads := g_disk_reads d + 1,
              g_disk_read_sectors := g_disk_read_sectors d + 1\<rparr>"
  have "disk_read_sector H lba (Some p) m d = (0, mem_put m p (stored view d (unat lba)), ?d)"
    using h1(1) h3(1) h4(1) by (simp add: disk_read_sector_def Let_def flip: h2_def)
  moreover have st: "stored view ?d = stored view d" using h4(2) h3(2) n(2) h1(3) by (simp add: stored_def)
  moreover have "drive_ok view cap ?d"
    using h4(2) ok st by (simp add: drive_ok_def accepts_commands_def stored_def)
  ultimately show ?thesis by blast
qed

lemma disk_write_sector_spec:
  assumes ok: "drive_ok view cap d" and lba: "unat lba < cap"
  shows "\<exists>d'. disk_write_sector H lba (Some p) m d = (0, d') \<and> drive_ok view cap d'
    \<and> stored view d' = (stored view d)(unat lba := mem_get m p 512)"
proof -
  let ?v = "\<lambda>h. view (setup_lba H 1 lba h)"
  obtain h1 where h1: "wait_for_bsy H (select_drive H (ports d)) = (0, h1)"
    "accepts_commands (?v h1)" "av_media (?v h1) = stored view d" "command_lba (?v h1) = unat lba"
    "command_count (?v h1) = 1"
    using issue_spec [OF ok lba, of 1] by auto
  define h2 where "h2 = outb H ATA_COMMAND_REG ATA_CMD_WRITE_SECTORS (setup_lba H 1 lba h1)"
  have "command_lba (?v h1) + command_count (?v h1) \<le> cap" using h1(4,5) lba by simp
  from command_write [OF h1(2) this] obtain n where n: "n < 10000"
    "view h2 = (?v h1)\<lparr>av_phase := start_write (?v h1), av_lag := n\<rparr>" by (auto simp: h2_def)
  have ph: "av_phase (view h2) = Data_out (unat lba) 1 []" using n(2) h1(4,5) by (simp add: start_write_def)
  then have "has_drq (view h2)" "av_lag (view h2) < 10000" using n by (simp_all add: has_drq_def)
  then obtain h3 where h3: "wait_for_drq H h2 = (0, h3)" "view h3 = (view h2)\<lparr>av_lag := 0\<rparr>"
    using wait_for_drq_data by metis
  have "av_phase (view h3) = Data_out (unat lba) 1 []" "av_lag (view h3) = 0" using h3(2) ph by simp_all
  from write_words_spec [OF this(2,1), of 256 p m] obtain h4 k where h4: "write_words H p 256 m h3 = h4" "k < 10000"
    "view h4 = (view h3)\<lparr>av_media := (av_media (view h3))(unat lba := mem_get m p 512),
        av_phase := Ready, av_lag := k\<rparr>" by auto
  have "av_lag (view h4) < 10000" using h4(2,3) by simp
  then obtain h5 where h5: "wait_for_bsy H h4 = (0, h5)" "view h5 = (view h4)\<lparr>av_lag := 0\<rparr>"
    by (rule wait_for_bsy_ready)
  have "av_lag (view h5) = 0" "av_phase (view h5) = Ready" using h5(2) h4(3) by simp_all
  then obtain st h6 where h6: "inb H ATA_STATUS_REG h5 = (st, h6)" "st AND ATA_STATUS_ERR = 0"
    "view h6 = view h5" using status_ready [of h5] by auto
  let ?d = "d\<lparr>ports := h6, g_disk_writes := g_disk_writes d + 1,
              g_disk_write_sectors := g_disk_write_sectors d + 1\<rparr>"
  have "disk_write_sector H lba (Some p) m d = (0, ?d)"
    using h1(1) h3(1) h4(1) h5(1) h6(1,2) by (simp add: disk_write_sector_def Let_def flip: h2_def)
  moreover have st: "stored view ?d = (stored view d)(unat lba := mem_get m p 512)"
    using h6(3) h5(2) h4(3) h3(2) n(2) h1(3) by (simp add: stored_def)
  moreover have "drive_ok view cap ?d"
  proof -
    have "length (stored view ?d k) = 512" if "k < cap" for k
      unfolding st using ok that by (simp add: drive_ok_def stored_def)
    moreover have "accepts_commands (view h6)"
      using h6(3) h5(2) h4(3) by (simp add: accepts_commands_def)
    ultimately show ?thesis by (simp add: drive_ok_def stored_def)
  qed
  ultimately show ?thesis by blast
qed

section \<open>Multi-sector transfers\<close>

lemma read_blocks_spec:
  assumes "av_lag (view h) < 10000" and "0 < left"
    and "av_phase (view h) = Data_in (concat (map (bytes_to_words \<circ> S) [a..<a + left]))"
    and "\<And>k. a \<le> k \<Longrightarrow> k < a + left \<Longrightarrow> length (S k) = 512"
  shows "\<exists>h'. read_blocks H p left m h = (True, mem_put m p (sectors_data S a left), h')
    \<and> view h' = (view h)\<lparr>av_phase := Ready, av_lag := 0\<rparr>"
  using assms
proof (induction left arbitrary: h p m a)
  case 0
  then show ?case by simp
next
  case (Suc left)
  let ?ws = "bytes_to_words (S a)"
  let ?rest = "concat (map (bytes_to_words \<circ> S) [Suc a..<Suc a + left])"
  have la: "length (S a) = 512" using Suc.prems(4) by simp
  then have ws: "length ?ws = 256" "words_to_bytes ?ws = S a"
    by (simp_all add: length_bytes_to_words bytes_to_words_to_bytes)
  have ph: "av_phase (view h) = Data_in (?ws @ ?rest)"
    using Suc.prems(3) by (simp add: upt_conv_Cons comp_def del: upt_Suc)
  have "has_drq (view h)" using ph by (simp add: has_drq_def)
  then obtain h1 where h1: "wait_for_drq H h = (0, h1)" "view h1 = (view h)\<lparr>av_lag := 0\<rparr>"
    using wait_for_drq_data Suc.prems(1) by metis
  have rest: "length ?rest mod 256 = 0"
  proof -
    have "\<forall>k \<in> set [Suc a..<Suc a + left]. length (bytes_to_words (S k)) = 256"
      using Suc.prems(4) by (auto simp: length_bytes_to_words)
    then have "length (concat (map (bytes_to_words \<circ> S) ks)) = 256 * length ks"
      if "set ks \<subseteq> set [Suc a..<Suc a + left]" for ks
      using that by (induction ks) auto
    from this [of "[Suc a..<Suc a + left]"] show ?thesis by simp
  qed
  have "av_lag (view h1) = 0" "av_phase (view h1) = Data_in (?ws @ ?rest)" using h1(2) ph by simp_all
  from read_words_spec [OF this, of p m] ws rest obtain h2 n where h2:
    "read_words H p 256 m h1 = (mem_put m p (S a), h2)" "n < 10000" "?rest = [] \<longrightarrow> n = 0"
    "view h2 = (view h1)\<lparr>av_phase := (if ?rest = [] then Ready else Data_in ?rest), av_lag := n\<rparr>" by auto
  have run: "read_blocks H p (Suc left) m h = read_blocks H (p + 512) left (mem_put m p (S a)) h2"
    using h1(1) h2(1) by simp
  have sd: "sectors_data S a (Suc left) = S a @ sectors_data S (Suc a) left"
    by (simp add: sectors_data_def upt_conv_Cons del: upt_Suc)
  show ?case
  proof (cases "left = 0")
    case True
    then show ?thesis using run h2(3,4) h1(2) sd by (intro exI [of _ h2]) simp
  next
    case False
    have ne: "?rest \<noteq> []"
    proof
      assume "?rest = []"
      then have "bytes_to_words (S (Suc a)) = []" using False by (simp add: upt_conv_Cons del: upt_Suc)
      then have "length (bytes_to_words (S (Suc a))) = 0" by simp
      then show False using Suc.prems(4) [of "Suc a"] False by (simp add: length_bytes_to_words)
    qed
    have v2: "view h2 = (view h1)\<lparr>av_phase := Data_in ?rest, av_lag := n\<rparr>"
      using h2(4) unfolding if_not_P [OF ne] .
    have "av_lag (view h2) < 10000" "av_phase (view h2) = Data_in ?rest" using h2(2) by (simp_all add: v2)
    from Suc.IH [OF this(1) _ this(2), of "p + 512" "mem_put m p (S a)"] False Suc.prems(4)
    obtain h3 where h3: "read_blocks H (p + 512) left (mem_put m p (S a)) h2 =
        (True, mem_put (mem_put m p (S a)) (p + 512) (sectors_data S (Suc a) left), h3)"
      "view h3 = (view h2)\<lparr>av_phase := Ready, av_lag := 0\<rparr>" by auto
    then show ?thesis using run v2 h1(2) la
      by (intro exI [of _ h3]) (simp add: sd mem_put_append)
  qed
qed

lemma write_blocks_spec:
  assumes "av_lag (view h) < 10000" and "0 < left" and "av_phase (view h) = Data_out a left []"
  shows "\<exists>h' n. write_blocks H p left m h = (True, h') \<and> n < 10000
    \<and> view h' = (view h)\<lparr>av_media := sectors_update (av_media (view h)) a left m p,
                         av_phase := Ready, av_lag := n\<rparr>"
  using assms
proof (induction left arbitrary: h p a)
  case 0
  then show ?case by simp
next
  case (Suc left)
  have "has_drq (view h)" using Suc.prems(3) by (simp add: has_drq_def)
  then obtain h1 where h1: "wait_for_drq H h = (0, h1)" "view h1 = (view h)\<lparr>av_lag := 0\<rparr>"
    using wait_for_drq_data Suc.prems(1) by metis
  have "av_lag (view h1) = 0" "av_phase (view h1) = Data_out a (Suc left) []"
    using h1(2) Suc.prems(3) by simp_all
  from write_words_spec [OF this, of 256 p m] obtain h2 n where h2: "write_words H p 256 m h1 = h2"
    "n < 10000" "view h2 = (view h1)\<lparr>av_media := (av_media (view h1))(a := mem_get m p 512),
        av_phase := (if Suc left \<le> 1 then Ready else Data_out (a + 1) (Suc left - 1) []), av_lag := n\<rparr>"
    by auto
  have run: "write_blocks H p (Suc left) m h = write_blocks H (p + 512) left m h2"
    using h1(1) h2(1) by simp
  have one: "(av_media (view h))(a := mem_get m p 512) = sectors_update (av_media (view h)) a 1 m p"
    by (rule ext) (auto simp: sectors_update_def)
  show ?case
  proof (cases "left = 0")
    case True
    then show ?thesis using run h2(2,3) h1(2) one by (intro exI [of _ h2] exI [of _ n]) simp
  next
    case False
    have "av_lag (view h2) < 10000" "av_phase (view h2) = Data_out (Suc a) left []"
      using h2(2,3) False by simp_all
    from Suc.IH [OF this(1) _ this(2), of "p + 512"] False obtain h3 k where h3:
      "write_blocks H (p + 512) left m h2 = (True, h3)" "k < 10000"
      "view h3 = (view h2)\<lparr>av_media := sectors_update (av_media (view h2)) (Suc a) left m (p + 512),
                            av_phase := Ready, av_lag := k\<rparr>" by auto
    have "av_media (view h2) = sectors_update (av_media (view h)) a 1 m p"
      using h2(3) h1(2) one by simp
    then have "view h3 = (view h)\<lparr>av_media := sectors_update (av_media (view h)) a (Suc left) m p,
                         av_phase := Ready, av_lag := k\<rparr>"
      using h3(3) h2(3) h1(2) sectors_update_Suc [of "av_media (view h)" a m p left] by simp
    with h3(1,2) run show ?thesis by auto
  qed
qed

lemma read_each_spec:
  assumes "drive_ok view cap d" and "unat lba + i + left \<le> cap"
  shows "\<exists>d'. read_each H lba p i left m d =
      (0, mem_put m (p + i * 512) (sectors_data (stored view d) (unat lba + i) left), d')
    \<and> drive_ok view cap d' \<and> stored view d' = stored view d"
  using assms
proof (induction left arbitrary: i d m)
  case 0
  then show ?case by auto
next
  case (Suc left)
  have a: "unat (lba + of_nat i) = unat lba + i"
    using Suc.prems(2) cap_lba28 by (subst unat_word_ariths) (simp add: unat_of_nat_u32)
  then have "unat (lba + of_nat i) < cap" using Suc.prems(2) by simp
  from disk_read_sector_spec [OF Suc.prems(1) this, of "p + i * 512" m] a obtain d1 where d1:
    "disk_read_sector H (lba + of_nat i) (Some (p + i * 512)) m d =
       (0, mem_put m (p + i * 512) (stored view d (unat lba + i)), d1)" "drive_ok view cap d1" "stored view d1 = stored view d" by auto
  let ?m1 = "mem_put m (p + i * 512) (stored view d (unat lba + i))"
  from Suc.IH [OF d1(2), of "Suc i" ?m1] Suc.prems(2) obtain d2 where d2:
    "read_each H lba p (Suc i) left ?m1 d1 =
       (0, mem_put ?m1 (p + i * 512 + 512) (sectors_data (stored view d) (Suc (unat lba + i)) left), d2)"
    "drive_ok view cap d2" "stored view d2 = stored view d"
    by (auto simp: d1(3) ac_simps)
  have "sectors_data (stored view d) (unat lba + i) (Suc left) =
      stored view d (unat lba + i) @ sectors_data (stored view d) (Suc (unat lba + i)) left"
    by (simp add: sectors_data_def upt_conv_Cons del: upt_Suc)
  moreover have "length (stored view d (unat lba + i)) = 512"
    using Suc.prems by (simp add: drive_ok_def stored_def)
  ultimately show ?case using d1(1) d2 by (simp add: mem_put_append)
qed

lemma write_each_spec:
  assumes "drive_ok view cap d" and "unat lba + i + left \<le> cap"
  shows "\<exists>d'. write_each H lba p i left m d = (0, d') \<and> drive_ok view cap d'
    \<and> stored view d' = sectors_update (stored view d) (unat lba + i) left m (p + i * 512)"
  using assms
proof (induction left arbitrary: i d)
  case 0
  have "sectors_update (stored view d) (unat lba + i) 0 m (p + i * 512) = stored view d"
    by (rule ext) (auto simp: sectors_update_def)
  with 0 show ?case by simp
next
  case (Suc left)
  have a: "unat (lba + of_nat i) = unat lba + i"
    using Suc.prems(2) cap_lba28 by (subst unat_word_ariths) (simp add: unat_of_nat_u32)
  then have "unat (lba + of_nat i) < cap" using Suc.prems(2) by simp
  from disk_write_sector_spec [OF Suc.prems(1) this, of "p + i * 512" m] a obtain d1 where d1:
    "disk_write_sector H (lba + of_nat i) (Some (p + i * 512)) m d = (0, d1)" "drive_ok view cap d1"
    "stored view d1 = (stored view d)(unat lba + i := mem_get m (p + i * 512) 512)" by auto
  have one: "stored view d1 = sectors_update (stored view d) (unat lba + i) 1 m (p + i * 512)"
    unfolding d1(3) by (rule ext) (auto simp: sectors_update_def)
  from Suc.IH [OF d1(2), of "Suc i"] Suc.prems(2) obtain d2 where d2:
    "write_each H lba p (Suc i) left m d1 = (0, d2)" "drive_ok view cap d2"
    "stored view d2 = sectors_update (stored view d1) (Suc (unat lba + i)) left m (p + i * 512 + 512)"
    by (auto simp: ac_simps)
  have "stored view d2 = sectors_update (stored view d) (unat lba + i) (Suc left) m (p + i * 512)"
    unfolding d2(3) one by (rule sectors_update_Suc)
  with d1(1) d2(1,2) show ?case by simp
qed

text \<open>
  The multi-sector commands: either the transfer, or, when the drive aborts, an error
  that leaves the drive usable and its sectors unchanged.
\<close>

lemma count_code:
  assumes "1 < cnt" "cnt \<le> (256 :: u16)"
  shows "(if (ucast cnt :: u8) = 0 then 256 else unat (ucast cnt :: u8)) = unat cnt"
proof -
  have "unat cnt \<le> 256" "1 < unat cnt" using assms by (simp_all add: word_le_nat_alt word_less_nat_alt)
  moreover have u: "unat (ucast cnt :: u8) = unat cnt mod 256"
    by (simp add: unsigned_ucast_eq take_bit_eq_mod)
  ultimately show ?thesis
  proof (cases "unat cnt = 256")
    case True
    then have "unat (ucast cnt :: u8) = 0" using u by simp
    then show ?thesis using True by (simp add: unat_eq_0)
  next
    case False
    then have "unat (ucast cnt :: u8) = unat cnt" using u \<open>unat cnt \<le> 256\<close> by simp
    moreover from this have "(ucast cnt :: u8) \<noteq> 0" using \<open>1 < unat cnt\<close> by auto
    ultimately show ?thesis by simp
  qed
qed

lemma read_multi_spec:
  assumes ok: "drive_ok view cap d" and cnt: "1 < cnt" "cnt \<le> 256" and fits: "unat lba + unat cnt \<le> cap"
  shows "\<exists>rc m' d'. disk_read_sectors_multi_pio H lba (Some p) cnt m d = (rc, m', d')
    \<and> drive_ok view cap d' \<and> stored view d' = stored view d
    \<and> (rc = 0 \<and> m' = mem_put m p (sectors_data (stored view d) (unat lba) (unat cnt)) \<or> rc \<noteq> 0 \<and> m' = m)"
proof -
  let ?v = "\<lambda>h. view (setup_lba H (ucast cnt) lba h)"
  have pos: "0 < unat cnt" "cnt \<noteq> 0" using cnt(1) by (auto simp: word_less_nat_alt)
  obtain h1 where h1: "wait_for_bsy H (select_drive H (ports d)) = (0, h1)"
    "accepts_commands (?v h1)" "av_media (?v h1) = stored view d" "command_lba (?v h1) = unat lba"
    "command_count (?v h1) = unat cnt"
    using issue_spec [OF ok, of lba "ucast cnt"] fits pos(1) count_code [OF cnt] by auto
  define h2 where "h2 = outb H ATA_COMMAND_REG ATA_CMD_READ_SECTORS_MULTI (setup_lba H (ucast cnt) lba h1)"
  have "command_lba (?v h1) + command_count (?v h1) \<le> cap" using h1(4,5) fits by simp
  from command_read_multi [OF h1(2) this] obtain n ph where n: "n < 10000"
    "ph = start_read (?v h1) \<or> ph = Aborted" "view h2 = (?v h1)\<lparr>av_phase := ph, av_lag := n\<rparr>"
    by (auto simp: h2_def)
  have len: "length (stored view d k) = 512" if "unat lba \<le> k" "k < unat lba + unat cnt" for k
    using ok fits that by (simp add: drive_ok_def stored_def)
  have code: "disk_read_sectors_multi_pio H lba (Some p) cnt m d =
      (case read_blocks H p (unat cnt) m h2 of
         (ok, m', h3) \<Rightarrow>
           if \<not> ok then (-3, m', d\<lparr>ports := h3\<rparr>)
           else (0, m', d\<lparr>ports := h3, g_disk_multi_reads := g_disk_multi_reads d + 1,
                          g_disk_reads := g_disk_reads d + 1,
                          g_disk_read_sectors := g_disk_read_sectors d + ucast cnt\<rparr>))"
    using h1(1) pos leD [OF cnt(2)] by (simp add: disk_read_sectors_multi_pio_def Let_def flip: h2_def)
  from n(2) show ?thesis
  proof
    assume ph: "ph = start_read (?v h1)"
    have "av_lag (view h2) < 10000" "av_phase (view h2) =
        Data_in (concat (map (bytes_to_words \<circ> stored view d) [unat lba..<unat lba + unat cnt]))"
      using n(1,3) ph h1(3-5) by (simp_all add: start_read_def)
    from read_blocks_spec [OF this(1) pos(1) this(2) len, of p m] obtain h3 where h3:
      "read_blocks H p (unat cnt) m h2 = (True, mem_put m p (sectors_data (stored view d) (unat lba) (unat cnt)), h3)"
      "view h3 = (view h2)\<lparr>av_phase := Ready, av_lag := 0\<rparr>" by auto
    have "av_media (view h3) = stored view d" using h3(2) n(3) h1(3) by simp
    then show ?thesis using code h3 ok by (simp add: drive_ok_def accepts_commands_def stored_def)
  next
    assume ph: "ph = Aborted"
    have "av_lag (view h2) < 10000" "av_phase (view h2) = Aborted" using n(1,3) ph by simp_all
    then obtain h3 where h3: "wait_for_drq H h2 = (-1, h3)" "view h3 = (view h2)\<lparr>av_lag := 0\<rparr>"
      by (rule wait_for_drq_aborted)
    obtain j where j: "unat cnt = Suc j" using pos(1) by (cases "unat cnt") auto
    have "read_blocks H p (unat cnt) m h2 = (False, m, h3)" unfolding j using h3(1) by simp
    moreover have "av_media (view h3) = stored view d" using h3(2) n(3) h1(3) by simp
    ultimately show ?thesis
      using code h3(2) n(3) ph ok by (simp add: drive_ok_def accepts_commands_def stored_def)
  qed
qed

lemma write_multi_spec:
  assumes ok: "drive_ok view cap d" and cnt: "1 < cnt" "cnt \<le> 256" and fits: "unat lba + unat cnt \<le> cap"
  shows "\<exists>rc d'. disk_write_sectors_multi_pio H lba (Some p) cnt m d = (rc, d') \<and> drive_ok view cap d'
    \<and> (rc = 0 \<and> stored view d' = sectors_update (stored view d) (unat lba) (unat cnt) m p
       \<or> rc \<noteq> 0 \<and> stored view d' = stored view d)"
proof -
  let ?v = "\<lambda>h. view (setup_lba H (ucast cnt) lba h)"
  have pos: "0 < unat cnt" "cnt \<noteq> 0" using cnt(1) by (auto simp: word_less_nat_alt)
  obtain h1 where h1: "wait_for_bsy H (select_drive H (ports d)) = (0, h1)"
    "accepts_commands (?v h1)" "av_media (?v h1) = stored view d" "command_lba (?v h1) = unat lba"
    "command_count (?v h1) = unat cnt"
    using issue_spec [OF ok, of lba "ucast cnt"] fits pos(1) count_code [OF cnt] by auto
  define h2 where "h2 = outb H ATA_COMMAND_REG ATA_CMD_WRITE_SECTORS_MULTI (setup_lba H (ucast cnt) lba h1)"
  have "command_lba (?v h1) + command_count (?v h1) \<le> cap" using h1(4,5) fits by simp
  from command_write_multi [OF h1(2) this] obtain n ph where n: "n < 10000"
    "ph = start_write (?v h1) \<or> ph = Aborted" "view h2 = (?v h1)\<lparr>av_phase := ph, av_lag := n\<rparr>"
    by (auto simp: h2_def)
  have code: "disk_write_sectors_multi_pio H lba (Some p) cnt m d =
      (case write_blocks H p (unat cnt) m h2 of
         (ok, h3) \<Rightarrow>
           if \<not> ok then (-3, d\<lparr>ports := h3\<rparr>)
           else (case wait_for_bsy H h3 of
                   (rc2, h4) \<Rightarrow>
                     if rc2 \<noteq> 0 then (-4, d\<lparr>ports := h4\<rparr>)
                     else (case inb H ATA_STATUS_REG h4 of
                             (status, h5) \<Rightarrow>
                               if status AND ATA_STATUS_ERR \<noteq> 0 then (-5, d\<lparr>ports := h5\<rparr>)
                               else (0, d\<lparr>ports := h5, g_disk_multi_writes := g_disk_multi_writes d + 1,
                                  g_disk_writes := g_disk_writes d + 1,
                                  g_disk_write_sectors := g_disk_write_sectors d + ucast cnt\<rparr>))))"
    using h1(1) pos leD [OF cnt(2)] by (simp add: disk_write_sectors_multi_pio_def Let_def flip: h2_def)
  from n(2) show ?thesis
  proof
    assume ph: "ph = start_write (?v h1)"
    have "av_lag (view h2) < 10000" "av_phase (view h2) = Data_out (unat lba) (unat cnt) []"
      using n(1,3) ph h1(3-5) by (simp_all add: start_write_def)
    from write_blocks_spec [OF this(1) pos(1) this(2), of p m] obtain h3 k where h3:
      "write_blocks H p (unat cnt) m h2 = (True, h3)" "k < 10000"
      "view h3 = (view h2)\<lparr>av_media := sectors_update (av_media (view h2)) (unat lba) (unat cnt) m p,
                            av_phase := Ready, av_lag := k\<rparr>" by auto
    have "av_lag (view h3) < 10000" using h3(2,3) by simp
    then obtain h4 where h4: "wait_for_bsy H h3 = (0, h4)" "view h4 = (view h3)\<lparr>av_lag := 0\<rparr>"
      by (rule wait_for_bsy_ready)
    have "av_lag (view h4) = 0" "av_phase (view h4) = Ready" using h4(2) h3(3) by simp_all
    then obtain st h5 where h5: "inb H ATA_STATUS_REG h4 = (st, h5)" "st AND ATA_STATUS_ERR = 0"
      "view h5 = view h4" using status_ready [of h4] by auto
    have "av_media (view h5) = sectors_update (stored view d) (unat lba) (unat cnt) m p"
      using h5(3) h4(2) h3(3) n(3) h1(3) by simp
    moreover have "length (sectors_update (stored view d) (unat lba) (unat cnt) m p j) = 512" if "j < cap" for j
      using ok that by (simp add: sectors_update_def drive_ok_def stored_def)
    ultimately show ?thesis
      using code h3(1) h4(1,2) h3(3) h5 by (simp add: drive_ok_def accepts_commands_def stored_def)
  next
    assume ph: "ph = Aborted"
    have "av_lag (view h2) < 10000" "av_phase (view h2) = Aborted" using n(1,3) ph by simp_all
    then obtain h3 where h3: "wait_for_drq H h2 = (-1, h3)" "view h3 = (view h2)\<lparr>av_lag := 0\<rparr>"
      by (rule wait_for_drq_aborted)
    obtain j where j: "unat cnt = Suc j" using pos(1) by (cases "unat cnt") auto
    have "write_blocks H p (unat cnt) m h2 = (False, h3)" unfolding j using h3(1) by simp
    moreover have "av_media (view h3) = stored view d" using h3(2) n(3) h1(3) by simp
    ultimately show ?thesis
      using code h3(2) n(3) ph ok by (simp add: drive_ok_def accepts_commands_def stored_def)
  qed
qed

text \<open>The public operations: the multi-sector path or the fallback, the same result.\<close>

lemma disk_read_sectors_spec:
  assumes ok: "drive_ok view cap d" and pos: "0 < unat cnt" and fits: "unat lba + unat cnt \<le> cap"
  shows "\<exists>d'. disk_read_sectors H lba (Some p) cnt m d =
      (0, mem_put m p (sectors_data (stored view d) (unat lba) (unat cnt)), d')
    \<and> drive_ok view cap d' \<and> stored view d' = stored view d"
proof -
  have nz: "cnt \<noteq> 0" using pos by auto
  show ?thesis
  proof (cases "1 < cnt \<and> cnt \<le> 256")
    case False
    with read_each_spec [OF ok, of lba 0 "unat cnt" p m] fits nz show ?thesis
      by (auto simp: disk_read_sectors_def)
  next
    case True
    then obtain rc m' d' where r: "disk_read_sectors_multi_pio H lba (Some p) cnt m d = (rc, m', d')"
      "drive_ok view cap d'" "stored view d' = stored view d"
      "rc = 0 \<and> m' = mem_put m p (sectors_data (stored view d) (unat lba) (unat cnt)) \<or> rc \<noteq> 0 \<and> m' = m"
      using read_multi_spec [OF ok _ _ fits] by blast
    with read_each_spec [OF r(2), of lba 0 "unat cnt" p m] True fits nz show ?thesis
      by (auto simp: disk_read_sectors_def)
  qed
qed

lemma disk_write_sectors_spec:
  assumes ok: "drive_ok view cap d" and pos: "0 < unat cnt" and fits: "unat lba + unat cnt \<le> cap"
  shows "\<exists>d'. disk_write_sectors H lba (Some p) cnt m d = (0, d') \<and> drive_ok view cap d'
    \<and> stored view d' = sectors_update (stored view d) (unat lba) (unat cnt) m p"
proof -
  have nz: "cnt \<noteq> 0" using pos by auto
  show ?thesis
  proof (cases "1 < cnt \<and> cnt \<le> 256")
    case False
    with write_each_spec [OF ok, of lba 0 "unat cnt" p m] fits nz show ?thesis
      by (auto simp: disk_write_sectors_def)
  next
    case True
    then obtain rc d' where r: "disk_write_sectors_multi_pio H lba (Some p) cnt m d = (rc, d')" "drive_ok view cap d'"
      "rc = 0 \<and> stored view d' = sectors_update (stored view d) (unat lba) (unat cnt) m p \<or> rc \<noteq> 0 \<and> stored view d' = stored view d"
      using write_multi_spec [OF ok _ _ fits] by blast
    with write_each_spec [OF r(2), of lba 0 "unat cnt" p m] True fits nz show ?thesis
      by (auto simp: disk_write_sectors_def)
  qed
qed

end

sublocale ata_device \<subseteq> sector_store "ata_disk H" "drive_ok view cap" "stored view" cap
proof
  fix lba :: u32 and off :: nat and m :: mem and d :: "'h disk_state"
  assume d: "drive_ok view cap d" and lba: "unat lba < cap"
  have "(stored view d)(unat lba := mem_get m off 512) = sectors_update (stored view d) (unat lba) 1 m off"
    by (rule ext) (auto simp: sectors_update_def)
  then show "\<exists>d'. op_write_sector (ata_disk H) lba (Some off) m d = (0, d') \<and>
      drive_ok view cap d' \<and> stored view d' = sectors_update (stored view d) (unat lba) 1 m off"
    using disk_write_sector_spec [OF d lba, of off m] by (simp add: ata_disk_def)
qed (use cap_lba28 disk_read_sector_spec disk_read_sectors_spec disk_write_sectors_spec in
      \<open>auto simp: ata_disk_def drive_ok_def stored_def\<close>)

text \<open>The linked system: the file system's disk is the driver on such a drive.\<close>

context ata_device
begin

lemma linked: "sector_store (ata_disk H) (drive_ok view cap) (stored view) cap"
  by (rule sector_store_axioms)

end

end
