(* ===== verification/Ata_Reference.thy ===== *)
theory Ata_Reference
  imports Ata_Device
begin

text \<open>
  An executable drive that obeys the laws of \<open>ata_device\<close>: its hardware state is the
  view itself. \<open>multi\<close> says whether it performs the multi-sector commands or aborts
  them, \<open>lag\<close> is the number of busy polls after a command. It shows that the laws are
  satisfiable and runs the driver on concrete inputs.
\<close>

definition ref_status :: "ata_view \<Rightarrow> u8" where
  "ref_status v = 0x40 OR (if has_drq v then 0x08 else 0) OR (if av_phase v = Aborted then 0x01 else 0)"

definition ref_inb :: "u16 \<Rightarrow> ata_view \<Rightarrow> u8 \<times> ata_view" where
  "ref_inb port v =
     (if port = ATA_STATUS_REG then
        (case av_lag v of
           Suc n \<Rightarrow> (0x80, v\<lparr>av_lag := n\<rparr>)
         | 0 \<Rightarrow> (ref_status v, v))
      else (0xFF, v))"

definition ref_command :: "bool \<Rightarrow> nat \<Rightarrow> nat \<Rightarrow> u8 \<Rightarrow> ata_view \<Rightarrow> ata_view" where
  "ref_command multi lag cap c v =
     (let ok = command_lba v + command_count v \<le> cap in
      if ok \<and> (c = ATA_CMD_READ_SECTORS \<or> multi \<and> c = ATA_CMD_READ_SECTORS_MULTI)
      then v\<lparr>av_phase := start_read v, av_lag := lag\<rparr>
      else if ok \<and> (c = ATA_CMD_WRITE_SECTORS \<or> multi \<and> c = ATA_CMD_WRITE_SECTORS_MULTI)
      then v\<lparr>av_phase := start_write v, av_lag := lag\<rparr>
      else if c = ATA_CMD_IDENTIFY_DEVICE
      then v\<lparr>av_phase := Data_in (replicate 256 0), av_lag := lag\<rparr>
      else v\<lparr>av_phase := Aborted, av_lag := lag\<rparr>)"

definition ref_outb :: "bool \<Rightarrow> nat \<Rightarrow> nat \<Rightarrow> u16 \<Rightarrow> u8 \<Rightarrow> ata_view \<Rightarrow> ata_view" where
  "ref_outb multi lag cap port b v =
     (if port = ATA_SECCOUNT0_REG then v\<lparr>av_count := b\<rparr>
      else if port = ATA_LBA0_REG then v\<lparr>av_lba0 := b\<rparr>
      else if port = ATA_LBA1_REG then v\<lparr>av_lba1 := b\<rparr>
      else if port = ATA_LBA2_REG then v\<lparr>av_lba2 := b\<rparr>
      else if port = ATA_DRIVE_REG then v\<lparr>av_drive := b\<rparr>
      else if port = ATA_COMMAND_REG then ref_command multi lag cap b v
      else v)"

definition ref_inw :: "nat \<Rightarrow> u16 \<Rightarrow> ata_view \<Rightarrow> u16 \<times> ata_view" where
  "ref_inw lag port v =
     (case av_phase v of
        Data_in (w # ws) \<Rightarrow>
          (w, v\<lparr>av_phase := (if ws = [] then Ready else Data_in ws),
                av_lag := (if ws = [] \<or> length ws mod 256 \<noteq> 0 then 0 else lag)\<rparr>)
      | _ \<Rightarrow> (0xFFFF, v))"

definition ref_outw :: "nat \<Rightarrow> u16 \<Rightarrow> u16 \<Rightarrow> ata_view \<Rightarrow> ata_view" where
  "ref_outw lag port w v =
     (case av_phase v of
        Data_out lba left ws \<Rightarrow>
          (take_word w lba left ws v)\<lparr>av_lag := (if length ws + 1 < 256 then 0 else lag)\<rparr>
      | _ \<Rightarrow> v)"

definition ref_hw :: "bool \<Rightarrow> nat \<Rightarrow> nat \<Rightarrow> ata_view ata_hw" where
  "ref_hw multi lag cap =
     \<lparr>inb = ref_inb, outb = ref_outb multi lag cap, inw = ref_inw lag, outw = ref_outw lag\<rparr>"

lemma ref_status_bits:
  "ref_status v AND 0x80 = 0" "ref_status v AND 0x01 \<noteq> 0 \<longleftrightarrow> av_phase v = Aborted"
  "ref_status v AND 0x08 \<noteq> 0 \<longleftrightarrow> has_drq v"
  by (simp_all add: ref_status_def)

lemma ref_ata_device:
  assumes "cap \<le> 2 ^ 28" and "lag < 10000"
  shows "ata_device (ref_hw multi lag cap) (\<lambda>v. v) cap"
proof
  fix h :: ata_view and n
  assume "av_lag h = Suc n"
  then show "\<exists>st h'. inb (ref_hw multi lag cap) ATA_STATUS_REG h = (st, h') \<and> st AND ATA_STATUS_BSY \<noteq> 0
        \<and> st AND ATA_STATUS_ERR = 0 \<and> st AND ATA_STATUS_DRQ = 0 \<and> h' = h\<lparr>av_lag := n\<rparr>"
    by (simp add: ref_hw_def ref_inb_def)
next
  fix h :: ata_view
  assume "av_lag h = 0"
  then show "\<exists>st h'. inb (ref_hw multi lag cap) ATA_STATUS_REG h = (st, h') \<and> st AND ATA_STATUS_BSY = 0
        \<and> (st AND ATA_STATUS_ERR \<noteq> 0 \<longleftrightarrow> av_phase h = Aborted)
        \<and> (st AND ATA_STATUS_DRQ \<noteq> 0 \<longleftrightarrow> has_drq h) \<and> h' = h"
    using ref_status_bits [of h] by (simp add: ref_hw_def ref_inb_def)
next
  fix h :: ata_view and w ws
  assume "av_lag h = 0" "av_phase h = Data_in (w # ws)"
  then show "\<exists>h' n. inw (ref_hw multi lag cap) ATA_DATA_REG h = (w, h') \<and> n < 10000
        \<and> (ws = [] \<or> length ws mod 256 \<noteq> 0 \<longrightarrow> n = 0)
        \<and> h' = h\<lparr>av_phase := (if ws = [] then Ready else Data_in ws), av_lag := n\<rparr>"
    using assms(2)
    by (intro exI [of _ "snd (ref_inw lag ATA_DATA_REG h)"]
        exI [of _ "if ws = [] \<or> length ws mod 256 \<noteq> 0 then 0 else lag"])
      (simp add: ref_hw_def ref_inw_def)
next
  fix h :: ata_view and lba left ws w
  assume "av_lag h = 0" "av_phase h = Data_out lba left ws"
  then show "\<exists>n < 10000. (length ws + 1 < 256 \<longrightarrow> n = 0)
        \<and> outw (ref_hw multi lag cap) ATA_DATA_REG w h = (take_word w lba left ws h)\<lparr>av_lag := n\<rparr>"
    using assms(2)
    by (intro exI [of _ "if length ws + 1 < 256 then 0 else lag"]) (simp add: ref_hw_def ref_outw_def)
qed (use assms in \<open>auto simp: ref_hw_def ref_outb_def ref_command_def\<close>)

text \<open>A 1.44 MB drive that aborts the multi-sector commands, and one that performs them.\<close>

interpretation plain_drive: ata_device "ref_hw False 3 2880" "\<lambda>v. v" 2880
  by (rule ref_ata_device) simp_all

interpretation multi_drive: ata_device "ref_hw True 0 2880" "\<lambda>v. v" 2880
  by (rule ref_ata_device) simp_all

end
