(* ===== verification/Fat12_Example.thy ===== *)
theory Fat12_Example
  imports Fat12_Tree Ata_Reference
begin

text \<open>
  A concrete volume: a freshly formatted 1.44 MB floppy on the reference drive, and the
  same volume with one file in its root directory. The facts here discharge the
  hypotheses of the properties at a concrete input.
\<close>

definition floppy_fs :: fat12_fs where
  "floppy_fs =
     \<lparr>bytes_per_sector = 512, sectors_per_cluster = 1, reserved_sectors = 1, num_fats = 2,
      root_entry_count = 224, root_dir_sectors = 14, total_sectors = 2880, sectors_per_fat = 9,
      fat_start_lba = 1, root_dir_start_lba = 19, data_start_lba = 33, total_data_sectors = 2847,
      total_clusters = 2847, cluster_size_bytes = 512, base_lba = 0, fat_size_bytes = 4608\<rparr>"

definition boot_sector :: "byte list" where
  "boot_sector =
     replicate 11 0 @ [0x00, 0x02, 1, 1, 0, 2, 0xE0, 0, 0x40, 0x0B, 0xF0, 9, 0, 18, 0, 2, 0]
     @ replicate 484 0"

definition blank_media :: "nat \<Rightarrow> byte list" where
  "blank_media n = (if n = 0 then boot_sector else replicate 512 0)"

definition blank_drive :: "ata_view disk_state" where
  "blank_drive =
     \<lparr>g_disk_reads = 0, g_disk_writes = 0, g_disk_multi_reads = 0, g_disk_multi_writes = 0,
      g_disk_read_sectors = 0, g_disk_write_sectors = 0,
      ports = \<lparr>av_phase = Ready, av_lag = 0, av_count = 0, av_lba0 = 0, av_lba1 = 0, av_lba2 = 0,
               av_drive = 0, av_media = blank_media\<rparr>\<rparr>"

definition blank_volume :: "ata_view disk_state fat12_state" where
  "blank_volume =
     \<lparr>g_fs = floppy_fs, g_fat_primary = (\<lambda>_. 0), g_fat_secondary = (\<lambda>_. 0), g_root_dir = (\<lambda>_. 0),
      g_cluster_buffer = (\<lambda>_. 0), g_fs_ready = True, g_fat_dirty = False, g_root_dirty = False,
      g_current_dir_cluster = 0, g_path_stack = [], g_path_names = [], g_cwd = [0x2F],
      disk = blank_drive\<rparr>"

abbreviation (input) here :: "ata_view \<Rightarrow> ata_view" where "here \<equiv> \<lambda>v. v"
abbreviation (input) drive :: "ata_view ata_hw" where "drive \<equiv> ref_hw False 3 2880"

text \<open>\<open>a.txt\<close> and its short name.\<close>

definition a_txt :: "byte list" where "a_txt = [0x61, 0x2E, 0x74, 0x78, 0x74]"
definition a_name :: "byte list" where
  "a_name = [0x41, 0x20, 0x20, 0x20, 0x20, 0x20, 0x20, 0x20, 0x54, 0x58, 0x54]"
definition b_txt :: "byte list" where "b_txt = [0x42]"
definition b_name :: "byte list" where "b_name = 0x42 # replicate 10 0x20"

lemma drive_device: "ata_device drive here 2880"
  by (rule ref_ata_device) simp_all

lemma floppy_geometry: "geometry_ok floppy_fs" "volume_fits floppy_fs 2880"
  by (simp_all add: geometry_ok_def floppy_fs_def volume_fits_def volume_sectors_def)

lemma blank_sectors: "stored here blank_drive = blank_media"
  by (simp add: stored_def blank_drive_def)

lemma length_boot_sector: "length boot_sector = 512"
  by (simp add: boot_sector_def)

lemma blank_drive_ok: "drive_ok here 2880 blank_drive"
  by (simp add: drive_ok_def blank_drive_def accepts_commands_def blank_media_def length_boot_sector)

lemma blank_mounted: "mounted (drive_ok here 2880) 2880 blank_volume"
  using floppy_geometry blank_drive_ok by (simp add: mounted_def blank_volume_def)

lemma zero_entry: "slot_end (entry_at (\<lambda>_. 0) p)"
  by (simp add: slot_end_def entry_at_def mem_get_def)

lemma blank_root: "\<forall>e \<in> set (block_entries (\<lambda>_. 0) n). slot_end e"
  by (auto simp: block_entries_def zero_entry)

lemma all_end_wf:
  assumes "\<forall>e \<in> set es. slot_end e"
  shows "dir_wf es" "dir_map es name = None"
proof -
  have e: "slot_end (es ! i)" if "i < length es" for i using assms that by simp
  show "dir_wf es" using e by (auto simp: dir_wf_def terminated_def unique_names_def dest: slot_live_not_end)
  then show "dir_map es name = None"
    using e by (auto simp: dir_map_def dir_find_wf_None dest: slot_live_not_end)
qed

lemma blank_cwd: "cwd_ok S blank_volume []" "dir_map (cwd_entries S blank_volume []) name = None"
  using all_end_wf [OF blank_root]
  by (simp_all add: cwd_ok_def dir_chain_def dir_entries_def blank_volume_def)

lemma floppy_in_fat:
  assumes "g_fs s = floppy_fs" and "valid_cluster floppy_fs c"
  shows "in_fat s c"
proof -
  have "unat c < 2849" using assms(2) by (simp add: valid_cluster_def floppy_fs_def)
  then have "Suc (unat c + unat c div 2) < 4608" by linarith
  then show ?thesis
    using assms(1)
    by (simp add: in_fat_def floppy_fs_def word_less_nat_alt unat_fat_index unat_word_ariths)
qed

lemma blank_entry: "fat12_get_fat_entry blank_volume c = (if in_fat blank_volume c then 0 else FAT12_CLUSTER_EOC)"
  by (simp add: fat12_get_fat_entry_def in_fat_def blank_volume_def fat_value_even_def
      fat_value_odd_def Let_def not_less)

lemma blank_free: "free_clusters blank_volume = {c. valid_cluster floppy_fs c}"
  using floppy_in_fat [of blank_volume]
  by (auto simp: free_clusters_def blank_entry) (simp_all add: blank_volume_def)

lemma valid_2: "valid_cluster floppy_fs 2" "valid_cluster floppy_fs 3"
  by (simp_all add: valid_cluster_def floppy_fs_def)

lemma blank_free_card: "2 \<le> card (free_clusters blank_volume)"
proof -
  have "card {2 :: u16, 3} \<le> card (free_clusters blank_volume)"
    using valid_2 by (intro card_mono) (auto simp: blank_free)
  then show ?thesis by simp
qed

lemma a_path: "plain_path a_txt a_name" "plain_path b_txt b_name"
proof -
  have "valid_base [0x41]" "valid_base [0x42]" "valid_ext [0x54, 0x58, 0x54]" "valid_ext []"
    by (simp_all add: valid_base_def valid_ext_def fat12_is_valid_char_def)
  moreover have "map fat12_to_upper (cstr a_txt) = [0x41, 0x2E, 0x54, 0x58, 0x54]"
    "map fat12_to_upper (cstr b_txt) = [0x42]"
    by (simp_all add: a_txt_def b_txt_def cstr_def fat12_to_upper_def)
  ultimately have "fat12_make_short_name (Some a_txt) = Inr (pack83 [0x41] [0x54, 0x58, 0x54])"
    "fat12_make_short_name (Some b_txt) = Inr (pack83 [0x42] [])"
    by (auto intro!: make_short_name_spelled simp: spells83_def)
  moreover have "pack83 [0x41] [0x54, 0x58, 0x54] = a_name" "pack83 [0x42] [] = b_name"
    by (simp_all add: pack83_def name_pad_def a_name_def b_name_def eval_nat_numeral)
  ultimately show "plain_path a_txt a_name" "plain_path b_txt b_name"
    by (simp_all add: plain_path_def a_txt_def b_txt_def is_sep_def)
qed

lemma b_name_shown: "fat12_dir_name_to_string b_name = [0x42]"
proof -
  have "valid_base [0x42]" "valid_ext []" by (simp_all add: valid_base_def valid_ext_def fat12_is_valid_char_def)
  from display_pack83 [OF this] show ?thesis
    by (simp add: pack83_def name_pad_def b_name_def numeral_eq_Suc)
qed

lemma blank_bound: "dir_map (cwd_entries S blank_volume []) name = None \<Longrightarrow> bound_file S blank_volume [] name []"
  by (simp add: bound_file_def)

lemma blank_room: "n \<le> 512 \<Longrightarrow> room_for S blank_volume [] name n"
proof -
  assume n: "n \<le> 512"
  have "blocks_needed 512 n \<le> 1" using n by (simp add: blocks_needed_def)
  then have "blocks_needed (cluster_bytes (g_fs blank_volume)) n \<le> card (free_clusters blank_volume)"
    using blank_free_card by (simp add: cluster_bytes_def blank_volume_def floppy_fs_def)
  moreover have "put_slot (cwd_entries S blank_volume []) name \<noteq> None"
  proof -
    let ?es = "cwd_entries S blank_volume []"
    have "length ?es = 224" by (simp add: dir_entries_def blank_volume_def floppy_fs_def)
    moreover from this have "?es ! 0 \<in> set ?es" by (intro nth_mem) simp
    ultimately have "\<not> (\<forall>e \<in> set ?es. slot_live e)"
      using blank_root [of 224] by (fastforce simp: dir_entries_def blank_volume_def floppy_fs_def slot_live_def)
    then show ?thesis
      using blank_cwd(2) [of S name] by (auto simp: put_slot_def dir_map_def first_free_None split: option.splits)
  qed
  ultimately show ?thesis by (simp add: room_for_def)
qed

lemma blank_boot: "boot_describes (stored here blank_drive) floppy_fs"
proof -
  have m: "list_mem boot_sector i = boot_sector ! i" if "i < 512" for i
    using that by (simp add: list_mem_def length_boot_sector)
  have b: "boot_sector ! 11 = 0" "boot_sector ! 12 = 2" "boot_sector ! 13 = 1" "boot_sector ! 14 = 1"
    "boot_sector ! 15 = 0" "boot_sector ! 16 = 2" "boot_sector ! 17 = 0xE0" "boot_sector ! 18 = 0"
    "boot_sector ! 19 = 0x40" "boot_sector ! 20 = 0x0B" "boot_sector ! 21 = 0xF0" "boot_sector ! 22 = 9"
    "boot_sector ! 23 = 0"
    by (simp_all add: boot_sector_def nth_append nth_Cons')
  show ?thesis
    by (simp add: boot_describes_def Let_def blank_sectors blank_media_def floppy_fs_def bpb_at_def m b le16_def
        init_layout_def init_sizes_def init_copy_bpb_def)
qed

lemma blank_coherent: "coherent (stored here blank_drive) blank_volume"
proof -
  have "mem_get (\<lambda>_. 0) k n = replicate n 0" for k n by (rule nth_equalityI) auto
  then show ?thesis
    by (simp add: coherent_def fat_on_disk_def root_on_disk_def stored_at_def fat_region_def root_region_def
        blank_volume_def floppy_fs_def blank_sectors blank_media_def)
qed

section \<open>The volume with one entry\<close>

text \<open>The entry \<open>e\<close> in the first slot of the root directory, cluster 2 taken.\<close>

definition one_volume :: "raw_dir_entry \<Rightarrow> ata_view disk_state fat12_state" where
  "one_volume e =
     fat12_set_fat_entry 2 FAT12_CLUSTER_EOC
       (blank_volume\<lparr>g_root_dir := put_entry (\<lambda>_. 0) 0 e, g_root_dirty := True\<rparr>)"

text \<open>\<open>a.txt\<close>, 5 bytes in cluster 2, and a directory \<open>B\<close> in cluster 2.\<close>

definition a_entry :: raw_dir_entry where
  "a_entry = fat12_fill_dir_entry a_name FAT12_ATTR_ARCHIVE 2 5"

definition sub_entry :: raw_dir_entry where
  "sub_entry = fat12_fill_dir_entry b_name FAT12_ATTR_DIRECTORY 2 0"

abbreviation (input) file_volume :: "ata_view disk_state fat12_state" where "file_volume \<equiv> one_volume a_entry"
abbreviation (input) dir_volume :: "ata_view disk_state fat12_state" where "dir_volume \<equiv> one_volume sub_entry"

lemma one_fields: "g_fs (one_volume e) = floppy_fs" "disk (one_volume e) = blank_drive"
  "g_current_dir_cluster (one_volume e) = 0" "g_fs_ready (one_volume e)"
  "g_root_dir (one_volume e) = put_entry (\<lambda>_. 0) 0 e" "g_fat_dirty (one_volume e)" "g_root_dirty (one_volume e)"
  "g_path_stack (one_volume e) = []" "g_path_names (one_volume e) = []" "g_cwd (one_volume e) = [0x2F]"
  by (simp_all add: one_volume_def) (simp_all add: blank_volume_def fat12_set_fat_entry_def Let_def split: prod.split)

lemmas file_fields = one_fields [of a_entry]

lemma one_mounted: "mounted (drive_ok here 2880) 2880 (one_volume e)"
  using floppy_geometry blank_drive_ok by (simp add: mounted_def one_fields)

lemmas file_mounted = one_mounted [of a_entry]

lemma a_entry_facts: "wf_entry a_entry" "slot_live a_entry" "re_name a_entry = a_name" "\<not> is_directory a_entry"
  by (simp_all add: a_entry_def a_name_def wf_entry_def fat12_fill_dir_entry_def slot_live_def slot_end_def
      slot_deleted_def is_directory_def)

lemma sub_entry_facts: "wf_entry sub_entry" "slot_live sub_entry" "re_name sub_entry = b_name" "is_directory sub_entry"
  "re_first_cluster_low sub_entry = 2"
  by (simp_all add: sub_entry_def b_name_def wf_entry_def fat12_fill_dir_entry_def slot_live_def slot_end_def
      slot_deleted_def is_directory_def)

lemma one_root:
  assumes "wf_entry e"
  shows "dir_entries S (one_volume e) 0 [] = (block_entries (\<lambda>_. 0) 224)[0 := e]"
  using block_entries_put [OF assms, of 0 224 "\<lambda>_. 0"]
  by (simp add: dir_entries_def one_fields) (simp add: floppy_fs_def)

lemma file_root: "cwd_entries S file_volume [] = (block_entries (\<lambda>_. 0) 224)[0 := a_entry]"
  using one_root [OF a_entry_facts(1)] by (simp add: file_fields)

lemma one_cwd:
  assumes "wf_entry e" and "slot_live e" and "re_name e = name"
  shows "cwd_ok S (one_volume e) []" "dir_map (dir_entries S (one_volume e) 0 []) = (\<lambda>_. None)(name \<mapsto> e)"
proof -
  let ?es = "block_entries (\<lambda>_. 0) 224"
  note wf = all_end_wf [OF blank_root [of 224]]
  have "dir_find ?es name = None" using wf(2) [of name] by (simp add: dir_map_def)
  moreover have "first_free ?es 0 = Some 0"
  proof -
    have "?es = entry_at (\<lambda>_. 0) 0 # map (\<lambda>i. entry_at (\<lambda>_. 0) (32 * i)) [1..<224]"
      by (simp add: block_entries_def upt_conv_Cons)
    then show ?thesis using zero_entry [of 0] by (simp add: slot_live_def)
  qed
  ultimately have slot: "put_slot ?es name = Some 0" by (simp add: put_slot_def)
  have "dir_map ?es = (\<lambda>_. None)" using wf(2) by blast
  then show "dir_map (dir_entries S (one_volume e) 0 []) = (\<lambda>_. None)(name \<mapsto> e)"
    using dir_map_put [OF wf(1) slot assms(2,3)] by (simp add: one_root [OF assms(1)])
  show "cwd_ok S (one_volume e) []"
    using dir_wf_put [OF wf(1) slot assms(2,3)]
    by (simp add: cwd_ok_def one_fields one_root [OF assms(1)]) (simp add: dir_chain_def)
qed

lemma file_cwd: "cwd_ok S file_volume []"
  "dir_map (cwd_entries S file_volume []) = (\<lambda>_. None)(a_name \<mapsto> a_entry)"
  using one_cwd [OF a_entry_facts(1-3)] by (simp_all add: file_fields)

lemma file_entry: "fat12_get_fat_entry (one_volume e) c =
    (if c = 2 then FAT12_CLUSTER_EOC else fat12_get_fat_entry blank_volume c)"
  using floppy_in_fat [of blank_volume 2] valid_2
  by (simp add: one_volume_def get_set in_fat_def) (simp add: blank_volume_def)

lemma one_chain: "file_chain (one_volume e) 2 [2]"
  using floppy_in_fat [of "one_volume e" 2] valid_2 by (simp add: file_chain_def file_entry one_fields chain_link_def)

lemmas file_chain_a = one_chain [of a_entry]

lemma file_bound: "bound_file S file_volume [] a_name [2]" "bound_file S file_volume [] b_name []"
  using file_chain_a a_entry_facts(4)
  by (simp_all add: bound_file_def file_cwd a_name_def b_name_def) (simp add: a_entry_def)

lemma file_holds_a: "holds_file (stored here (disk file_volume)) file_volume [] a_name [2] (replicate 5 0)"
proof -
  have "cluster_data (stored here blank_drive) floppy_fs 2 = replicate 512 0"
    by (simp add: blank_sectors cluster_data_def floppy_fs_def cluster_sector_def sectors_data_1 blank_media_def)
  moreover have "re_first_cluster_low a_entry = 2" "re_file_size a_entry = 5" by (simp_all add: a_entry_def)
  moreover have "dir_map (dir_entries S file_volume 0 []) a_name = Some a_entry" for S
    using file_cwd(2) [of S] by (simp add: file_fields)
  ultimately show ?thesis
    using file_chain_a a_entry_facts(4) by (simp add: holds_file_def file_fields)
qed

lemma file_free: "2 \<le> card (free_clusters file_volume)"
proof -
  have v: "valid_cluster floppy_fs 3" "valid_cluster floppy_fs 4" by (simp_all add: valid_cluster_def floppy_fs_def)
  have fs: "g_fs blank_volume = floppy_fs" by (simp add: blank_volume_def)
  have "in_fat blank_volume 3" "in_fat blank_volume 4" using v by (auto intro: floppy_in_fat [OF fs])
  with v have "{3 :: u16, 4} \<subseteq> free_clusters file_volume"
    by (simp add: free_clusters_def file_entry blank_entry file_fields)
  then have "card {3 :: u16, 4} \<le> card (free_clusters file_volume)" by (intro card_mono) auto
  then show ?thesis by simp
qed

lemma file_room: "n \<le> 512 \<Longrightarrow> room_for S file_volume [] b_name n"
proof -
  assume n: "n \<le> 512"
  have "blocks_needed 512 n \<le> 1" using n by (simp add: blocks_needed_def)
  then have "blocks_needed (cluster_bytes (g_fs file_volume)) n \<le> card (free_clusters file_volume)"
    using file_free by (simp add: cluster_bytes_def file_fields) (simp add: floppy_fs_def)
  moreover have "put_slot (cwd_entries S file_volume []) b_name \<noteq> None"
  proof -
    have "\<not> slot_live (cwd_entries S file_volume [] ! 1)"
      by (simp add: file_root slot_live_def block_entries_def zero_entry)
    moreover have "cwd_entries S file_volume [] ! 1 \<in> set (cwd_entries S file_volume [])"
      by (rule nth_mem) (simp add: file_root block_entries_def)
    moreover have "dir_map (cwd_entries S file_volume []) b_name = None"
      by (simp add: file_cwd a_name_def b_name_def)
    ultimately show ?thesis by (auto simp: put_slot_def dir_map_def first_free_None split: option.splits)
  qed
  ultimately show ?thesis by (simp add: room_for_def)
qed


section \<open>The tree of the volume with a subdirectory\<close>

abbreviation (input) sub_chains :: "u16 \<Rightarrow> u16 list" where "sub_chains \<equiv> \<lambda>c. if c = 0 then [] else [2]"

lemma sub_tree: "tree_of S dir_volume sub_chains 0 = (\<lambda>_. None)(b_name \<mapsto> sub_entry)"
  using one_cwd(2) [OF sub_entry_facts(1-3)] by (simp add: tree_of_def)

lemma dir_tree_on:
  assumes "S 33 = stored here blank_drive 33"
  shows "tree_ok S dir_volume sub_chains {0, 2}"
proof -
  have data: "cluster_data S floppy_fs 2 = replicate 512 0"
    using assms by (simp add: blank_sectors cluster_data_def floppy_fs_def cluster_sector_def sectors_data_1 blank_media_def)
  have "slot_end e" if e: "e \<in> set (dir_entries S dir_volume 2 [2])" for e
  proof -
    have "e \<in> set (block_entries (list_mem (replicate 512 0)) 16)"
      using e
      by (simp add: dir_entries_def cluster_entries_def data one_fields)
        (simp add: entries_per_cluster_def floppy_fs_def)
    then show ?thesis
      by (auto simp: block_entries_def slot_end_def entry_at_def mem_get_def list_mem_def)
  qed
  then have "tree_of S dir_volume sub_chains 2 = (\<lambda>_. None)"
    using all_end_wf(2) by (auto simp: tree_of_def)
  moreover have "dir_chain dir_volume 2 [2]"
    using one_chain [of sub_entry] by (simp add: dir_chain_def file_chain_def one_fields)
  ultimately show ?thesis
    using sub_tree [of S] sub_entry_facts(5)
    by (auto simp: tree_ok_def one_fields split: if_splits) (simp_all add: dir_chain_def)
qed

lemma dir_tree: "tree_ok (stored here (disk dir_volume)) dir_volume sub_chains {0, 2}"
  by (rule dir_tree_on) (simp add: one_fields)

text \<open>
  A session on that tree: the volume is written back, and its drive is mounted from the
  state the kernel starts with.
\<close>

lemma dir_session:
  obtains s where "fs_session (ata_disk drive) s" "mounted (drive_ok here 2880) 2880 s"
    "tree_ok (stored here (disk s)) s sub_chains {0, 2}"
    "tree_of (stored here (disk s)) s sub_chains 0 = (\<lambda>_. None)(b_name \<mapsto> sub_entry)"
    "g_current_dir_cluster s = 0" "g_path_stack s = []" "g_path_names s = []"
proof -
  note result = that
  note D = ata_device.linked [OF drive_device]
  obtain v where v: "v = dir_volume\<lparr>disk := disk v, g_root_dirty := False, g_fat_dirty := False\<rparr>"
    "drive_ok here 2880 (disk v)" "coherent (stored here (disk dir_volume)) dir_volume \<and> 0 < unat (num_fats (g_fs dir_volume))
       \<longrightarrow> fat_on_disk (stored here (disk v)) dir_volume 0"
    "coherent (stored here (disk dir_volume)) dir_volume \<longrightarrow> root_on_disk (stored here (disk v)) dir_volume"
    "\<forall>n. n < fat_region (g_fs dir_volume) \<or> unat (base_lba (g_fs dir_volume)) + unat (data_start_lba (g_fs dir_volume)) \<le> n
       \<longrightarrow> stored here (disk v) n = stored here (disk dir_volume) n"
    by (rule sector_store.flush_both_spec [OF D one_mounted])
  have f: "g_fs v = floppy_fs" "g_fat_primary v = g_fat_primary dir_volume" "g_root_dir v = g_root_dir dir_volume"
    "g_fs_ready v" "\<not> g_fat_dirty v" "\<not> g_root_dirty v"
    by (subst v(1), simp add: one_fields)+
  have fs: "0 < unat (num_fats floppy_fs)" "fat_region floppy_fs = 1" "base_lba floppy_fs = 0" "data_start_lba floppy_fs = 33"
    by (simp_all add: floppy_fs_def fat_region_def)
  have m: "mounted (drive_ok here 2880) 2880 v" using v(2) floppy_geometry by (simp add: mounted_def f)
  have "coherent (stored here (disk dir_volume)) dir_volume" by (simp add: coherent_def one_fields)
  then have sync: "synced (stored here (disk v)) v"
    using v(3,4) fs(1) f by (simp add: synced_def fat_on_disk_def root_on_disk_def one_fields)
  have data: "stored here (disk v) n = stored here blank_drive n" if "n = 0 \<or> 33 \<le> n" for n
    using v(5) that by (auto simp: one_fields fs)
  then have boot: "boot_describes (stored here (disk v)) (g_fs v)"
    using blank_boot by (simp add: boot_describes_def f(1) fs(3))
  have nf: "0 < unat (num_fats (g_fs v))" "disk (boot_state (disk v)) = disk v" by (simp_all add: fs(1) f(1) boot_state_def)
  obtain s where s: "fat12_init (ata_disk drive) (base_lba (g_fs v)) (boot_state (disk v)) = (Inr (), s)" "g_fs s = g_fs v"
    "mounted (drive_ok here 2880) 2880 s" "stored here (disk s) = stored here (disk v)" "g_current_dir_cluster s = 0"
    "\<forall>c. fat12_get_fat_entry s c = fat12_get_fat_entry v c"
    "\<forall>dir cs. dir_entries (stored here (disk s)) s dir cs = dir_entries (stored here (disk v)) v dir cs"
    "g_path_stack s = []" "g_path_names s = []"
    by (rule sector_store.remount_spec [OF D m sync boot nf])
  have entry: "\<forall>c. fat12_get_fat_entry s c = fat12_get_fat_entry dir_volume c"
    using s(6) by (simp add: fat12_get_fat_entry_def f(1,2) one_fields)
  have entries: "\<forall>dir cs. dir_entries (stored here (disk s)) s dir cs = dir_entries (stored here (disk v)) dir_volume dir cs"
    using s(7) by (simp add: dir_entries_def f(1,3) one_fields)
  have gs: "g_fs s = g_fs dir_volume" using s(2) f(1) by (simp add: one_fields)
  note same = tree_same [OF gs entry entries]
  show thesis
  proof (rule result)
    show "fs_session (ata_disk drive) s" using s(1) by (rule session_mount)
    show "tree_ok (stored here (disk s)) s sub_chains {0, 2}" unfolding same(2) by (rule dir_tree_on) (rule data, simp)
    show "tree_of (stored here (disk s)) s sub_chains 0 = (\<lambda>_. None)(b_name \<mapsto> sub_entry)" unfolding same(1) by (rule sub_tree)
  qed (use s in simp_all)
qed

end
