(* ===== verification/Fat12_Properties.thy ===== *)
theory Fat12_Properties
  imports Fat12_Example
begin

text \<open>
  The properties of the file system linked with the ATA driver. Each one is stated for
  any drive that keeps the PIO protocol (\<open>ata_device\<close>) and a mounted volume on it, and
  is followed by its instance on the reference drive with a 1.44 MB volume.
\<close>

section \<open>Files\<close>

text \<open>
  C1. Round trip: after \<open>fat12_write_file\<close> of \<open>sz\<close> bytes under a plain 8.3 name, with
  room for them, \<open>fat12_read_file\<close> of the same path returns exactly these bytes and
  their number, whatever the path held before.
\<close>

theorem write_then_read:
  assumes "ata_device H view cap" and "mounted (drive_ok view cap) cap s" and "plain_path p name"
    and "cwd_ok (stored view (disk s)) s dcs" and "bound_file (stored view (disk s)) s dcs name ocs"
    and "room_for (stored view (disk s)) s dcs name (unat sz)" and "sz \<le> max_size"
  shows "\<exists>s1 s2. fat12_write_file (ata_disk H) (Some p) (Some data) sz s = Some (Inr (), s1)
    \<and> fat12_read_file (ata_disk H) (Some p) (Some buf) max_size s1 =
        Some (Inr sz, Some (mem_put buf 0 (mem_get data 0 (unat sz))), s2)"
  using sector_store.write_read_spec [OF ata_device.linked [OF assms(1)] assms(2-7)] .

theorem write_then_read_witness:
  "\<exists>s1 s2. fat12_write_file (ata_disk drive) (Some a_txt) (Some (\<lambda>_. 0x68)) 5 blank_volume = Some (Inr (), s1)
    \<and> fat12_read_file (ata_disk drive) (Some a_txt) (Some (\<lambda>_. 0)) 100 s1 =
        Some (Inr 5, Some (mem_put (\<lambda>_. 0) 0 (mem_get (\<lambda>_. 0x68) 0 5)), s2)"
  using write_then_read [OF drive_device blank_mounted a_path(1) blank_cwd(1) blank_bound [OF blank_cwd(2)]
      blank_room, of 5 100 "\<lambda>_. 0x68" "\<lambda>_. 0"] by simp

text \<open>
  C2. Isolation: writing one file leaves every other file of the directory readable with
  the content it had, binds no other name, and touches no sector outside the volume.
\<close>

theorem write_keeps_other_files:
  assumes "ata_device H view cap" and "mounted (drive_ok view cap) cap s" and "plain_path p name"
    and "cwd_ok (stored view (disk s)) s dcs" and "bound_file (stored view (disk s)) s dcs name ocs"
    and "room_for (stored view (disk s)) s dcs name (unat sz)"
  shows "\<exists>s' dcs'. fat12_write_file (ata_disk H) (Some p) (Some data) sz s = Some (Inr (), s')
    \<and> cwd_ok (stored view (disk s')) s' dcs'
    \<and> (\<forall>name' cs content. name' \<noteq> name \<and> set cs \<inter> set ocs = {}
         \<and> holds_file (stored view (disk s)) s dcs name' cs content
         \<longrightarrow> holds_file (stored view (disk s')) s' dcs' name' cs content)
    \<and> (\<forall>name'. name' \<noteq> name \<longrightarrow> dir_map (cwd_entries (stored view (disk s')) s' dcs') name' =
         dir_map (cwd_entries (stored view (disk s)) s dcs) name')
    \<and> others_kept (stored view) (free_clusters s \<union> set dcs \<union> set ocs) s s'"
  by (rule sector_store.write_held_file [OF ata_device.linked [OF assms(1)] assms(2-6), where data = data]) blast

theorem write_keeps_other_files_witness:
  "\<exists>s' dcs'. fat12_write_file (ata_disk drive) (Some b_txt) (Some (\<lambda>_. 0x68)) 100 file_volume = Some (Inr (), s')
    \<and> holds_file (stored here (disk s')) s' dcs' a_name [2] (replicate 5 0)"
proof -
  have "a_name \<noteq> b_name" by (simp add: a_name_def b_name_def)
  then show ?thesis
    using write_keeps_other_files [OF drive_device file_mounted a_path(2) file_cwd(1) file_bound(2) file_room,
        of 100 "\<lambda>_. 0x68"] file_holds_a by fastforce
qed

text \<open>
  C6. Durability: after a write into the root directory, mounting the volume again from
  the sectors alone (the caches of the new session hold anything) succeeds and the file
  reads back with the data written.
\<close>

theorem write_survives_remount:
  assumes "ata_device H view cap" and "mounted (drive_ok view cap) cap s" and "plain_path p name"
    and "cwd_ok (stored view (disk s)) s []" and "g_current_dir_cluster s = 0"
    and "bound_file (stored view (disk s)) s [] name ocs"
    and "room_for (stored view (disk s)) s [] name (unat sz)" and "sz \<le> max_size"
    and "coherent (stored view (disk s)) s" and "0 < unat (num_fats (g_fs s))"
    and "0 < unat (fat_start_lba (g_fs s))" and "boot_describes (stored view (disk s)) (g_fs s)"
  shows "\<exists>s1. fat12_write_file (ata_disk H) (Some p) (Some data) sz s = Some (Inr (), s1)
    \<and> (\<forall>t. disk t = disk s1 \<longrightarrow> (\<exists>s2 s3. fat12_init (ata_disk H) (base_lba (g_fs s)) t = (Inr (), s2)
          \<and> fat12_read_file (ata_disk H) (Some p) (Some buf) max_size s2 =
              Some (Inr sz, Some (mem_put buf 0 (mem_get data 0 (unat sz))), s3)))"
  using sector_store.write_remount_spec [OF ata_device.linked [OF assms(1)] assms(2-12)] .

theorem write_survives_remount_witness:
  "\<exists>s1. fat12_write_file (ata_disk drive) (Some a_txt) (Some (\<lambda>_. 0x68)) 5 blank_volume = Some (Inr (), s1)
    \<and> (\<exists>s2 s3. fat12_init (ata_disk drive) 0 (blank_volume\<lparr>disk := disk s1\<rparr>) = (Inr (), s2)
        \<and> fat12_read_file (ata_disk drive) (Some a_txt) (Some (\<lambda>_. 0)) 5 s2 =
              Some (Inr 5, Some (mem_put (\<lambda>_. 0) 0 (mem_get (\<lambda>_. 0x68) 0 5)), s3))"
proof -
  have f: "g_current_dir_cluster blank_volume = 0" "coherent (stored here (disk blank_volume)) blank_volume"
    "0 < unat (num_fats (g_fs blank_volume))" "0 < unat (fat_start_lba (g_fs blank_volume))"
    "boot_describes (stored here (disk blank_volume)) (g_fs blank_volume)" "base_lba (g_fs blank_volume) = 0"
    using blank_coherent blank_boot by (simp_all add: blank_volume_def) (simp_all add: floppy_fs_def)
  have sz: "unat (5 :: u32) \<le> 512" "(5 :: u32) \<le> 5" by simp_all
  obtain s1 where s1: "fat12_write_file (ata_disk drive) (Some a_txt) (Some (\<lambda>_. 0x68)) 5 blank_volume = Some (Inr (), s1)"
    "\<forall>t. disk t = disk s1 \<longrightarrow> (\<exists>s2 s3. fat12_init (ata_disk drive) 0 t = (Inr (), s2)
          \<and> fat12_read_file (ata_disk drive) (Some a_txt) (Some (\<lambda>_. 0)) 5 s2 =
              Some (Inr 5, Some (mem_put (\<lambda>_. 0) 0 (mem_get (\<lambda>_. 0x68) 0 (unat (5 :: u32)))), s3))"
    using write_survives_remount [OF drive_device blank_mounted a_path(1) blank_cwd(1) f(1)
        blank_bound [OF blank_cwd(2)] blank_room [OF sz(1)] sz(2) f(2-5)] unfolding f(6) by blast
  show ?thesis using s1(1) s1(2) [rule_format, of "blank_volume\<lparr>disk := disk s1\<rparr>"] by auto
qed

text \<open>
  C10. Deletion: \<open>fat12_delete_file\<close> of a file succeeds, the name is unbound afterwards,
  the file's clusters are exactly the ones added to the free clusters, and every other
  file keeps its content.
\<close>

theorem delete_frees_file:
  assumes "ata_device H view cap" and "mounted (drive_ok view cap) cap s" and "plain_path p name"
    and "cwd_ok (stored view (disk s)) s dcs" and "holds_file (stored view (disk s)) s dcs name ocs content"
  shows "\<exists>s'. fat12_delete_file (ata_disk H) (Some p) s = Some (Inr (), s')
    \<and> cwd_ok (stored view (disk s')) s' dcs
    \<and> dir_map (cwd_entries (stored view (disk s')) s' dcs) name = None
    \<and> free_clusters s' = free_clusters s \<union> set ocs
    \<and> (\<forall>name' cs content'. name' \<noteq> name \<and> set cs \<inter> set ocs = {}
         \<and> holds_file (stored view (disk s)) s dcs name' cs content'
         \<longrightarrow> holds_file (stored view (disk s')) s' dcs name' cs content')"
  by (rule sector_store.delete_held_file [OF ata_device.linked [OF assms(1)] assms(2-5)]) blast

theorem delete_frees_file_witness:
  "\<exists>s'. fat12_delete_file (ata_disk drive) (Some a_txt) file_volume = Some (Inr (), s')
    \<and> free_clusters s' = free_clusters file_volume \<union> {2}"
  using delete_frees_file [OF drive_device file_mounted a_path(1) file_cwd(1) file_holds_a] by auto

end
