(* ===== verification/Fat12_Core_Properties.thy ===== *)
theory Fat12_Core_Properties
  imports Fat12_Example
begin

text \<open>
  Properties of the parts of the file system: mounting, the allocation table and its
  chains, directories as finite maps, names and paths, and the error paths of the file
  operations.
\<close>

section \<open>Mounting\<close>

text \<open>
  C14. Mounting a sound volume: on any drive that keeps the PIO protocol, a boot sector that
  describes a sound FAT12 geometry which fits the drive makes \<open>fat12_init\<close> succeed, with
  that geometry, with caches equal to the sectors they come from, at the root directory,
  and without changing a sector.
\<close>

theorem mount_sound_volume:
  assumes "ata_device H view cap" and "drive_ok view cap (disk s)" and "geometry_ok fs"
    and "volume_fits fs cap" and "0 < unat (num_fats fs)" and "boot_describes (stored view (disk s)) fs"
  shows "\<exists>s'. fat12_init (ata_disk H) (base_lba fs) s = (Inr (), s') \<and> g_fs s' = fs
    \<and> mounted (drive_ok view cap) cap s' \<and> stored view (disk s') = stored view (disk s)
    \<and> synced (stored view (disk s)) s' \<and> g_current_dir_cluster s' = 0 \<and> g_path_depth s' = 0
    \<and> fat12_get_cwd s' = [0x2F]"
  by (rule sector_store.init_spec [OF ata_device.linked [OF assms(1)] assms(2-6)])
    (auto simp: g_path_depth_def fat12_get_cwd_def)

theorem mount_sound_volume_witness:
  "\<exists>s'. fat12_init (ata_disk drive) 0 blank_volume = (Inr (), s') \<and> g_fs s' = floppy_fs"
  using mount_sound_volume [OF drive_device _ floppy_geometry, of blank_volume] blank_drive_ok blank_boot
  by (auto simp: blank_volume_def) (auto simp: floppy_fs_def)

text \<open>
  C15. Whatever a disk delivers, when \<open>fat12_init\<close> returns \<open>FAT12_OK\<close> the geometry is sound:
  1 to 32 sectors per cluster, 1 to 4084 clusters, tables and root directory within their
  arrays, the regions in their order without wrap-around, and the volume no longer than
  the boot sector says.
\<close>

theorem mount_geometry_sound:
  assumes "fat12_init D base s = (Inr (), s')"
  shows "geometry_ok (g_fs s') \<and> volume_sectors (g_fs s') \<le> unat (total_sectors (g_fs s'))
       \<and> base_lba (g_fs s') = base"
  using init_geometry_aux [OF assms] .

theorem mount_geometry_sound_witness:
  "\<exists>s'. fat12_init (ata_disk drive) 0 blank_volume = (Inr (), s') \<and> geometry_ok (g_fs s')"
proof -
  have "drive_ok here 2880 (disk blank_volume)" "0 < unat (num_fats floppy_fs)" "base_lba floppy_fs = 0"
    "boot_describes (stored here (disk blank_volume)) floppy_fs"
    using blank_drive_ok blank_boot by (simp_all add: blank_volume_def) (simp_all add: floppy_fs_def)
  from sector_store.init_spec [OF ata_device.linked [OF drive_device] this(1) floppy_geometry this(2,4)] this(3)
  obtain s' where "fat12_init (ata_disk drive) 0 blank_volume = (Inr (), s')" by metis
  then show ?thesis using mount_geometry_sound by blast
qed

section \<open>The allocation table\<close>

text \<open>
  C16. The packed 12-bit table is an array: after \<open>fat12_set_fat_entry\<close>, \<open>fat12_get_fat_entry\<close>
  reads the low 12 bits of the value at that cluster and every other entry as before, the
  neighbour that shares a byte included; a cluster outside the table reads as end of chain.
\<close>

theorem fat_is_array:
  "fat12_get_fat_entry (fat12_set_fat_entry c v s) c' =
     (if c' = c \<and> in_fat s c then v AND 0x0FFF
      else if in_fat s c' then fat12_get_fat_entry s c' else FAT12_CLUSTER_EOC)"
  by (auto simp: get_set get_out_of_fat)

text \<open>
  C17. Releasing a chain marks exactly its clusters free and changes no other entry, nor any
  other part of the state.
\<close>

theorem free_chain_frees_chain:
  assumes "is_chain s c cs" and "\<forall>x \<in> set cs. in_fat s x"
  shows "(\<forall>x. fat12_get_fat_entry (fat12_free_chain c s) x =
           (if x \<in> set cs then FAT12_CLUSTER_FREE else fat12_get_fat_entry s x))
    \<and> fat12_free_chain c s =
        s\<lparr>g_fat_primary := g_fat_primary (fat12_free_chain c s), g_fat_dirty := g_fat_dirty s \<or> cs \<noteq> []\<rparr>"
proof
  show "\<forall>x. fat12_get_fat_entry (fat12_free_chain c s) x =
           (if x \<in> set cs then FAT12_CLUSTER_FREE else fat12_get_fat_entry s x)"
    using free_chain_entries [OF assms(1)] assms(2) by auto
  have "g_fat_dirty (fat12_free_chain c s) = (g_fat_dirty s \<or> cs \<noteq> [])" using assms(1)
  proof (induction cs arbitrary: c s)
    case (Cons x xs)
    let ?s = "fat12_set_fat_entry x FAT12_CLUSTER_FREE s"
    have x: "c = x" "chain_link x" "is_chain s (fat12_get_fat_entry s x) xs" using Cons.prems by auto
    have "x \<notin> set xs" using is_chain_distinct [OF Cons.prems] by simp
    then have "is_chain ?s (fat12_get_fat_entry s x) xs" using x(3) by (subst is_chain_cong) (auto simp: get_set)
    from Cons.IH [OF this] show ?case using x(1,2) by (subst free_chain_step) simp
  qed simp
  then show "fat12_free_chain c s =
        s\<lparr>g_fat_primary := g_fat_primary (fat12_free_chain c s), g_fat_dirty := g_fat_dirty s \<or> cs \<noteq> []\<rparr>"
    by (intro fat12_state.equality) simp_all
qed

theorem free_chain_frees_chain_witness:
  "fat12_get_fat_entry (fat12_free_chain 2 file_volume) 2 = FAT12_CLUSTER_FREE"
proof -
  have "is_chain file_volume 2 [2]" "\<forall>x \<in> set [2]. in_fat file_volume x"
    using file_chain_a by (simp_all add: file_chain_def)
  from free_chain_frees_chain [OF this] show ?thesis by simp
qed

text \<open>
  C18. The release ends on every table, corrupted ones with cycles included: each entry is
  then free or as before, the start is free when it is a data cluster of the table, and no
  byte past the 64 sectors of \<open>g_fat_primary\<close> is written.
\<close>

theorem free_chain_any_table:
  "fat12_get_fat_entry (fat12_free_chain c s) x \<in> {FAT12_CLUSTER_FREE, fat12_get_fat_entry s x}
   \<and> (if chain_link c \<and> in_fat s c then fat12_get_fat_entry (fat12_free_chain c s) c = FAT12_CLUSTER_FREE
      else True)
   \<and> g_fat_primary (fat12_free_chain c s) (32768 + i) = g_fat_primary s (32768 + i)"
  using free_chain_zero_or_same [of c s x] free_chain_frees_start [of c s] free_chain_in_array [of "32768 + i" c s]
  by simp

section \<open>Directories\<close>

text \<open>
  C19. Lookup: \<open>fat12_find_entry\<close> on a directory of a mounted volume (the root or a chain of
  clusters) returns the entry the directory's map holds under the short name, and
  \<open>FAT12_ERR_NOT_FOUND\<close> when it holds none; it changes nothing but the cluster buffer.
\<close>

theorem find_entry_is_lookup:
  assumes "ata_device H view cap" and "mounted (drive_ok view cap) cap s" and "dir_chain s dir cs"
    and "length name = 11"
  shows "\<exists>r s'. fat12_find_entry (ata_disk H) dir name s = Some (r, s')
    \<and> (case dir_map (dir_entries (stored view (disk s)) s dir cs) name of
         None \<Rightarrow> r = Inl FAT12_ERR_NOT_FOUND | Some e \<Rightarrow> \<exists>owner idx. r = Inr (e, owner, idx))
    \<and> vol_step (drive_ok view cap) (stored view) s s' {} {}"
proof -
  obtain s1 where "vol_step (drive_ok view cap) (stored view) s s1 {} {}"
    "fat12_find_entry (ata_disk H) dir name s =
       Some (found_at (g_fs s) dir cs (dir_entries (stored view (disk s)) s dir cs)
               (dir_find (dir_entries (stored view (disk s)) s dir cs) name), s1)"
    by (rule sector_store.find_entry_spec [OF ata_device.linked [OF assms(1)] assms(2-4)])
  then show ?thesis
    by (cases "dir_find (dir_entries (stored view (disk s)) s dir cs) name")
      (auto simp: dir_map_def found_at_def prod_eq_iff)
qed

theorem find_entry_is_lookup_witness:
  "\<exists>r s'. fat12_find_entry (ata_disk drive) 0 a_name file_volume = Some (r, s')
     \<and> (\<exists>owner idx. r = Inr (a_entry, owner, idx))"
proof -
  have "dir_chain file_volume 0 []" "length a_name = 11" by (simp_all add: dir_chain_def a_name_def)
  from find_entry_is_lookup [OF drive_device file_mounted this] file_cwd(2) show ?thesis
    by (auto simp: file_fields)
qed

text \<open>
  C20. Update: \<open>fat12_write_directory_entry\<close> updates the directory's map at the entry's name
  and nowhere else, replacing, filling a free slot, or extending the directory by a
  cluster, and keeps the directory well-formed.
\<close>

theorem write_directory_entry_is_update:
  assumes "ata_device H view cap" and "mounted (drive_ok view cap) cap s" and "dir_chain s dir cs"
    and "wf_entry e" and "dir_wf (dir_entries (stored view (disk s)) s dir cs)"
    and "slot_live e" and "re_name e = name"
    and "slot_available (stored view (disk s)) s dir cs name"
    and "put_slot (dir_entries (stored view (disk s)) s dir cs) name = None \<longrightarrow> fat_covers s"
  shows "\<exists>s' cs'. fat12_write_directory_entry (ata_disk H) dir name e s = Some (Inr (), s')
    \<and> dir_chain s' dir cs' \<and> dir_wf (dir_entries (stored view (disk s')) s' dir cs')
    \<and> dir_map (dir_entries (stored view (disk s')) s' dir cs') =
        (dir_map (dir_entries (stored view (disk s)) s dir cs))(name \<mapsto> e)"
  by (rule sector_store.write_directory_entry_ok
      [OF ata_device.linked [OF assms(1)] assms(2-5) assms(6,7) assms(8,9)]) blast

theorem write_directory_entry_is_update_witness:
  "\<exists>s' cs'. fat12_write_directory_entry (ata_disk drive) 0 a_name a_entry blank_volume = Some (Inr (), s')
    \<and> dir_map (dir_entries (stored here (disk s')) s' 0 cs') a_name = Some a_entry"
proof -
  have d: "g_current_dir_cluster blank_volume = 0" by (simp add: blank_volume_def)
  have slot: "put_slot (dir_entries (stored here (disk blank_volume)) blank_volume 0 []) a_name \<noteq> None"
    using blank_room [of 0 "stored here (disk blank_volume)" a_name] by (simp add: room_for_def Let_def d)
  have "dir_chain blank_volume 0 []" "dir_wf (dir_entries (stored here (disk blank_volume)) blank_volume 0 [])"
    "slot_available (stored here (disk blank_volume)) blank_volume 0 [] a_name"
    using blank_cwd(1) [of "stored here (disk blank_volume)"] slot by (simp_all add: cwd_ok_def slot_available_def d)
  from write_directory_entry_is_update [OF drive_device blank_mounted this(1) a_entry_facts(1) this(2)
      a_entry_facts(2,3) this(3)] slot
  obtain s' cs' where "fat12_write_directory_entry (ata_disk drive) 0 a_name a_entry blank_volume = Some (Inr (), s')"
    "dir_map (dir_entries (stored here (disk s')) s' 0 cs') =
       (dir_map (dir_entries (stored here (disk blank_volume)) blank_volume 0 []))(a_name \<mapsto> a_entry)" by blast
  then show ?thesis by (intro exI [of _ s'] exI [of _ cs']) simp
qed

end
