(* ===== verification/Fat12_Path_Properties.thy ===== *)
theory Fat12_Path_Properties
  imports Fat12_Example
begin

text \<open>
  Properties of names, paths and sessions, and of the error paths of the file
  operations.
\<close>

section \<open>Sessions\<close>

text \<open>
  C24. In every state a session reaches, on any disk and whatever calls failed: a ready file
  system has a sound geometry, the path has at most 16 levels with one displayable name
  each, the current directory is the top of the stack (the root for the empty one) while
  there are fewer than 16, and \<open>fat12_get_cwd\<close> is a slash and these names with slashes between
  them, cut behind the slash of the last level that fits when that is 127 characters or more;
  it is always shorter than its 128-byte buffer.
\<close>

theorem session_path_invariant:
  assumes "fs_session D s"
  shows "(g_fs_ready s \<longrightarrow> geometry_ok (g_fs s)) \<and> g_path_depth s \<le> FAT12_MAX_PATH_DEPTH
    \<and> length (g_path_names s) = g_path_depth s \<and> (\<forall>nm \<in> set (g_path_names s). shown_name nm)
    \<and> (g_path_depth s < FAT12_MAX_PATH_DEPTH \<longrightarrow> g_current_dir_cluster s = stack_top (g_path_stack s))
    \<and> (if length (join_names (g_path_names s)) < 126 then fat12_get_cwd s = 0x2F # join_names (g_path_names s)
       else \<exists>k < g_path_depth s. length (join_names (take k (g_path_names s))) < 126
              \<and> 126 \<le> length (join_names (take (Suc k) (g_path_names s)))
              \<and> fat12_get_cwd s = 0x2F # concat (map (\<lambda>nm. nm @ [0x2F]) (take k (g_path_names s))))
    \<and> length (fat12_get_cwd s) < FAT12_PATH_MAX"
proof -
  have ok: "session_ok s" using session_invariant [OF assms] .
  then have "shows_path (g_path_names s) (fat12_get_cwd s)" "length (g_path_names s) = g_path_depth s"
    using cwd_string_shows by (auto simp: session_ok_def path_ok_def fat12_get_cwd_def g_path_depth_def)
  moreover have "length (cwd_string ns) < FAT12_PATH_MAX" for ns
    using rebuild_cwd_bound [of "[0x2F]" ns] by (simp add: cwd_string_def)
  ultimately show ?thesis
    using ok by (auto simp: session_ok_def path_ok_def g_path_depth_def fat12_get_cwd_def shows_path_def path_fits_def not_less)
qed

text \<open>A mount of the volume with the directory \<open>B\<close>, and \<open>cd b\<close>.\<close>

theorem session_path_invariant_witness:
  "\<exists>s. fs_session (ata_disk drive) s \<and> g_path_depth s = 1 \<and> g_current_dir_cluster s = 2
     \<and> g_path_names s = [[0x42]] \<and> fat12_get_cwd s = [0x2F, 0x42]"
proof -
  obtain s where s: "fs_session (ata_disk drive) s" "mounted (drive_ok here 2880) 2880 s"
    "tree_ok (stored here (disk s)) s sub_chains {0, 2}"
    "tree_of (stored here (disk s)) s sub_chains 0 = (\<lambda>_. None)(b_name \<mapsto> sub_entry)"
    "g_current_dir_cluster s = 0" "g_path_stack s = []" "g_path_names s = []"
    by (rule dir_session)
  have here: "g_current_dir_cluster s \<in> {0, 2}" "set (g_path_stack s) \<subseteq> {0, 2}" "char_at b_txt 0 \<noteq> 0"
    using s(5,6) by (simp_all add: b_txt_def)
  have "tree_enter (tree_of (stored here (disk s)) s sub_chains 0) b_txt = Inr sub_entry"
    using a_path(2) sub_entry_facts(4) s(4) by (simp add: tree_enter_def plain_path_def)
  then have "start_walk (tree_of (stored here (disk s)) s sub_chains) b_txt s = Inr (2, [2], [[0x42]])"
    using sub_entry_facts(3,5) s(5-7) b_name_shown
    by (simp add: start_walk_def starts_at_root_def b_txt_def is_sep_def is_dot_def is_dotdot_def push_stack_def)
  then obtain s1 where s1: "fat12_change_directory (ata_disk drive) (Some b_txt) s = Some (Inr (), s1)"
    "g_current_dir_cluster s1 = 2" "g_path_stack s1 = [2]" "g_path_names s1 = [[0x42]]"
    using sector_store.change_directory_tree [OF ata_device.linked [OF drive_device] s(2,3) here] by auto
  have "fs_session (ata_disk drive) s1" using session_call [OF s(1) call_chdir [OF s1(1)]] .
  from session_path_invariant [OF this] this s1(2-4) show ?thesis
    by (intro exI [of _ s1]) (simp add: g_path_depth_def)
qed

section \<open>Paths\<close>

text \<open>
  Components: the sequence of components that repeated calls of \<open>fat12_path_next\<close> deliver
  is the sequence of maximal runs without separators and NUL, each cut to the 31
  characters of its buffer; empty components are skipped.
\<close>

theorem path_next_splits:
  "path_components p = map (take 31) (split_path p [])"
  by (rule path_components_split)

text \<open>
  C12. Changing directory is a walk over the directory tree: on a mounted volume whose
  directories are chains, \<open>fat12_change_directory\<close> returns; its result is that of the walk
  over the directories' maps from the root (an absolute path) or the current directory;
  an error leaves the session as it was, success installs the directory, stack and names of
  the walk, the path string is the path of these names when they are displayable, and the
  tree is unchanged.
\<close>

theorem change_directory_is_tree_walk:
  assumes "ata_device H view cap" and "mounted (drive_ok view cap) cap s"
    and "tree_ok (stored view (disk s)) s ch N"
    and "g_current_dir_cluster s \<in> N" and "set (g_path_stack s) \<subseteq> N" and "char_at p 0 \<noteq> 0"
  shows "\<exists>s'. (case start_walk (tree_of (stored view (disk s)) s ch) p s of
      Inl e \<Rightarrow> fat12_change_directory (ata_disk H) (Some p) s = Some (Inl e, s')
        \<and> vol_step (drive_ok view cap) (stored view) s s' {} {}
    | Inr (c, st, ns) \<Rightarrow> fat12_change_directory (ata_disk H) (Some p) s = Some (Inr (), s')
        \<and> g_current_dir_cluster s' = c \<and> g_path_stack s' = st \<and> g_path_names s' = ns
        \<and> fat12_get_cwd s' = cwd_string ns \<and> ((\<forall>nm \<in> set ns. shown_name nm) \<longrightarrow> shows_path ns (fat12_get_cwd s'))
        \<and> mounted (drive_ok view cap) cap s' \<and> g_fs s' = g_fs s
        \<and> tree_ok (stored view (disk s')) s' ch N
        \<and> (\<forall>c \<in> N. tree_of (stored view (disk s')) s' ch c = tree_of (stored view (disk s)) s ch c))"
proof -
  note shown = cwd_string_shows
  show ?thesis
    using sector_store.change_directory_tree [OF ata_device.linked [OF assms(1)] assms(2-6)]
    by (elim exE) (rule exI, auto simp: shown split: sum.splits)
qed

theorem change_directory_is_tree_walk_witness:
  "\<exists>s'. fat12_change_directory (ata_disk drive) (Some (0x2F # b_txt)) dir_volume = Some (Inr (), s')
    \<and> g_current_dir_cluster s' = 2"
proof -
  let ?T = "tree_of (stored here (disk dir_volume)) dir_volume sub_chains"
  have enter: "tree_enter (?T 0) b_txt = Inr sub_entry"
    using a_path(2) sub_entry_facts(4) sub_tree [of "stored here (disk dir_volume)"]
    by (simp add: tree_enter_def plain_path_def)
  have "start_walk ?T (0x2F # b_txt) dir_volume = Inr (2, [2], [fat12_dir_name_to_string b_name])"
    using enter sub_entry_facts(3,5)
    by (simp add: start_walk_def starts_at_root_def b_txt_def is_sep_def is_dot_def is_dotdot_def push_stack_def)
  then show ?thesis
    using change_directory_is_tree_walk [OF drive_device one_mounted dir_tree, of "0x2F # b_txt"]
    by (auto simp: one_fields)
qed

text \<open>
  C25. Down and up: entering a subdirectory by its name and leaving it with \<open>..\<close> restores the
  whole session (directory, stack, names, path string), whenever fewer than 16 levels are
  in use; in between the path string is the names of the levels so far and the entered name
  behind a slash each, when that is at most 126 characters (otherwise it is cut behind a
  level that fits).
\<close>

theorem cd_down_and_up:
  assumes "ata_device H view cap" and "mounted (drive_ok view cap) cap s"
    and "tree_ok (stored view (disk s)) s ch N"
    and "g_current_dir_cluster s \<in> N" and "set (g_path_stack s) \<subseteq> N"
    and "session_ok s" and "g_path_depth s < FAT12_MAX_PATH_DEPTH" and "plain_path p name"
    and "tree_of (stored view (disk s)) s ch (g_current_dir_cluster s) name = Some e" and "is_directory e"
  shows "\<exists>s1 s2. fat12_change_directory (ata_disk H) (Some p) s = Some (Inr (), s1)
    \<and> g_current_dir_cluster s1 = re_first_cluster_low e
    \<and> shows_path (g_path_names s @ [fat12_dir_name_to_string (re_name e)]) (fat12_get_cwd s1)
    \<and> (length (concat (map (\<lambda>nm. 0x2F # nm) (g_path_names s @ [fat12_dir_name_to_string (re_name e)]))) \<le> 126
       \<longrightarrow> fat12_get_cwd s1 = concat (map (\<lambda>nm. 0x2F # nm) (g_path_names s @ [fat12_dir_name_to_string (re_name e)])))
    \<and> fat12_change_directory (ata_disk H) (Some [0x2E, 0x2E]) s1 = Some (Inr (), s2)
    \<and> config_of s2 = config_of s"
proof -
  let ?ns = "g_path_names s @ [fat12_dir_name_to_string (re_name e)]"
  obtain s1 s2 where s: "fat12_change_directory (ata_disk H) (Some p) s = Some (Inr (), s1)"
    "g_current_dir_cluster s1 = re_first_cluster_low e" "shows_path ?ns (fat12_get_cwd s1)"
    "fat12_change_directory (ata_disk H) (Some [0x2E, 0x2E]) s1 = Some (Inr (), s2)" "config_of s2 = config_of s"
    using sector_store.cd_and_back
      [OF ata_device.linked [OF assms(1)] assms(2-6) assms(7) [unfolded g_path_depth_def] assms(8-10)] by blast
  have "0x2F # join_names ?ns = concat (map (\<lambda>nm. 0x2F # nm) ?ns)" by (rule join_slashes) simp
  then show ?thesis
    using s shows_path_fits [OF s(3)] by (intro exI [of _ s1] exI [of _ s2]) auto
qed

theorem cd_down_and_up_witness:
  "\<exists>s1 s2. fat12_change_directory (ata_disk drive) (Some b_txt) dir_volume = Some (Inr (), s1)
    \<and> fat12_get_cwd s1 = [0x2F, 0x42]
    \<and> fat12_change_directory (ata_disk drive) (Some [0x2E, 0x2E]) s1 = Some (Inr (), s2)
    \<and> config_of s2 = config_of dir_volume"
proof -
  have "session_ok dir_volume" "g_path_depth dir_volume < FAT12_MAX_PATH_DEPTH"
    using floppy_geometry by (simp_all add: session_ok_def one_fields cwd_string_def g_path_depth_def)
  then show ?thesis
    using cd_down_and_up [OF drive_device one_mounted dir_tree _ _ _ _ a_path(2) _ sub_entry_facts(4)]
      sub_tree [of "stored here (disk dir_volume)"] sub_entry_facts(3) b_name_shown
    by (simp add: one_fields) blast
qed

section \<open>Names\<close>

text \<open>
  C34. The accepted names: \<open>fat12_make_short_name\<close> accepts a string exactly when, upper-cased,
  it is a base of 1 to 8 and an optional extension of up to 3 letters, digits, \<open>_\<close> or
  \<open>-\<close>, separated by a dot, and returns both padded with spaces.
\<close>

theorem short_name_grammar:
  "fat12_make_short_name (Some str) = Inr out \<longleftrightarrow>
     (\<exists>b e. valid_base b \<and> valid_ext e \<and> spells83 b e (map fat12_to_upper (cstr str)) \<and> out = pack83 b e)"
proof
  assume mk: "fat12_make_short_name (Some str) = Inr out"
  obtain b e where be: "valid_base b" "valid_ext e" "out = pack83 b e" "spells83 b e (copy_upper 0 str)"
    by (rule make_short_name_cases [OF mk])
  have "copy_upper 0 str = map fat12_to_upper (cstr str)"
    using copy_upper_short spells83_length [OF be(1,2,4)] by blast
  with be show "\<exists>b e. valid_base b \<and> valid_ext e \<and> spells83 b e (map fat12_to_upper (cstr str)) \<and> out = pack83 b e"
    by auto
qed (auto intro: make_short_name_spelled)

text \<open>
  C35. Names round trip: the display form of an accepted name (\<open>fat12_dir_name_to_string\<close>) fits
  its 13-byte buffer, and parsing it again gives the same 11 bytes.
\<close>

theorem short_name_display_roundtrip:
  assumes "fat12_make_short_name (Some str) = Inr out"
  shows "fat12_make_short_name (Some (fat12_dir_name_to_string out)) = Inr out
    \<and> length (fat12_dir_name_to_string out) < FAT12_MAX_DISPLAY_NAME"
proof -
  obtain b e where be: "valid_base b" "valid_ext e" "out = pack83 b e"
    by (rule make_short_name_cases [OF assms])
  let ?d = "if e = [] then b else b @ 0x2E # e"
  have d: "fat12_dir_name_to_string out = ?d" using display_pack83 [OF be(1,2)] be(3) by simp
  have up: "map fat12_to_upper b = b" "map fat12_to_upper e = e"
    using be by (auto intro!: map_upper_valid simp: valid_base_def valid_ext_def)
  have "0 \<notin> set b \<union> set e"
    using be valid_char_facts by (fastforce simp: valid_base_def valid_ext_def list_all_iff)
  then have "cstr ?d = ?d" by (intro cstr_idem) (auto split: if_splits)
  then have "spells83 b e (map fat12_to_upper (cstr ?d))" using up by (auto simp: spells83_def fat12_to_upper_def)
  then show ?thesis
    using make_short_name_spelled [OF be(1,2)] be(3) d display_length [OF make_short_name_length [OF assms]]
    by simp
qed

theorem short_name_display_roundtrip_witness:
  "fat12_make_short_name (Some (fat12_dir_name_to_string a_name)) = Inr a_name"
  using short_name_display_roundtrip [of a_txt a_name] a_path(1) by (simp add: plain_path_def)

section \<open>Errors\<close>

text \<open>
  C27. A full volume: when the data needs more clusters than are free, \<open>fat12_write_file\<close>
  returns \<open>FAT12_ERR_NO_FREE_CLUSTER\<close>, and the whole table and the directory are as
  before: what was allocated on the way is free again, and the old file is intact.
\<close>

theorem full_volume_write_undone:
  assumes "ata_device H view cap" and "mounted (drive_ok view cap) cap s" and "plain_path p name"
    and "cwd_ok (stored view (disk s)) s dcs" and "bound_file (stored view (disk s)) s dcs name ocs"
    and "card (free_clusters s) < blocks_needed (cluster_bytes (g_fs s)) (unat sz)"
  shows "\<exists>s'. fat12_write_file (ata_disk H) (Some p) (Some data) sz s = Some (Inl FAT12_ERR_NO_FREE_CLUSTER, s')
    \<and> (\<forall>x. fat12_get_fat_entry s' x = fat12_get_fat_entry s x)
    \<and> cwd_entries (stored view (disk s')) s' dcs = cwd_entries (stored view (disk s)) s dcs
    \<and> others_kept (stored view) (free_clusters s) s s'"
  by (rule sector_store.write_file_disk_full [OF ata_device.linked [OF assms(1)] assms(2-6), where data = data]) blast

lemma blank_free_le: "card (free_clusters blank_volume) \<le> 2847"
proof -
  have "free_clusters blank_volume \<subseteq> of_nat ` {2..<2849}"
    by (auto simp: blank_free valid_cluster_def floppy_fs_def intro!: image_eqI [where x = "unat _"])
  then have "card (free_clusters blank_volume) \<le> card ((of_nat :: nat \<Rightarrow> u16) ` {2..<2849})"
    by (intro card_mono) auto
  also have "\<dots> \<le> card {2..<2849 :: nat}" by (rule card_image_le) simp
  finally show ?thesis by simp
qed

theorem full_volume_write_undone_witness:
  "\<exists>s'. fat12_write_file (ata_disk drive) (Some a_txt) (Some (\<lambda>_. 1)) 2000000 blank_volume =
     Some (Inl FAT12_ERR_NO_FREE_CLUSTER, s')"
proof -
  have "card (free_clusters blank_volume) < blocks_needed (cluster_bytes (g_fs blank_volume)) (unat (2000000 :: u32))"
    using blank_free_le by (simp add: blocks_needed_def cluster_bytes_def blank_volume_def floppy_fs_def)
  from full_volume_write_undone [OF drive_device blank_mounted a_path(1) blank_cwd(1) blank_bound [OF blank_cwd(2)] this]
  show ?thesis by blast
qed

text \<open>
  C37. A directory is not a file: on a path that names a directory, reading and deleting
  return \<open>FAT12_ERR_NOT_FILE\<close>, writing and creating return \<open>FAT12_ERR_ALREADY_EXISTS\<close>,
  and table, directories and disk are untouched.
\<close>

theorem directory_is_not_a_file:
  assumes "ata_device H view cap" and "mounted (drive_ok view cap) cap s" and "plain_path p name"
    and "cwd_ok (stored view (disk s)) s dcs"
    and "dir_map (cwd_entries (stored view (disk s)) s dcs) name = Some e" and "is_directory e"
  shows "\<exists>s'. vol_step (drive_ok view cap) (stored view) s s' {} {}
    \<and> fat12_write_file (ata_disk H) (Some p) (Some data) sz s = Some (Inl FAT12_ERR_ALREADY_EXISTS, s')
    \<and> fat12_delete_file (ata_disk H) (Some p) s = Some (Inl FAT12_ERR_NOT_FILE, s')
    \<and> fat12_read_file (ata_disk H) (Some p) (Some buf) max_size s = Some (Inl FAT12_ERR_NOT_FILE, Some buf, s')
    \<and> fat12_create_directory (ata_disk H) (Some p) s = Some (Inl FAT12_ERR_ALREADY_EXISTS, s')"
  by (rule sector_store.file_ops_refuse_directory [OF ata_device.linked [OF assms(1)] assms(2-6),
        where data = data and sz = sz and buf = buf and max_size = max_size]) blast

theorem directory_is_not_a_file_witness:
  "\<exists>s'. fat12_delete_file (ata_disk drive) (Some b_txt) dir_volume = Some (Inl FAT12_ERR_NOT_FILE, s')"
proof -
  have "dir_map (cwd_entries (stored here (disk dir_volume)) dir_volume []) b_name = Some sub_entry"
    using one_cwd(2) [OF sub_entry_facts(1-3)] by (simp add: one_fields)
  from directory_is_not_a_file [OF drive_device one_mounted a_path(2) one_cwd(1) [OF sub_entry_facts(1-3)]
      this sub_entry_facts(4)]
  show ?thesis by blast
qed

end
