(* ===== verification/Ata_Properties.thy ===== *)
theory Ata_Properties
  imports Fat12_Example
begin

text \<open>
  Properties of the ATA driver: round trip and isolation on a drive that keeps the PIO
  protocol; error codes, statistics, bounded polling and the 28-bit address on every
  hardware, broken ones included.
\<close>

section \<open>Data\<close>

text \<open>
  C26. Writing a run of sectors and reading it back, at any place of the drive, gives the
  bytes written; both return 0, by the multi-sector command or sector by sector when the
  drive refuses it, and every other sector keeps its bytes.
\<close>

theorem disk_write_then_read:
  assumes "ata_device H view cap" and "drive_ok view cap d" and "0 < unat cnt" and "unat lba + unat cnt \<le> cap"
  shows "\<exists>d1 d2. disk_write_sectors H lba (Some p) cnt m d = (0, d1)
    \<and> (\<forall>k. k < unat lba \<or> unat lba + unat cnt \<le> k \<longrightarrow> stored view d1 k = stored view d k)
    \<and> disk_read_sectors H lba (Some q) cnt buf d1 = (0, mem_put buf q (mem_get m p (512 * unat cnt)), d2)
    \<and> stored view d2 = stored view d1"
proof -
  obtain d1 where d1: "disk_write_sectors H lba (Some p) cnt m d = (0, d1)" "drive_ok view cap d1"
    "stored view d1 = sectors_update (stored view d) (unat lba) (unat cnt) m p"
    using ata_device.disk_write_sectors_spec [OF assms] by blast
  obtain d2 where "disk_read_sectors H lba (Some q) cnt buf d1 =
      (0, mem_put buf q (sectors_data (stored view d1) (unat lba) (unat cnt)), d2)" "stored view d2 = stored view d1"
    using ata_device.disk_read_sectors_spec [OF assms(1) d1(2) assms(3,4)] by blast
  moreover have "sectors_data (stored view d1) (unat lba) (unat cnt) = mem_get m p (512 * unat cnt)"
    unfolding d1(3) by (rule sectors_data_update_same)
  moreover have "\<forall>k. k < unat lba \<or> unat lba + unat cnt \<le> k \<longrightarrow> stored view d1 k = stored view d k"
    unfolding d1(3) by (auto simp: sectors_update_def)
  ultimately show ?thesis using d1(1) by metis
qed

theorem disk_write_then_read_witness:
  "\<exists>d1 d2. disk_write_sectors drive 100 (Some 0) 3 (\<lambda>i. of_nat i) blank_drive = (0, d1)
    \<and> disk_read_sectors drive 100 (Some 7) 3 (\<lambda>_. 0) d1 =
        (0, mem_put (\<lambda>_. 0) 7 (mem_get (\<lambda>i. of_nat i) 0 (512 * 3)), d2)"
proof -
  have "0 < unat (3 :: u16)" "unat (100 :: u32) + unat (3 :: u16) \<le> 2880" by simp_all
  from disk_write_then_read [OF drive_device blank_drive_ok this, of 0 "\<lambda>i. of_nat i" 7 "\<lambda>_. 0"]
  moreover have "unat (3 :: u16) = 3" by simp
  ultimately show ?thesis by metis
qed

section \<open>Every hardware\<close>

lemma wait_loops_code:
  "wait_for_bsy_loop H n h = (rc, h') \<Longrightarrow> rc = 0 \<or> rc = -1"
  "wait_for_drq_loop H n h = (rc, h') \<Longrightarrow> rc = 0 \<or> rc = -1"
  by (induction n arbitrary: h; auto split: prod.splits if_splits)+

text \<open>
  C40. Whatever the hardware answers: \<open>disk_read_sector\<close> returns 0, -1, -2 or -3 and
  \<open>disk_write_sector\<close> 0 or -1 to -5; -1 is returned exactly for a NULL buffer; a read
  that fails leaves the buffer alone; the statistics count exactly the successes.
\<close>

theorem disk_error_codes:
  "(case disk_read_sector H lba buffer m d of
      (rc, m', d') \<Rightarrow> rc \<in> {0, -1, -2, -3} \<and> (rc = -1 \<longleftrightarrow> buffer = None) \<and> (rc = 0 \<or> m' = m)
        \<and> disk_get_stats d' = (if rc = 0 then (disk_get_stats d)
            \<lparr>read_ops := g_disk_reads d + 1, read_sectors_count := g_disk_read_sectors d + 1\<rparr>
            else disk_get_stats d))
   \<and> (case disk_write_sector H lba buffer m d of
      (rc, d') \<Rightarrow> rc \<in> {0, -1, -2, -3, -4, -5} \<and> (rc = -1 \<longleftrightarrow> buffer = None)
        \<and> disk_get_stats d' = (if rc = 0 then (disk_get_stats d)
            \<lparr>write_ops := g_disk_writes d + 1, write_sectors_count := g_disk_write_sectors d + 1\<rparr>
            else disk_get_stats d))"
  by (auto simp: disk_read_sector_def disk_write_sector_def Let_def disk_get_stats_def
      split: option.splits prod.splits)

text \<open>
  The driver sends 28 address bits: for every hardware, reading or writing a sector is
  reading or writing the sector whose number is the low 28 bits of \<open>lba\<close>.
\<close>

theorem disk_lba_is_28_bits:
  "disk_read_sector H lba buffer m d = disk_read_sector H (lba AND 0x0FFFFFFF) buffer m d
   \<and> disk_write_sector H lba buffer m d = disk_write_sector H (lba AND 0x0FFFFFFF) buffer m d"
proof -
  have m: "(0xFF :: u32) = mask 8" "(0x0FFFFFFF :: u32) = mask 28" "(0x0F :: u32) = mask 4"
    by (simp_all add: mask_eq_exp_minus_1)
  have "drop_bit k (lba AND 0x0FFFFFFF) AND 0xFF = drop_bit k lba AND 0xFF" if "k \<le> 20" for k
    unfolding m by (rule bit_word_eqI) (use that in \<open>auto simp: bit_simps\<close>)
  from this [of 0] this [of 8] this [of 16]
  have low: "(lba AND 0x0FFFFFFF) AND 0xFF = lba AND 0xFF"
    "drop_bit 8 (lba AND 0x0FFFFFFF) AND 0xFF = drop_bit 8 lba AND 0xFF"
    "drop_bit 16 (lba AND 0x0FFFFFFF) AND 0xFF = drop_bit 16 lba AND 0xFF" by simp_all
  have "drop_bit 24 (lba AND 0x0FFFFFFF) AND 0x0F = drop_bit 24 lba AND 0x0F"
    unfolding m by (rule bit_word_eqI) (auto simp: bit_simps)
  with low have "setup_lba H c (lba AND 0x0FFFFFFF) = setup_lba H c lba" for c
    unfolding setup_lba_def by (simp only:)
  then show ?thesis unfolding disk_read_sector_def disk_write_sector_def by (simp only:)
qed

section \<open>Polling\<close>

text \<open>The hardware \<open>H\<close> with a counter of the status reads.\<close>

definition counted :: "'h ata_hw \<Rightarrow> ('h \<times> nat) ata_hw" where
  "counted H =
     \<lparr>inb = (\<lambda>p (h, n). case inb H p h of (v, h') \<Rightarrow> (v, (h', Suc n))),
      outb = (\<lambda>p v (h, n). (outb H p v h, n)),
      inw = (\<lambda>p (h, n). case inw H p h of (v, h') \<Rightarrow> (v, (h', n))),
      outw = (\<lambda>p v (h, n). (outw H p v h, n))\<rparr>"

lemma counted_outb [simp]: "snd (outb (counted H) p v h) = snd h"
  by (simp add: counted_def split: prod.split)

lemma counted_wait:
  "wait_for_bsy_loop (counted H) t h = (rc, h') \<Longrightarrow> snd h' \<le> snd h + t"
  "wait_for_drq_loop (counted H) t h = (rc, h') \<Longrightarrow> snd h' \<le> snd h + t"
  by (induction t arbitrary: h; fastforce simp: counted_def split: prod.splits if_splits)+

lemma counted_words:
  "snd (write_words (counted H) p n m h) = snd h"
  "read_words (counted H) p n m h = (m', h') \<Longrightarrow> snd h' = snd h"
  by (induction n arbitrary: p m h; fastforce simp: counted_def split: prod.splits)+

lemma counted_setup: "snd (setup_lba (counted H) c lba h) = snd h"
  by (simp add: setup_lba_def Let_def)

lemma counted_select: "snd (select_drive (counted H) h) = snd h"
  by (simp add: select_drive_def)

lemma counted_inb: "inb (counted H) p h = (v, h') \<Longrightarrow> snd h' = Suc (snd h)"
  by (auto simp: counted_def split: prod.splits)

text \<open>
  C39. Polling is bounded: on every hardware, one that is busy for ever included, a sector
  read returns after at most 20000 reads of the status register and a sector write after
  at most 30001.
\<close>

theorem disk_polling_bounded:
  "snd (ports (snd (snd (disk_read_sector (counted H) lba buffer m d)))) \<le> snd (ports d) + 20000
   \<and> snd (ports (snd (disk_write_sector (counted H) lba buffer m d))) \<le> snd (ports d) + 30001"
proof (cases buffer)
  case (Some p)
  let ?H = "counted H"
  obtain rc h1 where w1: "wait_for_bsy ?H (select_drive ?H (ports d)) = (rc, h1)" by (metis prod.collapse)
  have n1: "snd h1 \<le> snd (ports d) + 10000"
    using counted_wait(1) w1 counted_select unfolding wait_for_bsy_def by metis
  have drq: "snd h3 \<le> snd (ports d) + 20000"
    if "wait_for_drq ?H (outb ?H r c (setup_lba ?H 1 lba h1)) = (rc2, h3)" for r c rc2 h3
    using counted_wait(2) [OF that [unfolded wait_for_drq_def]] n1 by (simp add: counted_setup)
  have r: "snd h4 \<le> snd (ports d) + 20000"
    if "wait_for_drq ?H (outb ?H r c (setup_lba ?H 1 lba h1)) = (rc2, h3)" "read_words ?H p 256 m h3 = (m', h4)"
    for r c rc2 h3 m' h4
    using drq [OF that(1)] counted_words(2) [OF that(2)] by simp
  have w: "snd h5 \<le> snd (ports d) + 30000"
    if "wait_for_drq ?H (outb ?H r c (setup_lba ?H 1 lba h1)) = (rc2, h3)"
      "wait_for_bsy ?H (write_words ?H p 256 m h3) = (rc3, h5)"
    for r c rc2 h3 rc3 h5
    using drq [OF that(1)] counted_wait(1) [OF that(2) [unfolded wait_for_bsy_def]] by (simp add: counted_words(1))
  show ?thesis
    using n1 Some drq r w
    by (fastforce simp: disk_read_sector_def disk_write_sector_def w1 Let_def dest: counted_inb
        split: prod.splits if_splits)
qed (simp add: disk_read_sector_def disk_write_sector_def)

end
