(* ===== verification/String_Lib.thy ===== *)
theory String_Lib
  imports Prelude "HOL-Library.Sublist"
begin

text \<open>
  \<open>src/lib/string.c\<close>: comparison, search and tokenizing of C strings, and the digits of
  \<open>print_unsigned\<close> and \<open>print_decimal\<close> (the characters they send to the console).

  A string is the list of its bytes, read by \<open>char_at\<close>; the list may end with the NUL or
  hold bytes behind it, \<open>cstr\<close> is the text up to the NUL. A pointer into a string is the
  rest of the list, \<open>None\<close> the NULL pointer. \<open>char\<close> is signed on this target, so the
  comparison functions return differences of \<open>sint\<close> values.
\<close>

section \<open>Comparison and search\<close>

fun strcmp_impl :: "byte list \<Rightarrow> byte list \<Rightarrow> int" where
  "strcmp_impl (x # xs) (y # ys) =
     (if x \<noteq> 0 \<and> y \<noteq> 0 \<and> x = y then strcmp_impl xs ys else sint x - sint y)"
| "strcmp_impl a b = sint (char_at a 0) - sint (char_at b 0)"

fun strncmp_impl :: "byte list \<Rightarrow> byte list \<Rightarrow> nat \<Rightarrow> int" where
  "strncmp_impl a b 0 = 0"
| "strncmp_impl a b (Suc n) =
     (let x = char_at a 0; y = char_at b 0 in
      if x = 0 \<or> y = 0 \<or> x \<noteq> y then sint x - sint y else strncmp_impl (tl a) (tl b) n)"

fun strlen_impl :: "byte list option \<Rightarrow> nat" where
  "strlen_impl None = 0"
| "strlen_impl (Some []) = 0"
| "strlen_impl (Some (c # cs)) = (if c = 0 then 0 else Suc (strlen_impl (Some cs)))"

text \<open>
  \<open>strcpy\<close> between two arrays of the same size, from index \<open>p\<close> with \<open>room\<close> elements left;
  \<open>None\<close> when it runs over their end.
\<close>

fun strcpy_impl :: "nat \<Rightarrow> nat \<Rightarrow> mem \<Rightarrow> mem \<Rightarrow> mem option" where
  "strcpy_impl p 0 dest src = None"
| "strcpy_impl p (Suc room) dest src =
     (if src p \<noteq> 0 then strcpy_impl (Suc p) room (dest(p := src p)) src else Some (dest(p := 0)))"

text \<open>The inner loop: how far \<open>needle\<close> agrees with the haystack from here.\<close>

fun match_len :: "byte list \<Rightarrow> byte list \<Rightarrow> nat" where
  "match_len (h # hs) (n # ns) = (if h \<noteq> 0 \<and> n \<noteq> 0 \<and> h = n then Suc (match_len hs ns) else 0)"
| "match_len _ _ = 0"

fun contains_from :: "byte list \<Rightarrow> byte list \<Rightarrow> nat \<Rightarrow> bool" where
  "contains_from [] needle needle_len = False"
| "contains_from (h # hs) needle needle_len =
     (if h = 0 then False
      else if match_len (h # hs) needle = needle_len then True
      else contains_from hs needle needle_len)"

definition string_contains :: "byte list option \<Rightarrow> byte list option \<Rightarrow> bool" where
  "string_contains haystack needle =
     (case (haystack, needle) of
        (Some h, Some n) \<Rightarrow>
          let needle_len = strlen_impl (Some n) in
          if needle_len = 0 then False else contains_from h n needle_len
      | _ \<Rightarrow> False)"

section \<open>Tokens\<close>

definition is_blank :: "byte \<Rightarrow> bool" where
  "is_blank c \<longleftrightarrow> c = 0x20 \<or> c = 0x09"

fun skip_blanks :: "byte list \<Rightarrow> byte list" where
  "skip_blanks [] = []"
| "skip_blanks (c # cs) = (if is_blank c then skip_blanks cs else c # cs)"

definition skip_whitespace :: "byte list option \<Rightarrow> byte list option" where
  "skip_whitespace str = map_option skip_blanks str"

fun scan_token :: "byte list \<Rightarrow> nat \<Rightarrow> byte list \<Rightarrow> byte list \<times> byte list" where
  "scan_token [] max_len dest = (dest, [])"
| "scan_token (c # cs) max_len dest =
     (if c \<noteq> 0 \<and> \<not> is_blank c
      then scan_token cs max_len (if length dest < max_len - 1 then dest @ [c] else dest)
      else (dest, c # cs))"

text \<open>
  \<open>None\<close> when the function returns 0 before it writes; else the token, whose length is
  returned, and the advanced \<open>*input\<close>.
\<close>

definition read_token :: "byte list option \<Rightarrow> nat \<Rightarrow> (byte list \<times> byte list) option" where
  "read_token input max_len =
     (if max_len = 0 then None
      else case skip_whitespace input of
             None \<Rightarrow> None
           | Some ptr \<Rightarrow> if char_at ptr 0 = 0 then None else Some (scan_token ptr max_len []))"

text \<open>
  The copy loop of \<open>copy_path_argument\<close> (false: the buffer is full), the removal of
  trailing blanks, and the function: the returned length or -1, and \<open>dest\<close>.
\<close>

fun copy_line :: "byte list \<Rightarrow> nat \<Rightarrow> byte list \<Rightarrow> bool \<times> byte list" where
  "copy_line [] max_len dest = (True, dest)"
| "copy_line (c # cs) max_len dest =
     (if c \<noteq> 0 \<and> c \<noteq> 0x0A \<and> c \<noteq> 0x0D
      then (if length dest + 1 \<ge> max_len then (False, dest) else copy_line cs max_len (dest @ [c]))
      else (True, dest))"

definition trim_blanks :: "byte list \<Rightarrow> byte list" where
  "trim_blanks dest = rev (dropWhile is_blank (rev dest))"

definition copy_path_argument :: "byte list option \<Rightarrow> nat \<Rightarrow> int \<times> byte list" where
  "copy_path_argument input max_len =
     (case input of
        None \<Rightarrow> (0, [])
      | Some str \<Rightarrow>
          if max_len = 0 then (0, [])
          else case copy_line str max_len [] of
                 (False, dest) \<Rightarrow> (-1, dest)
               | (True, dest) \<Rightarrow> (int (length (trim_blanks dest)), trim_blanks dest))"

section \<open>Numbers\<close>

text \<open>The digits, least significant first; \<open>room\<close> is what is left of \<open>buffer[16]\<close>.\<close>

fun digit_loop :: "nat \<Rightarrow> u32 \<Rightarrow> byte list \<Rightarrow> byte list" where
  "digit_loop 0 value buffer = buffer"
| "digit_loop (Suc room) value buffer =
     (if value > 0 then digit_loop room (value div 10) (buffer @ [0x30 + ucast (value mod 10)]) else buffer)"

definition unsigned_chars :: "u32 \<Rightarrow> byte list" where
  "unsigned_chars value = (if value = 0 then [0x30] else rev (digit_loop 16 value []))"

definition decimal_chars :: "u32 \<Rightarrow> byte list" where
  "decimal_chars value =
     (if sint value < 0 then 0x2D # unsigned_chars (- (value + 1) + 1) else unsigned_chars value)"

section \<open>What they compute\<close>

lemma sint_eq_iff: "sint (x :: 'a :: len word) = sint y \<longleftrightarrow> x = y"
  using signed_word_eqI [of x y] by auto

lemma sint_eq_0_iff: "sint (x :: 'a :: len word) = 0 \<longleftrightarrow> x = 0"
  using sint_eq_iff [of x 0] by simp

lemma cstr_simps [simp]:
  "cstr [] = []"
  "cstr (c # s) = (if c = 0 then [] else c # cstr s)"
  by (simp_all add: cstr_def)

lemma char_at_0_cstr: "char_at s 0 = 0 \<longleftrightarrow> cstr s = []"
  by (cases s) simp_all

lemma strcmp_impl_eq_0: "strcmp_impl a b = 0 \<longleftrightarrow> cstr a = cstr b"
  by (induction a b rule: strcmp_impl.induct)
    (auto simp: sint_eq_iff sint_eq_0_iff char_at_0_cstr)

lemma strncmp_impl_eq_0: "strncmp_impl a b n = 0 \<longleftrightarrow> take n (cstr a) = take n (cstr b)"
proof (induction n arbitrary: a b)
  case (Suc n)
  then show ?case by (cases a; cases b) (auto simp: Let_def sint_eq_iff sint_eq_0_iff)
qed simp

lemma strcpy_impl_spec:
  assumes "src (p + k) = 0" and "\<And>j. p \<le> j \<Longrightarrow> j < p + k \<Longrightarrow> src j \<noteq> 0" and "k < room"
  shows "strcpy_impl p room dest src = Some (\<lambda>j. if p \<le> j \<and> j \<le> p + k then src j else dest j)"
  using assms
proof (induction k arbitrary: p room dest)
  case 0
  then show ?case by (cases room) (auto intro!: ext)
next
  case (Suc k)
  then obtain r where r: "room = Suc r" "k < r" by (cases room) auto
  have "src (Suc p + k) = 0" "\<And>j. Suc p \<le> j \<Longrightarrow> j < Suc p + k \<Longrightarrow> src j \<noteq> 0"
    using Suc.prems by simp_all
  from Suc.IH [OF this r(2)] Suc.prems(2) [of p] show ?case
    by (auto simp: r(1) intro!: ext)
qed

lemma strlen_impl_cstr: "strlen_impl (Some s) = length (cstr s)"
  by (induction s) (auto simp: cstr_def)

lemma match_len_prefix: "match_len h n = length (cstr n) \<longleftrightarrow> prefix (cstr n) (cstr h)"
  by (induction h n rule: match_len.induct) (auto simp: cstr_def)

lemma contains_from_sublist:
  "cstr n \<noteq> [] \<Longrightarrow> contains_from h n (length (cstr n)) \<longleftrightarrow> sublist (cstr n) (cstr h)"
proof (induction h)
  case Nil
  then show ?case by (simp add: cstr_def)
next
  case (Cons c h)
  show ?case
  proof (cases "c = 0")
    case False
    then have "cstr (c # h) = c # cstr h" by (simp add: cstr_def)
    with False Cons show ?thesis by (auto simp: match_len_prefix sublist_Cons_right)
  qed (use Cons.prems in \<open>simp add: cstr_def\<close>)
qed

lemma skip_blanks_eq: "skip_blanks s = dropWhile is_blank s"
  by (induction s) auto

lemma scan_token_eq:
  "scan_token s n dest =
     (dest @ take (n - 1 - length dest) (takeWhile (\<lambda>c. c \<noteq> 0 \<and> \<not> is_blank c) s),
      dropWhile (\<lambda>c. c \<noteq> 0 \<and> \<not> is_blank c) s)"
proof (induction s n dest rule: scan_token.induct)
  case (2 c cs n dest)
  then show ?case by (auto simp: take_Cons' Suc_diff_Suc)
qed simp

text \<open>Decimal notation.\<close>

fun decimal :: "nat \<Rightarrow> byte list" where
  "decimal n = (if n < 10 then [0x30 + of_nat n] else decimal (n div 10) @ [0x30 + of_nat (n mod 10)])"

declare decimal.simps [simp del]

lemma digit_loop_decimal:
  "0 < unat v \<Longrightarrow> unat v < 10 ^ room \<Longrightarrow> rev (digit_loop room v buf) = decimal (unat v) @ rev buf"
proof (induction room arbitrary: v buf)
  case (Suc room)
  have v: "unat (v div 10) = unat v div 10" "unat (v mod 10) = unat v mod 10"
    by (simp_all add: unat_div unat_mod)
  have d: "(ucast (v mod 10) :: byte) = of_nat (unat v mod 10)"
    using of_nat_unat [of "v mod 10", where 'a = byte] v(2) by simp
  have pos: "v > 0" using Suc.prems(1) unat_gt_0 [of v] by (simp add: word_gt_0)
  show ?case
  proof (cases "unat v < 10")
    case True
    then have "v div 10 = 0" using v(1) by (metis div_less unat_eq_zero)
    moreover have "digit_loop room 0 b = b" for b by (cases room) simp_all
    ultimately show ?thesis using True pos d by (simp add: decimal.simps [of "unat v"])
  next
    case False
    then have "0 < unat (v div 10)" "unat (v div 10) < 10 ^ room"
      using Suc.prems(2) by (simp_all add: v(1) div_greater_zero_iff less_mult_imp_div_less)
    from Suc.IH [OF this] show ?thesis
      using pos False d by (simp add: decimal.simps [of "unat v"] v(1))
  qed
qed simp

lemma unsigned_chars_decimal: "unsigned_chars v = decimal (unat v)"
proof (cases "v = 0")
  case False
  have "unat v < 2 ^ 32" using unsigned_less [of v, where 'a = nat] by simp
  then have "unat v < 10 ^ 16" by simp
  then show ?thesis
    using False digit_loop_decimal [of v 16 "[]"] unat_gt_0 [of v] by (simp add: unsigned_chars_def)
qed (simp add: unsigned_chars_def decimal.simps)

lemma unat_sint_nonneg: "0 \<le> sint (v :: u32) \<Longrightarrow> unat v = nat (sint v)"
  using sint_lt [of v] by (simp add: unat_eq_nat_uint uint_sint take_bit_eq_mod)

lemma unat_neg_sint: "sint (v :: u32) < 0 \<Longrightarrow> unat (- v) = nat (- sint v)"
proof -
  assume neg: "sint v < 0"
  have "uint (- v) = (- (sint v mod 2 ^ 32)) mod 2 ^ 32"
    by (simp add: uint_word_ariths flip: uint_sint take_bit_eq_mod)
      (simp add: uint_sint take_bit_eq_mod)
  then have "uint (- v) = - sint v"
    using neg sint_ge [of v] by (simp add: mod_minus_eq)
  then show ?thesis by (simp add: unat_eq_nat_uint)
qed

lemma decimal_chars_decimal:
  "decimal_chars v =
     (if sint v < 0 then 0x2D # decimal (nat (- sint v)) else decimal (nat (sint v)))"
proof -
  have "- (v + 1) + 1 = - v" by simp
  then show ?thesis
    by (simp add: decimal_chars_def unsigned_chars_decimal unat_sint_nonneg unat_neg_sint del: minus_add_distrib)
qed

end
