(* ===== verification/Console.thy ===== *)
theory Console
  imports String_Lib
begin

text \<open>
  The VGA text console \<open>src/drivers/console/vga_console.c\<close> and the number printing of
  \<open>src/lib/string.c\<close> that writes to it: the cursor, the theme, the text buffer at
  \<open>0xB8000\<close> as a byte array, and the writes to the CRT controller's ports in the order
  they are made. The buffer index is a 32-bit \<open>size_t\<close>, so it wraps.
\<close>

section \<open>Screen, colours and themes\<close>

definition VGA_WIDTH :: int where
  "VGA_WIDTH = 80"

definition VGA_HEIGHT :: int where
  "VGA_HEIGHT = 25"

definition THEME_COUNT :: int where
  "THEME_COUNT = 3"

lemma VGA_simps [simp]: "VGA_WIDTH = 80" "VGA_HEIGHT = 25" "THEME_COUNT = 3"
  by (simp_all add: VGA_WIDTH_def VGA_HEIGHT_def THEME_COUNT_def)

abbreviation (input) VGA_COLOR_BLACK :: u8 where "VGA_COLOR_BLACK \<equiv> 0x0"
abbreviation (input) VGA_COLOR_BLUE :: u8 where "VGA_COLOR_BLUE \<equiv> 0x1"
abbreviation (input) VGA_COLOR_CYAN :: u8 where "VGA_COLOR_CYAN \<equiv> 0x3"
abbreviation (input) VGA_COLOR_LIGHT_GRAY :: u8 where "VGA_COLOR_LIGHT_GRAY \<equiv> 0x7"
abbreviation (input) VGA_COLOR_LIGHT_GREEN :: u8 where "VGA_COLOR_LIGHT_GREEN \<equiv> 0xA"
abbreviation (input) VGA_COLOR_LIGHT_CYAN :: u8 where "VGA_COLOR_LIGHT_CYAN \<equiv> 0xB"
abbreviation (input) VGA_COLOR_YELLOW :: u8 where "VGA_COLOR_YELLOW \<equiv> 0xE"
abbreviation (input) VGA_COLOR_WHITE :: u8 where "VGA_COLOR_WHITE \<equiv> 0xF"

definition VGA_ATTR :: "u8 \<Rightarrow> u8 \<Rightarrow> u8" where
  "VGA_ATTR fg bg = push_bit 4 bg OR fg"

record theme =
  theme_name :: "byte list"
  text_attr :: u8
  status_attr :: u8
  cursor_attr :: u8

definition themes :: "theme list" where
  "themes =
     [\<lparr>theme_name = lit ''normal'', text_attr = VGA_ATTR VGA_COLOR_LIGHT_GRAY VGA_COLOR_BLACK,
       status_attr = VGA_ATTR VGA_COLOR_BLACK VGA_COLOR_LIGHT_GRAY,
       cursor_attr = VGA_ATTR VGA_COLOR_WHITE VGA_COLOR_BLACK\<rparr>,
      \<lparr>theme_name = lit ''blue'', text_attr = VGA_ATTR VGA_COLOR_WHITE VGA_COLOR_BLUE,
       status_attr = VGA_ATTR VGA_COLOR_YELLOW VGA_COLOR_CYAN,
       cursor_attr = VGA_ATTR VGA_COLOR_YELLOW VGA_COLOR_BLUE\<rparr>,
      \<lparr>theme_name = lit ''green'', text_attr = VGA_ATTR VGA_COLOR_LIGHT_GREEN VGA_COLOR_BLACK,
       status_attr = VGA_ATTR VGA_COLOR_BLACK VGA_COLOR_LIGHT_GREEN,
       cursor_attr = VGA_ATTR VGA_COLOR_YELLOW VGA_COLOR_BLACK\<rparr>]"

record console =
  con_x :: int
  con_y :: int
  con_theme :: int
  con_vga :: mem
  con_ports :: "(u16 \<times> u8) list"

definition current_theme :: "console \<Rightarrow> theme" where
  "current_theme con = themes ! nat (con_theme con)"

definition get_current_text_attr :: "console \<Rightarrow> u8" where
  "get_current_text_attr con = text_attr (current_theme con)"

definition get_current_status_attr :: "console \<Rightarrow> u8" where
  "get_current_status_attr con = status_attr (current_theme con)"

section \<open>Cells and the hardware cursor\<close>

text \<open>\<open>VGA_BUFFER[pos * 2] = c; VGA_BUFFER[pos * 2 + 1] = attr\<close>\<close>

definition put_cell :: "int \<Rightarrow> byte \<Rightarrow> u8 \<Rightarrow> mem \<Rightarrow> mem" where
  "put_cell pos c attr m = (let p = nat (pos * 2 mod 2 ^ 32) in m(p := c, p + 1 := attr))"

definition con_outb :: "u16 \<Rightarrow> u8 \<Rightarrow> console \<Rightarrow> console" where
  "con_outb port data con = con\<lparr>con_ports := con_ports con @ [(port, data)]\<rparr>"

definition update_hardware_cursor :: "int \<Rightarrow> int \<Rightarrow> console \<Rightarrow> console" where
  "update_hardware_cursor x y con =
     (let pos = of_int (y * VGA_WIDTH + x) :: u16;
          c1 = con_outb 0x3D4 0x0E con;
          c2 = con_outb 0x3D5 (ucast (drop_bit 8 pos AND 0xFF)) c1;
          c3 = con_outb 0x3D4 0x0F c2
      in con_outb 0x3D5 (ucast (pos AND 0xFF)) c3)"

text \<open>Cells \<open>a\<close> to \<open>b - 1\<close> filled with blanks.\<close>

definition blank_cells :: "int \<Rightarrow> int \<Rightarrow> u8 \<Rightarrow> mem \<Rightarrow> mem" where
  "blank_cells a b attr m = fold (\<lambda>i. put_cell i 0x20 attr) [a..b - 1] m"

definition vga_clear :: "console \<Rightarrow> console" where
  "vga_clear con =
     (let c1 = con\<lparr>con_vga := blank_cells 0 (VGA_WIDTH * VGA_HEIGHT) (get_current_text_attr con) (con_vga con)\<rparr>;
          c2 = c1\<lparr>con_x := 0, con_y := 0\<rparr>
      in update_hardware_cursor (con_x c2) (con_y c2) c2)"

section \<open>Writing text\<close>

text \<open>The step to the next line, with the screen cleared at the bottom.\<close>

definition next_line :: "console \<Rightarrow> console" where
  "next_line con =
     (let c1 = con\<lparr>con_x := 0, con_y := con_y con + 1\<rparr>
      in if con_y c1 \<ge> VGA_HEIGHT then (vga_clear c1)\<lparr>con_y := 0\<rparr> else c1)"

definition vga_write_char :: "byte \<Rightarrow> u8 \<Rightarrow> console \<Rightarrow> console" where
  "vga_write_char c attr con =
     (let c1 =
            (if c = 0x0A then next_line con
             else if c = 0x0D then con\<lparr>con_x := 0\<rparr>
             else if c = 0x09 then con\<lparr>con_x := con_x con + 4\<rparr>
             else con\<lparr>con_vga := put_cell (con_y con * VGA_WIDTH + con_x con) c attr (con_vga con),
                      con_x := con_x con + 1\<rparr>);
          c2 = (if con_x c1 \<ge> VGA_WIDTH then next_line c1 else c1)
      in update_hardware_cursor (con_x c2) (con_y c2) c2)"

definition console_print :: "byte list option \<Rightarrow> console \<Rightarrow> console" where
  "console_print str con =
     (case str of
        None \<Rightarrow> con
      | Some s \<Rightarrow> fold (\<lambda>c. vga_write_char c (get_current_text_attr con)) (cstr s) con)"

definition console_putchar :: "byte \<Rightarrow> console \<Rightarrow> console" where
  "console_putchar c con = vga_write_char c (get_current_text_attr con) con"

text \<open>The loop of \<open>console_print_to_pos\<close>; \<open>x\<close> is the column \<open>x + i\<close>.\<close>

fun print_row :: "int \<Rightarrow> int \<Rightarrow> u8 \<Rightarrow> byte list \<Rightarrow> mem \<Rightarrow> mem" where
  "print_row y x attr [] m = m"
| "print_row y x attr (c # cs) m =
     (if c \<noteq> 0 \<and> x < VGA_WIDTH
      then print_row y (x + 1) attr cs (put_cell (y * VGA_WIDTH + x) c attr m)
      else m)"

definition console_print_to_pos :: "int \<Rightarrow> int \<Rightarrow> byte list option \<Rightarrow> console \<Rightarrow> console" where
  "console_print_to_pos y x str con =
     (case str of
        None \<Rightarrow> con
      | Some s \<Rightarrow> con\<lparr>con_vga := print_row y x (get_current_status_attr con) s (con_vga con)\<rparr>)"

definition console_set_cursor :: "int \<Rightarrow> int \<Rightarrow> console \<Rightarrow> console" where
  "console_set_cursor x y con = update_hardware_cursor x y (con\<lparr>con_x := x, con_y := y\<rparr>)"

definition console_init :: "console option \<Rightarrow> console option" where
  "console_init state = map_option (\<lambda>con. con\<lparr>con_x := 0, con_y := 0, con_theme := 0\<rparr>) state"

definition console_set_theme :: "int \<Rightarrow> console \<Rightarrow> console" where
  "console_set_theme theme con =
     (if theme \<ge> 0 \<and> theme < THEME_COUNT then con\<lparr>con_theme := theme\<rparr> else con)"

text \<open>Number printing.\<close>

definition print_unsigned :: "u32 \<Rightarrow> console \<Rightarrow> console" where
  "print_unsigned value con =
     (if value = 0 then console_putchar 0x30 con
      else fold console_putchar (rev (digit_loop 16 value [])) con)"

definition print_decimal :: "u32 \<Rightarrow> console \<Rightarrow> console" where
  "print_decimal value con =
     (if sint value < 0 then print_unsigned (- (value + 1) + 1) (console_putchar 0x2D con)
      else print_unsigned value con)"

text \<open>A string constant of the source.\<close>

abbreviation say :: "string \<Rightarrow> console \<Rightarrow> console" where
  "say s \<equiv> console_print (Some (lit s))"

end
