(* ===== verification/Keyboard.thy ===== *)
theory Keyboard
  imports Prelude
begin

text \<open>
  The keyboard driver \<open>src/drivers/input/keyboard.c\<close>: polling the controller, the
  translation of scan codes and the decoding of prefix, release and Ctrl codes into key
  events. The dispatch of an event to the editor or the prompt is in \<open>Kernel\<close>. The
  controller is a parameter: what \<open>inb\<close> returns from its ports.
\<close>

record keyboard =
  ctrl_pressed :: bool
  extended_scancode_pending :: bool

definition keyboard_init :: keyboard where
  "keyboard_init = \<lparr>ctrl_pressed = False, extended_scancode_pending = False\<rparr>"

definition keyboard_ready :: "(u16 \<Rightarrow> 'k \<Rightarrow> u8 \<times> 'k) \<Rightarrow> 'k \<Rightarrow> bool \<times> 'k" where
  "keyboard_ready kbd_inb k = (case kbd_inb 0x64 k of (status, k1) \<Rightarrow> (status AND 1 \<noteq> 0, k1))"

partial_function (option) wait_keyboard :: "(u16 \<Rightarrow> 'k \<Rightarrow> u8 \<times> 'k) \<Rightarrow> 'k \<Rightarrow> 'k option" where
  "wait_keyboard kbd_inb k =
     (case keyboard_ready kbd_inb k of (ready, k1) \<Rightarrow> if ready then Some k1 else wait_keyboard kbd_inb k1)"

definition read_keyboard :: "(u16 \<Rightarrow> 'k \<Rightarrow> u8 \<times> 'k) \<Rightarrow> 'k \<Rightarrow> (u8 \<times> 'k) option" where
  "read_keyboard kbd_inb k = map_option (kbd_inb 0x60) (wait_keyboard kbd_inb k)"

text \<open>The table of \<open>scancode_to_ascii\<close>: scan codes and the characters they stand for.\<close>

definition ascii_table :: "(u16 \<times> byte) list" where
  "ascii_table =
     zip [0x02, 0x03, 0x04, 0x05, 0x06, 0x07, 0x08, 0x09, 0x0A, 0x0B, 0x0C, 0x0D] (lit ''1234567890-='')
   @ zip [0x10, 0x11, 0x12, 0x13, 0x14, 0x15, 0x16, 0x17, 0x18, 0x19, 0x1A, 0x1B] (lit ''qwertyuiop[]'')
   @ zip [0x1E, 0x1F, 0x20, 0x21, 0x22, 0x23, 0x24, 0x25, 0x26, 0x27] (lit ''asdfghjkl;'')
   @ [(0x28, 0x27), (0x29, 0x60), (0x2B, 0x5C)]
   @ zip [0x2C, 0x2D, 0x2E, 0x2F, 0x30, 0x31, 0x32, 0x33, 0x34, 0x35] (lit ''zxcvbnm,./'')
   @ [(0x39, 0x20), (0x0E, 0x08), (0x1C, 0x0A), (0x0F, 0x09)]"

definition scancode_to_ascii :: "u16 \<Rightarrow> byte" where
  "scancode_to_ascii scancode =
     (if scancode AND 0xE000 \<noteq> 0 then 0
      else case map_of ascii_table scancode of None \<Rightarrow> 0 | Some c \<Rightarrow> c)"

text \<open>
  The first half of \<open>handle_keyboard_input\<close>: the key event (scan code and whether it is a
  release) the byte completes, if any.
\<close>

definition decode_scancode :: "u8 \<Rightarrow> keyboard \<Rightarrow> (u16 \<times> bool) option \<times> keyboard" where
  "decode_scancode raw_scancode kb =
     (if raw_scancode = 0xE0 then (None, kb\<lparr>extended_scancode_pending := True\<rparr>)
      else
        let is_release = (raw_scancode AND 0x80 \<noteq> 0);
            base_code = raw_scancode AND 0x7F;
            extended = extended_scancode_pending kb;
            kb1 = kb\<lparr>extended_scancode_pending := False\<rparr>;
            scancode = (if extended then 0xE000 OR ucast base_code else ucast base_code)
        in if base_code = 0x1D then (None, kb1\<lparr>ctrl_pressed := \<not> is_release\<rparr>)
           else (Some (scancode, is_release), kb1))"

section \<open>What it computes\<close>

lemma ascii_range: "c \<in> insert 0 (snd ` set ascii_table) \<Longrightarrow> c = 0 \<or> c = 0x08 \<or> c = 0x09 \<or> c = 0x0A \<or> 0x20 \<le> c \<and> c \<le> 0x7E"
  by (auto simp: ascii_table_def lit_def)

lemma scancode_ascii_range:
  "scancode_to_ascii sc = 0 \<or> scancode_to_ascii sc = 0x08 \<or> scancode_to_ascii sc = 0x09
   \<or> scancode_to_ascii sc = 0x0A \<or> 0x20 \<le> scancode_to_ascii sc \<and> scancode_to_ascii sc \<le> 0x7E"
proof -
  have "scancode_to_ascii sc \<in> insert 0 (snd ` set ascii_table)"
    by (auto simp: scancode_to_ascii_def dest: map_of_SomeD split: option.splits intro: rev_image_eqI)
  then show ?thesis by (rule ascii_range)
qed

end
