(* ===== verification/Nano.thy ===== *)
theory Nano
  imports String_Lib
begin

text \<open>
  The text of the editor \<open>src/shell/nano.c\<close>: its state and the editing, cursor and
  viewport operations, the parsing of a loaded file and the serialisation of the text
  for saving. \<open>lines\<close> and \<open>line_lengths\<close> are the arrays of the state; every access is
  checked, and \<open>None\<close> is an access outside \<open>lines[1000][200]\<close> or \<open>line_lengths[1000]\<close>.
\<close>

section \<open>State\<close>

definition NANO_MAX_LINES :: int where
  "NANO_MAX_LINES = 1000"

definition NANO_MAX_LINE_LENGTH :: int where
  "NANO_MAX_LINE_LENGTH = 200"

definition NANO_VIEWPORT_HEIGHT :: int where
  "NANO_VIEWPORT_HEIGHT = 23"

definition FS_IO_BUFFER_SIZE :: u32 where
  "FS_IO_BUFFER_SIZE = 16384"

lemma NANO_simps [simp]:
  "NANO_MAX_LINES = 1000" "NANO_MAX_LINE_LENGTH = 200" "NANO_VIEWPORT_HEIGHT = 23"
  by (simp_all add: NANO_MAX_LINES_def NANO_MAX_LINE_LENGTH_def NANO_VIEWPORT_HEIGHT_def)

datatype nano_prompt = NANO_PROMPT_NONE | NANO_PROMPT_SAVE_CONFIRM

record nano =
  editor_active :: bool
  filename :: "byte list"
  lines :: "nat \<Rightarrow> mem"
  line_lengths :: "nat \<Rightarrow> int"
  total_lines :: int
  cursor_x :: int
  cursor_y :: int
  viewport_y :: int
  dirty :: bool
  prompt_state :: nano_prompt
  status_message :: "byte list"
  help_overlay_visible :: bool

section \<open>Array access\<close>

definition line_index :: "int \<Rightarrow> nat option" where
  "line_index i = (if 0 \<le> i \<and> i < NANO_MAX_LINES then Some (nat i) else None)"

definition col_index :: "int \<Rightarrow> nat option" where
  "col_index j = (if 0 \<le> j \<and> j < NANO_MAX_LINE_LENGTH then Some (nat j) else None)"

definition get_char :: "int \<Rightarrow> int \<Rightarrow> nano \<Rightarrow> byte option" where
  "get_char i j e = do { r \<leftarrow> line_index i; c \<leftarrow> col_index j; Some (lines e r c) }"

definition set_char :: "int \<Rightarrow> int \<Rightarrow> byte \<Rightarrow> nano \<Rightarrow> nano option" where
  "set_char i j b e =
     do { r \<leftarrow> line_index i; c \<leftarrow> col_index j; Some (e\<lparr>lines := (lines e)(r := (lines e r)(c := b))\<rparr>) }"

definition get_len :: "int \<Rightarrow> nano \<Rightarrow> int option" where
  "get_len i e = do { r \<leftarrow> line_index i; Some (line_lengths e r) }"

definition set_len :: "int \<Rightarrow> int \<Rightarrow> nano \<Rightarrow> nano option" where
  "set_len i n e = do { r \<leftarrow> line_index i; Some (e\<lparr>line_lengths := (line_lengths e)(r := n)\<rparr>) }"

text \<open>\<open>strcpy_impl(lines[i], lines[j])\<close>\<close>

definition copy_line_chars :: "int \<Rightarrow> int \<Rightarrow> nano \<Rightarrow> nano option" where
  "copy_line_chars i j e =
     do { r \<leftarrow> line_index i; q \<leftarrow> line_index j;
          m \<leftarrow> strcpy_impl 0 200 (lines e r) (lines e q);
          Some (e\<lparr>lines := (lines e)(r := m)\<rparr>) }"

text \<open>A \<open>for\<close> loop over the listed values of its variable.\<close>

fun for_each :: "int list \<Rightarrow> (int \<Rightarrow> 's \<Rightarrow> 's option) \<Rightarrow> 's \<Rightarrow> 's option" where
  "for_each [] body s = Some s"
| "for_each (i # is) body s = do { s1 \<leftarrow> body i s; for_each is body s1 }"

text \<open>One step of the loops that move whole lines: line \<open>j\<close> to line \<open>i\<close>.\<close>

definition move_line :: "int \<Rightarrow> int \<Rightarrow> nano \<Rightarrow> nano option" where
  "move_line i j e = do { n \<leftarrow> get_len j e; e1 \<leftarrow> set_len i n e; copy_line_chars i j e1 }"

section \<open>Editing\<close>

definition nano_insert_char :: "byte \<Rightarrow> nano \<Rightarrow> nano option" where
  "nano_insert_char c e =
     (let cy = cursor_y e; cx = cursor_x e in
      if cy \<ge> NANO_MAX_LINES then Some e
      else do {
        len \<leftarrow> get_len cy e;
        e1 \<leftarrow>
          (if cx \<ge> len \<and> cx < NANO_MAX_LINE_LENGTH - 1 then do {
             a1 \<leftarrow> set_char cy cx c e;
             a2 \<leftarrow> set_char cy (cx + 1) 0 a1;
             a3 \<leftarrow> set_len cy (len + 1) a2;
             Some (a3\<lparr>cursor_x := cx + 1\<rparr>) }
           else if cx < len \<and> cx < NANO_MAX_LINE_LENGTH - 1 then do {
             a1 \<leftarrow> for_each (rev [cx + 1..len])
                    (\<lambda>i a. if i < NANO_MAX_LINE_LENGTH - 1
                           then do { b \<leftarrow> get_char cy (i - 1) a; set_char cy i b a } else Some a) e;
             a2 \<leftarrow> set_char cy cx c a1;
             a3 \<leftarrow> (if len < NANO_MAX_LINE_LENGTH - 1 then set_len cy (len + 1) a2 else Some a2);
             n \<leftarrow> get_len cy a3;
             a4 \<leftarrow> set_char cy n 0 a3;
             Some (a4\<lparr>cursor_x := cx + 1\<rparr>) }
           else Some e);
        Some (e1\<lparr>dirty := True\<rparr>) })"

definition nano_handle_backspace :: "nano \<Rightarrow> nano option" where
  "nano_handle_backspace e =
     (let cy = cursor_y e; cx = cursor_x e in
      if cy \<ge> NANO_MAX_LINES then Some e
      else do {
        e1 \<leftarrow>
          (if cx > 0 then do {
             len \<leftarrow> get_len cy e;
             a1 \<leftarrow> for_each [cx - 1..len - 1]
                    (\<lambda>i a. do { b \<leftarrow> get_char cy (i + 1) a; set_char cy i b a }) e;
             a2 \<leftarrow> (if len > 0 then set_len cy (len - 1) a1 else Some a1);
             n \<leftarrow> get_len cy a2;
             a3 \<leftarrow> set_char cy n 0 a2;
             Some (a3\<lparr>cursor_x := cx - 1\<rparr>) }
           else if cy > 0 then do {
             prev_line_len \<leftarrow> get_len (cy - 1) e;
             current_line_len \<leftarrow> get_len cy e;
             (if prev_line_len + current_line_len < NANO_MAX_LINE_LENGTH then do {
                a1 \<leftarrow> for_each [0..current_line_len - 1]
                       (\<lambda>i a. do { b \<leftarrow> get_char cy i a; set_char (cy - 1) (prev_line_len + i) b a }) e;
                a2 \<leftarrow> set_len (cy - 1) (prev_line_len + current_line_len) a1;
                a3 \<leftarrow> set_char (cy - 1) (prev_line_len + current_line_len) 0 a2;
                a4 \<leftarrow> for_each [cy..total_lines a3 - 2] (\<lambda>i. move_line i (i + 1)) a3;
                Some (a4\<lparr>total_lines := total_lines a4 - 1, cursor_y := cy - 1,
                         cursor_x := prev_line_len\<rparr>) }
              else Some e) }
           else Some e);
        Some (e1\<lparr>dirty := True\<rparr>) })"

definition nano_handle_enter :: "nano \<Rightarrow> nano option" where
  "nano_handle_enter e =
     (let cy = cursor_y e; cx = cursor_x e in
      if total_lines e \<ge> NANO_MAX_LINES then Some e
      else do {
        current_line_len \<leftarrow> get_len cy e;
        a1 \<leftarrow> for_each (rev [cy + 2..total_lines e]) (\<lambda>i. move_line i (i - 1)) e;
        (new_line_len, a2) \<leftarrow> for_each [cx..current_line_len - 1]
               (\<lambda>i (new_line_len, a).
                  do { b \<leftarrow> get_char cy i a; a' \<leftarrow> set_char (cy + 1) new_line_len b a;
                       Some (new_line_len + 1, a') }) (0, a1);
        a3 \<leftarrow> set_char (cy + 1) new_line_len 0 a2;
        a4 \<leftarrow> set_len (cy + 1) new_line_len a3;
        a5 \<leftarrow> set_char cy cx 0 a4;
        a6 \<leftarrow> set_len cy cx a5;
        Some (a6\<lparr>total_lines := total_lines a6 + 1, cursor_y := cy + 1, cursor_x := 0, dirty := True\<rparr>) })"

definition nano_handle_delete :: "nano \<Rightarrow> nano option" where
  "nano_handle_delete e =
     (let cy = cursor_y e; cx = cursor_x e in
      if cy \<ge> NANO_MAX_LINES \<or> cy \<ge> total_lines e then Some e
      else do {
        line_len \<leftarrow> get_len cy e;
        (if cx < line_len then do {
           a1 \<leftarrow> for_each [cx..line_len - 2]
                  (\<lambda>i a. do { b \<leftarrow> get_char cy (i + 1) a; set_char cy i b a }) e;
           a2 \<leftarrow> set_len cy (line_len - 1) a1;
           a3 \<leftarrow> set_char cy (line_len - 1) 0 a2;
           Some (a3\<lparr>dirty := True\<rparr>) }
         else if cy < total_lines e - 1 then do {
           next_line_len \<leftarrow> get_len (cy + 1) e;
           (if line_len + next_line_len < NANO_MAX_LINE_LENGTH then do {
              a1 \<leftarrow> for_each [0..next_line_len - 1]
                     (\<lambda>i a. do { b \<leftarrow> get_char (cy + 1) i a; set_char cy (line_len + i) b a }) e;
              a2 \<leftarrow> set_len cy (line_len + next_line_len) a1;
              a3 \<leftarrow> set_char cy (line_len + next_line_len) 0 a2;
              a4 \<leftarrow> for_each [cy + 1..total_lines a3 - 2] (\<lambda>i. move_line i (i + 1)) a3;
              Some (a4\<lparr>total_lines := total_lines a4 - 1, dirty := True\<rparr>) }
            else Some e) }
         else Some e) })"

section \<open>Cursor and viewport\<close>

definition nano_scroll_to_cursor :: "nano \<Rightarrow> nano" where
  "nano_scroll_to_cursor e =
     (let v1 = (if cursor_y e < viewport_y e then cursor_y e
                else if cursor_y e \<ge> viewport_y e + NANO_VIEWPORT_HEIGHT
                     then cursor_y e - NANO_VIEWPORT_HEIGHT + 1
                else viewport_y e);
          v2 = (if v1 < 0 then 0 else v1);
          v3 = (if v2 > total_lines e - NANO_VIEWPORT_HEIGHT
                then total_lines e - NANO_VIEWPORT_HEIGHT else v2);
          v4 = (if v3 < 0 then 0 else v3)
      in e\<lparr>viewport_y := v4\<rparr>)"

definition nano_move_cursor :: "int \<Rightarrow> int \<Rightarrow> nano \<Rightarrow> nano option" where
  "nano_move_cursor dx dy e =
     (let x0 = cursor_x e + dx;
          y0 = cursor_y e + dy;
          y1 = (if y0 < 0 then 0 else y0);
          new_y = (if y1 \<ge> total_lines e then total_lines e - 1 else y1);
          x1 = (if x0 < 0 then 0 else x0)
      in do {
        len \<leftarrow> get_len new_y e;
        let new_x = (if x1 > len then len else x1);
        Some (nano_scroll_to_cursor (e\<lparr>cursor_x := new_x, cursor_y := new_y\<rparr>)) })"

definition nano_move_to_line_start :: "nano \<Rightarrow> nano" where
  "nano_move_to_line_start e = e\<lparr>cursor_x := 0\<rparr>"

definition nano_move_to_line_end :: "nano \<Rightarrow> nano option" where
  "nano_move_to_line_end e =
     (if cursor_y e < total_lines e
      then do { len \<leftarrow> get_len (cursor_y e) e; Some (e\<lparr>cursor_x := len\<rparr>) }
      else Some e)"

definition nano_page_scroll :: "int \<Rightarrow> nano \<Rightarrow> nano option" where
  "nano_page_scroll direction e =
     (let lines_to_scroll = NANO_VIEWPORT_HEIGHT - 1;
          y1 = (if direction < 0 then
                  (if cursor_y e - lines_to_scroll < 0 then 0 else cursor_y e - lines_to_scroll)
                else
                  let y = (if cursor_y e + lines_to_scroll \<ge> total_lines e then total_lines e - 1
                           else cursor_y e + lines_to_scroll)
                  in if y < 0 then 0 else y);
          e1 = e\<lparr>cursor_y := y1\<rparr>
      in do {
        len \<leftarrow> get_len y1 e1;
        Some (nano_scroll_to_cursor (if cursor_x e1 > len then e1\<lparr>cursor_x := len\<rparr> else e1)) })"

section \<open>Loading and saving\<close>

fun load_loop :: "byte list \<Rightarrow> int \<Rightarrow> int \<Rightarrow> nano \<Rightarrow> (int \<times> int \<times> nano) option" where
  "load_loop [] line line_pos e = Some (line, line_pos, e)"
| "load_loop (c # cs) line line_pos e =
     (if \<not> line < NANO_MAX_LINES then Some (line, line_pos, e)
      else if c = 0x0A then do {
        e1 \<leftarrow> set_char line line_pos 0 e;
        e2 \<leftarrow> set_len line line_pos e1;
        load_loop cs (line + 1) 0 e2 }
      else if c \<noteq> 0x0D \<and> line_pos < NANO_MAX_LINE_LENGTH - 1 then do {
        e1 \<leftarrow> set_char line line_pos c e;
        load_loop cs line (line_pos + 1) e1 }
      else load_loop cs line line_pos e)"

definition clear_lines :: "nano \<Rightarrow> nano option" where
  "clear_lines e =
     for_each [0..NANO_MAX_LINES - 1] (\<lambda>i a. do { a1 \<leftarrow> set_len i 0 a; set_char i 0 0 a1 }) e"

text \<open>The text of a file of \<open>file_size\<close> bytes.\<close>

definition load_text :: "byte list \<Rightarrow> nano \<Rightarrow> nano option" where
  "load_text bytes e =
     do { (line, line_pos, e1) \<leftarrow> load_loop bytes 0 0 e;
          (line2, e2) \<leftarrow>
            (if line_pos > 0 \<and> line < NANO_MAX_LINES then do {
               a1 \<leftarrow> set_char line line_pos 0 e1;
               a2 \<leftarrow> set_len line line_pos a1;
               Some (line + 1, a2) }
             else Some (line, e1));
          Some (e2\<lparr>total_lines := line2\<rparr>) }"

definition empty_text :: "nano \<Rightarrow> nano option" where
  "empty_text e =
     do { e1 \<leftarrow> set_len 0 0 (e\<lparr>total_lines := 1\<rparr>); set_char 0 0 0 e1 }"

fun save_chars :: "int list \<Rightarrow> int \<Rightarrow> nano \<Rightarrow> mem \<times> u32 \<Rightarrow> (mem \<times> u32) option" where
  "save_chars [] i e (buf, file_size) = Some (buf, file_size)"
| "save_chars (j # js) i e (buf, file_size) =
     (if file_size < FS_IO_BUFFER_SIZE - 2 then do {
        b \<leftarrow> get_char i j e;
        save_chars js i e (buf(unat file_size := b), file_size + 1) }
      else Some (buf, file_size))"

fun save_lines :: "int list \<Rightarrow> nano \<Rightarrow> mem \<times> u32 \<Rightarrow> (mem \<times> u32) option" where
  "save_lines [] e (buf, file_size) = Some (buf, file_size)"
| "save_lines (i # is) e (buf, file_size) =
     (if file_size < FS_IO_BUFFER_SIZE - 1 then do {
        len \<leftarrow> get_len i e;
        (buf1, size1) \<leftarrow> save_chars [0..len - 1] i e (buf, file_size);
        save_lines is e
          (if size1 < FS_IO_BUFFER_SIZE - 1 then (buf1(unat size1 := 0x0A), size1 + 1) else (buf1, size1)) }
      else Some (buf, file_size))"

definition nano_set_status_message :: "byte list \<Rightarrow> nano \<Rightarrow> nano" where
  "nano_set_status_message msg e = e\<lparr>status_message := take 80 (cstr msg)\<rparr>"

definition nano_reset_status_message :: "nano \<Rightarrow> nano" where
  "nano_reset_status_message e = e\<lparr>status_message := []\<rparr>"

end
