(* ===== verification/System.thy ===== *)
theory System
  imports Fat12_File Ata_Driver Console Keyboard Nano
begin

text \<open>
  The state of the running system: the static variables of the console, the editor, the
  keyboard driver, the prompt, the command interpreter, the boot log, the storage manager
  and the file system, which holds the state of the disk underneath. Operations that
  touch several of them take and return it.
\<close>

definition PROMPT_BUFFER_SIZE :: int where
  "PROMPT_BUFFER_SIZE = 256"

lemma PROMPT_BUFFER_SIZE_simp [simp]: "PROMPT_BUFFER_SIZE = 256"
  by (simp add: PROMPT_BUFFER_SIZE_def)

record shell_context =
  input_buffer :: mem
  input_pos :: int
  command_executed :: bool
  prompt_line_start_x :: int
  prompt_line_y :: int

record bootlog_data =
  bl_magic :: u32
  int13_extensions :: u8
  int13_status :: u8
  boot_method :: u8
  retry_count :: u8
  bl_cylinders :: u16
  bl_heads :: u8
  bl_sectors_per_track :: u8
  memory_mb :: u32
  bios_vendor :: "byte list"
  status_string :: "byte list"
  bl_reserved :: "byte list"

datatype boot_mode = BOOT_MODE_UNKNOWN | BOOT_MODE_BIOS | BOOT_MODE_UEFI

datatype block_device_type = BLOCK_DEVICE_UNKNOWN | BLOCK_DEVICE_ATA | BLOCK_DEVICE_AHCI | BLOCK_DEVICE_NVME

text \<open>The function pointers of a driver.\<close>

datatype block_device_ops = ATA_PIO_OPS | AHCI_OPS | NVME_OPS

record block_device =
  dev_type :: block_device_type
  sector_size :: u32
  capacity_sectors :: u32
  driver_name :: "byte list"
  queue_depth :: u32
  dev_ops :: block_device_ops

record 'd sys =
  sys_console :: console
  sys_nano :: nano
  sys_keyboard :: keyboard
  sys_prompt :: shell_context
  fat_ready :: bool
  fs_io_buffer :: mem
  volume :: "'d fat12_state"
  sys_bootlog :: bootlog_data
  bootlog_mapped :: bool
  sys_boot_mode :: boot_mode
  storage_devices :: "block_device list"
  primary_device :: "nat option"
  cpu_halted :: bool

text \<open>A change of the console alone.\<close>

definition on_console :: "(console \<Rightarrow> console) \<Rightarrow> 'd sys \<Rightarrow> 'd sys" where
  "on_console f s = s\<lparr>sys_console := f (sys_console s)\<rparr>"

text \<open>
  The inline number formatting that several functions repeat: the digits of an \<open>int\<close> or
  \<open>unsigned\<close>, collected least significant first and reversed. An \<open>int\<close> has at most ten.
\<close>

fun int_digits :: "nat \<Rightarrow> int \<Rightarrow> byte list" where
  "int_digits 0 v = []"
| "int_digits (Suc room) v = (if v > 0 then (0x30 + of_int (v mod 10)) # int_digits room (v div 10) else [])"

definition int_text :: "int \<Rightarrow> byte list" where
  "int_text v = (if v = 0 then [0x30] else rev (int_digits 16 v))"

end
