(* ===== verification/Bootlog.thy ===== *)
theory Bootlog
  imports System
begin

text \<open>
  The boot log \<open>src/kernel/bootlog.c\<close>: the record the boot sector leaves at address
  \<open>0x500\<close>, its initialisation when the magic number is missing, and its print-out.
  \<open>bootlog_mapped\<close> says that the pointer \<open>bootlog_data\<close> has been set.
\<close>

definition BOOTLOG_MAGIC :: u32 where
  "BOOTLOG_MAGIC = 0x424F4F54"

definition bootlog_defaults :: "bootlog_data \<Rightarrow> bootlog_data" where
  "bootlog_defaults b =
     (if bl_magic b \<noteq> BOOTLOG_MAGIC
      then b\<lparr>bl_magic := BOOTLOG_MAGIC, int13_extensions := 0, int13_status := 0, boot_method := 0,
             retry_count := 0, bl_cylinders := 0, bl_heads := 0, bl_sectors_per_track := 0, memory_mb := 0,
             bios_vendor := (bios_vendor b)[0 := 0], status_string := (status_string b)[0 := 0]\<rparr>
      else b)"

definition bootlog_init :: "'d sys \<Rightarrow> 'd sys" where
  "bootlog_init s = s\<lparr>bootlog_mapped := True, sys_bootlog := bootlog_defaults (sys_bootlog s)\<rparr>"

definition hex_digit :: "u8 \<Rightarrow> byte" where
  "hex_digit d = lit ''0123456789ABCDEF'' ! unat d"

definition hex_byte :: "u8 \<Rightarrow> byte list" where
  "hex_byte b = [hex_digit (drop_bit 4 b), hex_digit (b AND 0x0F)]"

text \<open>An optional line: a label, a number and what follows it, when the number is not 0.\<close>

definition number_line :: "string \<Rightarrow> u32 \<Rightarrow> string \<Rightarrow> console \<Rightarrow> console" where
  "number_line label n unit_text con =
     (if n > 0 then say unit_text (console_print (Some (unsigned_chars n)) (say label con)) else con)"

abbreviation newline :: string where
  "newline \<equiv> [CHR 0x0A]"

definition bootlog_text :: "bootlog_data \<Rightarrow> console \<Rightarrow> console" where
  "bootlog_text b c0 =
     (let c1 = say ''  Extensions:    '' (say (''Boot diagnostics:'' @ newline) c0);
          c2 = (if int13_extensions b \<noteq> 0 then say (''EDD supported'' @ newline) c1
                else say (''CHS fallback'' @ newline) c1);
          c3 = say ''  Boot method:   '' c2;
          c4 = say newline (if boot_method b = 0 then say ''CHS'' c3
                            else if boot_method b = 1 then say ''EDD'' c3
                            else if boot_method b = 2 then say ''Error'' c3
                            else say ''Unknown'' c3);
          c5 = say ''  INT13 status:  0x'' c4;
          c6 = (if int13_status b < 16 then say ''0'' c5 else c5);
          c7 = say newline (console_print (Some (hex_byte (int13_status b))) c6);
          c8 = say newline (console_print (Some (unsigned_chars (ucast (retry_count b))))
                 (say ''  Retry count:   '' c7));
          c9 = (if char_at (status_string b) 0 \<noteq> 0
                then say newline (console_print (Some (status_string b @ bl_reserved b)) (say ''  Status:        '' c8))
                else c8);
          c10 = number_line ''  Memory:        '' (memory_mb b) ('' MB'' @ newline) c9;
          c11 = number_line ''  Cylinders:     '' (ucast (bl_cylinders b)) newline c10;
          c12 = number_line ''  Heads:         '' (ucast (bl_heads b)) newline c11;
          c13 = number_line ''  Sectors/track: '' (ucast (bl_sectors_per_track b)) newline c12
      in if char_at (bios_vendor b) 0 \<noteq> 0
         then say newline (console_print (Some (bios_vendor b @ status_string b @ bl_reserved b))
                (say ''  BIOS vendor:   '' c13))
         else c13)"

definition bootlog_print :: "'d sys \<Rightarrow> 'd sys" where
  "bootlog_print s =
     (let s1 = (if bootlog_mapped s then s else bootlog_init s)
      in on_console (bootlog_text (sys_bootlog s1)) s1)"

end
