(* ===== verification/Nano_Screen.thy ===== *)
theory Nano_Screen
  imports System
begin

text \<open>
  The screen of the editor and the operations of \<open>src/shell/nano.c\<close> that reach beyond its
  text: rendering, the status line and help overlay, loading and saving through the file
  system, leaving the editor, and the dispatch of scan codes.
\<close>

section \<open>Rendering\<close>

definition render_row :: "int \<Rightarrow> u8 \<Rightarrow> nano \<Rightarrow> mem \<Rightarrow> mem option" where
  "render_row row attr e m =
     (let line_index = viewport_y e + row in
      if line_index \<ge> 0 \<and> line_index < total_lines e
      then do {
        len \<leftarrow> get_len line_index e;
        for_each [0..(if len < VGA_WIDTH then len else VGA_WIDTH) - 1]
          (\<lambda>col m1. do { b \<leftarrow> get_char line_index col e; Some (put_cell (row * VGA_WIDTH + col) b attr m1) }) m }
      else Some m)"

text \<open>A positive number of the status line, through \<open>temp_digits\<close> and a 16-byte buffer.\<close>

definition status_number :: "int \<Rightarrow> byte list" where
  "status_number n = take 15 (rev (int_digits 16 (if n < 1 then 1 else n)))"

definition upper_name :: "byte list \<Rightarrow> byte list" where
  "upper_name s = take 15 (map (\<lambda>c. if 0x61 \<le> c \<and> c \<le> 0x7A then c - 32 else c) s)"

text \<open>The texts of the status line, printed one after the other.\<close>

fun print_parts :: "int \<Rightarrow> int \<Rightarrow> byte list list \<Rightarrow> console \<Rightarrow> console" where
  "print_parts y x [] con = con"
| "print_parts y x (p # ps) con = print_parts y (x + int (length p)) ps (console_print_to_pos y x (Some p) con)"

definition status_parts :: "nano \<Rightarrow> console \<Rightarrow> byte list list" where
  "status_parts e con =
     [lit '' | L:''] @
     [status_number (cursor_y e + 1), lit '',C:'', status_number (cursor_x e + 1)]
     @ (if dirty e then [lit '' | [MODIFIED]''] else [])
     @ [lit '' | Theme: '', upper_name (theme_name (current_theme con))]"

definition nano_render_status :: "nano \<Rightarrow> console \<Rightarrow> console" where
  "nano_render_status e con =
     (let status_line = NANO_VIEWPORT_HEIGHT;
          status_attr = get_current_status_attr con;
          c1 = con\<lparr>con_vga := blank_cells (status_line * VGA_WIDTH) (status_line * VGA_WIDTH + VGA_WIDTH)
                     status_attr (con_vga con)\<rparr>;
          c2 = console_print_to_pos status_line 0 (Some (filename e)) c1;
          x = int (length (filename e));
          parts = status_parts e con
      in if x < VGA_WIDTH then print_parts status_line x parts c2
         else print_parts status_line x (tl parts) c2)"

definition nano_render_message :: "nano \<Rightarrow> console \<Rightarrow> console" where
  "nano_render_message e con =
     (let message_line = NANO_VIEWPORT_HEIGHT + 1;
          c1 = con\<lparr>con_vga := blank_cells (message_line * VGA_WIDTH) (message_line * VGA_WIDTH + VGA_WIDTH)
                     (get_current_status_attr con) (con_vga con)\<rparr>
      in if status_message e \<noteq> [] then console_print_to_pos message_line 0 (Some (status_message e)) c1 else c1)"

definition nano_render_editor :: "nano \<Rightarrow> console \<Rightarrow> console option" where
  "nano_render_editor e con =
     (let text_attr = get_current_text_attr con;
          m0 = blank_cells 0 (VGA_WIDTH * VGA_HEIGHT) text_attr (con_vga con)
      in do {
        m1 \<leftarrow> for_each [0..NANO_VIEWPORT_HEIGHT - 1] (\<lambda>row. render_row row text_attr e) m0;
        let c1 = nano_render_status e (con\<lparr>con_vga := m1\<rparr>);
        let c2 = nano_render_message e c1;
        let screen_x = cursor_x e;
        let screen_y = cursor_y e - viewport_y e;
        Some (if screen_y \<ge> 0 \<and> screen_y < NANO_VIEWPORT_HEIGHT \<and> screen_x < VGA_WIDTH
              then update_hardware_cursor screen_x screen_y c2 else c2) })"

definition help_lines :: "byte list list" where
  "help_lines = map lit
     [''                       NANO EDITOR HELP                        '',
      '''',
      ''  Navigation:                      Editing:'',
      ''    Arrow Keys - Move cursor         Backspace - Delete before cursor'',
      ''    Home       - Start of line       Delete    - Delete at cursor'',
      ''    End        - End of line         Enter     - New line'',
      ''    Page Up    - Scroll up'',
      ''    Page Down  - Scroll down'',
      '''',
      ''  Commands:                        Theme:'',
      ''    Ctrl+S - Save file                Ctrl+T - Cycle theme'',
      ''    Ctrl+X - Exit (prompt if dirty)   Current: '',
      ''    Ctrl+H - This help'',
      ''    Escape - Exit without saving'',
      '''',
      ''                   Press any key to close help'']"

fun put_text :: "int \<Rightarrow> u8 \<Rightarrow> byte list \<Rightarrow> mem \<Rightarrow> mem" where
  "put_text pos attr [] m = m"
| "put_text pos attr (c # cs) m = put_text (pos + 1) attr cs (put_cell pos c attr m)"

definition nano_render_help_overlay :: "console \<Rightarrow> console" where
  "nano_render_help_overlay con =
     (let help_attr = VGA_ATTR VGA_COLOR_BLACK VGA_COLOR_LIGHT_CYAN;
          start_y = 3; start_x = 5;
          m1 = fold (\<lambda>(i, l). put_text ((start_y + i) * VGA_WIDTH + start_x) help_attr
                      (take (nat (VGA_WIDTH - start_x - 5)) l))
                 (zip [0..int (length help_lines) - 1] help_lines) (con_vga con);
          m2 = put_text ((start_y + 11) * VGA_WIDTH + (start_x + 47)) help_attr (theme_name (current_theme con)) m1
      in con\<lparr>con_vga := m2\<rparr>)"

end
