(* ===== verification/Nano_Session.thy ===== *)
theory Nano_Session
  imports Nano_Screen
begin

text \<open>
  The operations of \<open>src/shell/nano.c\<close> on the whole system: opening a file in the editor,
  saving, leaving and the dispatch of scan codes. \<open>None\<close> is undefined behaviour (an access
  outside an array) or a file system call that does not return.
\<close>

definition render :: "'d sys \<Rightarrow> 'd sys option" where
  "render s = do { con \<leftarrow> nano_render_editor (sys_nano s) (sys_console s); Some (s\<lparr>sys_console := con\<rparr>) }"

definition on_nano :: "(nano \<Rightarrow> nano) \<Rightarrow> 'd sys \<Rightarrow> 'd sys" where
  "on_nano f s = s\<lparr>sys_nano := f (sys_nano s)\<rparr>"

definition edit :: "(nano \<Rightarrow> nano option) \<Rightarrow> 'd sys \<Rightarrow> 'd sys option" where
  "edit f s = do { e \<leftarrow> f (sys_nano s); Some (s\<lparr>sys_nano := e\<rparr>) }"

section \<open>Opening and saving a file\<close>

definition nano_init_state :: "nano \<Rightarrow> nano" where
  "nano_init_state e =
     e\<lparr>editor_active := False, total_lines := 0, cursor_x := 0, cursor_y := 0, viewport_y := 0, dirty := False,
       prompt_state := NANO_PROMPT_NONE, help_overlay_visible := False, status_message := []\<rparr>"

text \<open>
  The file name is copied by \<open>strcpy_impl\<close> into \<open>filename[FAT12_PATH_MAX]\<close>.
\<close>

definition open_state :: "byte list \<Rightarrow> nano \<Rightarrow> nano option" where
  "open_state name e =
     (if length (cstr name) < FAT12_PATH_MAX
      then Some (e\<lparr>filename := cstr name, total_lines := 0, cursor_x := 0, cursor_y := 0, viewport_y := 0,
                  dirty := False, editor_active := True, prompt_state := NANO_PROMPT_NONE,
                  help_overlay_visible := False, status_message := []\<rparr>)
      else None)"

definition nano_init_editor :: "'d disk_ops \<Rightarrow> byte list \<Rightarrow> 'd sys \<Rightarrow> 'd sys option" where
  "nano_init_editor D name s =
     do { e1 \<leftarrow> open_state name (sys_nano s);
          e2 \<leftarrow> clear_lines e1;
          (result, buffer, v) \<leftarrow>
            fat12_read_file D (Some name) (Some (fs_io_buffer s)) (FS_IO_BUFFER_SIZE - 1) (volume s);
          buf \<leftarrow> buffer;
          e3 \<leftarrow> (case result of
                  Inr file_size \<Rightarrow>
                    if file_size > 0 then load_text (mem_get buf 0 (unat file_size)) e2 else empty_text e2
                | Inl _ \<Rightarrow> empty_text e2);
          render (s\<lparr>sys_nano := e3, fs_io_buffer := buf, volume := v, sys_console := vga_clear (sys_console s)\<rparr>) }"

text \<open>The result is true when the text is on disk.\<close>

definition nano_save_file :: "'d disk_ops \<Rightarrow> 'd sys \<Rightarrow> (bool \<times> 'd sys) option" where
  "nano_save_file D s =
     (let e = sys_nano s in
      if \<not> dirty e then Some (True, s)
      else do {
        (buf, file_size) \<leftarrow> save_lines [0..total_lines e - 1] e (fs_io_buffer s, 0);
        (result, v) \<leftarrow> fat12_write_file D (Some (filename e)) (Some buf) file_size (volume s);
        let s1 = s\<lparr>fs_io_buffer := buf, volume := v\<rparr>;
        Some (case result of
                Inr _ \<Rightarrow> (True, on_nano (\<lambda>e. e\<lparr>dirty := False\<rparr>) s1)
              | Inl _ \<Rightarrow> (False, s1)) })"

section \<open>Leaving the editor\<close>

datatype nano_exit = NANO_EXIT_SAVE | NANO_EXIT_DISCARD

definition nano_leave :: "nano_exit \<Rightarrow> bool \<Rightarrow> 'd sys \<Rightarrow> 'd sys" where
  "nano_leave save_action had_dirty s =
     (let s1 = on_nano (\<lambda>e. e\<lparr>editor_active := False, prompt_state := NANO_PROMPT_NONE,
                              help_overlay_visible := False\<rparr>) s;
          c1 = say (''Welcome to AltoniumOS 1.0.0'' @ [CHR 0x0A, CHR 0x0A]) (vga_clear (sys_console s1));
          name = filename (sys_nano s1);
          c2 = (if save_action = NANO_EXIT_SAVE \<and> had_dirty
                then say [CHR 0x0A] (console_print (Some name) (say ''File saved: '' c1))
                else if save_action = NANO_EXIT_DISCARD \<and> had_dirty
                then say [CHR 0x0A] (console_print (Some name) (say ''Changes discarded: '' c1))
                else c1);
          c3 = (if fat_ready s1
                then say [CHR 0x0A] (console_print (Some (fat12_get_cwd (volume s1))) (say ''Current directory: '' c2))
                else c2)
      in s1\<lparr>sys_console := c3\<rparr>)"

definition nano_exit_editor :: "'d disk_ops \<Rightarrow> nano_exit \<Rightarrow> 'd sys \<Rightarrow> 'd sys option" where
  "nano_exit_editor D save_action s =
     (let had_dirty = dirty (sys_nano s) in
      if save_action = NANO_EXIT_SAVE \<and> had_dirty then do {
        (saved, s1) \<leftarrow> nano_save_file D s;
        (if \<not> saved then render (on_nano (nano_set_status_message (lit ''Save failed.'')) s1)
         else Some (nano_leave save_action True s1)) }
      else if save_action = NANO_EXIT_DISCARD
      then Some (nano_leave save_action had_dirty (on_nano (\<lambda>e. e\<lparr>dirty := False\<rparr>) s))
      else Some (nano_leave save_action had_dirty s))"

section \<open>Themes and help\<close>

definition nano_cycle_theme :: "'d sys \<Rightarrow> 'd sys option" where
  "nano_cycle_theme s =
     render (on_nano (nano_set_status_message (lit ''Theme changed.''))
       (on_console (\<lambda>con. console_set_theme ((con_theme con + 1) mod THEME_COUNT) con) s))"

definition nano_show_help_overlay :: "'d sys \<Rightarrow> 'd sys" where
  "nano_show_help_overlay s =
     on_console nano_render_help_overlay (on_nano (\<lambda>e. e\<lparr>help_overlay_visible := True\<rparr>) s)"

section \<open>Scan codes\<close>

text \<open>The editing keys: \<open>None\<close> in the second component when nothing is rendered afterwards.\<close>

definition insert_spaces :: "nano \<Rightarrow> nano option" where
  "insert_spaces e = for_each [0..3] (\<lambda>i. nano_insert_char 0x20) e"

definition edit_key :: "u16 \<Rightarrow> (nano \<Rightarrow> nano option) option" where
  "edit_key scancode =
     (if scancode = 0x0E then Some nano_handle_backspace
      else if scancode = 0x1C then Some nano_handle_enter
      else if scancode = 0xE053 \<or> scancode = 0x53 then Some nano_handle_delete
      else if scancode = 0xE048 \<or> scancode = 0x48 then Some (nano_move_cursor 0 (-1))
      else if scancode = 0xE050 \<or> scancode = 0x50 then Some (nano_move_cursor 0 1)
      else if scancode = 0xE04B \<or> scancode = 0x4B then Some (nano_move_cursor (-1) 0)
      else if scancode = 0xE04D \<or> scancode = 0x4D then Some (nano_move_cursor 1 0)
      else if scancode = 0xE047 \<or> scancode = 0x47 then Some (\<lambda>e. Some (nano_move_to_line_start e))
      else if scancode = 0xE04F \<or> scancode = 0x4F then Some nano_move_to_line_end
      else if scancode = 0xE049 \<or> scancode = 0x49 then Some (nano_page_scroll (-1))
      else if scancode = 0xE051 \<or> scancode = 0x51 then Some (nano_page_scroll 1)
      else let c = scancode_to_ascii scancode in
           if 0x20 \<le> c \<and> c \<le> 0x7E then Some (nano_insert_char c)
           else if c = 0x09 then Some insert_spaces
           else None)"

definition nano_confirm_key :: "'d disk_ops \<Rightarrow> u16 \<Rightarrow> 'd sys \<Rightarrow> 'd sys option" where
  "nano_confirm_key D scancode s =
     (let s0 = on_nano (\<lambda>e. e\<lparr>prompt_state := NANO_PROMPT_NONE\<rparr>) s in
      if scancode = 0x01 then nano_exit_editor D NANO_EXIT_DISCARD s0
      else if scancode_to_ascii scancode = 0x79 then do {
        (saved, s1) \<leftarrow> nano_save_file D s0;
        (if \<not> saved then render (on_nano (nano_set_status_message (lit ''Save failed.'')) s1)
         else nano_exit_editor D NANO_EXIT_SAVE s1) }
      else if scancode_to_ascii scancode = 0x6E then nano_exit_editor D NANO_EXIT_DISCARD s0
      else Some s)"

definition nano_handle_scancode :: "'d disk_ops \<Rightarrow> u16 \<Rightarrow> bool \<Rightarrow> 'd sys \<Rightarrow> 'd sys option" where
  "nano_handle_scancode D scancode is_release s =
     (if help_overlay_visible (sys_nano s) then
        (if \<not> is_release
         then render (on_nano (\<lambda>e. nano_reset_status_message (e\<lparr>help_overlay_visible := False\<rparr>)) s)
         else Some s)
      else if prompt_state (sys_nano s) = NANO_PROMPT_SAVE_CONFIRM then
        (if is_release then Some s else nano_confirm_key D scancode s)
      else if is_release then Some s
      else if ctrl_pressed (sys_keyboard s) \<and> scancode = 0x1F then do {
        (saved, s1) \<leftarrow> nano_save_file D s;
        render (on_nano (nano_set_status_message (if saved then lit ''Saved.'' else lit ''Save failed.'')) s1) }
      else if ctrl_pressed (sys_keyboard s) \<and> scancode = 0x2D then
        (if dirty (sys_nano s)
         then render (on_nano (\<lambda>e. nano_set_status_message (lit ''Save changes? (Y=Yes, N=No, Esc=Discard)'')
                        (e\<lparr>prompt_state := NANO_PROMPT_SAVE_CONFIRM\<rparr>)) s)
         else nano_exit_editor D NANO_EXIT_SAVE s)
      else if ctrl_pressed (sys_keyboard s) \<and> scancode = 0x14 then nano_cycle_theme s
      else if ctrl_pressed (sys_keyboard s) \<and> scancode = 0x23 then Some (nano_show_help_overlay s)
      else if scancode = 0x01 then nano_exit_editor D NANO_EXIT_DISCARD s
      else case edit_key scancode of
             None \<Rightarrow> Some s
           | Some f \<Rightarrow> do { s1 \<leftarrow> edit f s; render s1 })"

end
