(* ===== verification/Commands.thy ===== *)
theory Commands
  imports Bootlog Nano_Session
begin

text \<open>
  The command interpreter \<open>src/shell/commands.c\<close>: one definition per handler, over the
  system state, and the dispatch on the command line. The date and time the compiler
  puts into the program are a parameter. A handler returns \<open>None\<close> when the file system
  does not return or the editor leaves its arrays. \<open>halt_cpu\<close> does not return; the model
  sets \<open>cpu_halted\<close>.
\<close>

record build_info =
  build_date :: "byte list"
  build_time :: "byte list"

definition commands_init :: "'d sys \<Rightarrow> 'd sys" where
  "commands_init s = s\<lparr>fat_ready := False\<rparr>"

definition commands_set_fat_ready :: "bool \<Rightarrow> 'd sys \<Rightarrow> 'd sys" where
  "commands_set_fat_ready ready s = s\<lparr>fat_ready := ready\<rparr>"

section \<open>Errors\<close>

fun fat12_error_string :: "int \<Rightarrow> byte list" where
  "fat12_error_string code =
     lit (if code = 0 then ''ok''
          else if code = -1 then ''io''
          else if code = -2 then ''bad bpb''
          else if code = -3 then ''not fat12''
          else if code = -4 then ''range''
          else if code = -5 then ''disk full''
          else if code = -6 then ''name''
          else if code = -7 then ''not found''
          else if code = -8 then ''not dir''
          else if code = -9 then ''exists''
          else if code = -10 then ''dir full''
          else if code = -11 then ''buffer''
          else if code = -12 then ''not file''
          else if code = -13 then ''fs offline''
          else ''unknown'')"

definition print_fs_error :: "int \<Rightarrow> console \<Rightarrow> console" where
  "print_fs_error code con =
     say '')'' (print_decimal (of_int code)
       (say '' code '' (console_print (Some (fat12_error_string code)) (say '' ('' con))))"

text \<open>The message of a failed command, and the one before a mount.\<close>

definition failed :: "string \<Rightarrow> int \<Rightarrow> console \<Rightarrow> console" where
  "failed what code con = say newline (print_fs_error code (say what con))"

definition offline :: "'d sys \<Rightarrow> 'd sys" where
  "offline s = on_console (say (''Filesystem not initialized'' @ newline)) s"

section \<open>Simple commands\<close>

definition handle_clear :: "'d sys \<Rightarrow> 'd sys" where
  "handle_clear s = on_console vga_clear s"

definition handle_echo :: "byte list \<Rightarrow> 'd sys \<Rightarrow> 'd sys" where
  "handle_echo args s =
     on_console (\<lambda>con. say newline (if char_at args 0 \<noteq> 0 then console_print (Some args) con else con)) s"

definition get_boot_mode_name :: "boot_mode \<Rightarrow> byte list" where
  "get_boot_mode_name m =
     (case m of BOOT_MODE_UEFI \<Rightarrow> lit ''UEFI'' | BOOT_MODE_BIOS \<Rightarrow> lit ''BIOS'' | BOOT_MODE_UNKNOWN \<Rightarrow> lit ''Unknown'')"

definition info_line :: "string \<Rightarrow> byte list \<Rightarrow> console \<Rightarrow> console" where
  "info_line label value con = say newline (console_print (Some value) (say label con))"

definition handle_fetch :: "build_info \<Rightarrow> 'd sys \<Rightarrow> 'd sys" where
  "handle_fetch B s =
     on_console (\<lambda>c0.
       let c1 = info_line ''OS: '' (lit ''AltoniumOS'') c0;
           c2 = info_line ''Version: '' (lit ''1.0.0'') c1;
           c3 = info_line ''Architecture: '' (lit ''x86'') c2;
           c4 = info_line ''Build Date: '' (build_date B) c3;
           c5 = info_line ''Build Time: '' (build_time B) c4;
           c6 = info_line ''Boot Mode: '' (get_boot_mode_name (sys_boot_mode s)) c5
       in if bootlog_mapped s then number_line ''Memory: '' (memory_mb (sys_bootlog s)) ('' MB'' @ newline) c6
          else c6) s"

definition help_text :: "string list" where
  "help_text =
     [''Available commands:'',
      ''  clear          - Clear the screen'',
      ''  echo TEXT      - Print text to the screen'',
      ''  fetch          - Print OS and system information'',
      ''  disk           - Test disk I/O and show disk information'',
      ''  storage        - List detected storage controllers'',
      ''  ls [PATH]      - List files in the current or given directory'',
      ''  dir [PATH]     - Alias for ls'',
      ''  pwd            - Show current directory'',
      ''  cd PATH        - Change directory'',
      ''  cat FILE       - Print file contents'',
      ''  touch FILE     - Create a zero-length file'',
      ''  write FILE TXT - Create/overwrite a text file'',
      ''  mkdir NAME     - Create a directory'',
      ''  rm FILE        - Delete a file'',
      ''  nano FILE      - Text editor (Ctrl+S/Ctrl+X/Ctrl+T/Ctrl+H)'',
      ''  theme [OPTION] - Switch theme (normal/blue/green) or '' @ [CHR 0x27] @ ''list'' @ [CHR 0x27],
      ''  fsstat         - Show filesystem/disk statistics'',
      ''  bootlog        - Show BIOS boot diagnostics'',
      ''  shutdown       - Shut down the system'',
      ''  help           - Display this help message'']"

definition handle_help :: "'d sys \<Rightarrow> 'd sys" where
  "handle_help s = on_console (fold (\<lambda>l. say (l @ newline)) help_text) s"

definition handle_shutdown :: "'d disk_ops \<Rightarrow> 'd sys \<Rightarrow> 'd sys" where
  "handle_shutdown D s =
     (let s1 = on_console (say (''Attempting system shutdown...'' @ newline)) s;
          s2 = (if fat_ready s1 then s1\<lparr>volume := snd (fat12_flush D (volume s1))\<rparr> else s1);
          s3 = on_console (say (''Halting CPU...'' @ newline)) s2
      in s3\<lparr>cpu_halted := True\<rparr>)"

section \<open>Disk and storage\<close>

text \<open>\<open>FAILED (error -n)\<close>\<close>

definition failed_code :: "string \<Rightarrow> int \<Rightarrow> console \<Rightarrow> console" where
  "failed_code what result con =
     (let c1 = say what con;
          c2 = (if result < 0 then say ''-'' c1 else c1)
      in say ('')'' @ newline) (console_print (Some (int_text \<bar>result\<bar>)) c2))"

text \<open>The hex dump of the first 64 bytes, 16 to a line.\<close>

definition dump_byte :: "mem \<Rightarrow> nat \<Rightarrow> console \<Rightarrow> console" where
  "dump_byte buffer i con =
     (let c1 = (if i mod 16 = 0 then say ''    '' con else con);
          c2 = console_print (Some (hex_byte (buffer i))) (say '' '' c1)
      in if i mod 16 = 15 then say newline c2 else c2)"

definition dump_sector :: "mem \<Rightarrow> console \<Rightarrow> console" where
  "dump_sector buffer = fold (dump_byte buffer) [0..<64]"

definition set_disk :: "'d \<Rightarrow> 'd sys \<Rightarrow> 'd sys" where
  "set_disk d s = s\<lparr>volume := (volume s)\<lparr>disk := d\<rparr>\<rparr>"

definition handle_disk :: "'h ata_hw \<Rightarrow> 'h disk_state sys \<Rightarrow> 'h disk_state sys" where
  "handle_disk H s =
     (let s0 = on_console (say (''Disk Information:'' @ newline)) s in
      case disk_init H (disk (volume s0)) of
        (result, d1) \<Rightarrow>
          if result \<noteq> 0 then on_console (failed_code ''  Disk initialization FAILED (error '' result) (set_disk d1 s0)
          else
            let s1 = on_console (say (''  Disk initialization: OK'' @ newline)) (set_disk d1 s0) in
            (case disk_read_sector H 0 (Some 0) (\<lambda>_. 0) d1 of
               (result2, buffer, d2) \<Rightarrow>
                 if result2 \<noteq> 0 then on_console (failed_code ''  Sector 0 read: FAILED (error '' result2) (set_disk d2 s1)
                 else
                   let s2 = on_console (say (''  Sector 0 read: OK'' @ newline)) (set_disk d2 s1);
                       s3 = on_console (say (''  First 64 bytes of sector 0:'' @ newline)) s2;
                       s4 = on_console (dump_sector buffer) s3;
                       s5 = on_console (say ''  Disk self-test: '') s4
                   in (case disk_self_test H d2 of
                         (result3, d3) \<Rightarrow>
                           if result3 \<noteq> 0 then on_console (failed_code ''FAILED (error '' result3) (set_disk d3 s5)
                           else on_console (say (''OK'' @ newline)) (set_disk d3 s5))))"

definition stats_text :: "disk_stats \<Rightarrow> console \<Rightarrow> console" where
  "stats_text st c0 =
     (let c1 = print_unsigned (read_ops st) (say ''  Read operations:    '' (say (''Disk I/O Statistics:'' @ newline) c0));
          c2 = say ('' sectors)'' @ newline) (print_unsigned (read_sectors_count st) (say '' ('' c1));
          c3 = print_unsigned (write_ops st) (say ''  Write operations:   '' c2);
          c4 = say ('' sectors)'' @ newline) (print_unsigned (write_sectors_count st) (say '' ('' c3));
          c5 = say newline (print_unsigned (read_multi_ops st) (say ''  Multi-read ops:     '' c4));
          c6 = say newline (print_unsigned (write_multi_ops st) (say ''  Multi-write ops:    '' c5));
          total_ops = read_ops st + write_ops st;
          multi_ops = read_multi_ops st + write_multi_ops st;
          c7 = say newline (print_unsigned total_ops (say ''  Total operations:   '' c6))
      in if total_ops > 0
         then say (''%'' @ newline) (print_unsigned (multi_ops * 100 div total_ops) (say ''  Multi-op ratio:     '' c7))
         else c7)"

definition handle_fsstat_command :: "'h disk_state sys \<Rightarrow> 'h disk_state sys" where
  "handle_fsstat_command s = on_console (stats_text (disk_get_stats (disk (volume s)))) s"

definition storage_line :: "nat \<Rightarrow> block_device \<Rightarrow> console \<Rightarrow> console" where
  "storage_line i dev con =
     (let c1 = say ''] '' (print_decimal (of_nat i) (say ''  ['' con));
          c2 = say ''Sector: '' (say '' - '' (console_print (Some (driver_name dev)) c1));
          c3 = say ''B, Queue: '' (print_decimal (sector_size dev) c2)
      in say newline (print_decimal (queue_depth dev) c3))"

definition handle_storage_command :: "'d sys \<Rightarrow> 'd sys" where
  "handle_storage_command s =
     on_console (\<lambda>con.
       let c1 = say (''Storage Devices:'' @ newline) con in
       if storage_devices s = [] then say (''  No storage devices detected'' @ newline) c1
       else fold (\<lambda>(i, dev). storage_line i dev) (zip [0..<length (storage_devices s)] (storage_devices s)) c1) s"

definition handle_bootlog_command :: "'d sys \<Rightarrow> 'd sys" where
  "handle_bootlog_command s = bootlog_print s"

section \<open>Directories and files\<close>

text \<open>\<open>path_buf\<close> and \<open>path_len\<close> after the optional argument was copied.\<close>

definition path_argument :: "byte list \<Rightarrow> int \<times> byte list" where
  "path_argument args =
     (case skip_whitespace (Some args) of
        None \<Rightarrow> (0, [])
      | Some path \<Rightarrow> if char_at path 0 \<noteq> 0 then copy_path_argument (Some path) FAT12_PATH_MAX else (0, []))"

text \<open>The entries listed so far are counted; the text goes to the console.\<close>

definition ls_callback :: "dir_entry_info \<Rightarrow> nat \<times> console \<Rightarrow> bool \<times> nat \<times> console" where
  "ls_callback entry ctx =
     (case ctx of (count, c0) \<Rightarrow>
        let is_dir = (info_attr entry AND FAT12_ATTR_DIRECTORY \<noteq> 0);
            c1 = (if is_dir then say ''[DIR] '' c0 else say ''      '' c0);
            c2 = console_print (Some (info_name entry)) c1;
            c3 = (if \<not> is_dir then say '' bytes)'' (print_unsigned (info_size entry) (say '' ('' c2)) else c2)
        in (False, count + 1, say newline c3))"

definition handle_ls :: "'d disk_ops \<Rightarrow> byte list \<Rightarrow> 'd sys \<Rightarrow> 'd sys option" where
  "handle_ls D args s =
     (if \<not> fat_ready s then Some (offline s)
      else
        let (path_len, path_buf) = path_argument args in
        if path_len < 0 then Some (on_console (say (''ls failed (path too long)'' @ newline)) s)
        else do {
          (result, (count, con), v) \<leftarrow>
            (if path_len > 0 then fat12_iterate_path D (Some path_buf) (Some ls_callback) (0, sys_console s) (volume s)
             else fat12_iterate_current_directory D (Some ls_callback) (0, sys_console s) (volume s));
          let s1 = s\<lparr>sys_console := con, volume := v\<rparr>;
          Some (if fat12_status result \<noteq> 0 then on_console (failed ''ls failed'' (fat12_status result)) s1
                else if count = 0 then on_console (say (''(empty)'' @ newline)) s1
                else s1) })"

definition handle_pwd :: "'d sys \<Rightarrow> 'd sys" where
  "handle_pwd s =
     (if \<not> fat_ready s then offline s
      else on_console (\<lambda>con. say newline (console_print (Some (fat12_get_cwd (volume s))) con)) s)"

definition handle_cd :: "'d disk_ops \<Rightarrow> byte list \<Rightarrow> 'd sys \<Rightarrow> 'd sys option" where
  "handle_cd D args s =
     (if \<not> fat_ready s then Some (offline s)
      else
        let (path_len, path_buf) = path_argument args in
        if path_len < 0 then Some (on_console (say (''cd failed (path too long)'' @ newline)) s)
        else do {
          (result, v) \<leftarrow> fat12_change_directory D (Some (if path_len = 0 then lit ''/'' else path_buf)) (volume s);
          let s1 = s\<lparr>volume := v\<rparr>;
          Some (if fat12_status result \<noteq> 0 then on_console (failed ''cd failed'' (fat12_status result)) s1
                else on_console (\<lambda>con. say newline (console_print (Some (fat12_get_cwd v)) con)) s1) })"

definition handle_cat :: "'d disk_ops \<Rightarrow> byte list \<Rightarrow> 'd sys \<Rightarrow> 'd sys option" where
  "handle_cat D args s =
     (if \<not> fat_ready s then Some (offline s)
      else
        let (path_len, path_buf) = copy_path_argument (skip_whitespace (Some args)) FAT12_PATH_MAX in
        if path_len < 0 then Some (on_console (say (''cat failed (path too long)'' @ newline)) s)
        else if path_len = 0 then Some (on_console (say (''Usage: cat FILE'' @ newline)) s)
        else do {
          (result, buffer, v) \<leftarrow>
            fat12_read_file D (Some path_buf) (Some (fs_io_buffer s)) (FS_IO_BUFFER_SIZE - 1) (volume s);
          buf \<leftarrow> buffer;
          let s1 = s\<lparr>fs_io_buffer := buf, volume := v\<rparr>;
          Some (case result of
                  Inl e \<Rightarrow> on_console (failed ''cat failed'' (fat12_code e)) s1
                | Inr file_size \<Rightarrow>
                    on_console (\<lambda>con.
                      let c1 = fold console_putchar (mem_get buf 0 (unat file_size)) con
                      in if file_size = 0 \<or> buf (unat (file_size - 1)) \<noteq> 0x0A then say newline c1 else c1) s1) })"

text \<open>
  The commands that take a name: \<open>usage\<close> when there is none, else the operation on the
  name and its message.
\<close>

definition handle_touch :: "'d disk_ops \<Rightarrow> byte list \<Rightarrow> 'd sys \<Rightarrow> 'd sys option" where
  "handle_touch D args s =
     (if \<not> fat_ready s then Some (offline s)
      else case read_token (Some args) FAT12_PATH_MAX of
             None \<Rightarrow> Some (on_console (say (''Usage: touch NAME'' @ newline)) s)
           | Some (name_buf, _) \<Rightarrow> do {
               (result, v) \<leftarrow> fat12_write_file D (Some name_buf) None 0 (volume s);
               let s1 = s\<lparr>volume := v\<rparr>;
               Some (if fat12_status result \<noteq> 0 then on_console (failed ''touch failed'' (fat12_status result)) s1
                     else on_console (\<lambda>con. say newline (console_print (Some name_buf) (say ''Created empty file: '' con))) s1) })"

text \<open>The payload is copied into the I/O buffer; false when it does not fit.\<close>

fun copy_payload :: "byte list \<Rightarrow> nat \<Rightarrow> mem \<Rightarrow> bool \<times> nat \<times> mem" where
  "copy_payload [] len buf = (True, len, buf)"
| "copy_payload (c # cs) len buf =
     (if c = 0 then (True, len, buf)
      else if len \<ge> unat FS_IO_BUFFER_SIZE then (False, len, buf)
      else copy_payload cs (Suc len) (buf(len := c)))"

definition handle_write_command :: "'d disk_ops \<Rightarrow> byte list \<Rightarrow> 'd sys \<Rightarrow> 'd sys option" where
  "handle_write_command D args s =
     (if \<not> fat_ready s then Some (offline s)
      else case read_token (Some args) FAT12_PATH_MAX of
             None \<Rightarrow> Some (on_console (say (''Usage: write NAME TEXT'' @ newline)) s)
           | Some (name_buf, cursor) \<Rightarrow>
               (case copy_payload (skip_blanks cursor) 0 (fs_io_buffer s) of
                  (fits, len, buf) \<Rightarrow>
                    let s1 = s\<lparr>fs_io_buffer := buf\<rparr> in
                    if \<not> fits then Some (on_console (say (''write failed (data too large)'' @ newline)) s1)
                    else do {
                      (result, v) \<leftarrow> fat12_write_file D (Some name_buf) (Some buf) (of_nat len) (volume s1);
                      let s2 = s1\<lparr>volume := v\<rparr>;
                      Some (if fat12_status result \<noteq> 0 then on_console (failed ''write failed'' (fat12_status result)) s2
                            else on_console (\<lambda>con. say ('' bytes'' @ newline) (print_unsigned (of_nat len) (say ''Wrote '' con))) s2) }))"

definition handle_mkdir_command :: "'d disk_ops \<Rightarrow> byte list \<Rightarrow> 'd sys \<Rightarrow> 'd sys option" where
  "handle_mkdir_command D args s =
     (if \<not> fat_ready s then Some (offline s)
      else case read_token (Some args) FAT12_PATH_MAX of
             None \<Rightarrow> Some (on_console (say (''Usage: mkdir NAME'' @ newline)) s)
           | Some (name_buf, _) \<Rightarrow> do {
               (result, v) \<leftarrow> fat12_create_directory D (Some name_buf) (volume s);
               let s1 = s\<lparr>volume := v\<rparr>;
               Some (if fat12_status result \<noteq> 0 then on_console (failed ''mkdir failed'' (fat12_status result)) s1
                     else on_console (say (''Directory created'' @ newline)) s1) })"

definition handle_rm_command :: "'d disk_ops \<Rightarrow> byte list \<Rightarrow> 'd sys \<Rightarrow> 'd sys option" where
  "handle_rm_command D args s =
     (if \<not> fat_ready s then Some (offline s)
      else case read_token (Some args) FAT12_PATH_MAX of
             None \<Rightarrow> Some (on_console (say (''Usage: rm NAME'' @ newline)) s)
           | Some (name_buf, _) \<Rightarrow> do {
               (result, v) \<leftarrow> fat12_delete_file D (Some name_buf) (volume s);
               let s1 = s\<lparr>volume := v\<rparr>;
               Some (if fat12_status result \<noteq> 0 then on_console (failed ''rm failed'' (fat12_status result)) s1
                     else on_console (say (''File deleted'' @ newline)) s1) })"

definition handle_nano_command :: "'d disk_ops \<Rightarrow> byte list \<Rightarrow> 'd sys \<Rightarrow> 'd sys option" where
  "handle_nano_command D args s =
     (if \<not> fat_ready s then Some (offline s)
      else case read_token (Some args) FAT12_PATH_MAX of
             None \<Rightarrow> Some (on_console (say (''Usage: nano FILENAME'' @ newline)) s)
           | Some (filename_buf, _) \<Rightarrow> nano_init_editor D filename_buf s)"

section \<open>Themes\<close>

definition theme_list_line :: "nat \<Rightarrow> console \<Rightarrow> console" where
  "theme_list_line i con =
     (let c1 = console_print (Some (theme_name (themes ! i))) (say ''  '' con);
          c2 = (if int i = con_theme con then say '' (current)'' c1 else c1)
      in say newline c2)"

definition find_theme :: "byte list \<Rightarrow> nat option" where
  "find_theme name = List.find (\<lambda>i. strcmp_impl name (theme_name (themes ! i)) = 0) [0..<nat THEME_COUNT]"

definition theme_text :: "byte list \<Rightarrow> console \<Rightarrow> console" where
  "theme_text args con =
     (case read_token (Some args) 32 of
        None \<Rightarrow>
          say (newline @ ''Usage: theme [normal|blue|green|list]'' @ newline)
            (console_print (Some (theme_name (current_theme con))) (say ''Current theme: '' con))
      | Some (option_buf, _) \<Rightarrow>
          if strcmp_impl option_buf (lit ''list'') = 0
          then fold theme_list_line [0..<nat THEME_COUNT] (say (''Available themes:'' @ newline) con)
          else case find_theme option_buf of
                 None \<Rightarrow>
                   say (newline @ ''Available: normal, blue, green'' @ newline)
                     (console_print (Some option_buf) (say ''Unknown theme: '' con))
               | Some found \<Rightarrow>
                   let c1 = console_set_theme (int found) con;
                       c2 = say newline (console_print (Some (theme_name (current_theme c1))) (say ''Theme changed to: '' c1));
                       c3 = vga_clear c2
                   in say (newline @ newline) (console_print (Some (theme_name (current_theme c3))) (say ''Theme applied: '' c3)))"

definition handle_theme_command :: "byte list \<Rightarrow> 'd sys \<Rightarrow> 'd sys" where
  "handle_theme_command args s = on_console (theme_text args) s"

section \<open>Dispatch\<close>

text \<open>\<open>strncmp_impl(cmd_line, "kw", n) == 0\<close> and what follows ends the word.\<close>

definition is_command :: "string \<Rightarrow> byte list \<Rightarrow> bool" where
  "is_command kw cmd_line \<longleftrightarrow>
     strncmp_impl cmd_line (lit kw) (length kw) = 0
     \<and> (char_at cmd_line (length kw) = 0 \<or> char_at cmd_line (length kw) = 0x20 \<or> char_at cmd_line (length kw) = 0x0A)"

definition execute_command ::
    "'h ata_hw \<Rightarrow> build_info \<Rightarrow> byte list \<Rightarrow> 'h disk_state sys \<Rightarrow> 'h disk_state sys option" where
  "execute_command H B line s =
     (if char_at line 0 = 0 then Some s
      else
        let cmd_line = skip_blanks line; D = ata_disk H in
        if is_command ''clear'' cmd_line then Some (handle_clear s)
        else if strncmp_impl cmd_line (lit ''echo '') 5 = 0 then Some (handle_echo (drop 5 cmd_line) s)
        else if is_command ''fetch'' cmd_line then Some (handle_fetch B s)
        else if is_command ''disk'' cmd_line then Some (handle_disk H s)
        else if is_command ''ls'' cmd_line then handle_ls D (drop 2 cmd_line) s
        else if is_command ''dir'' cmd_line then handle_ls D (drop 3 cmd_line) s
        else if is_command ''pwd'' cmd_line then Some (handle_pwd s)
        else if is_command ''cd'' cmd_line then handle_cd D (drop 2 cmd_line) s
        else if is_command ''cat'' cmd_line then handle_cat D (drop 3 cmd_line) s
        else if is_command ''touch'' cmd_line then handle_touch D (drop 5 cmd_line) s
        else if is_command ''write'' cmd_line then handle_write_command D (drop 5 cmd_line) s
        else if is_command ''mkdir'' cmd_line then handle_mkdir_command D (drop 5 cmd_line) s
        else if is_command ''rm'' cmd_line then handle_rm_command D (drop 2 cmd_line) s
        else if is_command ''nano'' cmd_line then handle_nano_command D (drop 4 cmd_line) s
        else if is_command ''theme'' cmd_line then Some (handle_theme_command (drop 5 cmd_line) s)
        else if is_command ''fsstat'' cmd_line then Some (handle_fsstat_command s)
        else if is_command ''shutdown'' cmd_line then Some (handle_shutdown D s)
        else if is_command ''bootlog'' cmd_line then Some (handle_bootlog_command s)
        else if is_command ''storage'' cmd_line then Some (handle_storage_command s)
        else if is_command ''help'' cmd_line then Some (handle_help s)
        else Some (on_console (\<lambda>con. say newline (console_print (Some cmd_line) (say ''Unknown command: '' con))) s))"

end
