(* ===== verification/Storage.thy ===== *)
theory Storage
  imports System
begin

text \<open>
  PCI enumeration (\<open>src/drivers/bus/pci.c\<close>), the storage drivers built on it
  (\<open>ahci.c\<close>, \<open>nvme.c\<close>, \<open>ata_pio.c\<close>) and the storage manager that registers them. The
  32-bit port instructions and the memory-mapped registers are parameters, on the same
  hardware state as the ATA ports.
\<close>

section \<open>Configuration space\<close>

record 'h pci_hw =
  inl :: "u16 \<Rightarrow> 'h \<Rightarrow> u32 \<times> 'h"
  outl :: "u16 \<Rightarrow> u32 \<Rightarrow> 'h \<Rightarrow> 'h"
  mmio_read :: "u32 \<Rightarrow> 'h \<Rightarrow> u32 \<times> 'h"
  mmio_write :: "u32 \<Rightarrow> u32 \<Rightarrow> 'h \<Rightarrow> 'h"

record pci_device =
  pci_bus :: u8
  pci_dev :: u8
  pci_fn :: u8
  vendor_id :: u16
  device_id :: u16
  class_code :: u8
  subclass_code :: u8
  prog_if :: u8
  bar :: "u32 list"

definition PCI_MAX_DEVICES :: nat where
  "PCI_MAX_DEVICES = 256"

abbreviation (input) PCI_VENDOR_ID :: u8 where "PCI_VENDOR_ID \<equiv> 0x00"
abbreviation (input) PCI_DEVICE_ID :: u8 where "PCI_DEVICE_ID \<equiv> 0x02"
abbreviation (input) PCI_COMMAND :: u8 where "PCI_COMMAND \<equiv> 0x04"
abbreviation (input) PCI_CLASS_CODE :: u8 where "PCI_CLASS_CODE \<equiv> 0x09"
abbreviation (input) PCI_SUBCLASS_CODE :: u8 where "PCI_SUBCLASS_CODE \<equiv> 0x0A"
abbreviation (input) PCI_PROG_IF :: u8 where "PCI_PROG_IF \<equiv> 0x09"
abbreviation (input) PCI_BAR0 :: nat where "PCI_BAR0 \<equiv> 0x10"
abbreviation (input) PCI_CLASS_STORAGE :: u8 where "PCI_CLASS_STORAGE \<equiv> 0x01"
abbreviation (input) PCI_SUBCLASS_SATA :: u8 where "PCI_SUBCLASS_SATA \<equiv> 0x06"
abbreviation (input) PCI_SUBCLASS_NVME :: u8 where "PCI_SUBCLASS_NVME \<equiv> 0x08"

definition pci_address :: "u8 \<Rightarrow> u8 \<Rightarrow> u8 \<Rightarrow> u8 \<Rightarrow> u32" where
  "pci_address bus dev fn offset =
     0x80000000 OR push_bit 16 (ucast bus) OR push_bit 11 (ucast dev) OR push_bit 8 (ucast fn)
     OR ucast (offset AND 0xFC)"

definition pci_read_config :: "'h pci_hw \<Rightarrow> u8 \<Rightarrow> u8 \<Rightarrow> u8 \<Rightarrow> u8 \<Rightarrow> 'h \<Rightarrow> u32 \<times> 'h" where
  "pci_read_config P bus dev fn offset h = inl P 0xCFC (outl P 0xCF8 (pci_address bus dev fn offset) h)"

definition pci_write_config :: "'h pci_hw \<Rightarrow> u8 \<Rightarrow> u8 \<Rightarrow> u8 \<Rightarrow> u8 \<Rightarrow> u32 \<Rightarrow> 'h \<Rightarrow> 'h" where
  "pci_write_config P bus dev fn offset val h = outl P 0xCFC val (outl P 0xCF8 (pci_address bus dev fn offset) h)"

definition pci_read_byte :: "'h pci_hw \<Rightarrow> u8 \<Rightarrow> u8 \<Rightarrow> u8 \<Rightarrow> u8 \<Rightarrow> 'h \<Rightarrow> u8 \<times> 'h" where
  "pci_read_byte P bus dev fn offset h =
     (case pci_read_config P bus dev fn offset h of
        (data, h1) \<Rightarrow> (ucast (drop_bit (unat (offset AND 3) * 8) data AND 0xFF), h1))"

definition pci_read_word :: "'h pci_hw \<Rightarrow> u8 \<Rightarrow> u8 \<Rightarrow> u8 \<Rightarrow> u8 \<Rightarrow> 'h \<Rightarrow> u16 \<times> 'h" where
  "pci_read_word P bus dev fn offset h =
     (case pci_read_config P bus dev fn offset h of
        (data, h1) \<Rightarrow> (ucast (drop_bit (unat (offset AND 2) * 8) data AND 0xFFFF), h1))"

definition pci_get_device :: "int \<Rightarrow> pci_device list \<Rightarrow> pci_device option" where
  "pci_get_device index devs = (if index < 0 \<or> index \<ge> int (length devs) then None else Some (devs ! nat index))"

definition pci_get_bar :: "pci_device \<Rightarrow> int \<Rightarrow> u32" where
  "pci_get_bar d i = (if i < 0 \<or> i \<ge> 6 then 0 else bar d ! nat i)"

definition pci_enable_memory_space :: "'h pci_hw \<Rightarrow> pci_device \<Rightarrow> 'h \<Rightarrow> 'h" where
  "pci_enable_memory_space P d h =
     (case pci_read_word P (pci_bus d) (pci_dev d) (pci_fn d) PCI_COMMAND h of
        (cmd, h1) \<Rightarrow>
          pci_write_config P (pci_bus d) (pci_dev d) (pci_fn d) PCI_COMMAND (ucast (cmd OR (0x0002 OR 0x0004))) h1)"

section \<open>Enumeration\<close>

fun read_bars :: "'h pci_hw \<Rightarrow> u8 \<Rightarrow> u8 \<Rightarrow> u8 \<Rightarrow> nat list \<Rightarrow> 'h \<Rightarrow> u32 list \<times> 'h" where
  "read_bars P bus dev fn [] h = ([], h)"
| "read_bars P bus dev fn (i # is) h =
     (case pci_read_config P bus dev fn (of_nat (PCI_BAR0 + i * 4)) h of
        (v, h1) \<Rightarrow> (case read_bars P bus dev fn is h1 of (vs, h2) \<Rightarrow> ((v AND 0xFFFFFFF0) # vs, h2)))"

text \<open>One slot: nothing when the vendor ID reads as \<open>0xFFFF\<close>.\<close>

definition pci_probe :: "'h pci_hw \<Rightarrow> u8 \<Rightarrow> u8 \<Rightarrow> u8 \<Rightarrow> 'h \<Rightarrow> pci_device option \<times> 'h" where
  "pci_probe P bus dev fn h =
     (case pci_read_word P bus dev fn PCI_VENDOR_ID h of
        (vendor, h1) \<Rightarrow>
          if vendor = 0xFFFF then (None, h1)
          else
            (case pci_read_word P bus dev fn PCI_DEVICE_ID h1 of (device, h2) \<Rightarrow>
             case pci_read_byte P bus dev fn PCI_CLASS_CODE h2 of (class, h3) \<Rightarrow>
             case pci_read_byte P bus dev fn PCI_SUBCLASS_CODE h3 of (subclass, h4) \<Rightarrow>
             case pci_read_byte P bus dev fn PCI_PROG_IF h4 of (prog, h5) \<Rightarrow>
             case read_bars P bus dev fn [0..<6] h5 of (bars, h6) \<Rightarrow>
               (Some \<lparr>pci_bus = bus, pci_dev = dev, pci_fn = fn, vendor_id = vendor, device_id = device,
                      class_code = class, subclass_code = subclass, prog_if = prog, bar = bars\<rparr>, h6)))"

text \<open>The three nested loops visit the slots in this order until the table is full.\<close>

fun pci_scan ::
    "'h pci_hw \<Rightarrow> (u8 \<times> u8 \<times> u8) list \<Rightarrow> pci_device list \<Rightarrow> 'h \<Rightarrow> pci_device list \<times> 'h" where
  "pci_scan P [] devs h = (devs, h)"
| "pci_scan P ((bus, dev, fn) # slots) devs h =
     (if length devs \<ge> PCI_MAX_DEVICES then (devs, h)
      else case pci_probe P bus dev fn h of
             (None, h1) \<Rightarrow> pci_scan P slots devs h1
           | (Some d, h1) \<Rightarrow> pci_scan P slots (devs @ [d]) h1)"

definition pci_slots :: "(u8 \<times> u8 \<times> u8) list" where
  "pci_slots =
     map (\<lambda>(bus, dev, fn). (of_nat bus, of_nat dev, of_nat fn))
       (List.product [0..<256] (List.product [0..<32] [0..<8]))"

definition pci_enumerate :: "'h pci_hw \<Rightarrow> 'h \<Rightarrow> pci_device list \<times> 'h" where
  "pci_enumerate P h = pci_scan P pci_slots [] h"

section \<open>Drivers\<close>

definition is_storage :: "u8 \<Rightarrow> pci_device \<Rightarrow> bool" where
  "is_storage subclass d \<longleftrightarrow> class_code d = PCI_CLASS_STORAGE \<and> subclass_code d = subclass"

text \<open>\<open>nvme_init\<close> and \<open>ahci_init\<close> search the first matching controller themselves.\<close>

definition nvme_init :: "'h pci_hw \<Rightarrow> pci_device list \<Rightarrow> 'h \<Rightarrow> (int + block_device) \<times> 'h" where
  "nvme_init P devs h =
     (case List.find (is_storage PCI_SUBCLASS_NVME) devs of
        None \<Rightarrow> (Inl (-1), h)
      | Some d \<Rightarrow>
          let h1 = pci_enable_memory_space P d h; bar0_addr = bar d ! 0 in
          if bar0_addr = 0 \<or> bar0_addr = 0xFFFFFFFF then (Inl (-2), h1)
          else (Inr \<lparr>dev_type = BLOCK_DEVICE_NVME, sector_size = 4096, capacity_sectors = 0,
                     driver_name = lit ''NVMe'', queue_depth = 64, dev_ops = NVME_OPS\<rparr>, h1))"

definition ahci_init :: "'h pci_hw \<Rightarrow> pci_device list \<Rightarrow> 'h \<Rightarrow> (int + block_device) \<times> 'h" where
  "ahci_init P devs h =
     (case List.find (is_storage PCI_SUBCLASS_SATA) devs of
        None \<Rightarrow> (Inl (-1), h)
      | Some d \<Rightarrow>
          let h1 = pci_enable_memory_space P d h;
              abar = (if bar d ! 5 = 0 then bar d ! 0 else bar d ! 5) in
          if abar = 0 \<or> abar = 0xFFFFFFFF then (Inl (-2), h1)
          else
            (case mmio_read P (abar + 4) h1 of
               (ghc, h2) \<Rightarrow>
                 let h3 = (if ghc AND 0x80000000 = 0 then mmio_write P (abar + 4) (ghc OR 0x80000000) h2 else h2)
                 in (Inr \<lparr>dev_type = BLOCK_DEVICE_AHCI, sector_size = 512, capacity_sectors = 0,
                          driver_name = lit ''AHCI'', queue_depth = 32, dev_ops = AHCI_OPS\<rparr>, h3)))"

definition ata_pio_init :: "'h ata_hw \<Rightarrow> 'h disk_state \<Rightarrow> (int + block_device) \<times> 'h disk_state" where
  "ata_pio_init H d =
     (case disk_init H d of
        (rc, d1) \<Rightarrow>
          if rc \<noteq> 0 then (Inl (-1), d1)
          else (Inr \<lparr>dev_type = BLOCK_DEVICE_ATA, sector_size = of_nat SECTOR_SIZE, capacity_sectors = 0,
                     driver_name = lit ''ATA PIO'', queue_depth = 1, dev_ops = ATA_PIO_OPS\<rparr>, d1))"

definition ata_pio_read ::
    "'h ata_hw \<Rightarrow> u32 \<Rightarrow> nat option \<Rightarrow> u16 \<Rightarrow> mem \<Rightarrow> 'h disk_state \<Rightarrow> int \<times> mem \<times> 'h disk_state" where
  "ata_pio_read H lba buffer num_sectors m d =
     (if num_sectors = 0 then (0, m, d)
      else if num_sectors = 1 then disk_read_sector H lba buffer m d
      else disk_read_sectors H lba buffer num_sectors m d)"

definition ata_pio_write ::
    "'h ata_hw \<Rightarrow> u32 \<Rightarrow> nat option \<Rightarrow> u16 \<Rightarrow> mem \<Rightarrow> 'h disk_state \<Rightarrow> int \<times> 'h disk_state" where
  "ata_pio_write H lba buffer num_sectors m d =
     (if num_sectors = 0 then (0, d)
      else if num_sectors = 1 then disk_write_sector H lba buffer m d
      else disk_write_sectors H lba buffer num_sectors m d)"

definition ahci_read :: "u32 \<Rightarrow> nat option \<Rightarrow> u16 \<Rightarrow> mem \<Rightarrow> 'd \<Rightarrow> int \<times> mem \<times> 'd" where
  "ahci_read lba buffer num_sectors m d = (-1, m, d)"

definition ahci_write :: "u32 \<Rightarrow> nat option \<Rightarrow> u16 \<Rightarrow> mem \<Rightarrow> 'd \<Rightarrow> int \<times> 'd" where
  "ahci_write lba buffer num_sectors m d = (-1, d)"

definition nvme_read :: "u32 \<Rightarrow> nat option \<Rightarrow> u16 \<Rightarrow> mem \<Rightarrow> 'd \<Rightarrow> int \<times> mem \<times> 'd" where
  "nvme_read lba buffer num_sectors m d = (-1, m, d)"

definition nvme_write :: "u32 \<Rightarrow> nat option \<Rightarrow> u16 \<Rightarrow> mem \<Rightarrow> 'd \<Rightarrow> int \<times> 'd" where
  "nvme_write lba buffer num_sectors m d = (-1, d)"

text \<open>A call through the function pointers of a device.\<close>

definition block_read ::
    "'h ata_hw \<Rightarrow> block_device \<Rightarrow> u32 \<Rightarrow> nat option \<Rightarrow> u16 \<Rightarrow> mem \<Rightarrow> 'h disk_state \<Rightarrow> int \<times> mem \<times> 'h disk_state" where
  "block_read H dev =
     (case dev_ops dev of ATA_PIO_OPS \<Rightarrow> ata_pio_read H | AHCI_OPS \<Rightarrow> ahci_read | NVME_OPS \<Rightarrow> nvme_read)"

definition block_write ::
    "'h ata_hw \<Rightarrow> block_device \<Rightarrow> u32 \<Rightarrow> nat option \<Rightarrow> u16 \<Rightarrow> mem \<Rightarrow> 'h disk_state \<Rightarrow> int \<times> 'h disk_state" where
  "block_write H dev =
     (case dev_ops dev of ATA_PIO_OPS \<Rightarrow> ata_pio_write H | AHCI_OPS \<Rightarrow> ahci_write | NVME_OPS \<Rightarrow> nvme_write)"

section \<open>The storage manager\<close>

definition STORAGE_MAX_DEVICES :: nat where
  "STORAGE_MAX_DEVICES = 16"

type_synonym storage_table = "block_device list \<times> nat option"

definition storage_register_device :: "block_device \<Rightarrow> block_device list \<Rightarrow> int \<times> block_device list" where
  "storage_register_device dev devs =
     (if length devs \<ge> STORAGE_MAX_DEVICES then (-1, devs) else (0, devs @ [dev]))"

text \<open>The caller makes the first registered device the primary one (an index here).\<close>

definition register_device :: "block_device \<Rightarrow> storage_table \<Rightarrow> storage_table" where
  "register_device dev tab =
     (case tab of (devs, primary) \<Rightarrow>
        (case storage_register_device dev devs of
           (rc, devs1) \<Rightarrow> (devs1, if rc = 0 \<and> primary = None then Some (length devs1 - 1) else primary)))"

definition storage_get_device :: "int \<Rightarrow> block_device list \<Rightarrow> block_device option" where
  "storage_get_device index devs =
     (if index < 0 \<or> index \<ge> int (length devs) then None else Some (devs ! nat index))"

text \<open>One pass over the PCI devices: the driver is initialised once per matching device.\<close>

fun register_controllers ::
    "(pci_device \<Rightarrow> bool) \<Rightarrow> ('h \<Rightarrow> (int + block_device) \<times> 'h) \<Rightarrow> pci_device list \<Rightarrow> storage_table \<Rightarrow> 'h
     \<Rightarrow> storage_table \<times> 'h" where
  "register_controllers match init [] tab h = (tab, h)"
| "register_controllers match init (d # ds) tab h =
     (if match d then
        (case init h of
           (Inr bd, h1) \<Rightarrow> register_controllers match init ds (register_device bd tab) h1
         | (Inl e, h1) \<Rightarrow> register_controllers match init ds tab h1)
      else register_controllers match init ds tab h)"

definition storage_manager_init ::
    "'h ata_hw \<Rightarrow> 'h pci_hw \<Rightarrow> 'h disk_state \<Rightarrow> storage_table \<times> 'h disk_state" where
  "storage_manager_init H P d =
     (case pci_enumerate P (ports d) of
        (devs, h1) \<Rightarrow>
          (case register_controllers (is_storage PCI_SUBCLASS_NVME) (nvme_init P devs) devs ([], None) h1 of
             (tab1, h2) \<Rightarrow>
               (case register_controllers (is_storage PCI_SUBCLASS_SATA) (ahci_init P devs) devs tab1 h2 of
                  (tab2, h3) \<Rightarrow>
                    (case ata_pio_init H (d\<lparr>ports := h3\<rparr>) of
                       (Inr bd, d1) \<Rightarrow> (register_device bd tab2, d1)
                     | (Inl e, d1) \<Rightarrow> (tab2, d1)))))"

end
