(* ===== verification/Kernel.thy ===== *)
theory Kernel
  imports Commands Storage
begin

text \<open>
  The line editor of the shell (\<open>src/shell/prompt.c\<close>), the dispatch of key events
  (\<open>handle_keyboard_input\<close>) and the kernel's start-up and main loop
  (\<open>src/kernel/main.c\<close>). The main loop takes the bytes the keyboard delivers as a list.
\<close>

section \<open>The prompt\<close>

definition render_prompt_line :: "'d sys \<Rightarrow> 'd sys option" where
  "render_prompt_line s =
     (let p = sys_prompt s; con = sys_console s;
          line_y = prompt_line_y p; start = prompt_line_start_x p;
          attr = get_current_text_attr con;
          m1 = blank_cells (line_y * VGA_WIDTH + start) (line_y * VGA_WIDTH + VGA_WIDTH) attr (con_vga con);
          m2 = fold (\<lambda>i m. if start + i < VGA_WIDTH
                           then put_cell (line_y * VGA_WIDTH + (start + i)) (input_buffer p (nat i)) attr m else m)
                 [0..input_pos p - 1] m1;
          m3 = (if start + input_pos p < VGA_WIDTH
                then put_cell (line_y * VGA_WIDTH + (start + input_pos p)) 0x3E attr m2 else m2)
      in if input_pos p \<le> PROMPT_BUFFER_SIZE
         then Some (on_console (\<lambda>c. console_set_cursor (start + input_pos p) line_y (c\<lparr>con_vga := m3\<rparr>)) s)
         else None)"

definition prompt_init :: "console \<Rightarrow> shell_context option \<Rightarrow> shell_context option" where
  "prompt_init con ctx =
     map_option (\<lambda>p. p\<lparr>input_pos := 0, command_executed := False,
                      prompt_line_start_x := con_x con, prompt_line_y := con_y con\<rparr>) ctx"

definition prompt_reset :: "'d sys \<Rightarrow> 'd sys" where
  "prompt_reset s =
     s\<lparr>sys_prompt := (sys_prompt s)\<lparr>input_pos := 0, command_executed := False,
        prompt_line_start_x := con_x (sys_console s), prompt_line_y := con_y (sys_console s)\<rparr>\<rparr>"

definition prompt_clear_executed_flag :: "'d sys \<Rightarrow> 'd sys" where
  "prompt_clear_executed_flag s = s\<lparr>sys_prompt := (sys_prompt s)\<lparr>command_executed := False\<rparr>\<rparr>"

text \<open>\<open>input_buffer[input_pos] = c\<close>, with the index checked.\<close>

definition put_input :: "byte \<Rightarrow> shell_context \<Rightarrow> shell_context option" where
  "put_input c p =
     (if 0 \<le> input_pos p \<and> input_pos p < PROMPT_BUFFER_SIZE
      then Some (p\<lparr>input_buffer := (input_buffer p)(nat (input_pos p) := c)\<rparr>) else None)"

definition prompt_handle_scancode ::
    "'h ata_hw \<Rightarrow> build_info \<Rightarrow> u16 \<Rightarrow> 'h disk_state sys \<Rightarrow> 'h disk_state sys option" where
  "prompt_handle_scancode H B scancode s =
     (let c = scancode_to_ascii scancode; p = sys_prompt s in
      if c = 0x0A then do {
        let s1 = on_console (console_putchar 0x0A) s;
        p1 \<leftarrow> put_input 0 p;
        s2 \<leftarrow> execute_command H B (mem_get (input_buffer p1) 0 256) (s1\<lparr>sys_prompt := p1\<rparr>);
        Some (s2\<lparr>sys_prompt := (sys_prompt s2)\<lparr>input_pos := 0, command_executed := True\<rparr>\<rparr>) }
      else if c = 0x08 then
        (if input_pos p > 0 then render_prompt_line (s\<lparr>sys_prompt := p\<lparr>input_pos := input_pos p - 1\<rparr>\<rparr>)
         else Some s)
      else if 0x20 \<le> c \<and> c \<le> 0x7E then
        (if input_pos p < PROMPT_BUFFER_SIZE - 1
         then do { p1 \<leftarrow> put_input c p;
                   render_prompt_line (s\<lparr>sys_prompt := p1\<lparr>input_pos := input_pos p + 1\<rparr>\<rparr>) }
         else Some s)
      else Some s)"

section \<open>Key events\<close>

definition handle_keyboard_input ::
    "'h ata_hw \<Rightarrow> build_info \<Rightarrow> u8 \<Rightarrow> 'h disk_state sys \<Rightarrow> 'h disk_state sys option" where
  "handle_keyboard_input H B raw_scancode s =
     (case decode_scancode raw_scancode (sys_keyboard s) of
        (event, kb) \<Rightarrow>
          let s1 = s\<lparr>sys_keyboard := kb\<rparr> in
          (case event of
             None \<Rightarrow> Some s1
           | Some (scancode, is_release) \<Rightarrow>
               if editor_active (sys_nano s1) then nano_handle_scancode (ata_disk H) scancode is_release s1
               else if is_release then Some s1
               else prompt_handle_scancode H B scancode s1))"

section \<open>Start-up\<close>

text \<open>The multiboot information: the flags and the command line, \<open>None\<close> for address 0.\<close>

record multiboot_info =
  mb_flags :: u32
  mb_cmdline :: "byte list option"

definition MULTIBOOT_BOOTLOADER_MAGIC :: u32 where
  "MULTIBOOT_BOOTLOADER_MAGIC = 0x2BADB002"

definition detect_boot_mode :: "u32 \<Rightarrow> multiboot_info option \<Rightarrow> boot_mode" where
  "detect_boot_mode magic info =
     (if magic \<noteq> MULTIBOOT_BOOTLOADER_MAGIC then BOOT_MODE_UNKNOWN
      else case info of
             None \<Rightarrow> BOOT_MODE_BIOS
           | Some mb \<Rightarrow>
               if mb_flags mb AND push_bit 2 1 \<noteq> 0 \<and> mb_cmdline mb \<noteq> None
                  \<and> string_contains (mb_cmdline mb) (Some (lit ''bootmode=uefi''))
               then BOOT_MODE_UEFI else BOOT_MODE_BIOS)"

definition boot_banner :: "'d sys \<Rightarrow> 'd sys" where
  "boot_banner s =
     on_console (\<lambda>c. say newline (console_print (Some (get_boot_mode_name (sys_boot_mode s)))
       (say ''Boot mode: '' (say (''Welcome to AltoniumOS 1.0.0'' @ newline) (vga_clear c))))) s"

definition boot_storage :: "'h ata_hw \<Rightarrow> 'h pci_hw \<Rightarrow> 'h disk_state sys \<Rightarrow> 'h disk_state sys" where
  "boot_storage H P s =
     (let s1 = on_console (say ''Initializing storage manager... '') s in
      case storage_manager_init H P (disk (volume s1)) of
        ((devs, primary), d1) \<Rightarrow>
          let s2 = (set_disk d1 s1)\<lparr>storage_devices := devs, primary_device := primary\<rparr>
          in on_console (\<lambda>c. say ('' device(s) detected)'' @ newline)
               (print_decimal (of_nat (length devs)) (say ''OK ('' c))) s2)"

text \<open>The disk error the boot sector reported ends the start-up.\<close>

definition boot_fatal :: "'d sys \<Rightarrow> 'd sys" where
  "boot_fatal s =
     on_console (\<lambda>c0.
       let c1 = console_print (Some (hex_byte (int13_status (sys_bootlog s))))
                  (say (newline @ ''FATAL: Disk read error during boot (status 0x'') c0);
           c2 = say (''Cannot continue. Check BIOS settings or use Safe BIOS mode.'' @ newline) (say ('')'' @ newline) c1)
       in say (''Press Ctrl+Alt+Del to restart.'' @ newline) c2) (s\<lparr>cpu_halted := True\<rparr>)"

definition boot_disk :: "'h ata_hw \<Rightarrow> 'h disk_state sys \<Rightarrow> bool \<times> 'h disk_state sys" where
  "boot_disk H s =
     (let s1 = on_console (say ''Initializing disk driver... '') s in
      case disk_init H (disk (volume s1)) of
        (disk_result, d1) \<Rightarrow>
          if disk_result \<noteq> 0 then (False, on_console (failed_code ''FAILED (error '' disk_result) (set_disk d1 s1))
          else
            let s2 = on_console (\<lambda>c. say ''Running disk self-test... '' (say (''OK'' @ newline) c)) (set_disk d1 s1) in
            (case disk_self_test H d1 of
               (test_result, d2) \<Rightarrow>
                 (True, if test_result \<noteq> 0 then on_console (failed_code ''FAILED (error '' test_result) (set_disk d2 s2)
                        else on_console (say (''OK'' @ newline)) (set_disk d2 s2))))"

definition boot_volume :: "'h ata_hw \<Rightarrow> 'h disk_state sys \<Rightarrow> 'h disk_state sys" where
  "boot_volume H s =
     (let s1 = on_console (say ''Initializing FAT12 filesystem... '') s in
      case fat12_init (ata_disk H) 0 (volume s1) of
        (fat_result, v) \<Rightarrow>
          let s2 = s1\<lparr>volume := v\<rparr> in
          (case fat_result of
             Inl e \<Rightarrow>
               on_console (\<lambda>c. say ('')'' @ newline) (print_decimal (of_int (fat12_code e)) (say '' code ''
                 (console_print (Some (fat12_error_string (fat12_code e))) (say ''FAILED ('' c))))) s2
           | Inr _ \<Rightarrow>
               on_console (\<lambda>c. say newline (console_print (Some (fat12_get_cwd v)) (say ''Mounted volume at ''
                 (say (''OK'' @ newline) c)))) (commands_set_fat_ready True s2)))"

definition kernel_boot ::
    "'h ata_hw \<Rightarrow> 'h pci_hw \<Rightarrow> u32 \<Rightarrow> multiboot_info option \<Rightarrow> 'h disk_state sys \<Rightarrow> 'h disk_state sys" where
  "kernel_boot H P magic info s0 =
     (let s1 = bootlog_init (s0\<lparr>sys_boot_mode := detect_boot_mode magic info\<rparr>);
          s2 = boot_storage H P (boot_banner s1)
      in if sys_boot_mode s2 = BOOT_MODE_BIOS \<and> boot_method (sys_bootlog s2) = 2 then boot_fatal s2
         else
           let s3 = (if sys_boot_mode s2 = BOOT_MODE_BIOS
                     then on_console (number_line ''Detected memory: '' (memory_mb (sys_bootlog s2)) ('' MB'' @ newline)) s2
                     else s2);
               (disk_ok, s4) = boot_disk H s3;
               s5 = (if disk_ok then boot_volume H s4 else s4)
           in on_console (say (''Type '' @ [CHR 0x27] @ ''help'' @ [CHR 0x27] @ '' for available commands'' @ newline @ newline)) s5)"

section \<open>The main loop\<close>

definition show_prompt :: "'d sys \<Rightarrow> 'd sys option" where
  "show_prompt s = render_prompt_line (prompt_reset s)"

text \<open>One pass of the inner loop: a byte from the keyboard, and a new prompt after a command.\<close>

definition loop_step :: "'h ata_hw \<Rightarrow> build_info \<Rightarrow> u8 \<Rightarrow> 'h disk_state sys \<Rightarrow> 'h disk_state sys option" where
  "loop_step H B b s =
     do { s1 \<leftarrow> handle_keyboard_input H B b s;
          (if command_executed (sys_prompt s1) \<and> \<not> cpu_halted s1
           then show_prompt (prompt_clear_executed_flag s1) else Some s1) }"

fun main_loop :: "'h ata_hw \<Rightarrow> build_info \<Rightarrow> u8 list \<Rightarrow> 'h disk_state sys \<Rightarrow> 'h disk_state sys option" where
  "main_loop H B [] s = Some s"
| "main_loop H B (b # bs) s =
     (if cpu_halted s then Some s else do { s1 \<leftarrow> loop_step H B b s; main_loop H B bs s1 })"

definition kernel_main ::
    "'h ata_hw \<Rightarrow> 'h pci_hw \<Rightarrow> build_info \<Rightarrow> u32 \<Rightarrow> multiboot_info option \<Rightarrow> u8 list \<Rightarrow> 'h disk_state sys
     \<Rightarrow> 'h disk_state sys option" where
  "kernel_main H P B magic info keys s =
     (let s1 = kernel_boot H P magic info s in
      if cpu_halted s1 then Some s1 else do { s2 \<leftarrow> show_prompt s1; main_loop H B keys s2 })"

end
