(* ===== verification/Nano_Rows.thy ===== *)
theory Nano_Rows
  imports Nano
begin

text \<open>
  Exact effects of the loops of the editor on the rows of its array: the shifts inside a
  row, the copies between rows and the moves of whole lines.
\<close>

section \<open>Single accesses\<close>

named_theorems row_simps \<open>array accesses inside the bounds\<close>

definition put_row :: "nat \<Rightarrow> mem \<Rightarrow> nano \<Rightarrow> nano" where
  "put_row r m e = e\<lparr>lines := (lines e)(r := m)\<rparr>"

definition put_len :: "nat \<Rightarrow> int \<Rightarrow> nano \<Rightarrow> nano" where
  "put_len r n e = e\<lparr>line_lengths := (line_lengths e)(r := n)\<rparr>"

lemma put_fields [simp]:
  "lines (put_row r m e) = (lines e)(r := m)" "line_lengths (put_row r m e) = line_lengths e"
  "lines (put_len r n e) = lines e" "line_lengths (put_len r n e) = (line_lengths e)(r := n)"
  "cursor_x (put_row r m e) = cursor_x e" "cursor_y (put_row r m e) = cursor_y e"
  "cursor_x (put_len r n e) = cursor_x e" "cursor_y (put_len r n e) = cursor_y e"
  "total_lines (put_row r m e) = total_lines e" "total_lines (put_len r n e) = total_lines e"
  by (simp_all add: put_row_def put_len_def)

lemma put_row_same: "m = lines e r \<Longrightarrow> put_row r m e = e"
  by (simp add: put_row_def)

lemma put_row_keeps: "(\<And>j. m j = lines e r j) \<Longrightarrow> e = put_row r m e"
  by (rule put_row_same [symmetric]) (rule ext)

lemma put_len_same: "n = line_lengths e r \<Longrightarrow> put_len r n e = e"
  by (simp add: put_len_def)

lemma put_row_twice [simp]: "put_row r m (put_row r m' e) = put_row r m e"
  by (simp add: put_row_def)

lemma put_swap: "put_len r n (put_row q m e) = put_row q m (put_len r n e)"
  by (simp add: put_row_def put_len_def)

lemma index_in [row_simps]:
  "0 \<le> i \<Longrightarrow> i < 1000 \<Longrightarrow> line_index i = Some (nat i)"
  "0 \<le> j \<Longrightarrow> j < 200 \<Longrightarrow> col_index j = Some (nat j)"
  by (simp_all add: line_index_def col_index_def)

lemma access_in [row_simps]:
  "0 \<le> i \<Longrightarrow> i < 1000 \<Longrightarrow> get_len i e = Some (line_lengths e (nat i))"
  "0 \<le> i \<Longrightarrow> i < 1000 \<Longrightarrow> set_len i n e = Some (put_len (nat i) n e)"
  "0 \<le> i \<Longrightarrow> i < 1000 \<Longrightarrow> 0 \<le> j \<Longrightarrow> j < 200 \<Longrightarrow> get_char i j e = Some (lines e (nat i) (nat j))"
  "0 \<le> i \<Longrightarrow> i < 1000 \<Longrightarrow> 0 \<le> j \<Longrightarrow> j < 200 \<Longrightarrow>
     set_char i j b e = Some (put_row (nat i) ((lines e (nat i))(nat j := b)) e)"
  by (simp_all add: get_len_def set_len_def get_char_def set_char_def row_simps put_row_def put_len_def)

lemma for_each_append:
  "for_each (xs @ ys) f s = (case for_each xs f s of None \<Rightarrow> None | Some s1 \<Rightarrow> for_each ys f s1)"
  by (induction xs arbitrary: s) (auto split: option.splits bind_splits)

section \<open>Loops inside a row\<close>

lemma shift_left_loop:
  assumes "0 \<le> r" and "r < 1000" and "0 \<le> a" and "b \<le> 199"
  shows "for_each [a..b - 1] (\<lambda>i s. do { c \<leftarrow> get_char r (i + 1) s; set_char r i c s }) e =
    Some (put_row (nat r)
      (\<lambda>j. if nat a \<le> j \<and> j < nat b then lines e (nat r) (Suc j) else lines e (nat r) j) e)"
  using assms(3)
proof (induction "nat (b - a)" arbitrary: a e)
  case 0
  then show ?case by (auto intro!: put_row_keeps)
next
  case (Suc n)
  then have ab: "a < b" and n: "n = nat (b - (a + 1))" by simp_all
  then have up: "[a..b - 1] = a # [a + 1..b - 1]" by (simp add: upto_rec1)
  have na: "nat (a + 1) = Suc (nat a)" "nat a < nat b" using Suc.prems ab by simp_all
  let ?row = "(lines e (nat r))(nat a := lines e (nat r) (Suc (nat a)))"
  have step: "for_each [a..b - 1] (\<lambda>i s. do { c \<leftarrow> get_char r (i + 1) s; set_char r i c s }) e =
      for_each [a + 1..b - 1] (\<lambda>i s. do { c \<leftarrow> get_char r (i + 1) s; set_char r i c s }) (put_row (nat r) ?row e)"
    unfolding up using Suc.prems assms(1,2,4) ab by (simp add: row_simps na(1))
  show ?case
    unfolding step using Suc.hyps(1) [OF n, of "put_row (nat r) ?row e"] Suc.prems na
    by (auto simp: fun_eq_iff intro!: arg_cong2 [where f = "put_row (nat r)"])
qed

lemma shift_right_loop:
  assumes "0 \<le> r" and "r < 1000" and "0 \<le> a" and "b \<le> 199"
  shows "for_each (rev [a + 1..b])
      (\<lambda>i s. if i < 199 then do { c \<leftarrow> get_char r (i - 1) s; set_char r i c s } else Some s) e =
    Some (put_row (nat r)
      (\<lambda>j. if nat a < j \<and> j \<le> nat b \<and> j < 199 then lines e (nat r) (j - 1) else lines e (nat r) j) e)"
  using assms(4)
proof (induction "nat (b - a)" arbitrary: b e)
  case 0
  then show ?case by (auto intro!: put_row_keeps)
next
  case (Suc n)
  then have ab: "a < b" and n: "n = nat ((b - 1) - a)" by simp_all
  then have up: "[a + 1..b] = [a + 1..b - 1] @ [b]" by (simp add: upto_rec2)
  have nb: "nat (b - 1) = nat b - 1" "nat a < nat b" using assms(3) ab by simp_all
  let ?row = "if b < 199 then (lines e (nat r))(nat b := lines e (nat r) (nat b - 1)) else lines e (nat r)"
  let ?f = "\<lambda>i s. if i < 199 then do { c \<leftarrow> get_char r (i - 1) s; set_char r i c s } else Some s"
  have step: "for_each (rev [a + 1..b]) ?f e = for_each (rev [a + 1..b - 1]) ?f (put_row (nat r) ?row e)"
    unfolding up using Suc.prems assms(1-3) ab by (simp add: row_simps nb(1) put_row_same)
  have b: "nat b < 199 \<longleftrightarrow> b < 199" "0 < nat b" using nb(2) by auto
  have "(if nat a < j \<and> j \<le> nat b - 1 \<and> j < 199 then ?row (j - 1) else ?row j) =
      (if nat a < j \<and> j \<le> nat b \<and> j < 199 then lines e (nat r) (j - 1) else lines e (nat r) j)" for j
    using nb(2) b by (cases "j = nat b"; cases "j < nat b") auto
  then have rows: "(\<lambda>j. if nat a < j \<and> j \<le> nat b - 1 \<and> j < 199 then ?row (j - 1) else ?row j) =
      (\<lambda>j. if nat a < j \<and> j \<le> nat b \<and> j < 199 then lines e (nat r) (j - 1) else lines e (nat r) j)" by (rule ext)
  have lim: "b - 1 \<le> 199" using Suc.prems by simp
  have row: "lines (put_row (nat r) ?row e) (nat r) = ?row" by simp
  show ?case
    unfolding step using Suc.hyps(1) [OF n lim, of "put_row (nat r) ?row e"]
    unfolding nb(1) row put_row_twice rows .
qed

text \<open>Copies from row \<open>q\<close> to row \<open>r\<close>.\<close>

lemma copy_loop:
  assumes "0 \<le> r" and "r < 1000" and "0 \<le> q" and "q < 1000" and "q \<noteq> r"
    and "0 \<le> a" and "0 \<le> a + d" and "b \<le> 200" and "b + d \<le> 200"
  shows "for_each [a..b - 1] (\<lambda>i s. do { c \<leftarrow> get_char q i s; set_char r (d + i) c s }) e =
    Some (put_row (nat r)
      (\<lambda>j. if a + d \<le> int j \<and> int j < b + d then lines e (nat q) (nat (int j - d)) else lines e (nat r) j) e)"
  using assms(6,7)
proof (induction "nat (b - a)" arbitrary: a e)
  case 0
  then show ?case by (auto intro!: put_row_keeps)
next
  case (Suc n)
  then have ab: "a < b" and n: "n = nat (b - (a + 1))" by simp_all
  then have up: "[a..b - 1] = a # [a + 1..b - 1]" by (simp add: upto_rec1)
  let ?row = "(lines e (nat r))(nat (d + a) := lines e (nat q) (nat a))"
  let ?f = "\<lambda>i s. do { c \<leftarrow> get_char q i s; set_char r (d + i) c s }"
  have step: "for_each [a..b - 1] ?f e = for_each [a + 1..b - 1] ?f (put_row (nat r) ?row e)"
    unfolding up using Suc.prems assms ab by (simp add: row_simps)
  have "nat q \<noteq> nat r" using assms by simp
  moreover have "(a + d \<le> int j) = (a + 1 + d \<le> int j \<or> j = nat (d + a))" for j using Suc.prems by auto
  moreover have "int (nat (d + a)) < b + d" using Suc.prems ab by simp
  moreover have "nat (int (nat (d + a)) - d) = nat a" using Suc.prems by simp
  ultimately show ?case
    unfolding step using Suc.hyps(1) [OF n, of "put_row (nat r) ?row e"] Suc.prems
    by (auto simp: fun_eq_iff intro!: arg_cong2 [where f = "put_row (nat r)"])
qed

lemma copy_loop_counted:
  assumes "0 \<le> r" and "r < 1000" and "0 \<le> q" and "q < 1000" and "q \<noteq> r"
    and "0 \<le> a" and "0 \<le> m" and "b \<le> 200" and "m + (b - a) \<le> 200" and "a \<le> b"
  shows "for_each [a..b - 1]
      (\<lambda>i (n, s). do { c \<leftarrow> get_char q i s; s' \<leftarrow> set_char r n c s; Some (n + 1, s') }) (m, e) =
    Some (m + (b - a), put_row (nat r)
      (\<lambda>j. if m \<le> int j \<and> int j < m + (b - a) then lines e (nat q) (nat (int j + (a - m))) else lines e (nat r) j) e)"
  using assms(6-)
proof (induction "nat (b - a)" arbitrary: a m e)
  case 0
  then show ?case by (auto intro!: put_row_keeps)
next
  case (Suc n)
  then have ab: "a < b" and n: "n = nat (b - (a + 1))" by simp_all
  then have up: "[a..b - 1] = a # [a + 1..b - 1]" by (simp add: upto_rec1)
  let ?row = "(lines e (nat r))(nat m := lines e (nat q) (nat a))"
  let ?f = "\<lambda>i (n, s). do { c \<leftarrow> get_char q i s; s' \<leftarrow> set_char r n c s; Some (n + 1, s') }"
  have step: "for_each [a..b - 1] ?f (m, e) = for_each [a + 1..b - 1] ?f (m + 1, put_row (nat r) ?row e)"
    unfolding up using Suc.prems assms(1-5) ab by (simp add: row_simps)
  have "nat q \<noteq> nat r" using assms(1-5) by simp
  moreover have "(m \<le> int j) = (m + 1 \<le> int j \<or> j = nat m)" for j using Suc.prems by auto
  ultimately show ?case
    unfolding step using Suc.hyps(1) [OF n, of "m + 1" "put_row (nat r) ?row e"] Suc.prems ab
    by (auto simp: fun_eq_iff intro!: arg_cong2 [where f = "put_row (nat r)"])
qed

section \<open>Moving lines\<close>

text \<open>The string in a row ends at column \<open>n\<close>.\<close>

definition str_end :: "mem \<Rightarrow> nat \<Rightarrow> bool" where
  "str_end m n \<longleftrightarrow> m n = 0 \<and> (\<forall>j < n. m j \<noteq> 0)"

definition rows_closed :: "nano \<Rightarrow> bool" where
  "rows_closed e \<longleftrightarrow> (\<forall>i < 1000. lines e i 199 = 0)"

lemma str_end_unique: "str_end m n \<Longrightarrow> str_end m n' \<Longrightarrow> n = n'"
  by (metis str_end_def linorder_neqE_nat)

lemma move_line_step:
  assumes "0 \<le> i" and "i < 1000" and "0 \<le> j" and "j < 1000" and "rows_closed e"
  obtains m where "move_line i j e = Some (put_row (nat i) m (put_len (nat i) (line_lengths e (nat j)) e))"
    and "m 199 = 0" and "\<And>n. n \<le> 199 \<Longrightarrow> str_end (lines e (nat j)) n \<Longrightarrow> \<forall>k \<le> n. m k = lines e (nat j) k"
proof -
  let ?src = "lines e (nat j)" and ?dst = "lines e (nat i)"
  have z: "?src 199 = 0" "?dst 199 = 0" using assms by (auto simp: rows_closed_def)
  define k where "k = (LEAST k. ?src k = 0)"
  have k: "?src k = 0" "k \<le> 199" "\<And>l. l < k \<Longrightarrow> ?src l \<noteq> 0"
    unfolding k_def
    by (rule LeastI [of _ 199], rule z(1)) (rule Least_le, rule z(1), rule not_less_Least)
  have c: "strcpy_impl 0 200 ?dst ?src = Some (\<lambda>l. if 0 \<le> l \<and> l \<le> 0 + k then ?src l else ?dst l)"
    by (rule strcpy_impl_spec) (use k in simp_all)
  have e: "n = k" if "str_end ?src n" for n
    using that k(1,3) by (intro str_end_unique [of ?src n k]) (auto simp: str_end_def)
  let ?m = "\<lambda>l. if l \<le> k then ?src l else ?dst l"
  show ?thesis
  proof (rule that)
    show "move_line i j e = Some (put_row (nat i) ?m (put_len (nat i) (line_lengths e (nat j)) e))"
      using c assms(1-4) by (simp add: move_line_def copy_line_chars_def row_simps put_row_def put_len_def)
    show "?m 199 = 0" using z by simp
    show "\<forall>l \<le> n. ?m l = ?src l" if "n \<le> 199" "str_end ?src n" for n
      using e [OF that(2)] by simp
  qed
qed

text \<open>
  Lines \<open>a + 1, \<dots>, b\<close> move one up, lines \<open>a, \<dots>, b - 1\<close> one down. Only the arrays change.
\<close>

definition arrays_changed :: "nano \<Rightarrow> nano \<Rightarrow> bool" where
  "arrays_changed e e' \<longleftrightarrow> (\<exists>L N. e' = e\<lparr>lines := L, line_lengths := N\<rparr>)"

lemma arrays_changed_refl [simp]: "arrays_changed e e"
  unfolding arrays_changed_def by (rule exI [of _ "lines e"], rule exI [of _ "line_lengths e"]) simp

lemma arrays_changed_trans: "arrays_changed e e' \<Longrightarrow> arrays_changed e' e'' \<Longrightarrow> arrays_changed e e''"
  by (force simp: arrays_changed_def)

lemma arrays_changed_put: "arrays_changed e (put_row i m (put_len j n e))"
  unfolding arrays_changed_def put_row_def put_len_def
  by (rule exI [of _ "(lines e)(i := m)"], rule exI [of _ "(line_lengths e)(j := n)"]) simp

lemma move_up_loop:
  assumes "0 \<le> a" and "b \<le> 999" and "rows_closed e"
  shows "\<exists>e'. for_each [a..b - 1] (\<lambda>i. move_line i (i + 1)) e = Some e' \<and> arrays_changed e e' \<and> rows_closed e'
    \<and> (\<forall>i. line_lengths e' i = (if nat a \<le> i \<and> i < nat b then line_lengths e (Suc i) else line_lengths e i))
    \<and> (\<forall>i. \<not> (nat a \<le> i \<and> i < nat b) \<longrightarrow> lines e' i = lines e i)
    \<and> (\<forall>i n. nat a \<le> i \<and> i < nat b \<and> n \<le> 199 \<and> str_end (lines e (Suc i)) n \<longrightarrow>
          (\<forall>k \<le> n. lines e' i k = lines e (Suc i) k))"
  using assms(1,3)
proof (induction "nat (b - a)" arbitrary: a e)
  case 0
  then have "\<not> (nat a \<le> j \<and> j < nat b)" for j by auto
  then show ?case using 0 by auto
next
  case (Suc n)
  then have ab: "a < b" and n: "n = nat (b - (a + 1))" by simp_all
  then have up: "[a..b - 1] = a # [a + 1..b - 1]" by (simp add: upto_rec1)
  have na: "nat (a + 1) = Suc (nat a)" "nat a < nat b" using Suc.prems ab by simp_all
  obtain m where m: "move_line a (a + 1) e =
      Some (put_row (nat a) m (put_len (nat a) (line_lengths e (Suc (nat a))) e))" "m 199 = 0"
    "\<And>n. n \<le> 199 \<Longrightarrow> str_end (lines e (Suc (nat a))) n \<Longrightarrow> \<forall>k \<le> n. m k = lines e (Suc (nat a)) k"
    by (rule move_line_step [of a "a + 1" e, unfolded na(1)]) (use Suc.prems ab assms(2) in auto)
  let ?e = "put_row (nat a) m (put_len (nat a) (line_lengths e (Suc (nat a))) e)"
  have "rows_closed ?e" using Suc.prems(2) m(2) by (simp add: rows_closed_def)
  then obtain e' where e': "for_each [a + 1..b - 1] (\<lambda>i. move_line i (i + 1)) ?e = Some e'"
    "arrays_changed ?e e'" "rows_closed e'"
    "\<forall>i. line_lengths e' i = (if Suc (nat a) \<le> i \<and> i < nat b then line_lengths ?e (Suc i) else line_lengths ?e i)"
    "\<forall>i. \<not> (Suc (nat a) \<le> i \<and> i < nat b) \<longrightarrow> lines e' i = lines ?e i"
    "\<forall>i n. Suc (nat a) \<le> i \<and> i < nat b \<and> n \<le> 199 \<and> str_end (lines ?e (Suc i)) n \<longrightarrow>
          (\<forall>k \<le> n. lines e' i k = lines ?e (Suc i) k)"
    using Suc.hyps(1) [OF n, of ?e] Suc.prems(1) na(1) by auto
  have "for_each [a..b - 1] (\<lambda>i. move_line i (i + 1)) e = Some e'"
    unfolding up using m(1) e'(1) by simp
  moreover have "arrays_changed e e'" using arrays_changed_put e'(2) by (rule arrays_changed_trans)
  moreover have "line_lengths e' i = (if nat a \<le> i \<and> i < nat b then line_lengths e (Suc i) else line_lengths e i)" for i
    using e'(4) na(2) by (auto simp: Suc_le_eq)
  moreover have "lines e' i = lines e i" if "\<not> (nat a \<le> i \<and> i < nat b)" for i
    using e'(5) that na(2) by (auto simp: Suc_le_eq)
  moreover have "lines e' i k = lines e (Suc i) k"
    if "nat a \<le> i" "i < nat b" "n \<le> 199" "str_end (lines e (Suc i)) n" "k \<le> n" for i n k
  proof (cases "i = nat a")
    case True
    then show ?thesis using m(3) that e'(5) by auto
  next
    case False
    then show ?thesis using e'(6) that by auto
  qed
  ultimately show ?case using e'(3) by blast
qed

lemma move_down_loop:
  assumes "0 \<le> a" and "b \<le> 999" and "rows_closed e"
  shows "\<exists>e'. for_each (rev [a + 1..b]) (\<lambda>i. move_line i (i - 1)) e = Some e' \<and> arrays_changed e e' \<and> rows_closed e'
    \<and> (\<forall>i. line_lengths e' i = (if nat a < i \<and> i \<le> nat b then line_lengths e (i - 1) else line_lengths e i))
    \<and> (\<forall>i. \<not> (nat a < i \<and> i \<le> nat b) \<longrightarrow> lines e' i = lines e i)
    \<and> (\<forall>i n. nat a < i \<and> i \<le> nat b \<and> n \<le> 199 \<and> str_end (lines e (i - 1)) n \<longrightarrow>
          (\<forall>k \<le> n. lines e' i k = lines e (i - 1) k))"
  using assms(2,3)
proof (induction "nat (b - a)" arbitrary: b e)
  case 0
  then have "\<not> (nat a < j \<and> j \<le> nat b)" for j by auto
  then show ?case using 0 by auto
next
  case (Suc n)
  then have ab: "a < b" and n: "n = nat ((b - 1) - a)" by simp_all
  then have up: "[a + 1..b] = [a + 1..b - 1] @ [b]" by (simp add: upto_rec2)
  have nb: "nat (b - 1) = nat b - 1" "nat a < nat b" using assms(1) ab by simp_all
  obtain m where m: "move_line b (b - 1) e =
      Some (put_row (nat b) m (put_len (nat b) (line_lengths e (nat b - 1)) e))" "m 199 = 0"
    "\<And>n. n \<le> 199 \<Longrightarrow> str_end (lines e (nat b - 1)) n \<Longrightarrow> \<forall>k \<le> n. m k = lines e (nat b - 1) k"
    by (rule move_line_step [of b "b - 1" e, unfolded nb(1)]) (use Suc.prems ab assms(1) in auto)
  let ?e = "put_row (nat b) m (put_len (nat b) (line_lengths e (nat b - 1)) e)"
  have "rows_closed ?e" using Suc.prems(2) m(2) by (simp add: rows_closed_def)
  then obtain e' where e': "for_each (rev [a + 1..b - 1]) (\<lambda>i. move_line i (i - 1)) ?e = Some e'"
    "arrays_changed ?e e'" "rows_closed e'"
    "\<forall>i. line_lengths e' i = (if nat a < i \<and> i \<le> nat b - 1 then line_lengths ?e (i - 1) else line_lengths ?e i)"
    "\<forall>i. \<not> (nat a < i \<and> i \<le> nat b - 1) \<longrightarrow> lines e' i = lines ?e i"
    "\<forall>i n. nat a < i \<and> i \<le> nat b - 1 \<and> n \<le> 199 \<and> str_end (lines ?e (i - 1)) n \<longrightarrow>
          (\<forall>k \<le> n. lines e' i k = lines ?e (i - 1) k)"
    using Suc.hyps(1) [OF n, of ?e] Suc.prems(1) nb(1) by auto
  have "for_each (rev [a + 1..b]) (\<lambda>i. move_line i (i - 1)) e = Some e'"
    unfolding up using m(1) e'(1) by simp
  moreover have "arrays_changed e e'" using arrays_changed_put e'(2) by (rule arrays_changed_trans)
  moreover have "line_lengths e' i = (if nat a < i \<and> i \<le> nat b then line_lengths e (i - 1) else line_lengths e i)" for i
    using e'(4) nb(2) by auto
  moreover have "lines e' i = lines e i" if "\<not> (nat a < i \<and> i \<le> nat b)" for i
  proof -
    have "\<not> (nat a < i \<and> i \<le> nat b - 1)" "i \<noteq> nat b" using that nb(2) by auto
    then show ?thesis using e'(5) by simp
  qed
  moreover have "lines e' i k = lines e (i - 1) k"
    if "nat a < i" "i \<le> nat b" "n \<le> 199" "str_end (lines e (i - 1)) n" "k \<le> n" for i n k
  proof (cases "i = nat b")
    case True
    then show ?thesis using m(3) that e'(5) by auto
  next
    case False
    then have "i \<le> nat b - 1" "i - 1 \<noteq> nat b" using that(1,2) by auto
    then show ?thesis using e'(6) that by simp
  qed
  ultimately show ?case using e'(3) by blast
qed

end
