(* ===== verification/Nano_Text.thy ===== *)
theory Nano_Text
  imports Nano_Rows
begin

text \<open>
  The editor as a text: a list of lines with a cursor, the editing operations on it, and
  the proof that the operations on the arrays implement them. \<open>ed_ok\<close> is what keeps every
  array access inside its bounds; \<open>clean\<close> (no NUL inside a line) is what the moves of
  whole lines by \<open>strcpy\<close> need to move them entirely.
\<close>

section \<open>The text of the arrays\<close>

definition row_text :: "nano \<Rightarrow> nat \<Rightarrow> byte list" where
  "row_text e i = mem_get (lines e i) 0 (nat (line_lengths e i))"

definition text_of :: "nano \<Rightarrow> byte list list" where
  "text_of e = map (row_text e) [0..<nat (total_lines e)]"

type_synonym doc = "byte list list \<times> nat \<times> nat"

definition doc_of :: "nano \<Rightarrow> doc" where
  "doc_of e = (text_of e, nat (cursor_x e), nat (cursor_y e))"

definition ed_ok :: "nano \<Rightarrow> bool" where
  "ed_ok e \<longleftrightarrow> 1 \<le> total_lines e \<and> total_lines e \<le> 1000 \<and> 0 \<le> cursor_y e \<and> cursor_y e < total_lines e
     \<and> 0 \<le> cursor_x e \<and> cursor_x e \<le> line_lengths e (nat (cursor_y e)) \<and> 0 \<le> viewport_y e
     \<and> (\<forall>i < 1000. 0 \<le> line_lengths e i \<and> line_lengths e i \<le> 199) \<and> rows_closed e"

definition clean :: "nano \<Rightarrow> bool" where
  "clean e \<longleftrightarrow> (\<forall>i < nat (total_lines e). str_end (lines e i) (nat (line_lengths e i)))"

text \<open>The fields editing leaves alone.\<close>

definition same_session :: "nano \<Rightarrow> nano \<Rightarrow> bool" where
  "same_session e e' \<longleftrightarrow> editor_active e' = editor_active e \<and> filename e' = filename e
     \<and> prompt_state e' = prompt_state e \<and> status_message e' = status_message e
     \<and> help_overlay_visible e' = help_overlay_visible e"

section \<open>Editing a text\<close>

fun t_insert :: "byte \<Rightarrow> doc \<Rightarrow> doc" where
  "t_insert c (T, x, y) =
     (if x < 199 then (T[y := take 199 (take x (T ! y) @ c # drop x (T ! y))], Suc x, y) else (T, x, y))"

fun t_backspace :: "doc \<Rightarrow> doc" where
  "t_backspace (T, x, y) =
     (if 0 < x then (T[y := take (x - 1) (T ! y) @ drop x (T ! y)], x - 1, y)
      else if 0 < y \<and> length (T ! (y - 1)) + length (T ! y) < 200
      then (take (y - 1) T @ (T ! (y - 1) @ T ! y) # drop (Suc y) T, length (T ! (y - 1)), y - 1)
      else (T, x, y))"

fun t_enter :: "doc \<Rightarrow> doc" where
  "t_enter (T, x, y) =
     (if length T < 1000
      then (take y T @ take x (T ! y) # drop x (T ! y) # drop (Suc y) T, 0, Suc y) else (T, x, y))"

fun t_delete :: "doc \<Rightarrow> doc" where
  "t_delete (T, x, y) =
     (if x < length (T ! y) then (T[y := take x (T ! y) @ drop (Suc x) (T ! y)], x, y)
      else if Suc y < length T \<and> length (T ! y) + length (T ! Suc y) < 200
      then (take y T @ (T ! y @ T ! Suc y) # drop (Suc (Suc y)) T, x, y)
      else (T, x, y))"

section \<open>Basic facts\<close>

lemma length_text_of [simp]: "length (text_of e) = nat (total_lines e)"
  by (simp add: text_of_def)

lemma nth_text_of [simp]: "i < nat (total_lines e) \<Longrightarrow> text_of e ! i = row_text e i"
  by (simp add: text_of_def)

lemma length_row_text [simp]: "length (row_text e i) = nat (line_lengths e i)"
  by (simp add: row_text_def)

lemma nth_row_text [simp]: "j < nat (line_lengths e i) \<Longrightarrow> row_text e i ! j = lines e i j"
  by (simp add: row_text_def)

lemma text_of_cong:
  assumes "total_lines e' = total_lines e" and "line_lengths e' = line_lengths e" and "lines e' = lines e"
  shows "text_of e' = text_of e"
  using assms by (simp add: text_of_def row_text_def)

text \<open>The cursor's row in natural numbers.\<close>

lemma ed_ok_nat:
  assumes "ed_ok e"
  obtains r x l where "cursor_y e = int r" "cursor_x e = int x" "line_lengths e r = int l"
    "r < nat (total_lines e)" "r < 1000" "x \<le> l" "l \<le> 199" "lines e r 199 = 0"
    "doc_of e = (text_of e, x, r)" "text_of e ! r = mem_get (lines e r) 0 l"
    "clean e \<longrightarrow> str_end (lines e r) l"
proof -
  let ?r = "nat (cursor_y e)"
  have r: "?r < nat (total_lines e)" "?r < 1000" using assms by (auto simp: ed_ok_def)
  then have "0 \<le> line_lengths e ?r" "line_lengths e ?r \<le> 199" "lines e ?r 199 = 0"
    using assms by (auto simp: ed_ok_def rows_closed_def)
  then show ?thesis
    using assms r
    by (intro that [of ?r "nat (cursor_x e)" "nat (line_lengths e ?r)"])
      (auto simp: ed_ok_def doc_of_def row_text_def clean_def)
qed

text \<open>One row replaced.\<close>

definition edit_row :: "nat \<Rightarrow> mem \<Rightarrow> nat \<Rightarrow> nano \<Rightarrow> nano" where
  "edit_row r m n e = put_len r (int n) (put_row r m e)"

lemma edit_row_fields [simp]:
  "lines (edit_row r m n e) = (lines e)(r := m)" "line_lengths (edit_row r m n e) = (line_lengths e)(r := int n)"
  "cursor_x (edit_row r m n e) = cursor_x e" "cursor_y (edit_row r m n e) = cursor_y e"
  "total_lines (edit_row r m n e) = total_lines e" "viewport_y (edit_row r m n e) = viewport_y e"
  by (simp_all add: edit_row_def put_row_def put_len_def)

lemma text_edit_row:
  assumes "r < nat (total_lines e)"
  shows "text_of (edit_row r m n e) = (text_of e)[r := mem_get m 0 n]"
  using assms by (intro nth_equalityI) (auto simp: nth_list_update row_text_def)

lemma same_session_edit [simp]: "same_session e ((edit_row r m n e)\<lparr>cursor_x := x, dirty := d\<rparr>)"
  "same_session e ((edit_row r m n e)\<lparr>dirty := d\<rparr>)" "same_session e (e\<lparr>dirty := d\<rparr>)"
  by (simp_all add: same_session_def edit_row_def put_row_def put_len_def)

text \<open>An edit of the cursor's row that leaves the cursor in it.\<close>

lemma edit_row_ok:
  assumes "ed_ok e" and "r = nat (cursor_y e)" and "n \<le> 199" and "x \<le> n" and "m 199 = 0"
    and "clean e \<Longrightarrow> str_end m n"
  shows "ed_ok ((edit_row r m n e)\<lparr>cursor_x := int x, dirty := d\<rparr>)"
    and "clean e \<Longrightarrow> clean ((edit_row r m n e)\<lparr>cursor_x := int x, dirty := d\<rparr>)"
    and "doc_of ((edit_row r m n e)\<lparr>cursor_x := int x, dirty := d\<rparr>) = ((text_of e)[r := mem_get m 0 n], x, r)"
proof -
  let ?e = "(edit_row r m n e)\<lparr>cursor_x := int x, dirty := d\<rparr>"
  have r: "r < nat (total_lines e)" using assms(1,2) by (auto simp: ed_ok_def)
  have t: "text_of ?e = text_of (edit_row r m n e)" by (rule text_of_cong) simp_all
  show "ed_ok ?e" using assms r by (auto simp: ed_ok_def rows_closed_def)
  show "clean ?e" if "clean e" using that assms(6) by (auto simp: clean_def)
  show "doc_of ?e = ((text_of e)[r := mem_get m 0 n], x, r)"
    using text_edit_row [OF r] t assms(2) by (simp add: doc_of_def)
qed

text \<open>What an operation on the arrays has to do to implement an operation on texts.\<close>

definition implements :: "nano \<Rightarrow> nano option \<Rightarrow> (doc \<Rightarrow> doc) \<Rightarrow> bool" where
  "implements e res f \<longleftrightarrow>
     (\<exists>e'. res = Some e' \<and> ed_ok e' \<and> same_session e e'
        \<and> (clean e \<longrightarrow> clean e' \<and> doc_of e' = f (doc_of e)))"

lemma implements_id:
  assumes "ed_ok e" and "f (doc_of e) = doc_of e"
  shows "implements e (Some (e\<lparr>dirty := d\<rparr>)) f" and "implements e (Some e) f"
proof -
  have "text_of (e\<lparr>dirty := d\<rparr>) = text_of e" by (rule text_of_cong) simp_all
  then have "ed_ok (e\<lparr>dirty := d\<rparr>)" "doc_of (e\<lparr>dirty := d\<rparr>) = doc_of e" "clean (e\<lparr>dirty := d\<rparr>) = clean e"
    using assms(1) by (auto simp: ed_ok_def rows_closed_def doc_of_def clean_def)
  then show "implements e (Some (e\<lparr>dirty := d\<rparr>)) f" "implements e (Some e) f"
    using assms by (auto simp: implements_def same_session_def)
qed

lemma implements_row:
  assumes "ed_ok e" and "r = nat (cursor_y e)" and "n \<le> 199" and "x \<le> n" and "m 199 = 0"
    and "clean e \<Longrightarrow> str_end m n"
    and "clean e \<Longrightarrow> f (doc_of e) = ((text_of e)[r := mem_get m 0 n], x, r)"
  shows "implements e (Some ((edit_row r m n e)\<lparr>cursor_x := int x, dirty := d\<rparr>)) f"
  using edit_row_ok [OF assms(1-6)] assms(7) by (auto simp: implements_def)

section \<open>Inserting\<close>

lemma nat_plus_1 [row_simps]: "nat (1 + int n) = Suc n" "nat (int n + 1) = Suc n"
  by simp_all

lemma insert_row_append:
  assumes "cursor_y e = int r" and "r < 1000" and "cursor_x e = int x" and "line_lengths e r = int x" and "x < 199"
  shows "nano_insert_char c e =
    Some ((edit_row r ((lines e r)(x := c, Suc x := 0)) (Suc x) e)\<lparr>cursor_x := int (Suc x), dirty := True\<rparr>)"
  using assms
  by (simp add: nano_insert_char_def Let_def row_simps edit_row_def put_swap nat_plus_1 add.commute)

lemma insert_row_inside:
  assumes "cursor_y e = int r" and "r < 1000" and "cursor_x e = int x" and "line_lengths e r = int l" and "x < l"
    and "l \<le> 199"
  shows "nano_insert_char c e =
    Some ((edit_row r ((\<lambda>j. if x < j \<and> j \<le> l \<and> j < 199 then lines e r (j - 1) else lines e r j)
             (x := c, min 199 (Suc l) := 0)) (min 199 (Suc l)) e)\<lparr>cursor_x := int (Suc x), dirty := True\<rparr>)"
proof (cases "l < 199")
  case True
  then show ?thesis
    using assms shift_right_loop [of "int r" "int x" "int l" e, unfolded nat_int]
    by (simp add: nano_insert_char_def Let_def row_simps edit_row_def put_swap nat_plus_1 add.commute)
next
  case False
  then have "l = 199" using assms(6) by simp
  then show ?thesis
    using assms shift_right_loop [of "int r" "int x" "int l" e, unfolded nat_int]
    by (simp add: nano_insert_char_def Let_def row_simps edit_row_def put_swap put_len_same add.commute)
qed

lemma insert_implements:
  assumes ok: "ed_ok e" and c: "c \<noteq> 0"
  shows "implements e (nano_insert_char c e) (t_insert c)"
proof -
  obtain r x l where v: "cursor_y e = int r" "cursor_x e = int x" "line_lengths e r = int l"
    "r < nat (total_lines e)" "r < 1000" "x \<le> l" "l \<le> 199" "lines e r 199 = 0"
    and d: "doc_of e = (text_of e, x, r)" and row: "text_of e ! r = mem_get (lines e r) 0 l"
    and cl: "clean e \<longrightarrow> str_end (lines e r) l"
    by (rule ed_ok_nat [OF ok])
  have r: "r = nat (cursor_y e)" using v(1) by simp
  consider "x = 199" | "x = l" "x < 199" | "x < l" using v(6,7) by linarith
  then show ?thesis
  proof cases
    case 1
    then have "nano_insert_char c e = Some (e\<lparr>dirty := True\<rparr>)"
      using v by (simp add: nano_insert_char_def Let_def row_simps)
    then show ?thesis using implements_id [OF ok] d 1 by simp
  next
    case 2
    let ?m = "(lines e r)(x := c, Suc x := 0)"
    show ?thesis
      unfolding insert_row_append [OF v(1,5,2) v(3) [folded 2(1)] 2(2)]
    proof (rule implements_row [OF ok r])
      show "str_end ?m (Suc x)" if "clean e" using cl that c 2 by (auto simp: str_end_def less_Suc_eq)
      have "mem_get ?m 0 (Suc x) = mem_get (lines e r) 0 x @ [c]"
        by (rule nth_equalityI) (auto simp: nth_append less_Suc_eq)
      then show "t_insert c (doc_of e) = ((text_of e)[r := mem_get ?m 0 (Suc x)], Suc x, r)"
        using 2 row by (simp add: d)
    qed (use 2 v(8) in auto)
  next
    case 3
    let ?m = "(\<lambda>j. if x < j \<and> j \<le> l \<and> j < 199 then lines e r (j - 1) else lines e r j)(x := c, min 199 (Suc l) := 0)"
    show ?thesis
      unfolding insert_row_inside [OF v(1,5,2,3) 3 v(7)]
    proof (rule implements_row [OF ok r])
      show "str_end ?m (min 199 (Suc l))" if "clean e"
        using cl that c 3 v(7) by (auto simp: str_end_def)
      have "mem_get ?m 0 (min 199 (Suc l)) = take 199 (take x (text_of e ! r) @ c # drop x (text_of e ! r))"
        using 3 v(7) unfolding row
        by (intro nth_equalityI) (auto simp: nth_append nth_Cons' min_def split: if_splits)
      then show "t_insert c (doc_of e) = ((text_of e)[r := mem_get ?m 0 (min 199 (Suc l))], Suc x, r)"
        using 3 v(7) by (simp add: d)
    qed (use 3 v(7,8) in auto)
  qed
qed

section \<open>Deleting inside a line\<close>

text \<open>The row with the character at \<open>a\<close> taken out; the loop may stop at \<open>l - 1\<close> or at \<open>l\<close>.\<close>

lemma removed_row:
  assumes "a < l" and "l \<le> 199" and "m 199 = 0" and "b = l \<or> b = l - 1"
  defines "m' \<equiv> (\<lambda>j. if a \<le> j \<and> j < b then m (Suc j) else m j)(l - 1 := 0)"
  shows "m' 199 = 0" and "mem_get m' 0 (l - 1) = take a (mem_get m 0 l) @ drop (Suc a) (mem_get m 0 l)"
    and "str_end m l \<longrightarrow> str_end m' (l - 1)"
  using assms by (auto simp: m'_def str_end_def nth_append intro!: nth_equalityI)

lemma backspace_inside:
  assumes "cursor_y e = int r" and "r < 1000" and "cursor_x e = int x" and "line_lengths e r = int l" and "0 < x"
    and "x \<le> l" and "l \<le> 199"
  shows "nano_handle_backspace e =
    Some ((edit_row r ((\<lambda>j. if x - 1 \<le> j \<and> j < l then lines e r (Suc j) else lines e r j)(l - 1 := 0)) (l - 1) e)
      \<lparr>cursor_x := int (x - 1), dirty := True\<rparr>)"
proof -
  obtain x' l' where n: "x = Suc x'" "l = Suc l'" using assms by (cases x; cases l) auto
  show ?thesis
    using assms shift_left_loop [of "int r" "int x'" "int l" e, unfolded nat_int] unfolding n
    by (simp add: nano_handle_backspace_def Let_def row_simps edit_row_def put_swap)
qed

lemma delete_inside:
  assumes "cursor_y e = int r" and "r < 1000" and "cursor_x e = int x" and "line_lengths e r = int l"
    and "x < l" and "l \<le> 199" and "r < nat (total_lines e)"
  shows "nano_handle_delete e =
    Some ((edit_row r ((\<lambda>j. if x \<le> j \<and> j < l - 1 then lines e r (Suc j) else lines e r j)(l - 1 := 0)) (l - 1) e)
      \<lparr>dirty := True\<rparr>)"
proof -
  obtain l' where n: "l = Suc l'" using assms(5) by (cases l) auto
  show ?thesis
    using assms shift_left_loop [of "int r" "int x" "int l'" e, unfolded nat_int] unfolding n
    by (simp add: nano_handle_delete_def Let_def row_simps edit_row_def put_swap)
qed

section \<open>Removing and making room for a line\<close>

definition arrays_ok :: "nano \<Rightarrow> bool" where
  "arrays_ok e \<longleftrightarrow> (\<forall>i < 1000. 0 \<le> line_lengths e i \<and> line_lengths e i \<le> 199) \<and> rows_closed e"

lemma ed_ok_arrays: "ed_ok e \<Longrightarrow> arrays_ok e"
  by (simp add: ed_ok_def arrays_ok_def)

lemma arrays_changed_edit: "arrays_changed e (edit_row r m n e)"
  unfolding edit_row_def put_swap by (rule arrays_changed_put)

lemma arrays_changed_fields:
  assumes "arrays_changed e e'"
  shows "total_lines e' = total_lines e" "cursor_x e' = cursor_x e" "cursor_y e' = cursor_y e"
    "viewport_y e' = viewport_y e" "same_session e e'"
  using assms by (auto simp: arrays_changed_def same_session_def)

lemma arrays_ok_edit: "arrays_ok e \<Longrightarrow> n \<le> 199 \<Longrightarrow> m 199 = 0 \<Longrightarrow> arrays_ok (edit_row r m n e)"
  by (auto simp: arrays_ok_def rows_closed_def)

text \<open>A row with the same string and length has the same text.\<close>

lemma moved_row:
  assumes "str_end (lines e j) (nat (line_lengths e j))" and "line_lengths e j \<le> 199"
    and "line_lengths e' i = line_lengths e j"
    and "\<forall>n. n \<le> 199 \<and> str_end (lines e j) n \<longrightarrow> (\<forall>k \<le> n. lines e' i k = lines e j k)"
  shows "row_text e' i = row_text e j" and "str_end (lines e' i) (nat (line_lengths e' i))"
proof -
  have "nat (line_lengths e j) \<le> 199" using assms(2) by simp
  then have k: "\<forall>k \<le> nat (line_lengths e j). lines e' i k = lines e j k" using assms(1,4) by blast
  then show "row_text e' i = row_text e j" by (simp add: row_text_def assms(3) mem_get_eq_iff)
  show "str_end (lines e' i) (nat (line_lengths e' i))"
    using assms(1) k by (simp add: str_end_def assms(3))
qed

lemma remove_line:
  assumes ok: "arrays_ok e" and a: "a < nat (total_lines e)" and t: "total_lines e \<le> 1000"
  shows "\<exists>e'. for_each [int a..total_lines e - 2] (\<lambda>i. move_line i (i + 1)) e = Some e' \<and> arrays_changed e e'
    \<and> arrays_ok e' \<and> (\<forall>i \<le> a. i < a \<longrightarrow> line_lengths e' i = line_lengths e i)
    \<and> (clean e \<longrightarrow> (\<forall>i < nat (total_lines e) - 1. str_end (lines e' i) (nat (line_lengths e' i)))
         \<and> map (row_text e') [0..<nat (total_lines e) - 1] = take a (text_of e) @ drop (Suc a) (text_of e))"
proof -
  let ?n = "nat (total_lines e) - 1"
  have b: "nat (total_lines e - 1) = ?n" "total_lines e - 1 \<le> 999" "total_lines e - 1 - 1 = total_lines e - 2"
    using a t by simp_all
  obtain e' where e': "for_each [int a..total_lines e - 2] (\<lambda>i. move_line i (i + 1)) e = Some e'"
    "arrays_changed e e'" "rows_closed e'"
    "\<forall>i. line_lengths e' i = (if a \<le> i \<and> i < ?n then line_lengths e (Suc i) else line_lengths e i)"
    "\<forall>i. \<not> (a \<le> i \<and> i < ?n) \<longrightarrow> lines e' i = lines e i"
    "\<forall>i n. a \<le> i \<and> i < ?n \<and> n \<le> 199 \<and> str_end (lines e (Suc i)) n \<longrightarrow>
       (\<forall>k \<le> n. lines e' i k = lines e (Suc i) k)"
    using move_up_loop [of "int a" "total_lines e - 1" e, unfolded nat_int b(1,3)] b(2) ok
    by (auto simp: arrays_ok_def)
  have n: "Suc i < 1000" if "i < ?n" for i using that t by simp
  have "arrays_ok e'" using ok e'(3,4) n by (auto simp: arrays_ok_def)
  moreover have row: "row_text e' i = row_text e (if i < a then i else Suc i) \<and> str_end (lines e' i) (nat (line_lengths e' i))"
    if "clean e" "i < ?n" for i
  proof (cases "i < a")
    case True
    then have "lines e' i = lines e i" "line_lengths e' i = line_lengths e i" using e'(4,5) by auto
    then show ?thesis using True that by (auto simp: row_text_def clean_def)
  next
    case False
    have "str_end (lines e (Suc i)) (nat (line_lengths e (Suc i)))" "line_lengths e (Suc i) \<le> 199"
      using that ok n by (auto simp: clean_def arrays_ok_def)
    from moved_row [OF this, of e' i] show ?thesis using e'(4,6) False that by simp
  qed
  moreover have "map (row_text e') [0..<?n] = take a (text_of e) @ drop (Suc a) (text_of e)" if "clean e"
    using a row [OF that] by (intro nth_equalityI) (auto simp: nth_append min_def)
  ultimately show ?thesis using e'(1,2,4) by auto
qed

lemma make_room:
  assumes ok: "arrays_ok e" and a: "a < nat (total_lines e)" and t: "total_lines e \<le> 999"
  shows "\<exists>e'. for_each (rev [int a + 2..total_lines e]) (\<lambda>i. move_line i (i - 1)) e = Some e' \<and> arrays_changed e e'
    \<and> arrays_ok e' \<and> (\<forall>i \<le> a. lines e' i = lines e i \<and> line_lengths e' i = line_lengths e i)
    \<and> (clean e \<longrightarrow> (\<forall>i. Suc a < i \<and> i \<le> nat (total_lines e) \<longrightarrow>
         row_text e' i = row_text e (i - 1) \<and> str_end (lines e' i) (nat (line_lengths e' i))))"
proof -
  let ?n = "nat (total_lines e)"
  have b: "int (Suc a) + 1 = int a + 2" by simp
  obtain e' where e': "for_each (rev [int a + 2..total_lines e]) (\<lambda>i. move_line i (i - 1)) e = Some e'"
    "arrays_changed e e'" "rows_closed e'"
    "\<forall>i. line_lengths e' i = (if Suc a < i \<and> i \<le> ?n then line_lengths e (i - 1) else line_lengths e i)"
    "\<forall>i. \<not> (Suc a < i \<and> i \<le> ?n) \<longrightarrow> lines e' i = lines e i"
    "\<forall>i n. Suc a < i \<and> i \<le> ?n \<and> n \<le> 199 \<and> str_end (lines e (i - 1)) n \<longrightarrow>
       (\<forall>k \<le> n. lines e' i k = lines e (i - 1) k)"
    using move_down_loop [of "int (Suc a)" "total_lines e" e, unfolded nat_int b] t ok
    by (auto simp: arrays_ok_def)
  have "arrays_ok e'" using ok e'(3,4) by (auto simp: arrays_ok_def)
  moreover have "row_text e' i = row_text e (i - 1) \<and> str_end (lines e' i) (nat (line_lengths e' i))"
    if "clean e" "Suc a < i" "i \<le> ?n" for i
  proof -
    have "str_end (lines e (i - 1)) (nat (line_lengths e (i - 1)))" "line_lengths e (i - 1) \<le> 199"
      using that ok t by (auto simp: clean_def arrays_ok_def)
    from moved_row [OF this, of e' i] show ?thesis using e'(4,6) that by simp
  qed
  ultimately show ?thesis using e'(1,2,4,5) by auto
qed

section \<open>Joining and splitting lines\<close>

text \<open>Row \<open>i\<close> with row \<open>i + 1\<close> appended.\<close>

definition joined_row :: "nat \<Rightarrow> nano \<Rightarrow> mem" where
  "joined_row i e =
     (let p = nat (line_lengths e i); l = nat (line_lengths e (Suc i))
      in (\<lambda>j. if p \<le> j \<and> j < p + l then lines e (Suc i) (j - p) else lines e i j)(p + l := 0))"

lemma join_copy:
  assumes "Suc i < 1000" and "line_lengths e i = int p" and "line_lengths e (Suc i) = int l" and "p + l < 200"
  shows "for_each [0..int l - 1]
      (\<lambda>k a. do { b \<leftarrow> get_char (int (Suc i)) k a; set_char (int i) (int p + k) b a }) e =
    Some (put_row i (\<lambda>j. if p \<le> j \<and> j < p + l then lines e (Suc i) (j - p) else lines e i j) e)"
proof -
  have "(\<lambda>j. if 0 + int p \<le> int j \<and> int j < int l + int p then lines e (Suc i) (nat (int j - int p)) else lines e i j) =
      (\<lambda>j. if p \<le> j \<and> j < p + l then lines e (Suc i) (j - p) else lines e i j)"
    by (rule ext) (auto simp flip: of_nat_diff)
  then show ?thesis
    using copy_loop [of "int i" "int (Suc i)" 0 "int p" "int l" e, unfolded nat_int] assms by simp
qed

lemma joined_row_facts:
  assumes "line_lengths e i = int p" and "line_lengths e (Suc i) = int l" and "p + l < 200"
    and "lines e i 199 = 0" and "Suc i < nat (total_lines e)"
  shows "joined_row i e 199 = 0" and "mem_get (joined_row i e) 0 (p + l) = text_of e ! i @ text_of e ! Suc i"
    and "clean e \<longrightarrow> str_end (joined_row i e) (p + l)"
proof -
  show "joined_row i e 199 = 0" using assms by (auto simp: joined_row_def Let_def)
  show "mem_get (joined_row i e) 0 (p + l) = text_of e ! i @ text_of e ! Suc i"
    using assms by (intro nth_equalityI) (auto simp: joined_row_def Let_def nth_append)
  have "str_end (joined_row i e) (p + l)" if "clean e"
  proof -
    have "str_end (lines e i) p" "str_end (lines e (Suc i)) l"
      using that assms unfolding clean_def by (metis nat_int Suc_lessD, metis nat_int)
    then show ?thesis using assms(1,2) by (auto simp: str_end_def joined_row_def Let_def)
  qed
  then show "clean e \<longrightarrow> str_end (joined_row i e) (p + l)" by blast
qed

lemma join_lines:
  assumes ok: "arrays_ok e" and i: "Suc i < nat (total_lines e)" and t: "total_lines e \<le> 1000"
    and p: "line_lengths e i = int p" and l: "line_lengths e (Suc i) = int l" and pl: "p + l < 200"
  shows "\<exists>e'. for_each [int i + 1..total_lines e - 2] (\<lambda>k. move_line k (k + 1)) (edit_row i (joined_row i e) (p + l) e) = Some e'
    \<and> arrays_changed e e' \<and> arrays_ok e' \<and> line_lengths e' i = int (p + l)
    \<and> (clean e \<longrightarrow> (\<forall>k < nat (total_lines e) - 1. str_end (lines e' k) (nat (line_lengths e' k)))
         \<and> map (row_text e') [0..<nat (total_lines e) - 1] =
             take i (text_of e) @ (text_of e ! i @ text_of e ! Suc i) # drop (Suc (Suc i)) (text_of e))"
proof -
  let ?e = "edit_row i (joined_row i e) (p + l) e"
  have z: "lines e i 199 = 0" using ok i t by (auto simp: arrays_ok_def rows_closed_def)
  note j = joined_row_facts [OF p l pl z i]
  have ok1: "arrays_ok ?e" using ok j(1) pl by (auto simp: arrays_ok_def rows_closed_def)
  have ch: "arrays_changed e ?e"
    by (rule arrays_changed_edit)
  have tx: "text_of ?e = (text_of e)[i := text_of e ! i @ text_of e ! Suc i]"
    using i j(2) by (simp add: text_edit_row)
  have cl: "clean ?e" if "clean e" using that j(3) by (auto simp: clean_def nat_int_add)
  have bounds: "Suc i < nat (total_lines ?e)" "total_lines ?e \<le> 1000" using i t by simp_all
  obtain e' where e': "for_each [int (Suc i)..total_lines ?e - 2] (\<lambda>i. move_line i (i + 1)) ?e = Some e'"
    "arrays_changed ?e e'" "arrays_ok e'" "\<forall>k \<le> Suc i. k < Suc i \<longrightarrow> line_lengths e' k = line_lengths ?e k"
    "clean ?e \<longrightarrow> (\<forall>i < nat (total_lines ?e) - 1. str_end (lines e' i) (nat (line_lengths e' i)))
         \<and> map (row_text e') [0..<nat (total_lines ?e) - 1] = take (Suc i) (text_of ?e) @ drop (Suc (Suc i)) (text_of ?e)"
    using remove_line [OF ok1 bounds] by blast
  have "take (Suc i) (text_of ?e) @ drop (Suc (Suc i)) (text_of ?e) =
      take i (text_of e) @ (text_of e ! i @ text_of e ! Suc i) # drop (Suc (Suc i)) (text_of e)"
    using i by (simp add: tx take_Suc_conv_app_nth)
  then show ?thesis
    using e' cl arrays_changed_trans [OF ch e'(2)] by (auto simp: add.commute)
qed

text \<open>The state after the total has been adjusted.\<close>

lemma resized_ok:
  assumes "ed_ok e" and "arrays_changed e e'" and "arrays_ok e'" and "1 \<le> t" and "t \<le> 1000"
    and "y < nat t" and "int x \<le> line_lengths e' y"
  defines "e1 \<equiv> e'\<lparr>total_lines := t, cursor_y := int y, cursor_x := int x, dirty := True\<rparr>"
  shows "ed_ok e1" and "same_session e e1"
    and "doc_of e1 = (map (row_text e') [0..<nat t], x, y)"
    and "(\<forall>k < nat t. str_end (lines e' k) (nat (line_lengths e' k))) \<Longrightarrow> clean e1"
proof -
  have v: "viewport_y e' = viewport_y e" "same_session e e'" using arrays_changed_fields [OF assms(2)] by simp_all
  show "ed_ok e1" using assms v(1) by (auto simp: ed_ok_def arrays_ok_def rows_closed_def e1_def)
  show "same_session e e1" using v(2) by (simp add: same_session_def e1_def)
  show "doc_of e1 = (map (row_text e') [0..<nat t], x, y)"
    by (simp add: doc_of_def e1_def text_of_def row_text_def fun_eq_iff)
  show "clean e1" if "\<forall>k < nat t. str_end (lines e' k) (nat (line_lengths e' k))"
    using that by (simp add: clean_def e1_def)
qed

section \<open>Backspace, Delete and Enter\<close>

lemma backspace_implements:
  assumes ok: "ed_ok e"
  shows "implements e (nano_handle_backspace e) t_backspace"
proof -
  obtain r x l where v: "cursor_y e = int r" "cursor_x e = int x" "line_lengths e r = int l"
    "r < nat (total_lines e)" "r < 1000" "x \<le> l" "l \<le> 199" "lines e r 199 = 0"
    and d: "doc_of e = (text_of e, x, r)" and row: "text_of e ! r = mem_get (lines e r) 0 l"
    and cl: "clean e \<longrightarrow> str_end (lines e r) l"
    by (rule ed_ok_nat [OF ok])
  have r: "r = nat (cursor_y e)" using v(1) by simp
  have t: "total_lines e \<le> 1000" using ok by (simp add: ed_ok_def)
  consider "0 < x" | "x = 0" "r = 0" | i where "x = 0" "r = Suc i" by (cases x; cases r) auto
  then show ?thesis
  proof cases
    case 1
    then have xl: "x - 1 < l" "Suc (x - 1) = x" using v(6) by simp_all
    note m = removed_row [where m = "lines e r" and b = l, OF xl(1) v(7) v(8)]
    show ?thesis
      unfolding backspace_inside [OF v(1,5,2,3) 1 v(6,7)]
    proof (rule implements_row [OF ok r])
      show "t_backspace (doc_of e) = ((text_of e)[r := mem_get ((\<lambda>j. if x - 1 \<le> j \<and> j < l then lines e r (Suc j)
          else lines e r j)(l - 1 := 0)) 0 (l - 1)], x - 1, r)"
        using m(2) 1 by (simp add: d row)
    qed (use m(1,3) cl v(6,7) in auto)
  next
    case 2
    then have "nano_handle_backspace e = Some (e\<lparr>dirty := True\<rparr>)"
      using v by (simp add: nano_handle_backspace_def Let_def)
    then show ?thesis using implements_id [OF ok] d 2 by simp
  next
    case (3 i)
    have i: "Suc i < nat (total_lines e)" "i < 1000" using v(4,5) 3 by simp_all
    have "0 \<le> line_lengths e i" "line_lengths e i \<le> 199" using ok i(2) by (auto simp: ed_ok_def)
    then obtain p where p: "line_lengths e i = int p" "p \<le> 199" by (metis nonneg_int_cases of_nat_le_iff of_nat_numeral)
    have len: "length (text_of e ! i) = p" "length (text_of e ! Suc i) = l" using i(1) p(1) v(3) 3 by simp_all
    show ?thesis
    proof (cases "p + l < 200")
      case False
      then have "nano_handle_backspace e = Some (e\<lparr>dirty := True\<rparr>)"
        using v 3 p by (simp add: nano_handle_backspace_def Let_def row_simps)
      then show ?thesis using implements_id [OF ok] d 3 len False by simp
    next
      case True
      have l: "line_lengths e (Suc i) = int l" using v(3) 3 by simp
      obtain e' where e': "for_each [int i + 1..total_lines e - 2] (\<lambda>k. move_line k (k + 1))
            (edit_row i (joined_row i e) (p + l) e) = Some e'"
        "arrays_changed e e'" "arrays_ok e'" "line_lengths e' i = int (p + l)"
        "clean e \<longrightarrow> (\<forall>k < nat (total_lines e) - 1. str_end (lines e' k) (nat (line_lengths e' k)))
         \<and> map (row_text e') [0..<nat (total_lines e) - 1] =
             take i (text_of e) @ (text_of e ! i @ text_of e ! Suc i) # drop (Suc (Suc i)) (text_of e)"
        using join_lines [OF ed_ok_arrays [OF ok] i(1) t p(1) l True] by blast
      have f: "total_lines e' = total_lines e" using arrays_changed_fields [OF e'(2)] by simp
      have "nano_handle_backspace e =
          Some (e'\<lparr>total_lines := total_lines e - 1, cursor_y := int i, cursor_x := int p, dirty := True\<rparr>)"
        using v 3 p l i(2) True e'(1) f join_copy [OF _ p(1) l True]
        by (simp add: nano_handle_backspace_def Let_def row_simps edit_row_def put_swap joined_row_def
            nat_int_add add.commute)
      then show ?thesis
        using resized_ok [OF ok e'(2,3), of "total_lines e - 1" i p] i t e'(4,5) len True
        by (auto simp: implements_def d 3 nat_diff_distrib)
    qed
  qed
qed

lemma delete_implements:
  assumes ok: "ed_ok e"
  shows "implements e (nano_handle_delete e) t_delete"
proof -
  obtain r x l where v: "cursor_y e = int r" "cursor_x e = int x" "line_lengths e r = int l"
    "r < nat (total_lines e)" "r < 1000" "x \<le> l" "l \<le> 199" "lines e r 199 = 0"
    and d: "doc_of e = (text_of e, x, r)" and row: "text_of e ! r = mem_get (lines e r) 0 l"
    and cl: "clean e \<longrightarrow> str_end (lines e r) l"
    by (rule ed_ok_nat [OF ok])
  have r: "r = nat (cursor_y e)" using v(1) by simp
  have t: "total_lines e \<le> 1000" "int r < total_lines e" using ok v(4) by (simp_all add: ed_ok_def)
  have len: "length (text_of e ! r) = l" using v(3,4) by simp
  consider "x < l" | "x = l" "\<not> Suc r < nat (total_lines e)" | "x = l" "Suc r < nat (total_lines e)"
    using v(6) by linarith
  then show ?thesis
  proof cases
    case 1
    note m = removed_row [where m = "lines e r" and b = "l - 1", OF 1 v(7) v(8)]
    have "edit_row r M n e\<lparr>dirty := True\<rparr> = edit_row r M n e\<lparr>cursor_x := int x, dirty := True\<rparr>" for M n
      using v(2) by (simp add: edit_row_def put_row_def put_len_def)
    then show ?thesis
      unfolding delete_inside [OF v(1,5,2,3) 1 v(7,4)]
    proof (simp only:, intro implements_row [OF ok r])
      show "t_delete (doc_of e) = ((text_of e)[r := mem_get ((\<lambda>j. if x \<le> j \<and> j < l - 1 then lines e r (Suc j)
          else lines e r j)(l - 1 := 0)) 0 (l - 1)], x, r)"
        using m(2) 1 len by (simp add: d row)
    qed (use m(1,3) cl v(6,7) 1 in auto)
  next
    case 2
    then have "nano_handle_delete e = Some e"
      using v t by (simp add: nano_handle_delete_def Let_def row_simps)
    then show ?thesis using implements_id(2) [OF ok] d 2 len by simp
  next
    case 3
    have s: "Suc r < 1000" using 3 t by simp
    have "0 \<le> line_lengths e (Suc r)" "line_lengths e (Suc r) \<le> 199" using ok s by (auto simp: ed_ok_def)
    then obtain p where p: "line_lengths e (Suc r) = int p" "p \<le> 199"
      by (metis nonneg_int_cases of_nat_le_iff of_nat_numeral)
    have len2: "length (text_of e ! Suc r) = p" using 3 p(1) by simp
    have more: "int r < total_lines e - 1" using 3(2) by simp
    show ?thesis
    proof (cases "l + p < 200")
      case False
      then have "nano_handle_delete e = Some e"
        using v 3(1) p s more by (simp add: nano_handle_delete_def Let_def row_simps)
      then show ?thesis using implements_id(2) [OF ok] d 3 len len2 False by simp
    next
      case True
      obtain e' where e': "for_each [int r + 1..total_lines e - 2] (\<lambda>k. move_line k (k + 1))
            (edit_row r (joined_row r e) (l + p) e) = Some e'"
        "arrays_changed e e'" "arrays_ok e'" "line_lengths e' r = int (l + p)"
        "clean e \<longrightarrow> (\<forall>k < nat (total_lines e) - 1. str_end (lines e' k) (nat (line_lengths e' k)))
         \<and> map (row_text e') [0..<nat (total_lines e) - 1] =
             take r (text_of e) @ (text_of e ! r @ text_of e ! Suc r) # drop (Suc (Suc r)) (text_of e)"
        using join_lines [OF ed_ok_arrays [OF ok] 3(2) t(1) v(3) p(1) True] by blast
      have f: "total_lines e' = total_lines e" "cursor_x e' = int x" "cursor_y e' = int r"
        using arrays_changed_fields [OF e'(2)] v by simp_all
      have "nano_handle_delete e = Some (e'\<lparr>total_lines := total_lines e - 1, dirty := True\<rparr>)"
        using v 3(1) p s more True e'(1) f join_copy [OF s v(3) p(1) True]
        by (simp add: nano_handle_delete_def Let_def row_simps edit_row_def put_swap joined_row_def
            nat_int_add add.commute)
      moreover have "e'\<lparr>total_lines := total_lines e - 1, dirty := True\<rparr> =
          e'\<lparr>total_lines := total_lines e - 1, cursor_y := int r, cursor_x := int x, dirty := True\<rparr>"
        using f by simp
      ultimately show ?thesis
        using resized_ok [OF ok e'(2,3), of "total_lines e - 1" r x] 3 t e'(4,5) len len2 True
        by (auto simp: implements_def d nat_diff_distrib)
    qed
  qed
qed

text \<open>The row Enter puts under the cursor's row, on top of what the array holds there.\<close>

definition tail_row :: "nat \<Rightarrow> nat \<Rightarrow> mem \<Rightarrow> mem \<Rightarrow> mem" where
  "tail_row x l m old = (\<lambda>j. if j < l - x then m (x + j) else old j)(l - x := 0)"

lemma enter_copy:
  assumes "Suc r < 1000" and "x \<le> l" and "l \<le> 199"
  shows "for_each [int x..int l - 1]
      (\<lambda>i (n, s). do { c \<leftarrow> get_char (int r) i s; s' \<leftarrow> set_char (1 + int r) n c s; Some (n + 1, s') }) (0, e) =
    Some (int (l - x), put_row (Suc r) (\<lambda>j. if j < l - x then lines e r (x + j) else lines e (Suc r) j) e)"
proof -
  have "(\<lambda>j. if 0 \<le> int j \<and> int j < 0 + (int l - int x) then lines e r (nat (int j + (int x - 0))) else lines e (Suc r) j) =
      (\<lambda>j. if j < l - x then lines e r (x + j) else lines e (Suc r) j)"
    using assms(2) by (intro ext) (auto simp: nat_int_add add.commute)
  then show ?thesis
    using copy_loop_counted [of "int (Suc r)" "int r" "int x" 0 "int l" e, unfolded nat_int] assms
    by (simp add: of_nat_diff)
qed

lemma enter_result:
  assumes v: "cursor_y e = int r" "cursor_x e = int x" "line_lengths e r = int l" "x \<le> l" "l \<le> 199"
    and t: "total_lines e < 1000" "Suc r < 1000"
    and e1: "for_each (rev [int r + 2..total_lines e]) (\<lambda>i. move_line i (i - 1)) e = Some e1"
    and row: "lines e1 r = lines e r" and ch: "arrays_changed e e1"
  shows "nano_handle_enter e =
    Some ((edit_row r ((lines e r)(x := 0)) x
             (edit_row (Suc r) (tail_row x l (lines e r) (lines e1 (Suc r))) (l - x) e1))
           \<lparr>total_lines := total_lines e + 1, cursor_y := int (Suc r), cursor_x := 0, dirty := True\<rparr>)"
proof -
  have "int (l - x) < 200" using v(5) by simp
  moreover have "total_lines e1 = total_lines e" using arrays_changed_fields [OF ch] by simp
  ultimately show ?thesis
    using v t e1 row enter_copy [OF t(2) v(4,5), of e1, unfolded row]
    by (simp add: nano_handle_enter_def Let_def row_simps edit_row_def tail_row_def put_swap add.commute
        del: of_nat_diff)
qed

lemma tail_row_facts:
  assumes "x \<le> l" and "l \<le> 199" and "old 199 = 0"
  shows "tail_row x l m old 199 = 0" and "mem_get (tail_row x l m old) 0 (l - x) = drop x (mem_get m 0 l)"
    and "str_end m l \<longrightarrow> str_end (tail_row x l m old) (l - x)"
  using assms by (auto simp: tail_row_def str_end_def intro!: nth_equalityI)

lemma enter_implements:
  assumes ok: "ed_ok e"
  shows "implements e (nano_handle_enter e) t_enter"
proof -
  obtain r x l where v: "cursor_y e = int r" "cursor_x e = int x" "line_lengths e r = int l"
    "r < nat (total_lines e)" "r < 1000" "x \<le> l" "l \<le> 199" "lines e r 199 = 0"
    and d: "doc_of e = (text_of e, x, r)" and row: "text_of e ! r = mem_get (lines e r) 0 l"
    and cl: "clean e \<longrightarrow> str_end (lines e r) l"
    by (rule ed_ok_nat [OF ok])
  let ?n = "nat (total_lines e)"
  show ?thesis
  proof (cases "total_lines e < 1000")
    case False
    then have "nano_handle_enter e = Some e" "\<not> length (text_of e) < 1000"
      by (simp_all add: nano_handle_enter_def Let_def)
    then show ?thesis using implements_id(2) [OF ok] d by simp
  next
    case True
    then have t: "total_lines e \<le> 999" "Suc r < 1000" "Suc r \<le> ?n" using v(4) by simp_all
    obtain e1 where e1: "for_each (rev [int r + 2..total_lines e]) (\<lambda>i. move_line i (i - 1)) e = Some e1"
      "arrays_changed e e1" "arrays_ok e1"
      "\<forall>i \<le> r. lines e1 i = lines e i \<and> line_lengths e1 i = line_lengths e i"
      "clean e \<longrightarrow> (\<forall>i. Suc r < i \<and> i \<le> ?n \<longrightarrow>
         row_text e1 i = row_text e (i - 1) \<and> str_end (lines e1 i) (nat (line_lengths e1 i)))"
      using make_room [OF ed_ok_arrays [OF ok] v(4) t(1)] by blast
    let ?m = "tail_row x l (lines e r) (lines e1 (Suc r))"
    let ?e = "edit_row r ((lines e r)(x := 0)) x (edit_row (Suc r) ?m (l - x) e1)"
    have old: "lines e1 (Suc r) 199 = 0" using e1(3) t(2) by (auto simp: arrays_ok_def rows_closed_def)
    note m = tail_row_facts [where old = "lines e1 (Suc r)" and m = "lines e r", OF v(6,7) old]
    have "lines e1 r = lines e r" using e1(4) by simp
    then have res: "nano_handle_enter e = Some (?e\<lparr>total_lines := total_lines e + 1, cursor_y := int (Suc r),
        cursor_x := int 0, dirty := True\<rparr>)"
      using enter_result [OF v(1-3,6,7) True t(2) e1(1) _ e1(2)] by simp
    have ch: "arrays_changed e ?e"
      by (rule arrays_changed_trans [OF arrays_changed_trans [OF e1(2) arrays_changed_edit] arrays_changed_edit])
    have aok: "arrays_ok ?e" by (intro arrays_ok_edit e1(3)) (use m(1) v(6-8) in auto)
    have n1: "nat (total_lines e + 1) = Suc ?n" using v(4) by simp
    have b: "1 \<le> total_lines e + 1" "total_lines e + 1 \<le> 1000" "Suc r < Suc ?n" "int 0 \<le> line_lengths ?e (Suc r)"
      using t(1) v(4) by simp_all
    note fin = resized_ok [OF ok ch aok b(1,2), of "Suc r" 0, unfolded n1, OF b(3,4)]
    have "clean (?e\<lparr>total_lines := total_lines e + 1, cursor_y := int (Suc r), cursor_x := int 0, dirty := True\<rparr>)
        \<and> map (row_text ?e) [0..<Suc ?n] =
            take r (text_of e) @ take x (text_of e ! r) # drop x (text_of e ! r) # drop (Suc r) (text_of e)"
      if "clean e"
    proof
      have below: "row_text ?e i = row_text e i \<and> str_end (lines ?e i) (nat (line_lengths ?e i))" if "i < r" for i
        using that \<open>clean e\<close> e1(4) v(4) by (simp add: row_text_def clean_def)
      have above: "row_text ?e i = row_text e (i - 1) \<and> str_end (lines ?e i) (nat (line_lengths ?e i))"
        if "Suc r < i" "i \<le> ?n" for i
        using that \<open>clean e\<close> e1(5) by (simp add: row_text_def)
      have here: "row_text ?e r = take x (text_of e ! r)" "str_end (lines ?e r) (nat (line_lengths ?e r))"
      proof -
        have "mem_get ((lines e r)(x := 0)) 0 x = mem_get (lines e r) 0 x" by (rule mem_get_cong) simp
        then show "row_text ?e r = take x (text_of e ! r)"
          using v(6) by (simp add: row row_text_def take_mem_get min_absorb1)
        have "str_end (lines e r) l" using cl \<open>clean e\<close> by simp
        then show "str_end (lines ?e r) (nat (line_lengths ?e r))" using v(6) by (simp add: str_end_def)
      qed
      have split: "row_text ?e (Suc r) = drop x (text_of e ! r)" "str_end (lines ?e (Suc r)) (nat (line_lengths ?e (Suc r)))"
        using cl \<open>clean e\<close> m(2,3) row by (simp_all add: row_text_def del: of_nat_diff)
      have "str_end (lines ?e i) (nat (line_lengths ?e i))" if "i \<le> ?n" for i
      proof -
        consider "i < r" | "i = r" | "i = Suc r" | "Suc r < i" by linarith
        then show ?thesis
          by cases (use below [of i] above [of i] here(2) split(2) that in blast)+
      qed
      then show "clean (?e\<lparr>total_lines := total_lines e + 1, cursor_y := int (Suc r), cursor_x := int 0, dirty := True\<rparr>)"
        by (intro fin(4)) simp
      show "map (row_text ?e) [0..<Suc ?n] =
            take r (text_of e) @ take x (text_of e ! r) # drop x (text_of e ! r) # drop (Suc r) (text_of e)"
      proof (rule nth_equalityI)
        fix i assume "i < length (map (row_text ?e) [0..<Suc ?n])"
        then have "i \<le> ?n" by simp
        then consider "i < r" | "i = r" | "i = Suc r" | j where "i = Suc (Suc (r + j))" "Suc (r + j) < ?n"
          by (metis less_imp_Suc_add linorder_neqE_nat not_less_eq Suc_le_lessD Suc_leI le_less add_Suc_right)
        then show "map (row_text ?e) [0..<Suc ?n] ! i =
            (take r (text_of e) @ take x (text_of e ! r) # drop x (text_of e ! r) # drop (Suc r) (text_of e)) ! i"
        proof cases
          case (4 j)
          then have "Suc r < i" "i \<le> ?n" "i - 1 = Suc (r + j)" by simp_all
          then show ?thesis using above [of i] 4 v(4) by (simp add: nth_append min_def del: upt_Suc)
        qed (use below here split v(4) in \<open>simp_all add: nth_append min_def del: upt_Suc\<close>)
      qed (use v(4) in \<open>simp add: min_def\<close>)
    qed
    moreover have "t_enter (doc_of e) = (take r (text_of e) @ take x (text_of e ! r) # drop x (text_of e ! r) #
        drop (Suc r) (text_of e), 0, Suc r)"
      using True by (simp add: d)
    ultimately show ?thesis using fin(1-3) unfolding res by (auto simp: implements_def simp del: upt_Suc)
  qed
qed

end
