(* ===== verification/Nano_View.thy ===== *)
theory Nano_View
  imports Nano_Text
begin

text \<open>
  The cursor operations of the editor: where they put the cursor, that the text stays,
  and that the cursor ends inside the 23 rows of the viewport.
\<close>

definition in_view :: "nano \<Rightarrow> bool" where
  "in_view e \<longleftrightarrow> viewport_y e \<le> cursor_y e \<and> cursor_y e < viewport_y e + 23
     \<and> 0 \<le> viewport_y e \<and> (viewport_y e = 0 \<or> viewport_y e \<le> total_lines e - 23)"

lemma scroll_fields [simp]:
  "cursor_x (nano_scroll_to_cursor e) = cursor_x e" "cursor_y (nano_scroll_to_cursor e) = cursor_y e"
  "total_lines (nano_scroll_to_cursor e) = total_lines e" "lines (nano_scroll_to_cursor e) = lines e"
  "line_lengths (nano_scroll_to_cursor e) = line_lengths e" "same_session e (nano_scroll_to_cursor e) = True"
  by (simp_all add: nano_scroll_to_cursor_def Let_def same_session_def)

lemma scroll_in_view:
  "0 \<le> cursor_y e \<Longrightarrow> cursor_y e < total_lines e \<Longrightarrow> in_view (nano_scroll_to_cursor e)"
  by (auto simp: in_view_def nano_scroll_to_cursor_def Let_def)

text \<open>A move of the cursor inside the text, with or without scrolling.\<close>

lemma cursor_moved:
  assumes "ed_ok e" and "y < nat (total_lines e)" and "int x \<le> line_lengths e y"
  defines "e1 \<equiv> e\<lparr>cursor_x := int x, cursor_y := int y\<rparr>"
  shows "ed_ok e1" and "ed_ok (nano_scroll_to_cursor e1)" and "clean e \<Longrightarrow> clean e1"
    and "clean e \<Longrightarrow> clean (nano_scroll_to_cursor e1)"
    and "doc_of e1 = (text_of e, x, y)" and "doc_of (nano_scroll_to_cursor e1) = (text_of e, x, y)"
    and "same_session e e1" and "same_session e (nano_scroll_to_cursor e1)"
    and "in_view (nano_scroll_to_cursor e1)"
proof -
  have y: "0 \<le> int y" "int y < total_lines e" using assms(2) by simp_all
  show ok: "ed_ok e1" using assms by (auto simp: ed_ok_def rows_closed_def)
  show v: "in_view (nano_scroll_to_cursor e1)" using y by (intro scroll_in_view) (simp_all add: e1_def)
  show "ed_ok (nano_scroll_to_cursor e1)" using ok v by (auto simp: ed_ok_def rows_closed_def in_view_def)
  show "clean e1" "clean (nano_scroll_to_cursor e1)" if "clean e" using that by (simp_all add: clean_def e1_def)
  have t: "text_of e1 = text_of e" "text_of (nano_scroll_to_cursor e1) = text_of e"
    by (rule text_of_cong; simp add: e1_def)+
  then show "doc_of e1 = (text_of e, x, y)" "doc_of (nano_scroll_to_cursor e1) = (text_of e, x, y)"
    by (simp_all add: doc_of_def) (simp_all add: e1_def)
  show "same_session e e1" "same_session e (nano_scroll_to_cursor e1)"
    by (simp_all add: same_session_def e1_def nano_scroll_to_cursor_def Let_def)
qed

fun t_goto :: "int \<Rightarrow> int \<Rightarrow> doc \<Rightarrow> doc" where
  "t_goto x' y' (T, x, y) =
     (let line = min (length T - 1) (nat y') in (T, min (length (T ! line)) (nat x'), line))"

definition t_move :: "int \<Rightarrow> int \<Rightarrow> doc \<Rightarrow> doc" where
  "t_move dx dy d = (case d of (T, x, y) \<Rightarrow> t_goto (int x + dx) (int y + dy) d)"

definition t_page :: "int \<Rightarrow> doc \<Rightarrow> doc" where
  "t_page direction d = t_move 0 (if direction < 0 then -22 else 22) d"

text \<open>Every jump to a line and column, cut to the text.\<close>

lemma goto_implements:
  assumes ok: "ed_ok e" and y: "y = min (nat (total_lines e) - 1) (nat y')"
    and x: "x = min (nat (line_lengths e y)) (nat x')"
  shows "implements e (Some (nano_scroll_to_cursor (e\<lparr>cursor_x := int x, cursor_y := int y\<rparr>))) (t_goto x' y')"
    and "in_view (nano_scroll_to_cursor (e\<lparr>cursor_x := int x, cursor_y := int y\<rparr>))"
    and "implements e (Some (e\<lparr>cursor_x := int x, cursor_y := int y\<rparr>)) (t_goto x' y')"
proof -
  have "0 < nat (total_lines e)" using ok by (auto simp: ed_ok_def)
  then have ylt: "y < nat (total_lines e)" unfolding y by linarith
  then have y1000: "y < 1000" using ok by (auto simp: ed_ok_def)
  have "0 \<le> line_lengths e y" using ok y1000 by (auto simp: ed_ok_def)
  then have xle: "int x \<le> line_lengths e y" using x by linarith
  note m = cursor_moved [OF ok ylt xle]
  have g: "t_goto x' y' (doc_of e) = (text_of e, x, y)"
  proof -
    have "min (length (text_of e) - 1) (nat y') = y" by (simp only: y length_text_of)
    moreover have "min (length (text_of e ! y)) (nat x') = x" using ylt by (simp add: x)
    ultimately show ?thesis by (simp add: doc_of_def Let_def)
  qed
  show "implements e (Some (nano_scroll_to_cursor (e\<lparr>cursor_x := int x, cursor_y := int y\<rparr>))) (t_goto x' y')"
    "implements e (Some (e\<lparr>cursor_x := int x, cursor_y := int y\<rparr>)) (t_goto x' y')"
    unfolding implements_def using m g by auto
  show "in_view (nano_scroll_to_cursor (e\<lparr>cursor_x := int x, cursor_y := int y\<rparr>))" by (rule m(9))
qed

lemma implements_cong: "implements e r f \<Longrightarrow> f (doc_of e) = g (doc_of e) \<Longrightarrow> implements e r g"
  by (auto simp: implements_def)

lemma move_cursor_eq:
  assumes ok: "ed_ok e"
  shows "nano_move_cursor dx dy e =
    (let y = min (nat (total_lines e) - 1) (nat (cursor_y e + dy));
         x = min (nat (line_lengths e y)) (nat (cursor_x e + dx))
     in Some (nano_scroll_to_cursor (e\<lparr>cursor_x := int x, cursor_y := int y\<rparr>)))"
proof -
  define y where "y = min (nat (total_lines e) - 1) (nat (cursor_y e + dy))"
  let ?y1 = "if cursor_y e + dy < 0 then 0 else cursor_y e + dy"
  have y: "(if ?y1 \<ge> total_lines e then total_lines e - 1 else ?y1) = int y" and y1000: "y < 1000"
    using ok by (auto simp: y_def ed_ok_def min_def)
  have len: "0 \<le> line_lengths e y" using ok y1000 by (auto simp: ed_ok_def)
  let ?x1 = "if cursor_x e + dx < 0 then 0 else cursor_x e + dx"
  have x: "(if ?x1 > line_lengths e y then line_lengths e y else ?x1) =
      int (min (nat (line_lengths e y)) (nat (cursor_x e + dx)))"
    using len by auto
  show ?thesis
    unfolding nano_move_cursor_def Let_def y y_def [symmetric] using y1000 x by (simp add: row_simps)
qed

lemma move_implements:
  assumes ok: "ed_ok e"
  shows "implements e (nano_move_cursor dx dy e) (t_move dx dy)"
    and "\<exists>e'. nano_move_cursor dx dy e = Some e' \<and> in_view e'"
proof -
  note g = goto_implements [OF ok refl refl]
  have "t_goto (cursor_x e + dx) (cursor_y e + dy) (doc_of e) = t_move dx dy (doc_of e)"
    using ok by (simp add: t_move_def doc_of_def ed_ok_def)
  with g(1) show "implements e (nano_move_cursor dx dy e) (t_move dx dy)"
    unfolding move_cursor_eq [OF ok] Let_def by (rule implements_cong)
  show "\<exists>e'. nano_move_cursor dx dy e = Some e' \<and> in_view e'"
    unfolding move_cursor_eq [OF ok] Let_def using g(2) by blast
qed

lemma page_scroll_eq:
  assumes ok: "ed_ok e"
  shows "nano_page_scroll direction e = nano_move_cursor 0 (if direction < 0 then -22 else 22) e"
proof -
  have b: "0 \<le> cursor_y e" "cursor_y e < total_lines e" "total_lines e \<le> 1000" "0 \<le> cursor_x e"
    using ok by (simp_all add: ed_ok_def)
  show ?thesis
    using b unfolding nano_page_scroll_def nano_move_cursor_def Let_def
    by (cases "direction < 0") (auto simp: row_simps intro!: arg_cong [where f = nano_scroll_to_cursor])
qed

lemma page_implements:
  assumes ok: "ed_ok e"
  shows "implements e (nano_page_scroll direction e) (t_page direction)"
    and "\<exists>e'. nano_page_scroll direction e = Some e' \<and> in_view e'"
  unfolding page_scroll_eq [OF ok] t_page_def [abs_def]
  using move_implements [OF ok] by auto

lemma line_start_implements:
  assumes ok: "ed_ok e"
  shows "implements e (Some (nano_move_to_line_start e)) (\<lambda>(T, x, y). (T, 0, y))"
proof -
  have "0 \<le> cursor_y e" "nat (cursor_y e) < nat (total_lines e)" "int 0 \<le> line_lengths e (nat (cursor_y e))"
    using ok by (auto simp: ed_ok_def)
  note m = cursor_moved [OF ok this(2,3)]
  moreover have "nano_move_to_line_start e = e\<lparr>cursor_x := int 0, cursor_y := int (nat (cursor_y e))\<rparr>"
    using ok by (simp add: nano_move_to_line_start_def ed_ok_def)
  ultimately show ?thesis by (auto simp: implements_def doc_of_def)
qed

lemma line_end_implements:
  assumes ok: "ed_ok e"
  shows "implements e (nano_move_to_line_end e) (\<lambda>(T, x, y). (T, length (T ! y), y))"
proof -
  have y: "0 \<le> cursor_y e" "nat (cursor_y e) < nat (total_lines e)" "0 \<le> line_lengths e (nat (cursor_y e))"
    "cursor_y e < total_lines e" "total_lines e \<le> 1000"
    using ok by (auto simp: ed_ok_def)
  then have "int (nat (line_lengths e (nat (cursor_y e)))) \<le> line_lengths e (nat (cursor_y e))" by simp
  note m = cursor_moved [OF ok y(2) this]
  moreover have "nano_move_to_line_end e =
      Some (e\<lparr>cursor_x := int (nat (line_lengths e (nat (cursor_y e)))), cursor_y := int (nat (cursor_y e))\<rparr>)"
    using y by (simp add: nano_move_to_line_end_def row_simps)
  ultimately show ?thesis using y(2) by (auto simp: implements_def doc_of_def)
qed

end
