(* ===== verification/Nano_File.thy ===== *)
theory Nano_File
  imports Nano_View
begin

text \<open>
  Loading a file into the editor and serialising its text for saving: \<open>parse_file\<close> says
  which lines a file is split into, \<open>file_bytes\<close> which bytes a text is saved as, and a
  text without line breaks inside its lines survives being saved and loaded.
\<close>

section \<open>Lines of a file\<close>

fun parse_file :: "byte list \<Rightarrow> byte list \<Rightarrow> byte list list" where
  "parse_file [] cur = (if cur = [] then [] else [cur])"
| "parse_file (c # cs) cur =
     (if c = 0x0A then cur # parse_file cs []
      else if c \<noteq> 0x0D \<and> length cur < 199 then parse_file cs (cur @ [c])
      else parse_file cs cur)"

definition file_bytes :: "byte list list \<Rightarrow> byte list" where
  "file_bytes T = concat (map (\<lambda>l. l @ [0x0A]) T)"

definition plain_line :: "byte list \<Rightarrow> bool" where
  "plain_line l \<longleftrightarrow> length l \<le> 199 \<and> 0 \<notin> set l \<and> 0x0A \<notin> set l \<and> 0x0D \<notin> set l"

lemma file_bytes_simps [simp]:
  "file_bytes [] = []" "file_bytes (l # T) = l @ 0x0A # file_bytes T"
  by (simp_all add: file_bytes_def)

lemma parse_plain:
  "0x0A \<notin> set l \<Longrightarrow> 0x0D \<notin> set l \<Longrightarrow> length cur + length l \<le> 199 \<Longrightarrow>
   parse_file (l @ cs) cur = parse_file cs (cur @ l)"
  by (induction l arbitrary: cur) auto

lemma parse_file_bytes: "\<forall>l \<in> set T. plain_line l \<Longrightarrow> parse_file (file_bytes T) [] = T"
  by (induction T) (auto simp: plain_line_def parse_plain)

lemma parse_plain_lines:
  "0 \<notin> set bs \<Longrightarrow> plain_line cur \<Longrightarrow> \<forall>l \<in> set (parse_file bs cur). plain_line l"
  by (induction bs cur rule: parse_file.induct) (auto simp: plain_line_def)

section \<open>Loading\<close>

lemma arrays_ok_put:
  assumes "arrays_ok e"
  shows "m 199 = 0 \<Longrightarrow> arrays_ok (put_row r m e)" and "0 \<le> n \<Longrightarrow> n \<le> 199 \<Longrightarrow> arrays_ok (put_len r n e)"
  using assms by (auto simp: arrays_ok_def rows_closed_def)

lemma arrays_changed_put1 [simp]: "arrays_changed e (put_row r m e)" "arrays_changed e (put_len r n e)"
  unfolding arrays_changed_def put_row_def put_len_def
  by (rule exI [of _ "(lines e)(r := m)"], rule exI [of _ "line_lengths e"], simp)
    (rule exI [of _ "lines e"], rule exI [of _ "(line_lengths e)(r := n)"], simp)

text \<open>
  What the parse loop has achieved in line \<open>k\<close> at column \<open>p\<close>, with the lines from \<open>k0\<close>
  on coming from the file.
\<close>

lemma load_loop_spec:
  assumes "arrays_ok e" and "k \<le> 1000" and "p \<le> 199" and "k = 1000 \<longrightarrow> p = 0"
  shows "\<exists>k' p' e'. load_loop bytes (int k) (int p) e = Some (int k', int p', e') \<and> k \<le> k' \<and> k' \<le> 1000 \<and> p' \<le> 199
    \<and> (k' = 1000 \<longrightarrow> p' = 0) \<and> arrays_ok e' \<and> arrays_changed e e'
    \<and> (\<forall>i < k. lines e' i = lines e i \<and> line_lengths e' i = line_lengths e i)
    \<and> map (row_text e') [k..<k'] @ (if 0 < p' then [mem_get (lines e' k') 0 p'] else []) =
        take (1000 - k) (parse_file bytes (mem_get (lines e k) 0 p))
    \<and> (0 \<notin> set bytes \<and> (\<forall>j < p. lines e k j \<noteq> 0) \<longrightarrow>
        (\<forall>i. k \<le> i \<and> i < k' \<longrightarrow> str_end (lines e' i) (nat (line_lengths e' i))) \<and> (\<forall>j < p'. lines e' k' j \<noteq> 0))"
  using assms
proof (induction bytes arbitrary: k p e)
  case Nil
  then show ?case by (auto intro!: exI [of _ k] exI [of _ p] exI [of _ e])
next
  case (Cons c cs)
  consider "k = 1000" | "k < 1000" "c = 0x0A" | "k < 1000" "c \<noteq> 0x0A" "c \<noteq> 0x0D" "p < 199"
    | "k < 1000" "c \<noteq> 0x0A" "\<not> (c \<noteq> 0x0D \<and> p < 199)"
    using Cons.prems(2) by linarith
  then show ?case
  proof cases
    case 1
    then show ?thesis using Cons.prems by (auto intro!: exI [of _ k] exI [of _ p] exI [of _ e])
  next
    case 2
    let ?e = "edit_row k ((lines e k)(p := 0)) p e"
    have z: "lines e k 199 = 0" using Cons.prems(1) 2(1) by (auto simp: arrays_ok_def rows_closed_def)
    have ok: "arrays_ok ?e" using z Cons.prems(1,3) by (intro arrays_ok_edit) auto
    have step: "load_loop (c # cs) (int k) (int p) e = load_loop cs (int (Suc k)) (int 0) ?e"
      using 2 Cons.prems(3) by (simp add: row_simps edit_row_def add.commute)
    have lim: "Suc k \<le> 1000" "0 \<le> (199 :: nat)" "Suc k = 1000 \<longrightarrow> 0 = (0 :: nat)" using 2(1) by simp_all
    obtain k' p' e' where ih: "load_loop cs (int (Suc k)) (int 0) ?e = Some (int k', int p', e')" "Suc k \<le> k'" "k' \<le> 1000"
      "p' \<le> 199" "k' = 1000 \<longrightarrow> p' = 0" "arrays_ok e'" "arrays_changed ?e e'"
      "\<forall>i < Suc k. lines e' i = lines ?e i \<and> line_lengths e' i = line_lengths ?e i"
      "map (row_text e') [Suc k..<k'] @ (if 0 < p' then [mem_get (lines e' k') 0 p'] else []) =
        take (1000 - Suc k) (parse_file cs (mem_get (lines ?e (Suc k)) 0 0))"
      "0 \<notin> set cs \<and> (\<forall>j < 0. lines ?e (Suc k) j \<noteq> 0) \<longrightarrow>
        (\<forall>i. Suc k \<le> i \<and> i < k' \<longrightarrow> str_end (lines e' i) (nat (line_lengths e' i))) \<and> (\<forall>j < p'. lines e' k' j \<noteq> 0)"
      using Cons.IH [OF ok lim] by (elim exE conjE) (rule that)
    have row: "lines e' k = (lines e k)(p := 0)" "line_lengths e' k = int p" using ih(8) by auto
    have "mem_get ((lines e k)(p := 0)) 0 p = mem_get (lines e k) 0 p" by (rule mem_get_cong) simp
    then have "row_text e' k = mem_get (lines e k) 0 p" by (simp add: row_text_def row)
    moreover have "[k..<k'] = k # [Suc k..<k']" using ih(2) by (simp add: upt_conv_Cons)
    moreover have "1000 - k = Suc (1000 - Suc k)" using 2(1) by simp
    moreover have "arrays_changed e e'" by (rule arrays_changed_trans [OF arrays_changed_edit ih(7)])
    moreover have "\<forall>i. k \<le> i \<and> i < k' \<longrightarrow> str_end (lines e' i) (nat (line_lengths e' i))"
      if "0 \<notin> set (c # cs)" "\<forall>j < p. lines e k j \<noteq> 0"
    proof (intro allI impI)
      fix i assume "k \<le> i \<and> i < k'"
      then consider "i = k" | "Suc k \<le> i" "i < k'" by linarith
      then show "str_end (lines e' i) (nat (line_lengths e' i))"
        using that ih(10) row by cases (auto simp: str_end_def)
    qed
    moreover have "\<forall>j < p'. lines e' k' j \<noteq> 0" if "0 \<notin> set (c # cs)" using that ih(10) by auto
    moreover have "\<forall>i < k. lines e' i = lines e i \<and> line_lengths e' i = line_lengths e i" using ih(8) by auto
    moreover have "map (row_text e') [k..<k'] @ (if 0 < p' then [mem_get (lines e' k') 0 p'] else []) =
        take (1000 - k) (parse_file (c # cs) (mem_get (lines e k) 0 p))"
      if "row_text e' k = mem_get (lines e k) 0 p" "[k..<k'] = k # [Suc k..<k']" "1000 - k = Suc (1000 - Suc k)"
      using ih(9) 2(2) that(1) unfolding that(2,3) by simp
    ultimately show ?thesis
      unfolding step using ih(1-6) by (intro exI [of _ k'] exI [of _ p'] exI [of _ e']) simp
  next
    case 3
    let ?e = "put_row k ((lines e k)(p := c)) e"
    have z: "lines e k 199 = 0" using Cons.prems(1) 3(1) by (auto simp: arrays_ok_def rows_closed_def)
    have ok: "arrays_ok ?e" using z Cons.prems(1) 3(4) by (intro arrays_ok_put) auto
    have step: "load_loop (c # cs) (int k) (int p) e = load_loop cs (int k) (int (Suc p)) ?e"
      using 3 by (simp add: row_simps add.commute)
    have cur: "mem_get (lines ?e k) 0 (Suc p) = mem_get (lines e k) 0 p @ [c]"
      by (rule nth_equalityI) (auto simp: nth_append less_Suc_eq)
    have lim: "k \<le> 1000" "Suc p \<le> 199" "k = 1000 \<longrightarrow> Suc p = 0" using 3(1,4) by simp_all
    obtain k' p' e' where ih: "load_loop cs (int k) (int (Suc p)) ?e = Some (int k', int p', e')" "k \<le> k'" "k' \<le> 1000"
      "p' \<le> 199" "k' = 1000 \<longrightarrow> p' = 0" "arrays_ok e'" "arrays_changed ?e e'"
      "\<forall>i < k. lines e' i = lines ?e i \<and> line_lengths e' i = line_lengths ?e i"
      "map (row_text e') [k..<k'] @ (if 0 < p' then [mem_get (lines e' k') 0 p'] else []) =
        take (1000 - k) (parse_file cs (mem_get (lines ?e k) 0 (Suc p)))"
      "0 \<notin> set cs \<and> (\<forall>j < Suc p. lines ?e k j \<noteq> 0) \<longrightarrow>
        (\<forall>i. k \<le> i \<and> i < k' \<longrightarrow> str_end (lines e' i) (nat (line_lengths e' i))) \<and> (\<forall>j < p'. lines e' k' j \<noteq> 0)"
      using Cons.IH [OF ok lim] by (elim exE conjE) (rule that)
    have ch: "arrays_changed e e'" by (rule arrays_changed_trans [OF arrays_changed_put1(1) ih(7)])
    have nz: "0 \<notin> set cs \<and> (\<forall>j < Suc p. lines ?e k j \<noteq> 0)"
      if "0 \<notin> set (c # cs) \<and> (\<forall>j < p. lines e k j \<noteq> 0)"
      using that by (auto simp: less_Suc_eq)
    have low: "\<forall>i < k. lines e' i = lines e i \<and> line_lengths e' i = line_lengths e i" using ih(8) by simp
    have parse: "parse_file (c # cs) (mem_get (lines e k) 0 p) = parse_file cs (mem_get (lines ?e k) 0 (Suc p))"
      unfolding cur using 3 by simp
    have clean: "0 \<notin> set (c # cs) \<and> (\<forall>j < p. lines e k j \<noteq> 0) \<longrightarrow>
        (\<forall>i. k \<le> i \<and> i < k' \<longrightarrow> str_end (lines e' i) (nat (line_lengths e' i))) \<and> (\<forall>j < p'. lines e' k' j \<noteq> 0)"
      using ih(10) nz by blast
    show ?thesis
      unfolding step parse by (intro exI conjI) (rule ih(1-6) ch low ih(9) clean)+
  next
    case 4
    have step: "load_loop (c # cs) (int k) (int p) e = load_loop cs (int k) (int p) e"
      using 4 by auto
    have parse: "parse_file (c # cs) (mem_get (lines e k) 0 p) = parse_file cs (mem_get (lines e k) 0 p)"
      using 4 by auto
    show ?thesis
      unfolding step parse using Cons.IH [OF Cons.prems]
      by (elim exE conjE) (intro exI conjI, assumption+, simp)
  qed
qed

text \<open>The whole file, from cleared arrays or any other ones.\<close>

lemma load_text_spec:
  assumes "arrays_ok e"
  obtains e' where "load_text bytes e = Some e'" and "arrays_ok e'"
    and "same_session e e'" "cursor_x e' = cursor_x e" "cursor_y e' = cursor_y e" "viewport_y e' = viewport_y e"
      "dirty e' = dirty e"
    and "text_of e' = take 1000 (parse_file bytes [])"
    and "total_lines e' = int (length (take 1000 (parse_file bytes [])))"
    and "0 \<notin> set bytes \<longrightarrow> clean e'"
proof -
  obtain k p e1 where l: "load_loop bytes 0 0 e = Some (int k, int p, e1)" "k \<le> 1000" "p \<le> 199" "k = 1000 \<longrightarrow> p = 0"
    "arrays_ok e1" "arrays_changed e e1"
    "map (row_text e1) [0..<k] @ (if 0 < p then [mem_get (lines e1 k) 0 p] else []) = take 1000 (parse_file bytes [])"
    "0 \<notin> set bytes \<longrightarrow> (\<forall>i < k. str_end (lines e1 i) (nat (line_lengths e1 i))) \<and> (\<forall>j < p. lines e1 k j \<noteq> 0)"
    using load_loop_spec [OF assms, of 0 0 bytes] by auto
  note ch = arrays_changed_fields [OF l(6)] l(6) [unfolded arrays_changed_def]
  show thesis
  proof (cases "p = 0")
    case True
    let ?e = "e1\<lparr>total_lines := int k\<rparr>"
    have t: "text_of ?e = take 1000 (parse_file bytes [])"
      using l(7) True by (simp add: text_of_def row_text_def [abs_def])
    show thesis
    proof (rule that [of ?e])
      show "load_text bytes e = Some ?e" using l(1) True by (simp add: load_text_def)
      show "total_lines ?e = int (length (take 1000 (parse_file bytes [])))"
        using arg_cong [OF t, of length] by simp
    qed (use l(5,8) ch t True in \<open>auto simp: arrays_ok_def rows_closed_def same_session_def clean_def\<close>)
  next
    case False
    then have k: "k < 1000" using l(2,4) by linarith
    let ?edited = "edit_row k ((lines e1 k)(p := 0)) p e1"
    let ?e = "?edited\<lparr>total_lines := int (Suc k)\<rparr>"
    have z: "lines e1 k 199 = 0" using l(5) k by (auto simp: arrays_ok_def rows_closed_def)
    have ok: "arrays_ok ?edited" using z l(5,3) by (intro arrays_ok_edit) auto
    have "mem_get ((lines e1 k)(p := 0)) 0 p = mem_get (lines e1 k) 0 p" by (rule mem_get_cong) simp
    then have "row_text ?edited k = mem_get (lines e1 k) 0 p" by (simp add: row_text_def)
    moreover have "map (row_text ?edited) [0..<k] = map (row_text e1) [0..<k]"
      by (rule map_cong [OF refl]) (simp add: row_text_def)
    moreover have "text_of ?e = map (row_text ?edited) ([0..<k] @ [k])"
      by (simp add: text_of_def row_text_def [abs_def] nat_plus_1)
    ultimately have "text_of ?e = map (row_text e1) [0..<k] @ [mem_get (lines e1 k) 0 p]"
      by (simp only: map_append list.map)
    then have t: "text_of ?e = take 1000 (parse_file bytes [])" using l(7) False by simp
    have res: "load_text bytes e = Some ?e"
      using l(1,3) False k by (simp add: load_text_def row_simps edit_row_def add.commute)
    have cl: "0 \<notin> set bytes \<longrightarrow> clean ?e"
      using l(8) False by (auto simp: clean_def str_end_def less_Suc_eq nat_plus_1)
    show thesis
    proof (rule that [OF res _ _ _ _ _ _ t _ cl])
      show "arrays_ok ?e" using ok by (simp add: arrays_ok_def rows_closed_def)
      show "total_lines ?e = int (length (take 1000 (parse_file bytes [])))"
        using arg_cong [OF t, of length] by simp
    qed (use ch in \<open>auto simp: same_session_def edit_row_def put_row_def put_len_def\<close>)
  qed
qed

lemma clear_lines_spec:
  assumes "arrays_ok e"
  shows "\<exists>e'. clear_lines e = Some e' \<and> arrays_ok e' \<and> arrays_changed e e'"
proof -
  have "\<exists>e'. for_each is (\<lambda>i a. do { a1 \<leftarrow> set_len i 0 a; set_char i 0 0 a1 }) e = Some e' \<and> arrays_ok e' \<and> arrays_changed e e'"
    if "\<forall>i \<in> set is. 0 \<le> i \<and> i < 1000" for "is"
    using that assms
  proof (induction "is" arbitrary: e)
    case (Cons i "is")
    let ?e = "edit_row (nat i) ((lines e (nat i))(0 := 0)) 0 e"
    have "arrays_ok ?e" using Cons.prems by (intro arrays_ok_edit) (auto simp: arrays_ok_def rows_closed_def)
    from Cons.IH [OF _ this] Cons.prems(1) obtain e' where
      "for_each is (\<lambda>i a. do { a1 \<leftarrow> set_len i 0 a; set_char i 0 0 a1 }) ?e = Some e'" "arrays_ok e'" "arrays_changed ?e e'"
      by auto
    moreover have "for_each (i # is) (\<lambda>i a. do { a1 \<leftarrow> set_len i 0 a; set_char i 0 0 a1 }) e =
        for_each is (\<lambda>i a. do { a1 \<leftarrow> set_len i 0 a; set_char i 0 0 a1 }) ?e"
      using Cons.prems(1) by (simp add: row_simps edit_row_def put_swap)
    ultimately show ?case using arrays_changed_trans [OF arrays_changed_edit] by auto
  qed simp
  then show ?thesis by (simp add: clear_lines_def)
qed

section \<open>Saving\<close>

lemma unat_size: "n \<le> 16384 \<Longrightarrow> unat (of_nat n :: u32) = n"
  by (simp add: unat_of_nat)

lemma size_less: "n \<le> 16384 \<Longrightarrow> m \<le> 16384 \<Longrightarrow> (of_nat n :: u32) < of_nat m \<longleftrightarrow> n < m"
  by (simp add: word_less_nat_alt unat_size)

lemma buffer_limits: "FS_IO_BUFFER_SIZE - 1 = of_nat 16383" "FS_IO_BUFFER_SIZE - 2 = of_nat 16382"
  by (simp_all add: FS_IO_BUFFER_SIZE_def)

lemma save_chars_all:
  assumes "i < 1000" and "a \<le> l" and "l \<le> 199" and "n + (l - a) \<le> 16382"
  shows "save_chars [int a..int l - 1] (int i) e (buf, of_nat n) =
    Some (mem_put buf n (mem_get (lines e i) a (l - a)), of_nat (n + (l - a)))"
  using assms
proof (induction "l - a" arbitrary: a n buf)
  case 0
  then show ?case by simp
next
  case (Suc k)
  then have al: "a < l" and k: "k = l - Suc a" by simp_all
  have up: "[int a..int l - 1] = int a # [int (Suc a)..int l - 1]" using al by (simp add: upto_rec1 add.commute)
  have n: "n < 16382" "n \<le> 16384" "Suc n + (l - Suc a) \<le> 16382" using Suc.prems al by simp_all
  have "save_chars [int a..int l - 1] (int i) e (buf, of_nat n) =
      save_chars [int (Suc a)..int l - 1] (int i) e (buf(n := lines e i a), of_nat (Suc n))"
    unfolding up using n al Suc.prems by (simp add: row_simps buffer_limits unat_size size_less add.commute del: of_nat_numeral)
  also have "\<dots> = Some (mem_put (buf(n := lines e i a)) (Suc n) (mem_get (lines e i) (Suc a) (l - Suc a)),
      of_nat (Suc n + (l - Suc a)))"
    using Suc.prems n al by (intro Suc.hyps(1) [OF k]) simp_all
  also have "mem_put (buf(n := lines e i a)) (Suc n) (mem_get (lines e i) (Suc a) (l - Suc a)) =
      mem_put buf n (mem_get (lines e i) a (l - a))"
    using al mem_get_Suc [of "lines e i" a "l - Suc a"] by (simp add: mem_put_Cons Suc_diff_Suc)
  finally show ?case using al by (simp add: Suc_diff_Suc)
qed

lemma save_lines_all:
  assumes ok: "arrays_ok e" and t: "total_lines e \<le> 1000" and a: "a \<le> nat (total_lines e)"
    and n: "n + length (file_bytes (drop a (text_of e))) \<le> 16383"
  shows "save_lines [int a..total_lines e - 1] e (buf, of_nat n) =
    Some (mem_put buf n (file_bytes (drop a (text_of e))), of_nat (n + length (file_bytes (drop a (text_of e)))))"
  using a n
proof (induction "nat (total_lines e) - a" arbitrary: a n buf)
  case 0
  then have "total_lines e \<le> int a" by simp
  then show ?case by simp
next
  case (Suc k)
  then have al: "a < nat (total_lines e)" and k: "k = nat (total_lines e) - Suc a" by simp_all
  then have a1000: "a < 1000" using t by simp
  then obtain l where l: "line_lengths e a = int l" "l \<le> 199"
    using ok by (metis arrays_ok_def nonneg_int_cases of_nat_le_iff of_nat_numeral)
  have up: "[int a..total_lines e - 1] = int a # [int (Suc a)..total_lines e - 1]"
    using al by (simp add: upto_rec1 add.commute)
  let ?row = "mem_get (lines e a) 0 l"
  have row: "drop a (text_of e) = ?row # drop (Suc a) (text_of e)"
    using al l(1) by (simp add: Cons_nth_drop_Suc [symmetric] row_text_def)
  let ?rest = "file_bytes (drop (Suc a) (text_of e))"
  have n: "n + l + 1 + length ?rest \<le> 16383" using Suc.prems(2) by (simp add: row)
  have c: "save_chars [0..int l - 1] (int a) e (buf, of_nat n) = Some (mem_put buf n ?row, of_nat (n + l))"
    using save_chars_all [OF a1000, of 0 l n e buf] l(2) n by simp
  have "save_lines [int a..total_lines e - 1] e (buf, of_nat n) =
      save_lines [int (Suc a)..total_lines e - 1] e ((mem_put buf n ?row)(n + l := 0x0A), of_nat (Suc (n + l)))"
    unfolding up using n c a1000 l(1)
    by (simp add: row_simps buffer_limits unat_size size_less del: of_nat_numeral of_nat_add) (simp add: add.commute)
  also have "\<dots> = Some (mem_put ((mem_put buf n ?row)(n + l := 0x0A)) (Suc (n + l)) ?rest,
      of_nat (Suc (n + l) + length ?rest))"
    using al n by (intro Suc.hyps(1) [OF k]) simp_all
  also have "mem_put ((mem_put buf n ?row)(n + l := 0x0A)) (Suc (n + l)) ?rest = mem_put buf n (?row @ 0x0A # ?rest)"
    by (simp add: mem_put_append mem_put_Cons)
  also have "Suc (n + l) + length ?rest = n + length (?row @ 0x0A # ?rest)" by simp
  finally show ?case by (simp only: row file_bytes_simps)
qed

text \<open>Whatever the size of the text, saving stays inside the buffer.\<close>

lemma save_chars_bound:
  assumes "i < 1000" and "n \<le> 16383" and "\<forall>j \<in> set js. 0 \<le> j \<and> j < 200"
  shows "\<exists>buf' n'. save_chars js (int i) e (buf, of_nat n) = Some (buf', of_nat n') \<and> n' \<le> 16383
    \<and> (\<forall>k \<ge> 16383. buf' k = buf k)"
  using assms(2,3)
proof (induction js arbitrary: n buf)
  case (Cons j js)
  show ?case
  proof (cases "n < 16382")
    case True
    then have "save_chars (j # js) (int i) e (buf, of_nat n) =
        save_chars js (int i) e (buf(n := lines e i (nat j)), of_nat (Suc n))"
      using Cons.prems assms(1) by (simp add: row_simps buffer_limits unat_size size_less add.commute del: of_nat_numeral)
    then show ?thesis
      using Cons.IH [of "Suc n" "buf(n := lines e i (nat j))"] Cons.prems True by fastforce
  qed (use Cons.prems in \<open>auto simp: buffer_limits size_less simp del: of_nat_numeral\<close>)
qed auto

lemma save_lines_bound:
  assumes "arrays_ok e" and "n \<le> 16383" and "\<forall>i \<in> set is. 0 \<le> i \<and> i < 1000"
  shows "\<exists>buf' n'. save_lines is e (buf, of_nat n) = Some (buf', of_nat n') \<and> n' \<le> 16383
    \<and> (\<forall>k \<ge> 16383. buf' k = buf k)"
  using assms(2,3)
proof (induction "is" arbitrary: n buf)
  case (Cons i "is")
  show ?case
  proof (cases "n < 16383")
    case True
    have i: "0 \<le> i" "i < 1000" "nat i < 1000" using Cons.prems by auto
    then have len: "line_lengths e (nat i) \<le> 199" using assms(1) by (auto simp: arrays_ok_def)
    obtain buf1 n1 where c: "save_chars [0..line_lengths e (nat i) - 1] (int (nat i)) e (buf, of_nat n) = Some (buf1, of_nat n1)"
      "n1 \<le> 16383" "\<forall>k \<ge> 16383. buf1 k = buf k"
      using save_chars_bound [OF i(3) Cons.prems(1), of "[0..line_lengths e (nat i) - 1]" e buf] len by auto
    let ?s = "if n1 < 16383 then (buf1(n1 := 0x0A), of_nat (Suc n1)) else (buf1, of_nat n1)"
    have step: "save_lines (i # is) e (buf, of_nat n) = save_lines is e ?s"
      using c True i by (simp add: row_simps buffer_limits unat_size size_less add.commute del: of_nat_numeral)
    show ?thesis
    proof (cases "n1 < 16383")
      case True
      then show ?thesis
        unfolding step using Cons.IH [of "Suc n1" "buf1(n1 := 0x0A)"] Cons.prems c(3) by fastforce
    next
      case False
      then show ?thesis unfolding step using Cons.IH [of n1 buf1] Cons.prems c(2,3) by fastforce
    qed
  qed (use Cons.prems in \<open>auto simp: buffer_limits size_less simp del: of_nat_numeral\<close>)
qed auto

section \<open>Texts of plain lines\<close>

definition plain_doc :: "doc \<Rightarrow> bool" where
  "plain_doc d = (case d of (T, x, y) \<Rightarrow> y < length T \<and> x \<le> length (T ! y) \<and> (\<forall>l \<in> set T. plain_line l))"

lemma plain_pieces:
  "plain_line l \<Longrightarrow> plain_line (take n l)" "plain_line l \<Longrightarrow> plain_line (drop n l)"
  "plain_line l \<Longrightarrow> plain_line m \<Longrightarrow> length l + length m \<le> 199 \<Longrightarrow> plain_line (l @ m)"
  by (auto simp: plain_line_def dest: in_set_takeD in_set_dropD)

lemma plain_nth: "\<forall>l \<in> set T. plain_line l \<Longrightarrow> i < length T \<Longrightarrow> plain_line (T ! i)"
  by simp

lemma plain_set:
  assumes "\<forall>l \<in> set T. plain_line l"
  shows "plain_line m \<Longrightarrow> \<forall>l \<in> set (T[i := m]). plain_line l" "\<forall>l \<in> set (take n T). plain_line l"
    "\<forall>l \<in> set (drop n T). plain_line l"
  using assms set_update_subset_insert [of T i m] set_take_subset [of n T] set_drop_subset [of n T] by auto

lemma plain_insert:
  assumes "plain_doc d" and "c \<notin> {0, 0x0A, 0x0D}"
  shows "plain_doc (t_insert c d)"
proof -
  obtain T x y where d: "d = (T, x, y)" by (cases d)
  have l: "plain_line (T ! y)" and b: "y < length T" "x \<le> length (T ! y)" "\<forall>l \<in> set T. plain_line l"
    using assms(1) by (auto simp: plain_doc_def d)
  have "plain_line (take 199 (take x (T ! y) @ c # drop x (T ! y)))"
    using l assms(2) by (auto simp: plain_line_def dest!: in_set_takeD dest: in_set_dropD)
  then show ?thesis
    using b plain_set(1) [OF b(3)] by (auto simp: plain_doc_def d min_def)
qed

lemma plain_backspace:
  assumes "plain_doc d"
  shows "plain_doc (t_backspace d)"
proof -
  obtain T x y where d: "d = (T, x, y)" by (cases d)
  have b: "y < length T" "x \<le> length (T ! y)" "\<forall>l \<in> set T. plain_line l"
    using assms by (auto simp: plain_doc_def d)
  have l: "plain_line (T ! y)" "plain_line (T ! (y - 1))" using b by auto
  have len: "length (T ! y) \<le> 199" using l(1) by (simp add: plain_line_def)
  consider "0 < x" | "x = 0" "0 < y \<and> length (T ! (y - 1)) + length (T ! y) < 200"
    | "x = 0" "\<not> (0 < y \<and> length (T ! (y - 1)) + length (T ! y) < 200)" by blast
  then show ?thesis
  proof cases
    case 1
    have "plain_line (take (x - 1) (T ! y) @ drop x (T ! y))"
      using l(1) len 1 by (intro plain_pieces) auto
    then show ?thesis using 1 b plain_set(1) [OF b(3)] by (auto simp: plain_doc_def d)
  next
    case 2
    then have "plain_line (T ! (y - 1) @ T ! y)" using l by (intro plain_pieces) auto
    then show ?thesis
      using 2 b plain_set(2,3) [OF b(3)] by (auto simp: plain_doc_def d nth_append min_def)
  next
    case 3
    then show ?thesis using assms by (auto simp: d)
  qed
qed

lemma plain_delete:
  assumes "plain_doc d"
  shows "plain_doc (t_delete d)"
proof -
  obtain T x y where d: "d = (T, x, y)" by (cases d)
  have b: "y < length T" "x \<le> length (T ! y)" "\<forall>l \<in> set T. plain_line l"
    using assms by (auto simp: plain_doc_def d)
  have l: "plain_line (T ! y)" using b by auto
  have len: "length (T ! y) \<le> 199" using l by (simp add: plain_line_def)
  consider "x < length (T ! y)" | "x = length (T ! y)" "Suc y < length T" "length (T ! y) + length (T ! Suc y) < 200"
    | "t_delete d = d"
    using b(2) unfolding d t_delete.simps by (metis le_neq_implies_less less_irrefl)
  then show ?thesis
  proof cases
    case 1
    have "plain_line (take x (T ! y) @ drop (Suc x) (T ! y))"
      using l len 1 by (intro plain_pieces) auto
    then show ?thesis using 1 b plain_set(1) [OF b(3)] by (auto simp: plain_doc_def d)
  next
    case 2
    then have "plain_line (T ! y @ T ! Suc y)" using l b(3) by (intro plain_pieces) auto
    then show ?thesis
      using 2 b plain_set(2,3) [OF b(3)] by (auto simp: plain_doc_def d nth_append min_def)
  next
    case 3
    then show ?thesis using assms by simp
  qed
qed

lemma plain_enter:
  assumes "plain_doc d"
  shows "plain_doc (t_enter d)"
proof -
  obtain T x y where d: "d = (T, x, y)" by (cases d)
  have b: "y < length T" "x \<le> length (T ! y)" "\<forall>l \<in> set T. plain_line l"
    using assms by (auto simp: plain_doc_def d)
  then have "plain_line (take x (T ! y))" "plain_line (drop x (T ! y))" by (auto intro: plain_pieces)
  then show ?thesis
    using b plain_set(2,3) [OF b(3)] by (auto simp: plain_doc_def d nth_append min_def)
qed

lemma plain_goto: "plain_doc d \<Longrightarrow> plain_doc (t_goto x' y' d)"
  by (cases d) (auto simp: plain_doc_def Let_def)

lemma plain_move: "plain_doc d \<Longrightarrow> plain_doc (t_move dx dy d)" "plain_doc d \<Longrightarrow> plain_doc (t_page k d)"
  by (cases d, simp only: t_move_def t_page_def prod.case, intro plain_goto, assumption)+

lemma plain_home_end:
  "plain_doc d \<Longrightarrow> plain_doc (case d of (T, x, y) \<Rightarrow> (T, 0, y))"
  "plain_doc d \<Longrightarrow> plain_doc (case d of (T, x, y) \<Rightarrow> (T, length (T ! y), y))"
  by (auto simp: plain_doc_def split: prod.split)

section \<open>The invariant of an open editor\<close>

definition nano_inv :: "nano \<Rightarrow> bool" where
  "nano_inv e \<longleftrightarrow> ed_ok e \<and> clean e \<and> plain_doc (doc_of e)"

lemma implements_inv:
  assumes "nano_inv e" and "implements e r f" and "plain_doc (f (doc_of e))"
  shows "\<exists>e'. r = Some e' \<and> nano_inv e' \<and> same_session e e' \<and> doc_of e' = f (doc_of e)"
  using assms by (auto simp: nano_inv_def implements_def)

lemma nano_inv_text:
  assumes "nano_inv e"
  shows "\<forall>l \<in> set (text_of e). plain_line l" "0 < length (text_of e)" "length (text_of e) \<le> 1000" "ed_ok e"
  using assms by (auto simp: nano_inv_def plain_doc_def doc_of_def ed_ok_def)

text \<open>Loading a file without NUL bytes and with at least one line establishes it.\<close>

lemma loaded_inv:
  assumes "arrays_ok e" and "cursor_x e = 0" and "cursor_y e = 0" and "viewport_y e = 0"
    and "0 \<notin> set bytes" and "parse_file bytes [] \<noteq> []"
  obtains e' where "load_text bytes e = Some e'" and "nano_inv e'"
    and "doc_of e' = (take 1000 (parse_file bytes []), 0, 0)" and "same_session e e'" and "dirty e' = dirty e"
proof -
  obtain e' where l: "load_text bytes e = Some e'" "arrays_ok e'" "same_session e e'" "cursor_x e' = cursor_x e"
    "cursor_y e' = cursor_y e" "viewport_y e' = viewport_y e" "dirty e' = dirty e"
    "text_of e' = take 1000 (parse_file bytes [])" "total_lines e' = int (length (take 1000 (parse_file bytes [])))"
    "0 \<notin> set bytes \<longrightarrow> clean e'"
    by (rule load_text_spec [OF assms(1), of bytes]) blast
  define n where "n = length (take 1000 (parse_file bytes []))"
  have n: "0 < n" "n \<le> 1000" "total_lines e' = int n" using assms(6) l(9) by (simp_all add: n_def)
  have ok: "ed_ok e'" using l(2,4-6) n assms(2-4) by (simp add: ed_ok_def arrays_ok_def)
  have d: "doc_of e' = (take 1000 (parse_file bytes []), 0, 0)" using l assms(2,3) by (simp add: doc_of_def)
  have "\<forall>l \<in> set (parse_file bytes []). plain_line l"
    using assms(5) by (intro parse_plain_lines) (simp_all add: plain_line_def)
  then have "plain_doc (doc_of e')"
    using n(1) by (auto simp: d n_def plain_doc_def dest: in_set_takeD)
  then show thesis using l ok d assms(5) by (intro that [of e']) (simp_all add: nano_inv_def)
qed

end
