(* ===== verification/Console_Facts.thy ===== *)
theory Console_Facts
  imports Console
begin

text \<open>
  What the console operations do: the bounds of the cursor and of the stores into the
  text buffer, the position the CRT controller is left with, and the cells printed text
  occupies.
\<close>

section \<open>Cells\<close>

lemma put_cell_in: "0 \<le> pos \<Longrightarrow> pos < 2000 \<Longrightarrow>
    put_cell pos c attr m = m(2 * nat pos := c, 2 * nat pos + 1 := attr)"
proof -
  assume "0 \<le> pos" "pos < 2000"
  then have "nat (pos * 2 mod 2 ^ 32) = 2 * nat pos" by (simp add: nat_mult_distrib)
  then show ?thesis by (simp add: put_cell_def Let_def)
qed

text \<open>The character and the attribute of a cell.\<close>

definition cell :: "mem \<Rightarrow> int \<Rightarrow> byte \<times> u8" where
  "cell m k = (m (2 * nat k), m (2 * nat k + 1))"

lemma cell_put_cell:
  "0 \<le> pos \<Longrightarrow> pos < 2000 \<Longrightarrow> 0 \<le> k \<Longrightarrow>
   cell (put_cell pos c attr m) k = (if k = pos then (c, attr) else cell m k)"
  by (auto simp: cell_def put_cell_in)

text \<open>The memory behind the screen.\<close>

definition beyond_kept :: "mem \<Rightarrow> mem \<Rightarrow> bool" where
  "beyond_kept m m' \<longleftrightarrow> (\<forall>i \<ge> 4000. m' i = m i)"

lemma beyond_refl [simp, intro]: "beyond_kept m m"
  by (simp add: beyond_kept_def)

lemma beyond_trans: "beyond_kept m m' \<Longrightarrow> beyond_kept m' m'' \<Longrightarrow> beyond_kept m m''"
  by (simp add: beyond_kept_def)

lemma beyond_put_cell: "0 \<le> pos \<Longrightarrow> pos < 2000 \<Longrightarrow> beyond_kept m (put_cell pos c attr m)"
  by (auto simp: beyond_kept_def put_cell_in)

text \<open>A run of cells filled by one store per cell.\<close>

lemma fold_put_cell:
  assumes "0 \<le> a" and "b \<le> 2000"
  shows "beyond_kept m (fold (\<lambda>i. put_cell i (f i) attr) [a..b - 1] m)
    \<and> (\<forall>k \<ge> 0. cell (fold (\<lambda>i. put_cell i (f i) attr) [a..b - 1] m) k =
          (if a \<le> k \<and> k < b then (f k, attr) else cell m k))"
  using assms
proof (induction "nat (b - a)" arbitrary: a m)
  case 0
  then show ?case by auto
next
  case (Suc n)
  then have ab: "a < b" by simp
  then have up: "[a..b - 1] = a # [a + 1..b - 1]" by (simp add: upto_rec1)
  have a: "0 \<le> a" "a < 2000" using Suc.prems ab by simp_all
  have "n = nat (b - (a + 1))" using Suc.hyps(2) by simp
  from Suc.hyps(1) [OF this, of "put_cell a (f a) attr m"] Suc.prems
  have ih: "beyond_kept (put_cell a (f a) attr m) (fold (\<lambda>i. put_cell i (f i) attr) [a + 1..b - 1] (put_cell a (f a) attr m))"
    "\<forall>k \<ge> 0. cell (fold (\<lambda>i. put_cell i (f i) attr) [a + 1..b - 1] (put_cell a (f a) attr m)) k =
          (if a + 1 \<le> k \<and> k < b then (f k, attr) else cell (put_cell a (f a) attr m) k)"
    by simp_all
  show ?case
    unfolding up fold_simps
  proof (intro conjI allI impI)
    show "beyond_kept m (fold (\<lambda>i. put_cell i (f i) attr) [a + 1..b - 1] (put_cell a (f a) attr m))"
      using beyond_put_cell [OF a] ih(1) by (rule beyond_trans)
    show "cell (fold (\<lambda>i. put_cell i (f i) attr) [a + 1..b - 1] (put_cell a (f a) attr m)) k =
        (if a \<le> k \<and> k < b then (f k, attr) else cell m k)" if "k \<ge> 0" for k
      using ih(2) that a ab by (auto simp: cell_put_cell)
  qed
qed

lemma beyond_blank: "0 \<le> a \<Longrightarrow> b \<le> 2000 \<Longrightarrow> beyond_kept m (blank_cells a b attr m)"
  using fold_put_cell [where f = "\<lambda>_. 0x20"] by (simp add: blank_cells_def)

lemma cell_blank: "0 \<le> a \<Longrightarrow> b \<le> 2000 \<Longrightarrow> 0 \<le> k \<Longrightarrow>
    cell (blank_cells a b attr m) k = (if a \<le> k \<and> k < b then (0x20, attr) else cell m k)"
  using fold_put_cell [where f = "\<lambda>_. 0x20"] by (simp add: blank_cells_def)

section \<open>The hardware cursor\<close>

text \<open>
  The CRT controller: a write to port \<open>0x3D4\<close> selects a register, one to \<open>0x3D5\<close> stores
  into the selected one; registers \<open>0x0E\<close> and \<open>0x0F\<close> are the cursor location.
\<close>

fun crtc_write :: "u16 \<times> u8 \<Rightarrow> u8 \<times> u8 \<times> u8 \<Rightarrow> u8 \<times> u8 \<times> u8" where
  "crtc_write (port, data) (sel, hi, lo) =
     (if port = 0x3D4 then (data, hi, lo)
      else if port = 0x3D5 \<and> sel = 0x0E then (sel, data, lo)
      else if port = 0x3D5 \<and> sel = 0x0F then (sel, hi, data)
      else (sel, hi, lo))"

definition hardware_cursor :: "console \<Rightarrow> u16" where
  "hardware_cursor con = (case fold crtc_write (con_ports con) (0, 0, 0) of (_, hi, lo) \<Rightarrow> le16 lo hi)"

lemma low_byte: "ucast ((w :: u16) AND 0xFF) = (ucast w :: u8)"
proof -
  have m: "(0xFF :: u16) = mask 8" by (simp add: mask_eq_exp_minus_1)
  show ?thesis unfolding m by (rule bit_word_eqI) (auto simp: bit_simps)
qed

lemma hardware_cursor_update [simp]:
  "hardware_cursor (update_hardware_cursor x y con) = of_int (y * 80 + x)"
  by (cases "fold crtc_write (con_ports con) (0, 0, 0)")
    (simp add: hardware_cursor_def update_hardware_cursor_def Let_def con_outb_def low_byte le16_bytes16)

lemma update_hardware_cursor_fields [simp, frame_simps]:
  "con_x (update_hardware_cursor x y con) = con_x con"
  "con_y (update_hardware_cursor x y con) = con_y con"
  "con_theme (update_hardware_cursor x y con) = con_theme con"
  "con_vga (update_hardware_cursor x y con) = con_vga con"
  by (simp_all add: update_hardware_cursor_def Let_def con_outb_def)

definition cursor_shown :: "console \<Rightarrow> bool" where
  "cursor_shown con \<longleftrightarrow> hardware_cursor con = of_int (con_y con * 80 + con_x con)"

section \<open>Invariant\<close>

definition con_ok :: "console \<Rightarrow> bool" where
  "con_ok con \<longleftrightarrow> 0 \<le> con_x con \<and> con_x con < 80 \<and> 0 \<le> con_y con \<and> con_y con < 25
     \<and> 0 \<le> con_theme con \<and> con_theme con < 3"

text \<open>The theme is kept and no store leaves the screen.\<close>

definition con_frame :: "console \<Rightarrow> console \<Rightarrow> bool" where
  "con_frame con con' \<longleftrightarrow>
     (con_ok con \<longrightarrow> con_ok con' \<and> con_theme con' = con_theme con \<and> beyond_kept (con_vga con) (con_vga con'))"

lemma con_frame_refl [simp, intro]: "con_frame con con"
  by (simp add: con_frame_def)

lemma con_frame_trans [trans]: "con_frame a b \<Longrightarrow> con_frame b c \<Longrightarrow> con_frame a c"
  by (auto simp: con_frame_def intro: beyond_trans)

lemma con_frame_fold:
  assumes "\<And>x a. con_frame a (f x a)"
  shows "con_frame a (fold f xs a)"
  by (induction xs arbitrary: a) (auto intro: con_frame_trans assms)

lemma vga_clear_fields [simp]:
  "con_x (vga_clear con) = 0" "con_y (vga_clear con) = 0" "con_theme (vga_clear con) = con_theme con"
  "con_vga (vga_clear con) = blank_cells 0 2000 (get_current_text_attr con) (con_vga con)"
  by (simp_all add: vga_clear_def Let_def)

lemma vga_clear_frame: "con_frame con (vga_clear con)"
  by (simp add: con_frame_def con_ok_def beyond_blank)

lemma vga_clear_shown: "cursor_shown (vga_clear con)"
  by (simp add: cursor_shown_def vga_clear_def Let_def)

lemma next_line_frame:
  assumes "0 \<le> con_y con" and "con_y con < 25" and "0 \<le> con_theme con" and "con_theme con < 3"
  shows "con_ok (next_line con) \<and> con_theme (next_line con) = con_theme con
    \<and> beyond_kept (con_vga con) (con_vga (next_line con)) \<and> con_x (next_line con) = 0"
  using assms by (simp add: next_line_def Let_def con_ok_def beyond_blank)

lemma vga_write_char_frame: "con_frame con (vga_write_char c attr con)"
proof -
  have "con_ok (vga_write_char c attr con) \<and> con_theme (vga_write_char c attr con) = con_theme con
      \<and> beyond_kept (con_vga con) (con_vga (vga_write_char c attr con))" if ok: "con_ok con"
  proof -
    have pos: "0 \<le> con_y con * 80 + con_x con" "con_y con * 80 + con_x con < 2000"
      using ok by (auto simp: con_ok_def)
    let ?m = "put_cell (con_y con * 80 + con_x con) c attr (con_vga con)"
    note nl = next_line_frame [of con] next_line_frame [of "con\<lparr>con_x := con_x con + 4\<rparr>"]
      next_line_frame [of "con\<lparr>con_vga := ?m, con_x := con_x con + 1\<rparr>"]
    show ?thesis
      using ok nl beyond_put_cell [OF pos, of "con_vga con" c attr]
      by (auto simp: vga_write_char_def Let_def con_ok_def intro: beyond_trans)
  qed
  then show ?thesis by (simp add: con_frame_def)
qed

lemma vga_write_char_shown: "cursor_shown (vga_write_char c attr con)"
  by (simp add: cursor_shown_def vga_write_char_def Let_def)

lemma console_print_frame: "con_frame con (console_print str con)"
  by (auto simp: console_print_def intro: con_frame_fold vga_write_char_frame split: option.splits)

lemma console_putchar_frame: "con_frame con (console_putchar c con)"
  by (simp add: console_putchar_def vga_write_char_frame)

lemma fold_shown: "(\<And>x a. cursor_shown (f x a)) \<Longrightarrow> cursor_shown a \<Longrightarrow> cursor_shown (fold f xs a)"
  by (induction xs arbitrary: a) auto

lemma console_print_shown: "cursor_shown con \<Longrightarrow> cursor_shown (console_print str con)"
  by (auto simp: console_print_def intro: fold_shown vga_write_char_shown split: option.splits)

section \<open>Numbers\<close>

lemma print_unsigned_chars: "print_unsigned v con = fold console_putchar (unsigned_chars v) con"
  by (simp add: print_unsigned_def unsigned_chars_def)

lemma print_decimal_chars: "print_decimal v con = fold console_putchar (decimal_chars v) con"
  by (simp add: print_decimal_def decimal_chars_def print_unsigned_chars)

lemma print_unsigned_frame: "con_frame con (print_unsigned v con)"
  unfolding print_unsigned_chars by (rule con_frame_fold) (rule console_putchar_frame)

lemma print_decimal_frame: "con_frame con (print_decimal v con)"
  unfolding print_decimal_chars by (rule con_frame_fold) (rule console_putchar_frame)

lemma vga_write_char_theme [simp]: "con_theme (vga_write_char c attr con) = con_theme con"
  by (simp add: vga_write_char_def next_line_def Let_def)

lemma attr_vga_write_char [simp]:
  "get_current_text_attr (vga_write_char c attr con) = get_current_text_attr con"
  by (simp add: get_current_text_attr_def current_theme_def)

text \<open>Printing a string is printing its characters one by one.\<close>

lemma console_print_putchar: "console_print (Some s) con = fold console_putchar (cstr s) con"
proof -
  have "fold (\<lambda>c. vga_write_char c (get_current_text_attr con)) t con = fold console_putchar t con" for t
  proof (induction t arbitrary: con)
    case (Cons c t)
    from Cons.IH [of "vga_write_char c (get_current_text_attr con) con"]
    show ?case by (simp add: console_putchar_def)
  qed simp
  then show ?thesis by (simp add: console_print_def)
qed

section \<open>Printed text\<close>

definition con_pos :: "console \<Rightarrow> int" where
  "con_pos con = con_y con * 80 + con_x con"

definition printable :: "byte \<Rightarrow> bool" where
  "printable c \<longleftrightarrow> c \<notin> {0, 0x09, 0x0A, 0x0D}"

lemma write_printable:
  assumes "con_ok con" and "printable c" and "con_pos con + 1 < 2000"
  shows "con_pos (vga_write_char c attr con) = con_pos con + 1"
    and "con_vga (vga_write_char c attr con) = put_cell (con_pos con) c attr (con_vga con)"
  using assms by (auto simp: vga_write_char_def next_line_def Let_def con_ok_def con_pos_def printable_def)

lemma print_text:
  assumes "con_ok con" and "\<forall>c \<in> set s. printable c" and "con_pos con + int (length s) < 2000"
    and "k \<ge> 0"
  shows "con_pos (console_print (Some s) con) = con_pos con + int (length s)
    \<and> cell (con_vga (console_print (Some s) con)) k =
        (if con_pos con \<le> k \<and> k < con_pos con + int (length s)
         then (s ! nat (k - con_pos con), get_current_text_attr con) else cell (con_vga con) k)"
proof -
  have "con_pos (fold (\<lambda>c. vga_write_char c attr) s con) = con_pos con + int (length s)
    \<and> cell (con_vga (fold (\<lambda>c. vga_write_char c attr) s con)) k =
        (if con_pos con \<le> k \<and> k < con_pos con + int (length s)
         then (s ! nat (k - con_pos con), attr) else cell (con_vga con) k)" for attr
    using assms
  proof (induction s arbitrary: con)
    case (Cons c s)
    let ?c = "vga_write_char c attr con"
    have w: "con_pos ?c = con_pos con + 1" "con_vga ?c = put_cell (con_pos con) c attr (con_vga con)"
      using Cons.prems by (simp_all add: write_printable)
    have ok: "con_ok ?c" using Cons.prems(1) vga_write_char_frame [of con] by (simp add: con_frame_def)
    have pos: "0 \<le> con_pos con" "con_pos con < 2000"
      using Cons.prems(1) by (auto simp: con_ok_def con_pos_def)
    have "nat (k - con_pos con) = Suc (nat (k - (con_pos con + 1)))" if "con_pos con < k"
      using that by simp
    then show ?case
      using Cons.IH [OF ok] Cons.prems pos by (auto simp: w cell_put_cell)
  qed auto
  moreover have "cstr s = s" using assms(2) by (intro cstr_idem) (auto simp: printable_def)
  ultimately show ?thesis by (simp add: console_print_def)
qed

section \<open>Rows\<close>

lemma print_row_cells:
  assumes "0 \<le> y" and "y < 25" and "0 \<le> x"
  shows "beyond_kept m (print_row y x attr s m) \<and>
    (\<forall>k \<ge> 0. cell (print_row y x attr s m) k =
       (if y * 80 + x \<le> k \<and> k < y * 80 + min 80 (x + int (length (cstr s)))
        then (s ! nat (k - (y * 80 + x)), attr) else cell m k))"
  using assms(3)
proof (induction s arbitrary: x m)
  case (Cons c s)
  show ?case
  proof (cases "c \<noteq> 0 \<and> x < 80")
    case True
    let ?m = "put_cell (y * 80 + x) c attr m"
    have pos: "0 \<le> y * 80 + x" "y * 80 + x < 2000" using True Cons.prems assms by simp_all
    have ih: "beyond_kept ?m (print_row y (x + 1) attr s ?m)"
      "\<And>k. k \<ge> 0 \<Longrightarrow> cell (print_row y (x + 1) attr s ?m) k =
       (if y * 80 + (x + 1) \<le> k \<and> k < y * 80 + min 80 ((x + 1) + int (length (cstr s)))
        then (s ! nat (k - (y * 80 + (x + 1))), attr) else cell ?m k)"
      using Cons.IH [of "x + 1" ?m] Cons.prems by auto
    have "nat (k - (y * 80 + x)) = Suc (nat (k - (y * 80 + (x + 1))))" if "y * 80 + x < k" for k
      using that by simp
    then show ?thesis
      using True ih pos beyond_trans [OF beyond_put_cell [OF pos] ih(1)] by (auto simp: cell_put_cell)
  qed auto
qed auto

end
