(* ===== verification/Nano_Screen_Facts.thy ===== *)
theory Nano_Screen_Facts
  imports Nano_Session Nano_File Console_Facts
begin

text \<open>
  Rendering: it always succeeds on a sound editor, writes only the 4000 bytes of the
  screen, and the 23 rows of the viewport show the text.
\<close>

section \<open>The text rows\<close>

lemma render_cols:
  assumes "i < 1000" and "n \<le> 80" and "n \<le> 200" and "0 \<le> p" and "p + int n \<le> 2000"
  shows "\<exists>m'. for_each [0..int n - 1]
      (\<lambda>col m1. do { b \<leftarrow> get_char (int i) col e; Some (put_cell (p + col) b attr m1) }) m = Some m'
    \<and> beyond_kept m m' \<and> (\<forall>k \<ge> 0. cell m' k =
        (if p \<le> k \<and> k < p + int n then (lines e i (nat (k - p)), attr) else cell m k))"
  using assms(2,3,5)
proof (induction n)
  case 0
  then show ?case by auto
next
  case (Suc n)
  let ?f = "\<lambda>col m1. do { b \<leftarrow> get_char (int i) col e; Some (put_cell (p + col) b attr m1) }"
  obtain m1 where m1: "for_each [0..int n - 1] ?f m = Some m1" "beyond_kept m m1"
    "\<forall>k \<ge> 0. cell m1 k = (if p \<le> k \<and> k < p + int n then (lines e i (nat (k - p)), attr) else cell m k)"
    using Suc by auto
  have up: "[0..int (Suc n) - 1] = [0..int n - 1] @ [int n]" by (simp add: upto_rec2)
  have pos: "0 \<le> p + int n" "p + int n < 2000" using assms(4) Suc.prems by simp_all
  have "for_each [0..int (Suc n) - 1] ?f m = Some (put_cell (p + int n) (lines e i n) attr m1)"
    unfolding up using m1(1) assms(1) Suc.prems by (simp add: for_each_append row_simps)
  moreover have "cell (put_cell (p + int n) (lines e i n) attr m1) k =
      (if p \<le> k \<and> k < p + int (Suc n) then (lines e i (nat (k - p)), attr) else cell m k)" if "k \<ge> 0" for k
    using m1(3) that pos assms(4) by (cases "k = p + int n") (auto simp: cell_put_cell)
  ultimately show ?case using beyond_trans [OF m1(2) beyond_put_cell [OF pos]] by auto
qed

text \<open>What the screen shows at a column of the row of line \<open>line\<close>.\<close>

definition shown :: "nano \<Rightarrow> int \<Rightarrow> int \<Rightarrow> byte" where
  "shown e line col =
     (if line < total_lines e \<and> col < line_lengths e (nat line) then lines e (nat line) (nat col) else 0x20)"

lemma render_row_cells:
  assumes ok: "ed_ok e" and row: "0 \<le> row" "row < 23"
    and blank: "\<forall>k. row * 80 \<le> k \<and> k < row * 80 + 80 \<longrightarrow> cell m k = (0x20, attr)"
  shows "\<exists>m'. render_row row attr e m = Some m' \<and> beyond_kept m m' \<and> (\<forall>k \<ge> 0. cell m' k =
    (if row * 80 \<le> k \<and> k < row * 80 + 80 then (shown e (viewport_y e + row) (k - row * 80), attr) else cell m k))"
proof -
  let ?line = "viewport_y e + row"
  have v: "0 \<le> ?line" using ok row(1) by (simp add: ed_ok_def)
  show ?thesis
  proof (cases "?line < total_lines e")
    case False
    then have "render_row row attr e m = Some m" by (simp add: render_row_def Let_def)
    then show ?thesis using False blank by (auto simp: shown_def)
  next
    case True
    then have l: "nat ?line < 1000" "?line < 1000" using ok v by (auto simp: ed_ok_def)
    define len where "len = line_lengths e (nat ?line)"
    have len: "0 \<le> len" "len \<le> 199" using ok l by (auto simp: ed_ok_def len_def)
    define n where "n = nat (if len < 80 then len else 80)"
    have n: "int n = (if len < 80 then len else 80)" "n \<le> 80" "n \<le> 200" using len by (auto simp: n_def)
    have p: "0 \<le> row * 80" "row * 80 + int n \<le> 2000" using row n(2) by auto
    obtain m' where m': "for_each [0..int n - 1]
        (\<lambda>col m1. do { b \<leftarrow> get_char (int (nat ?line)) col e; Some (put_cell (row * 80 + col) b attr m1) }) m = Some m'"
      "beyond_kept m m'" "\<forall>k \<ge> 0. cell m' k =
        (if row * 80 \<le> k \<and> k < row * 80 + int n then (lines e (nat ?line) (nat (k - row * 80)), attr) else cell m k)"
      using render_cols [OF l(1) n(2,3) p, of e attr m] by blast
    have "get_len ?line e = Some len" using v l by (simp add: row_simps len_def)
    then have "render_row row attr e m = Some m'"
      using True v m'(1) unfolding n(1) by (cases "len < 80") (simp_all add: render_row_def Let_def)
    moreover have "cell m' k = (if row * 80 \<le> k \<and> k < row * 80 + 80
        then (shown e ?line (k - row * 80), attr) else cell m k)" if "k \<ge> 0" for k
      using m'(3) that True blank n(1) len
      by (cases "row * 80 \<le> k \<and> k < row * 80 + int n") (auto simp: shown_def len_def [symmetric] split: if_splits)
    ultimately show ?thesis using m'(2) by blast
  qed
qed

lemma render_rows_cells:
  assumes ok: "ed_ok e" and blank: "\<forall>k. 0 \<le> k \<and> k < 2000 \<longrightarrow> cell m k = (0x20, attr)" and r: "r \<le> 23"
  shows "\<exists>m'. for_each [0..int r - 1] (\<lambda>row. render_row row attr e) m = Some m' \<and> beyond_kept m m'
    \<and> (\<forall>row col. 0 \<le> row \<and> row < 25 \<and> 0 \<le> col \<and> col < 80 \<longrightarrow> cell m' (row * 80 + col) =
         (if row < int r then (shown e (viewport_y e + row) col, attr) else (0x20, attr)))"
  using r
proof (induction r)
  case 0
  then show ?case using blank by auto
next
  case (Suc r)
  obtain m1 where m1: "for_each [0..int r - 1] (\<lambda>row. render_row row attr e) m = Some m1" "beyond_kept m m1"
    "\<forall>row col. 0 \<le> row \<and> row < 25 \<and> 0 \<le> col \<and> col < 80 \<longrightarrow> cell m1 (row * 80 + col) =
         (if row < int r then (shown e (viewport_y e + row) col, attr) else (0x20, attr))"
    using Suc by auto
  have row: "0 \<le> int r" "int r < 23" using Suc.prems by simp_all
  have bl: "\<forall>k. int r * 80 \<le> k \<and> k < int r * 80 + 80 \<longrightarrow> cell m1 k = (0x20, attr)"
  proof (intro allI impI)
    fix k assume k: "int r * 80 \<le> k \<and> k < int r * 80 + 80"
    then show "cell m1 k = (0x20, attr)" using m1(3) [rule_format, of "int r" "k - int r * 80"] row by simp
  qed
  obtain m2 where m2: "render_row (int r) attr e m1 = Some m2" "beyond_kept m1 m2"
    "\<forall>k \<ge> 0. cell m2 k = (if int r * 80 \<le> k \<and> k < int r * 80 + 80
        then (shown e (viewport_y e + int r) (k - int r * 80), attr) else cell m1 k)"
    using render_row_cells [OF ok row bl] by blast
  have up: "[0..int (Suc r) - 1] = [0..int r - 1] @ [int r]" by (simp add: upto_rec2)
  have "for_each [0..int (Suc r) - 1] (\<lambda>row. render_row row attr e) m = Some m2"
    unfolding up using m1(1) m2(1) by (simp add: for_each_append)
  moreover have "cell m2 (row * 80 + col) =
      (if row < int (Suc r) then (shown e (viewport_y e + row) col, attr) else (0x20, attr))"
    if "0 \<le> row \<and> row < 25 \<and> 0 \<le> col \<and> col < 80" for row col
  proof -
    consider "row = int r" | "row < int r" | "int r < row" by linarith
    then show ?thesis
    proof cases
      case 1
      then show ?thesis using m2(3) that by simp
    next
      case 2
      then have "row * 80 + 80 \<le> int r * 80" by simp
      then show ?thesis using m2(3) m1(3) that 2 by simp
    next
      case 3
      then have "int r * 80 + 80 \<le> row * 80" by simp
      then show ?thesis using m2(3) m1(3) that 3 by simp
    qed
  qed
  ultimately show ?case using beyond_trans [OF m1(2) m2(2)] by blast
qed

section \<open>The status rows\<close>

text \<open>Only rows 23 and 24 change.\<close>

definition low_rows_only :: "console \<Rightarrow> console \<Rightarrow> bool" where
  "low_rows_only con con' \<longleftrightarrow> beyond_kept (con_vga con) (con_vga con') \<and> con_x con' = con_x con \<and> con_y con' = con_y con
     \<and> con_theme con' = con_theme con \<and> (\<forall>k. 0 \<le> k \<and> k < 23 * 80 \<longrightarrow> cell (con_vga con') k = cell (con_vga con) k)"

lemma low_rows_refl [simp]: "low_rows_only con con"
  by (simp add: low_rows_only_def)

lemma low_rows_trans: "low_rows_only a b \<Longrightarrow> low_rows_only b c \<Longrightarrow> low_rows_only a c"
  by (auto simp: low_rows_only_def intro: beyond_trans)

lemma low_rows_print:
  assumes "y = 23 \<or> y = 24" and "0 \<le> x"
  shows "low_rows_only con (console_print_to_pos y x str con)"
proof -
  have "0 \<le> y" "y < 25" using assms(1) by auto
  note p = print_row_cells [OF this assms(2)]
  have "y * 80 + x \<ge> 23 * 80" using assms by auto
  then show ?thesis
    using p assms(1) by (auto simp: low_rows_only_def console_print_to_pos_def split: option.split)
qed

lemma low_rows_parts: "0 \<le> x \<Longrightarrow> low_rows_only con (print_parts 23 x ps con)"
proof (induction ps arbitrary: x con)
  case (Cons p ps)
  have "low_rows_only con (console_print_to_pos 23 x (Some p) con)" using Cons.prems by (simp add: low_rows_print)
  moreover have "low_rows_only (console_print_to_pos 23 x (Some p) con)
      (print_parts 23 (x + int (length p)) ps (console_print_to_pos 23 x (Some p) con))"
    using Cons by simp
  ultimately show ?case unfolding print_parts.simps by (rule low_rows_trans)
qed simp

lemma low_rows_blank: "23 * 80 \<le> a \<Longrightarrow> b \<le> 2000 \<Longrightarrow> low_rows_only con (con\<lparr>con_vga := blank_cells a b attr (con_vga con)\<rparr>)"
  by (simp add: low_rows_only_def beyond_blank cell_blank)

lemma low_rows_status: "low_rows_only con (nano_render_status e con)"
proof -
  let ?c = "con\<lparr>con_vga := blank_cells 1840 1920 (get_current_status_attr con) (con_vga con)\<rparr>"
  have "low_rows_only con ?c" by (rule low_rows_blank) simp_all
  moreover have "low_rows_only ?c (console_print_to_pos 23 0 (Some (filename e)) ?c)" by (rule low_rows_print) simp_all
  ultimately have "low_rows_only con (console_print_to_pos 23 0 (Some (filename e)) ?c)" by (rule low_rows_trans)
  then have "low_rows_only con (print_parts 23 x ps (console_print_to_pos 23 0 (Some (filename e)) ?c))"
    if "0 \<le> x" for x ps
    using low_rows_parts [OF that] by (rule low_rows_trans)
  then show ?thesis by (simp add: nano_render_status_def Let_def)
qed

lemma low_rows_message: "low_rows_only con (nano_render_message e con)"
proof -
  let ?c = "con\<lparr>con_vga := blank_cells 1920 2000 (get_current_status_attr con) (con_vga con)\<rparr>"
  have "low_rows_only con ?c" by (rule low_rows_blank) simp_all
  moreover have "low_rows_only ?c (console_print_to_pos 24 0 (Some (status_message e)) ?c)" by (rule low_rows_print) simp_all
  ultimately show ?thesis by (auto simp: nano_render_message_def Let_def intro: low_rows_trans)
qed

section \<open>The whole screen\<close>

lemma render_spec:
  assumes ok: "ed_ok e"
  shows "\<exists>con'. nano_render_editor e con = Some con' \<and> beyond_kept (con_vga con) (con_vga con')
    \<and> con_x con' = con_x con \<and> con_y con' = con_y con \<and> con_theme con' = con_theme con
    \<and> (\<forall>row col. 0 \<le> row \<and> row < 23 \<and> 0 \<le> col \<and> col < 80 \<longrightarrow>
         cell (con_vga con') (row * 80 + col) = (shown e (viewport_y e + row) col, get_current_text_attr con))
    \<and> (in_view e \<and> cursor_x e < 80 \<longrightarrow>
         hardware_cursor con' = of_int ((cursor_y e - viewport_y e) * 80 + cursor_x e))"
proof -
  let ?a = "get_current_text_attr con"
  let ?m = "blank_cells 0 2000 ?a (con_vga con)"
  have bl: "\<forall>k. 0 \<le> k \<and> k < 2000 \<longrightarrow> cell ?m k = (0x20, ?a)" by (simp add: cell_blank)
  obtain m1 where m1: "for_each [0..22] (\<lambda>row. render_row row ?a e) ?m = Some m1" "beyond_kept ?m m1"
    "\<forall>row col. 0 \<le> row \<and> row < 25 \<and> 0 \<le> col \<and> col < 80 \<longrightarrow> cell m1 (row * 80 + col) =
         (if row < 23 then (shown e (viewport_y e + row) col, ?a) else (0x20, ?a))"
    using render_rows_cells [OF ok bl, of 23] by auto
  let ?c = "nano_render_message e (nano_render_status e (con\<lparr>con_vga := m1\<rparr>))"
  have low: "low_rows_only (con\<lparr>con_vga := m1\<rparr>) ?c" by (rule low_rows_trans [OF low_rows_status low_rows_message])
  let ?shown = "cursor_y e - viewport_y e \<ge> 0 \<and> cursor_y e - viewport_y e < 23 \<and> cursor_x e < 80"
  let ?c' = "if ?shown then update_hardware_cursor (cursor_x e) (cursor_y e - viewport_y e) ?c else ?c"
  have "nano_render_editor e con = Some ?c'" using m1(1) by (simp add: nano_render_editor_def Let_def)
  moreover have "beyond_kept (con_vga con) m1" using beyond_trans [OF beyond_blank m1(2)] by simp
  then have "beyond_kept (con_vga con) (con_vga ?c')"
    using low by (auto simp: low_rows_only_def intro: beyond_trans)
  moreover have "cell (con_vga ?c') (row * 80 + col) = (shown e (viewport_y e + row) col, ?a)"
    if "0 \<le> row \<and> row < 23 \<and> 0 \<le> col \<and> col < 80" for row col
    using low m1(3) that by (simp add: low_rows_only_def)
  moreover have "con_x ?c' = con_x con \<and> con_y ?c' = con_y con \<and> con_theme ?c' = con_theme con"
    using low by (simp add: low_rows_only_def)
  moreover have "in_view e \<and> cursor_x e < 80 \<longrightarrow>
      hardware_cursor ?c' = of_int ((cursor_y e - viewport_y e) * 80 + cursor_x e)"
    by (auto simp: in_view_def)
  ultimately show ?thesis by blast
qed

end
