(* ===== verification/Nano_Editing.thy ===== *)
theory Nano_Editing
  imports Nano_Screen_Facts
begin

text \<open>
  An open editor under a sequence of key presses: every key is an operation on the text
  (\<open>t_key\<close>), no key leaves the arrays, and after every key the screen shows the text.
\<close>

section \<open>Keys as operations on the text\<close>

definition t_spaces :: "doc \<Rightarrow> doc" where
  "t_spaces = (t_insert 0x20 ^^ 4)"

definition t_key :: "u16 \<Rightarrow> doc \<Rightarrow> doc" where
  "t_key scancode =
     (if scancode = 0x0E then t_backspace
      else if scancode = 0x1C then t_enter
      else if scancode = 0xE053 \<or> scancode = 0x53 then t_delete
      else if scancode = 0xE048 \<or> scancode = 0x48 then t_move 0 (-1)
      else if scancode = 0xE050 \<or> scancode = 0x50 then t_move 0 1
      else if scancode = 0xE04B \<or> scancode = 0x4B then t_move (-1) 0
      else if scancode = 0xE04D \<or> scancode = 0x4D then t_move 1 0
      else if scancode = 0xE047 \<or> scancode = 0x47 then (\<lambda>(T, x, y). (T, 0, y))
      else if scancode = 0xE04F \<or> scancode = 0x4F then (\<lambda>(T, x, y). (T, length (T ! y), y))
      else if scancode = 0xE049 \<or> scancode = 0x49 then t_page (-1)
      else if scancode = 0xE051 \<or> scancode = 0x51 then t_page 1
      else let c = scancode_to_ascii scancode in
           if 0x20 \<le> c \<and> c \<le> 0x7E then t_insert c
           else if c = 0x09 then t_spaces
           else id)"

text \<open>Under the invariant, an operation is total, keeps the invariant and computes \<open>f\<close>.\<close>

definition refines :: "(nano \<Rightarrow> nano option) \<Rightarrow> (doc \<Rightarrow> doc) \<Rightarrow> bool" where
  "refines op f \<longleftrightarrow> (\<forall>e. nano_inv e \<longrightarrow>
     (\<exists>e'. op e = Some e' \<and> nano_inv e' \<and> same_session e e' \<and> doc_of e' = f (doc_of e)))"

lemma refinesI:
  assumes "\<And>e. ed_ok e \<Longrightarrow> implements e (op e) f" and "\<And>d. plain_doc d \<Longrightarrow> plain_doc (f d)"
  shows "refines op f"
  unfolding refines_def
proof (intro allI impI)
  fix e assume inv: "nano_inv e"
  then have "ed_ok e" "plain_doc (doc_of e)" by (simp_all add: nano_inv_def)
  then show "\<exists>e'. op e = Some e' \<and> nano_inv e' \<and> same_session e e' \<and> doc_of e' = f (doc_of e)"
    using implements_inv [OF inv assms(1) assms(2)] by blast
qed

lemma same_session_trans: "same_session a b \<Longrightarrow> same_session b c \<Longrightarrow> same_session a c"
  by (simp add: same_session_def)

lemma refines_comp:
  assumes "refines op f" and "refines op' g"
  shows "refines (\<lambda>e. do { e1 \<leftarrow> op e; op' e1 }) (g \<circ> f)"
  unfolding refines_def
proof (intro allI impI)
  fix e assume "nano_inv e"
  then obtain e1 where e1: "op e = Some e1" "nano_inv e1" "same_session e e1" "doc_of e1 = f (doc_of e)"
    using assms(1) unfolding refines_def by blast
  then obtain e2 where "op' e1 = Some e2" "nano_inv e2" "same_session e1 e2" "doc_of e2 = g (doc_of e1)"
    using assms(2) unfolding refines_def by blast
  with e1 show "\<exists>e'. do { e1 \<leftarrow> op e; op' e1 } = Some e' \<and> nano_inv e' \<and> same_session e e' \<and> doc_of e' = (g \<circ> f) (doc_of e)"
    by (auto intro: same_session_trans)
qed

lemma refines_insert: "c \<notin> {0, 0x0A, 0x0D} \<Longrightarrow> refines (nano_insert_char c) (t_insert c)"
  by (rule refinesI) (auto intro: insert_implements plain_insert)

lemma refines_spaces: "refines insert_spaces t_spaces"
proof -
  have r: "refines (nano_insert_char 0x20) (t_insert 0x20)" by (rule refines_insert) simp
  have up: "[0..3 :: int] = [0, 1, 2, 3]" by (simp add: upto_rec1)
  have "for_each [] b = Some" for b :: "int \<Rightarrow> nano \<Rightarrow> nano option" by (rule ext) simp
  then have last: "m \<bind> for_each [] b = m" for m and b :: "int \<Rightarrow> nano \<Rightarrow> nano option" by (cases m) simp_all
  have s: "insert_spaces = (\<lambda>e. do { e1 \<leftarrow> nano_insert_char 0x20 e; (\<lambda>e. do { e1 \<leftarrow> nano_insert_char 0x20 e;
      (\<lambda>e. do { e1 \<leftarrow> nano_insert_char 0x20 e; nano_insert_char 0x20 e1 }) e1 }) e1 })"
    by (rule ext) (auto simp: insert_spaces_def up last intro!: arg_cong2 [where f = Option.bind] ext)
  have t: "t_spaces = ((t_insert 0x20 \<circ> t_insert 0x20) \<circ> t_insert 0x20) \<circ> t_insert 0x20"
    by (simp add: t_spaces_def numeral_eq_Suc o_assoc)
  show ?thesis unfolding s t by (intro refines_comp r)
qed

lemmas refines_keys =
  refinesI [OF backspace_implements plain_backspace] refinesI [OF enter_implements plain_enter]
  refinesI [OF delete_implements plain_delete] refinesI [OF move_implements(1) plain_move(1)]
  refinesI [OF line_start_implements plain_home_end(1)] refinesI [OF line_end_implements plain_home_end(2)]
  refinesI [OF page_implements(1) plain_move(2)]

lemma printable_not_special: "0x20 \<le> c \<Longrightarrow> c \<notin> {0, 0x0A, 0x0D :: byte}"
  by auto

text \<open>Every key the editor reacts to refines its operation on the text; the others do nothing.\<close>

lemma if_refines:
  assumes "(if P then Some a else X) = Some op" and "P \<Longrightarrow> refines a f" and "X = Some op \<Longrightarrow> refines op g"
  shows "refines op (if P then f else g)"
  using assms by (cases P) simp_all

lemma edit_key_refines: "edit_key sc = Some op \<Longrightarrow> refines op (t_key sc)"
  unfolding edit_key_def t_key_def Let_def
  by (erule if_refines, (rule refines_keys, assumption, assumption | rule refines_spaces
        | (rule refines_insert, rule printable_not_special, erule conjunct1)))+ simp

lemma if_Some_None: "(if P then Some a else X) = None \<longleftrightarrow> \<not> P \<and> X = None"
  by simp

lemma edit_key_none: "edit_key sc = None \<Longrightarrow> t_key sc = id"
  unfolding edit_key_def Let_def if_Some_None by (simp add: t_key_def Let_def) blast

section \<open>A session of key presses\<close>

text \<open>The editor takes keys: it is open, with no overlay or prompt and Ctrl up.\<close>

definition editing :: "'d sys \<Rightarrow> bool" where
  "editing s \<longleftrightarrow> nano_inv (sys_nano s) \<and> editor_active (sys_nano s) \<and> \<not> help_overlay_visible (sys_nano s)
     \<and> prompt_state (sys_nano s) = NANO_PROMPT_NONE \<and> \<not> ctrl_pressed (sys_keyboard s)"

text \<open>The 23 rows of the viewport are on the screen.\<close>

definition shows_text :: "'d sys \<Rightarrow> bool" where
  "shows_text s \<longleftrightarrow> (\<forall>row col. 0 \<le> row \<and> row < 23 \<and> 0 \<le> col \<and> col < 80 \<longrightarrow>
     cell (con_vga (sys_console s)) (row * 80 + col) =
       (shown (sys_nano s) (viewport_y (sys_nano s) + row) col, get_current_text_attr (sys_console s)))"

lemma attr_of_theme: "con_theme a = con_theme b \<Longrightarrow> get_current_text_attr a = get_current_text_attr b"
  by (simp add: get_current_text_attr_def current_theme_def)

lemma render_shows:
  assumes "ed_ok (sys_nano s)"
  shows "\<exists>con. render s = Some (s\<lparr>sys_console := con\<rparr>) \<and> shows_text (s\<lparr>sys_console := con\<rparr>)
    \<and> beyond_kept (con_vga (sys_console s)) (con_vga con) \<and> con_theme con = con_theme (sys_console s)"
proof -
  obtain con where "nano_render_editor (sys_nano s) (sys_console s) = Some con"
    "beyond_kept (con_vga (sys_console s)) (con_vga con)" "con_theme con = con_theme (sys_console s)"
    "\<forall>row col. 0 \<le> row \<and> row < 23 \<and> 0 \<le> col \<and> col < 80 \<longrightarrow> cell (con_vga con) (row * 80 + col) =
       (shown (sys_nano s) (viewport_y (sys_nano s) + row) col, get_current_text_attr (sys_console s))"
    using render_spec [OF assms, of "sys_console s"] by blast
  then show ?thesis
    by (intro exI [of _ con]) (simp add: render_def shows_text_def attr_of_theme [of con "sys_console s"])
qed

fun press_keys :: "'d disk_ops \<Rightarrow> u16 list \<Rightarrow> 'd sys \<Rightarrow> 'd sys option" where
  "press_keys D [] s = Some s"
| "press_keys D (k # ks) s = do { s1 \<leftarrow> nano_handle_scancode D k False s; press_keys D ks s1 }"

lemma press_key:
  assumes "editing s" and "k \<noteq> 0x01" and "shows_text s"
  shows "\<exists>s'. nano_handle_scancode D k False s = Some s' \<and> editing s' \<and> shows_text s' \<and> volume s' = volume s
    \<and> doc_of (sys_nano s') = t_key k (doc_of (sys_nano s))
    \<and> beyond_kept (con_vga (sys_console s)) (con_vga (sys_console s'))"
proof (cases "edit_key k")
  case None
  then have "nano_handle_scancode D k False s = Some s"
    using assms by (simp add: nano_handle_scancode_def editing_def)
  then show ?thesis using assms edit_key_none [OF None] by simp
next
  case (Some op)
  obtain e where e: "op (sys_nano s) = Some e" "nano_inv e" "same_session (sys_nano s) e"
    "doc_of e = t_key k (doc_of (sys_nano s))"
    using edit_key_refines [OF Some] assms(1) unfolding refines_def editing_def by blast
  let ?s = "s\<lparr>sys_nano := e\<rparr>"
  have "ed_ok (sys_nano ?s)" using e(2) by (simp add: nano_inv_def)
  then obtain con where con: "render ?s = Some (?s\<lparr>sys_console := con\<rparr>)" "shows_text (?s\<lparr>sys_console := con\<rparr>)"
    "beyond_kept (con_vga (sys_console s)) (con_vga con)"
    using render_shows [of ?s] by auto
  have "nano_handle_scancode D k False s = Some (?s\<lparr>sys_console := con\<rparr>)"
    using assms Some e(1) con(1) by (simp add: nano_handle_scancode_def editing_def edit_def)
  then show ?thesis using assms(1) e con by (auto simp: editing_def same_session_def)
qed

lemma press_keys_refine:
  assumes "editing s" and "0x01 \<notin> set ks" and "shows_text s"
  shows "\<exists>s'. press_keys D ks s = Some s' \<and> editing s' \<and> shows_text s' \<and> volume s' = volume s
    \<and> doc_of (sys_nano s') = fold t_key ks (doc_of (sys_nano s))
    \<and> beyond_kept (con_vga (sys_console s)) (con_vga (sys_console s'))"
  using assms
proof (induction ks arbitrary: s)
  case (Cons k ks)
  then obtain s1 where s1: "nano_handle_scancode D k False s = Some s1" "editing s1" "shows_text s1" "volume s1 = volume s"
    "doc_of (sys_nano s1) = t_key k (doc_of (sys_nano s))"
    "beyond_kept (con_vga (sys_console s)) (con_vga (sys_console s1))"
    using press_key [of s k] by auto
  with Cons.IH [of s1] Cons.prems show ?case by (auto intro: beyond_trans)
qed auto

section \<open>Inverse keys\<close>

lemma insert_backspace_doc:
  assumes "plain_doc (T, x, y)" and "length (T ! y) < 199"
  shows "t_backspace (t_insert c (T, x, y)) = (T, x, y)"
  using assms by (simp add: plain_doc_def min_def list_update_same_conv)

lemma enter_backspace_doc:
  assumes "plain_doc (T, x, y)" and "length T < 1000"
  shows "t_backspace (t_enter (T, x, y)) = (T, x, y)"
proof -
  have y: "y < length T" "x \<le> length (T ! y)" using assms(1) by (simp_all add: plain_doc_def)
  have "plain_line (T ! y)" using assms(1) by (simp add: plain_doc_def)
  then have len: "length (T ! y) \<le> 199" by (simp add: plain_line_def)
  have "take y T @ (T ! y) # drop (Suc y) T = T" using y by (simp add: id_take_nth_drop [symmetric])
  then show ?thesis
    using assms(2) y len by (simp add: nth_append min_def)
qed

end
