(* ===== verification/System_Example.thy ===== *)
theory System_Example
  imports Fat12_Example Kernel Nano_Editing
begin

text \<open>
  A concrete system: the console and keyboard as the image starts them, an editor open on
  an empty text, and a mounted floppy. The facts here discharge the hypotheses of the
  properties of editor, shell and kernel at a concrete input.
\<close>

definition start_console :: console where
  "start_console = \<lparr>con_x = 0, con_y = 0, con_theme = 0, con_vga = (\<lambda>_. 0), con_ports = []\<rparr>"

definition zero_nano :: nano where
  "zero_nano =
     \<lparr>editor_active = False, filename = [], lines = (\<lambda>_ _. 0), line_lengths = (\<lambda>_. 0), total_lines = 0,
      cursor_x = 0, cursor_y = 0, viewport_y = 0, dirty = False, prompt_state = NANO_PROMPT_NONE,
      status_message = [], help_overlay_visible = False\<rparr>"

text \<open>The editor open on \<open>a.txt\<close> with one empty line.\<close>

definition open_nano :: nano where
  "open_nano = zero_nano\<lparr>editor_active := True, filename := a_txt, total_lines := 1\<rparr>"

definition start_sys :: "bool \<Rightarrow> 'd fat12_state \<Rightarrow> 'd sys" where
  "start_sys ready v =
     \<lparr>sys_console = start_console, sys_nano = zero_nano, sys_keyboard = keyboard_init,
      sys_prompt = \<lparr>input_buffer = (\<lambda>_. 0), input_pos = 0, command_executed = False,
                    prompt_line_start_x = 0, prompt_line_y = 0\<rparr>,
      fat_ready = ready, fs_io_buffer = (\<lambda>_. 0), volume = v,
      sys_bootlog = \<lparr>bl_magic = 0, int13_extensions = 0, int13_status = 0, boot_method = 0, retry_count = 0,
        bl_cylinders = 0, bl_heads = 0, bl_sectors_per_track = 0, memory_mb = 0,
        bios_vendor = replicate 32 0, status_string = replicate 64 0, bl_reserved = replicate 56 0\<rparr>,
      bootlog_mapped = False, sys_boot_mode = BOOT_MODE_UNKNOWN, storage_devices = [], primary_device = None,
      cpu_halted = False\<rparr>"

text \<open>The editor after its first rendering.\<close>

definition editor_sys :: "'d fat12_state \<Rightarrow> 'd sys" where
  "editor_sys v = the (render ((start_sys True v)\<lparr>sys_nano := open_nano\<rparr>))"

lemma open_nano_ok: "ed_ok open_nano" "clean open_nano" "doc_of open_nano = ([[]], 0, 0)" "nano_inv open_nano"
proof -
  show ok: "ed_ok open_nano" by (simp add: ed_ok_def open_nano_def zero_nano_def rows_closed_def)
  show c: "clean open_nano" by (simp add: clean_def open_nano_def zero_nano_def str_end_def)
  show d: "doc_of open_nano = ([[]], 0, 0)"
    by (simp add: doc_of_def text_of_def row_text_def open_nano_def zero_nano_def mem_get_def)
  show "nano_inv open_nano" using ok c by (simp add: nano_inv_def d plain_doc_def plain_line_def)
qed

lemma editor_sys_ok: "editing (editor_sys v)" "shows_text (editor_sys v)" "sys_nano (editor_sys v) = open_nano"
    "volume (editor_sys v) = v" "fs_io_buffer (editor_sys v) = (\<lambda>_. 0)"
proof -
  let ?s = "(start_sys True v)\<lparr>sys_nano := open_nano\<rparr>"
  have "ed_ok (sys_nano ?s)" using open_nano_ok by simp
  then obtain con where con: "render ?s = Some (?s\<lparr>sys_console := con\<rparr>)" "shows_text (?s\<lparr>sys_console := con\<rparr>)"
    using render_shows [of ?s] by auto
  then have e: "editor_sys v = ?s\<lparr>sys_console := con\<rparr>" by (simp add: editor_sys_def)
  show "shows_text (editor_sys v)" using con(2) by (simp add: e)
  show "editing (editor_sys v)" using open_nano_ok(4)
    by (simp add: e editing_def) (simp add: open_nano_def zero_nano_def start_sys_def keyboard_init_def)
  show "sys_nano (editor_sys v) = open_nano" "volume (editor_sys v) = v" "fs_io_buffer (editor_sys v) = (\<lambda>_. 0)"
    by (simp_all add: e) (simp_all add: start_sys_def)
qed

end
