(* ===== verification/Nano_Persist.thy ===== *)
theory Nano_Persist
  imports Nano_Editing Fat12_Contract
begin

text \<open>
  The editor on a working disk: saving puts the text's bytes into the file, opening a file
  shows its lines, and so a saved text comes back when it is opened again. Proved for any
  \<open>sector_store\<close>, the contract of the disk driver.
\<close>

text \<open>The operations of the editor keep the number and length of the lines within the arrays.\<close>

lemma ed_ok_save_loop:
  assumes "ed_ok e" and "length (file_bytes (text_of e)) \<le> 16383"
  shows "save_lines [0..total_lines e - 1] e (buf, 0) =
    Some (mem_put buf 0 (file_bytes (text_of e)), of_nat (length (file_bytes (text_of e))))"
  using save_lines_all [OF ed_ok_arrays [OF assms(1)] _ le0, of 0 buf] assms by (simp add: ed_ok_def)

lemma file_bytes_nonempty: "0 < length T \<Longrightarrow> 0 < length (file_bytes T)"
  by (cases T) simp_all

lemma file_bytes_no_nul: "\<forall>l \<in> set T. plain_line l \<Longrightarrow> 0 \<notin> set (file_bytes T)"
  by (induction T) (auto simp: plain_line_def)

text \<open>The state of an opened editor before its first rendering.\<close>

lemma open_state_spec:
  assumes "arrays_ok e" and "length p < 128" and "0 \<notin> set p"
  obtains e1 e2 where "open_state p e = Some e1" and "clear_lines e1 = Some e2" and "arrays_ok e2"
    and "cursor_x e2 = 0" "cursor_y e2 = 0" "viewport_y e2 = 0" "dirty e2 = False" "editor_active e2"
      "filename e2 = p" "prompt_state e2 = NANO_PROMPT_NONE" "\<not> help_overlay_visible e2"
proof -
  let ?e1 = "e\<lparr>filename := p, total_lines := 0, cursor_x := 0, cursor_y := 0, viewport_y := 0,
                  dirty := False, editor_active := True, prompt_state := NANO_PROMPT_NONE,
                  help_overlay_visible := False, status_message := []\<rparr>"
  have o: "open_state p e = Some ?e1" using assms(2,3) by (simp add: open_state_def cstr_idem)
  have "arrays_ok ?e1" using assms(1) by (simp add: arrays_ok_def rows_closed_def)
  then obtain e2 where c: "clear_lines ?e1 = Some e2" "arrays_ok e2" "arrays_changed ?e1 e2"
    using clear_lines_spec by blast
  note f = arrays_changed_fields [OF c(3)] c(3) [unfolded arrays_changed_def]
  have "dirty e2 = False" using f(6) by (elim exE) simp
  with f o c show thesis by (intro that [of ?e1 e2]) (auto simp: same_session_def)
qed

context sector_store
begin

lemma save_spec:
  assumes inv: "ed_ok (sys_nano s)" "dirty (sys_nano s)"
    and len: "length (file_bytes (text_of (sys_nano s))) \<le> 16383"
    and m: "mounted healthy cap (volume s)" and p: "plain_path (filename (sys_nano s)) name"
    and ok: "cwd_ok (sector (disk (volume s))) (volume s) dcs"
    and old: "bound_file (sector (disk (volume s))) (volume s) dcs name ocs"
    and room: "room_for (sector (disk (volume s))) (volume s) dcs name (length (file_bytes (text_of (sys_nano s))))"
  obtains buf v dcs' ns where
    "nano_save_file D s =
       Some (True, s\<lparr>fs_io_buffer := buf, volume := v, sys_nano := (sys_nano s)\<lparr>dirty := False\<rparr>\<rparr>)"
    "mounted healthy cap v" "cwd_ok (sector (disk v)) v dcs'"
    "holds_file (sector (disk v)) v dcs' name ns (file_bytes (text_of (sys_nano s)))"
proof -
  let ?bs = "file_bytes (text_of (sys_nano s))"
  let ?buf = "mem_put (fs_io_buffer s) 0 ?bs"
  have sz: "unat (of_nat (length ?bs) :: u32) = length ?bs" using len by (intro unat_size) simp
  have "room_for (sector (disk (volume s))) (volume s) dcs name (unat (of_nat (length ?bs) :: u32))"
    using room by (simp only: sz)
  then obtain v dcs' ns where w:
    "fat12_write_file D (Some (filename (sys_nano s))) (Some ?buf) (of_nat (length ?bs)) (volume s) = Some (Inr (), v)"
    "mounted healthy cap v" "cwd_ok (sector (disk v)) v dcs'"
    "holds_file (sector (disk v)) v dcs' name ns (mem_get ?buf 0 (length ?bs))"
    by (rule write_held_file [OF m p ok old, where data = ?buf]) (simp only: sz)
  have "mem_get ?buf 0 (length ?bs) = ?bs" by (simp add: mem_get_put_same)
  moreover have "nano_save_file D s =
      Some (True, s\<lparr>fs_io_buffer := ?buf, volume := v, sys_nano := (sys_nano s)\<lparr>dirty := False\<rparr>\<rparr>)"
    using inv(2) w(1) by (simp add: nano_save_file_def ed_ok_save_loop [OF inv(1) len] on_nano_def Let_def)
  ultimately show thesis using w by (intro that [of v ?buf dcs' ns]) simp_all
qed

lemma open_spec:
  assumes arr: "arrays_ok (sys_nano s)" and short: "length p < 128"
    and m: "mounted healthy cap (volume s)" and p: "plain_path p name"
    and ok: "cwd_ok (sector (disk (volume s))) (volume s) dcs"
    and f: "holds_file (sector (disk (volume s))) (volume s) dcs name cs content"
    and len: "length content \<le> 16383" and plain: "0 \<notin> set content" "parse_file content [] \<noteq> []"
    and ctrl: "\<not> ctrl_pressed (sys_keyboard s)"
  obtains s' where "nano_init_editor D p s = Some s'" "editing s'" "shows_text s'"
    "doc_of (sys_nano s') = (take 1000 (parse_file content []), 0, 0)" "\<not> dirty (sys_nano s')"
    "filename (sys_nano s') = p"
proof -
  have nn: "0 \<notin> set p" using p by (auto simp: plain_path_def)
  obtain e1 e2 where e: "open_state p (sys_nano s) = Some e1" "clear_lines e1 = Some e2" "arrays_ok e2"
    "cursor_x e2 = 0" "cursor_y e2 = 0" "viewport_y e2 = 0" "dirty e2 = False" "editor_active e2"
    "filename e2 = p" "prompt_state e2 = NANO_PROMPT_NONE" "\<not> help_overlay_visible e2"
    by (rule open_state_spec [OF arr short nn]) blast
  have size: "unat (of_nat (length content) :: u32) = length content" using len by (intro unat_size) simp
  have lim: "length content \<le> unat (FS_IO_BUFFER_SIZE - 1)" using len by (simp add: buffer_limits unat_size)
  obtain v where r: "fat12_read_file D (Some p) (Some (fs_io_buffer s)) (FS_IO_BUFFER_SIZE - 1) (volume s) =
      Some (Inr (of_nat (length content)), Some (mem_put (fs_io_buffer s) 0 content), v)"
    using read_held_file [OF m p ok f lim] by blast
  have pos: "(0 :: u32) < of_nat (length content)"
    using plain(2) size by (cases content) (simp_all add: word_less_nat_alt)
  have read_back: "mem_get (mem_put (fs_io_buffer s) 0 content) 0 (length content) = content" by (simp add: mem_get_put_same)
  obtain e3 where e3: "load_text content e2 = Some e3" "nano_inv e3"
    "doc_of e3 = (take 1000 (parse_file content []), 0, 0)" "same_session e2 e3" "dirty e3 = dirty e2"
    by (rule loaded_inv [OF e(3-6) plain]) blast
  let ?s = "s\<lparr>sys_nano := e3, fs_io_buffer := mem_put (fs_io_buffer s) 0 content, volume := v,
              sys_console := vga_clear (sys_console s)\<rparr>"
  have "ed_ok (sys_nano ?s)" using e3(2) by (simp add: nano_inv_def)
  then obtain con where con: "render ?s = Some (?s\<lparr>sys_console := con\<rparr>)" "shows_text (?s\<lparr>sys_console := con\<rparr>)"
    using render_shows [of ?s] by auto
  have "nano_init_editor D p s = Some (?s\<lparr>sys_console := con\<rparr>)"
    using e(1,2) r pos e3(1) con(1) by (simp add: nano_init_editor_def size read_back)
  moreover have "editing (?s\<lparr>sys_console := con\<rparr>)"
    using e3(2,4) e ctrl by (simp add: editing_def same_session_def)
  ultimately show thesis
    using con(2) e3 e by (intro that [of "?s\<lparr>sys_console := con\<rparr>"]) (simp_all add: same_session_def)
qed

text \<open>Saving and opening the same file again.\<close>

lemma save_open_spec:
  assumes inv: "nano_inv (sys_nano s)" "dirty (sys_nano s)" and ctrl: "\<not> ctrl_pressed (sys_keyboard s)"
    and len: "length (file_bytes (text_of (sys_nano s))) \<le> 16383" and short: "length (filename (sys_nano s)) < 128"
    and m: "mounted healthy cap (volume s)" and p: "plain_path (filename (sys_nano s)) name"
    and ok: "cwd_ok (sector (disk (volume s))) (volume s) dcs"
    and old: "bound_file (sector (disk (volume s))) (volume s) dcs name ocs"
    and room: "room_for (sector (disk (volume s))) (volume s) dcs name (length (file_bytes (text_of (sys_nano s))))"
  shows "\<exists>s1 s2. nano_save_file D s = Some (True, s1) \<and> \<not> dirty (sys_nano s1)
    \<and> nano_init_editor D (filename (sys_nano s)) s1 = Some s2 \<and> editing s2 \<and> shows_text s2
    \<and> doc_of (sys_nano s2) = (text_of (sys_nano s), 0, 0)"
proof -
  let ?T = "text_of (sys_nano s)"
  have t: "\<forall>l \<in> set ?T. plain_line l" "0 < length ?T" "length ?T \<le> 1000" "ed_ok (sys_nano s)"
    using nano_inv_text [OF inv(1)] by blast+
  obtain buf v dcs' ns where w:
    "nano_save_file D s =
       Some (True, s\<lparr>fs_io_buffer := buf, volume := v, sys_nano := (sys_nano s)\<lparr>dirty := False\<rparr>\<rparr>)"
    "mounted healthy cap v" "cwd_ok (sector (disk v)) v dcs'"
    "holds_file (sector (disk v)) v dcs' name ns (file_bytes ?T)"
    by (rule save_spec [OF t(4) inv(2) len m p ok old room])
  let ?s1 = "s\<lparr>fs_io_buffer := buf, volume := v, sys_nano := (sys_nano s)\<lparr>dirty := False\<rparr>\<rparr>"
  have parse: "parse_file (file_bytes ?T) [] = ?T" by (rule parse_file_bytes [OF t(1)])
  have ne: "parse_file (file_bytes ?T) [] \<noteq> []" unfolding parse length_greater_0_conv [symmetric] by (rule t(2))
  have arr: "arrays_ok (sys_nano ?s1)" using ed_ok_arrays [OF t(4)] by (simp add: arrays_ok_def rows_closed_def)
  have prem: "mounted healthy cap (volume ?s1)" "cwd_ok (sector (disk (volume ?s1))) (volume ?s1) dcs'"
    "holds_file (sector (disk (volume ?s1))) (volume ?s1) dcs' name ns (file_bytes ?T)"
    "\<not> ctrl_pressed (sys_keyboard ?s1)"
    using w ctrl by simp_all
  obtain s2 where "nano_init_editor D (filename (sys_nano s)) ?s1 = Some s2" "editing s2" "shows_text s2"
    "doc_of (sys_nano s2) = (take 1000 (parse_file (file_bytes ?T) []), 0, 0)"
    by (rule open_spec [OF arr short prem(1) p prem(2,3) len file_bytes_no_nul [OF t(1)] ne prem(4)])
  moreover have "take 1000 ?T = ?T" using t(3) by simp
  ultimately show ?thesis using w(1) unfolding parse by (intro exI [of _ ?s1] exI [of _ s2]) simp
qed

end

end
