(* ===== verification/Nano_Properties.thy ===== *)
theory Nano_Properties
  imports System_Example Nano_Persist
begin

text \<open>
  The properties of the editor. \<open>text_of\<close> is the text its arrays represent, \<open>doc_of\<close> the
  text with the cursor, \<open>t_key\<close> what a key means as an operation on them.
\<close>

section \<open>Keys\<close>

definition keeps_ed_ok :: "(nano \<Rightarrow> nano option) \<Rightarrow> bool" where
  "keeps_ed_ok op \<longleftrightarrow> (\<forall>e. ed_ok e \<longrightarrow> (\<exists>e'. op e = Some e' \<and> ed_ok e' \<and> same_session e e'))"

lemma keeps_implements: "(\<And>e. ed_ok e \<Longrightarrow> implements e (op e) f) \<Longrightarrow> keeps_ed_ok op"
  unfolding keeps_ed_ok_def implements_def by blast

lemma keeps_insert: "c \<noteq> 0 \<Longrightarrow> keeps_ed_ok (nano_insert_char c)"
  by (rule keeps_implements) (rule insert_implements)

lemma keeps_for_each: "(\<And>i. i \<in> set is \<Longrightarrow> keeps_ed_ok (body i)) \<Longrightarrow> keeps_ed_ok (for_each is body)"
proof (induction "is")
  case (Cons i "is")
  have 1: "keeps_ed_ok (body i)" "keeps_ed_ok (for_each is body)" using Cons by simp_all
  show ?case
    unfolding keeps_ed_ok_def
  proof (intro allI impI)
    fix e assume "ed_ok e"
    then obtain e1 where e1: "body i e = Some e1" "ed_ok e1" "same_session e e1"
      using 1(1) unfolding keeps_ed_ok_def by blast
    then obtain e2 where "for_each is body e1 = Some e2" "ed_ok e2" "same_session e1 e2"
      using 1(2) unfolding keeps_ed_ok_def by blast
    with e1 show "\<exists>e'. for_each (i # is) body e = Some e' \<and> ed_ok e' \<and> same_session e e'"
      by (auto intro: same_session_trans)
  qed
qed (simp add: keeps_ed_ok_def same_session_def)

lemmas keeps_keys =
  keeps_implements [OF backspace_implements] keeps_implements [OF enter_implements]
  keeps_implements [OF delete_implements] keeps_implements [OF move_implements(1)]
  keeps_implements [OF line_start_implements] keeps_implements [OF line_end_implements]
  keeps_implements [OF page_implements(1)]

lemma keeps_spaces: "keeps_ed_ok insert_spaces"
  unfolding insert_spaces_def [abs_def] by (rule keeps_for_each) (rule keeps_insert, simp)

lemma if_keeps:
  assumes "(if P then Some a else X) = Some op" and "P \<Longrightarrow> keeps_ed_ok a" and "X = Some op \<Longrightarrow> keeps_ed_ok op"
  shows "keeps_ed_ok op"
  using assms by (cases P) simp_all

lemma edit_key_keeps: "edit_key sc = Some op \<Longrightarrow> keeps_ed_ok op"
  unfolding edit_key_def Let_def
  by (erule if_keeps, (rule keeps_keys, assumption | rule keeps_spaces
        | (rule keeps_insert, use printable_not_special in blast)))+ simp

text \<open>
  C13. The state type of the editor: \<open>1 \<le> total_lines \<le> 1000\<close>, the cursor inside a line of the
  text, every line length between 0 and 199 and the last column of every line NUL. From a
  state of this form every editing key, whatever the content of the lines, accesses the
  arrays only inside their bounds and leaves such a state.
\<close>

theorem editing_keys_in_bounds:
  assumes "ed_ok e" and "edit_key scancode = Some op"
  shows "\<exists>e'. op e = Some e' \<and> ed_ok e' \<and> same_session e e'"
  using edit_key_keeps [OF assms(2)] assms(1) by (simp add: keeps_ed_ok_def)

theorem editing_keys_in_bounds_witness:
  "\<exists>e'. nano_handle_enter open_nano = Some e' \<and> ed_ok e' \<and> same_session open_nano e'"
proof -
  have "edit_key 0x1C = Some nano_handle_enter" by (simp add: edit_key_def)
  from editing_keys_in_bounds [OF open_nano_ok(1) this] show ?thesis .
qed

text \<open>
  C5. The editor implements a text: pressing any keys but Escape in an open editor never
  leaves the arrays, transforms text and cursor as the meanings of the keys one after the
  other, shows the 23 lines of the viewport on the screen after each, stores nothing behind
  the screen and leaves the disk alone.
\<close>

theorem editor_implements_text:
  assumes "editing s" and "shows_text s" and "0x01 \<notin> set ks"
  shows "\<exists>s'. press_keys D ks s = Some s' \<and> editing s' \<and> shows_text s' \<and> volume s' = volume s
    \<and> doc_of (sys_nano s') = fold t_key ks (doc_of (sys_nano s))
    \<and> beyond_kept (con_vga (sys_console s)) (con_vga (sys_console s'))"
  using press_keys_refine [OF assms(1,3,2)] .

theorem editor_implements_text_witness:
  "\<exists>s'. press_keys (ata_disk drive) [0x23, 0x17, 0x1C] (editor_sys blank_volume) = Some s' \<and> shows_text s'
    \<and> doc_of (sys_nano s') = ([[0x68, 0x69], []], 0, 1)"
proof -
  have keys: "0x01 \<notin> set [0x23, 0x17, 0x1C :: u16]" by simp
  have h: "scancode_to_ascii 0x23 = 0x68" "scancode_to_ascii 0x17 = 0x69"
    by (simp_all add: scancode_to_ascii_def ascii_table_def lit_def)
  have "fold t_key [0x23, 0x17, 0x1C] ([[]], 0, 0) = ([[0x68, 0x69], []], 0, 1)"
    by (simp add: t_key_def h)
  then show ?thesis
    using editor_implements_text [OF editor_sys_ok(1,2) keys, where D = "ata_disk drive"]
    by (auto simp: editor_sys_ok(3) open_nano_ok(3))
qed

text \<open>
  C22. Inverse keys: Backspace undoes the character typed before it (in a line with room)
  and the line break entered before it (below the limit of 1000 lines); text and cursor are
  what they were.
\<close>

theorem backspace_undoes:
  assumes "nano_inv e"
  shows "(c \<notin> {0, 0x0A, 0x0D} \<and> length (text_of e ! nat (cursor_y e)) < 199 \<longrightarrow>
      (\<exists>e1 e2. nano_insert_char c e = Some e1 \<and> nano_handle_backspace e1 = Some e2 \<and> doc_of e2 = doc_of e))
    \<and> (length (text_of e) < 1000 \<longrightarrow>
      (\<exists>e1 e2. nano_handle_enter e = Some e1 \<and> nano_handle_backspace e1 = Some e2 \<and> doc_of e2 = doc_of e))"
proof (rule conjI)
  let ?T = "text_of e" and ?x = "nat (cursor_x e)" and ?y = "nat (cursor_y e)"
  have d: "doc_of e = (?T, ?x, ?y)" and pd: "plain_doc (?T, ?x, ?y)"
    using assms by (simp_all add: doc_of_def nano_inv_def)
  have bs: "\<exists>e2. nano_handle_backspace e1 = Some e2 \<and> doc_of e2 = t_backspace (doc_of e1)" if "nano_inv e1" for e1
    using refines_keys(1) that unfolding refines_def by blast
  show "c \<notin> {0, 0x0A, 0x0D} \<and> length (?T ! ?y) < 199 \<longrightarrow>
      (\<exists>e1 e2. nano_insert_char c e = Some e1 \<and> nano_handle_backspace e1 = Some e2 \<and> doc_of e2 = doc_of e)"
  proof
    assume c: "c \<notin> {0, 0x0A, 0x0D} \<and> length (?T ! ?y) < 199"
    then obtain e1 where e1: "nano_insert_char c e = Some e1" "nano_inv e1" "doc_of e1 = t_insert c (doc_of e)"
      using refines_insert [of c] assms unfolding refines_def by blast
    from bs [OF e1(2)] insert_backspace_doc [OF pd] c e1
    show "\<exists>e1 e2. nano_insert_char c e = Some e1 \<and> nano_handle_backspace e1 = Some e2 \<and> doc_of e2 = doc_of e"
      by (auto simp: d)
  qed
  show "length ?T < 1000 \<longrightarrow>
      (\<exists>e1 e2. nano_handle_enter e = Some e1 \<and> nano_handle_backspace e1 = Some e2 \<and> doc_of e2 = doc_of e)"
  proof
    assume l: "length ?T < 1000"
    obtain e1 where e1: "nano_handle_enter e = Some e1" "nano_inv e1" "doc_of e1 = t_enter (doc_of e)"
      using refines_keys(2) assms unfolding refines_def by blast
    from bs [OF e1(2)] enter_backspace_doc [OF pd l] e1
    show "\<exists>e1 e2. nano_handle_enter e = Some e1 \<and> nano_handle_backspace e1 = Some e2 \<and> doc_of e2 = doc_of e"
      by (auto simp: d)
  qed
qed

theorem backspace_undoes_witness:
  "\<exists>e1 e2. nano_insert_char 0x68 open_nano = Some e1 \<and> nano_handle_backspace e1 = Some e2
     \<and> doc_of e2 = ([[]], 0, 0)"
proof -
  have "text_of open_nano = [[]]" "cursor_y open_nano = 0"
    using open_nano_ok(3) by (simp_all add: doc_of_def) (simp add: open_nano_def zero_nano_def)
  then show ?thesis using backspace_undoes [OF open_nano_ok(4), where c = "0x68"] by (simp add: open_nano_ok(3))
qed

section \<open>Files\<close>

text \<open>
  C8. Round trip through the disk: saving a modified text of at most 16383 bytes succeeds
  and clears the modified flag, and opening the same file again shows the text that was
  saved, with the cursor at its start. For every drive that keeps the PIO protocol.
\<close>

theorem save_then_open:
  assumes "ata_device H view cap" and "nano_inv (sys_nano s)" and "dirty (sys_nano s)"
    and "\<not> ctrl_pressed (sys_keyboard s)" and "length (file_bytes (text_of (sys_nano s))) \<le> 16383"
    and "length (filename (sys_nano s)) < 128" and "mounted (drive_ok view cap) cap (volume s)"
    and "plain_path (filename (sys_nano s)) name" and "cwd_ok (stored view (disk (volume s))) (volume s) dcs"
    and "bound_file (stored view (disk (volume s))) (volume s) dcs name ocs"
    and "room_for (stored view (disk (volume s))) (volume s) dcs name (length (file_bytes (text_of (sys_nano s))))"
  shows "\<exists>s1 s2. nano_save_file (ata_disk H) s = Some (True, s1) \<and> \<not> dirty (sys_nano s1)
    \<and> nano_init_editor (ata_disk H) (filename (sys_nano s)) s1 = Some s2 \<and> editing s2 \<and> shows_text s2
    \<and> doc_of (sys_nano s2) = (text_of (sys_nano s), 0, 0)"
  using sector_store.save_open_spec [OF ata_device.linked [OF assms(1)] assms(2-11)] .

theorem save_then_open_witness:
  "\<exists>s1 s2. nano_save_file (ata_disk drive) ((start_sys True blank_volume)\<lparr>sys_nano := open_nano\<lparr>dirty := True\<rparr>\<rparr>)
      = Some (True, s1)
    \<and> nano_init_editor (ata_disk drive) a_txt s1 = Some s2 \<and> doc_of (sys_nano s2) = ([[]], 0, 0)"
proof -
  let ?e = "open_nano\<lparr>dirty := True\<rparr>"
  let ?s = "(start_sys True blank_volume)\<lparr>sys_nano := ?e\<rparr>"
  have t: "text_of ?e = [[]]"
    by (simp add: text_of_def row_text_def open_nano_def zero_nano_def)
  have d: "doc_of ?e = ([[]], 0, 0)" unfolding doc_of_def t by (simp add: open_nano_def zero_nano_def)
  have "ed_ok ?e" using open_nano_ok(1) by (simp add: ed_ok_def rows_closed_def)
  then have e: "nano_inv ?e"
    using open_nano_ok(2) by (simp add: nano_inv_def d clean_def plain_doc_def plain_line_def)
  have f: "filename ?e = a_txt" by (simp add: open_nano_def)
  have s: "sys_nano ?s = ?e" "volume ?s = blank_volume" "\<not> ctrl_pressed (sys_keyboard ?s)"
    by (simp_all add: start_sys_def keyboard_init_def)
  have one: "length (file_bytes [[]]) = 1" by simp
  have "length a_txt < 128" by (simp add: a_txt_def)
  then show ?thesis
    using save_then_open [OF drive_device, of ?s a_name "[]" "[]"] e blank_mounted a_path(1) blank_cwd(1)
      blank_bound [OF blank_cwd(2)] blank_room [of 1] s(3)
    unfolding s f t one by auto
qed

text \<open>
  C23. Saving stays in the I/O buffer: from any well-formed editor state the text is
  collected without an access outside the arrays, at most 16383 bytes are stored, the rest
  of the buffer keeps its content, and a text that fits is stored byte for byte with a line
  feed after every line.
\<close>

theorem save_stays_in_buffer:
  assumes "ed_ok e"
  shows "\<exists>buf' n. save_lines [0..total_lines e - 1] e (buf, 0) = Some (buf', n) \<and> unat n \<le> 16383
    \<and> (\<forall>k \<ge> 16383. buf' k = buf k)
    \<and> (length (file_bytes (text_of e)) \<le> 16383 \<longrightarrow>
         unat n = length (file_bytes (text_of e)) \<and> mem_get buf' 0 (unat n) = file_bytes (text_of e))"
proof -
  have t: "\<forall>i \<in> set [0..total_lines e - 1]. 0 \<le> i \<and> i < 1000" using assms by (auto simp: ed_ok_def)
  obtain buf' n where b: "save_lines [0..total_lines e - 1] e (buf, of_nat 0) = Some (buf', of_nat n)" "n \<le> 16383"
    "\<forall>k \<ge> 16383. buf' k = buf k"
    using save_lines_bound [OF ed_ok_arrays [OF assms] _ t, of 0 buf] by auto
  have n: "unat (of_nat n :: u32) = n" using b(2) by (intro unat_size) simp
  have fit: "unat (of_nat n :: u32) = length (file_bytes (text_of e))
      \<and> mem_get buf' 0 (unat (of_nat n :: u32)) = file_bytes (text_of e)"
    if l: "length (file_bytes (text_of e)) \<le> 16383"
  proof -
    have "unat (of_nat (length (file_bytes (text_of e))) :: u32) = length (file_bytes (text_of e))"
      using l by (intro unat_size) simp
    then show ?thesis
      using b(1) ed_ok_save_loop [OF assms l, of buf] by (auto simp: mem_get_put_same)
  qed
  have "save_lines [0..total_lines e - 1] e (buf, 0) = Some (buf', of_nat n)" "unat (of_nat n :: u32) \<le> 16383"
    using b(1,2) n by simp_all
  with b(3) fit show ?thesis by (intro exI conjI impI) (assumption | drule fit, erule conjunct1 conjunct2)+
qed

theorem save_stays_in_buffer_witness:
  "\<exists>buf' n. save_lines [0..total_lines open_nano - 1] open_nano (\<lambda>_. 0, 0) = Some (buf', n) \<and> unat n = 1"
proof -
  have "file_bytes (text_of open_nano) = [0x0A]" using open_nano_ok(3) by (simp add: doc_of_def)
  then show ?thesis using save_stays_in_buffer [OF open_nano_ok(1), of "\<lambda>_. 0"] by auto
qed

text \<open>
  C36. A file of carriage returns alone is loaded as a text of zero lines, and then every cursor move, in whatever direction,
  accesses \<open>line_lengths[-1]\<close>: the well-formedness of the editor state is lost on loading.
\<close>

theorem carriage_returns_leave_no_line:
  assumes "arrays_ok e" and "cs = replicate n 0x0D"
  shows "\<exists>e'. load_text cs e = Some e' \<and> total_lines e' = 0 \<and> nano_move_cursor dx dy e' = None"
proof -
  have p: "parse_file (replicate n 0x0D) [] = []" by (induction n) simp_all
  obtain e' where "load_text cs e = Some e'" "total_lines e' = int (length (take 1000 (parse_file cs [])))"
    by (rule load_text_spec [OF assms(1)]) blast
  then show ?thesis
    by (auto simp: assms(2) p nano_move_cursor_def Let_def get_len_def line_index_def)
qed

theorem carriage_returns_leave_no_line_witness:
  "\<exists>e'. load_text [0x0D] zero_nano = Some e' \<and> total_lines e' = 0 \<and> nano_move_cursor 0 1 e' = None"
proof -
  have "arrays_ok zero_nano" by (simp add: arrays_ok_def zero_nano_def rows_closed_def)
  from carriage_returns_leave_no_line [OF this, of "[0x0D]" 1] show ?thesis by simp
qed

end
