(* ===== verification/Ata_Identify.thy ===== *)
theory Ata_Identify
  imports Ata_Reference
begin

text \<open>
  A drive that also identifies itself: idle it reports DRDY, and IDENTIFY DEVICE delivers
  256 words. On such a drive \<open>disk_init\<close> succeeds and, like the self test, changes no
  sector.
\<close>

locale ata_identify = ata_device +
  assumes ready_bit: "av_lag (view h) = 0 \<Longrightarrow> fst (inb H ATA_STATUS_REG h) AND ATA_STATUS_DRDY \<noteq> 0"
    and identify: "accepts_commands (view h) \<Longrightarrow>
      \<exists>n < 10000. \<exists>ws. length ws = 256 \<and> view (outb H ATA_COMMAND_REG ATA_CMD_IDENTIFY_DEVICE h) =
        (view h)\<lparr>av_phase := Data_in ws, av_lag := n\<rparr>"
begin

text \<open>The status right after the command: not 0, whether the drive is still busy or not.\<close>

lemma status_after_command:
  assumes "av_lag (view h) < 10000" and "has_drq (view h)"
  obtains st h' k where "inb H ATA_STATUS_REG h = (st, h')" "st \<noteq> 0" "k < 10000" "view h' = (view h)\<lparr>av_lag := k\<rparr>"
proof (cases "av_lag (view h)")
  case 0
  from status_ready [OF this] assms(2) obtain st h' where
    s: "inb H ATA_STATUS_REG h = (st, h')" "st AND ATA_STATUS_DRQ \<noteq> 0" "view h' = view h" by blast
  have "view h' = (view h)\<lparr>av_lag := 0\<rparr>" using 0 by (cases "view h") (simp add: s(3))
  moreover have "st \<noteq> 0" using s(2) by auto
  ultimately show thesis using that [OF s(1), of 0] by simp
next
  case (Suc n)
  from status_busy [OF this] obtain st h' where
    s: "inb H ATA_STATUS_REG h = (st, h')" "st AND ATA_STATUS_BSY \<noteq> 0" "view h' = (view h)\<lparr>av_lag := n\<rparr>" by blast
  have "st \<noteq> 0" using s(2) by auto
  then show thesis using assms(1) Suc that [OF s(1) _ _ s(3)] by simp
qed

lemma disk_init_ready:
  assumes ok: "drive_ok view cap d"
  obtains d' where "disk_init H d = (0, d')" "drive_ok view cap d'" "stored view d' = stored view d"
proof -
  have acc: "accepts_commands (view (ports d))" using ok by (simp add: drive_ok_def)
  obtain h1 where h1: "wait_for_bsy H (select_drive H (ports d)) = (0, h1)" "accepts_commands (view h1)"
    "av_media (view h1) = av_media (view (ports d))"
    by (rule select_ready [OF acc])
  have lag1: "av_lag (view h1) = 0" using h1(2) by (simp add: accepts_commands_def)
  obtain st h2 where h2: "inb H ATA_STATUS_REG h1 = (st, h2)" "view h2 = view h1"
    using status_ready [OF lag1] by blast
  have rdy: "st AND ATA_STATUS_DRDY \<noteq> 0" using ready_bit [OF lag1] h2(1) by simp
  let ?h3 = "outb H ATA_SECCOUNT0_REG 0 h2"
  let ?h4 = "outb H ATA_LBA0_REG 0 ?h3"
  let ?h5 = "outb H ATA_LBA1_REG 0 ?h4"
  let ?h6 = "outb H ATA_LBA2_REG 0 ?h5"
  have a2: "accepts_commands (view h2)" using h1(2) h2(2) by simp
  have v3: "view ?h3 = (view h2)\<lparr>av_count := 0\<rparr>" by (rule write_count [OF a2])
  then have a3: "accepts_commands (view ?h3)" using a2 by simp
  have v4: "view ?h4 = (view ?h3)\<lparr>av_lba0 := 0\<rparr>" by (rule write_lba0 [OF a3])
  then have a4: "accepts_commands (view ?h4)" using a3 by simp
  have v5: "view ?h5 = (view ?h4)\<lparr>av_lba1 := 0\<rparr>" by (rule write_lba1 [OF a4])
  then have a5: "accepts_commands (view ?h5)" using a4 by simp
  have v6: "view ?h6 = (view ?h5)\<lparr>av_lba2 := 0\<rparr>" by (rule write_lba2 [OF a5])
  then have a6: "accepts_commands (view ?h6)" using a5 by simp
  have media6: "av_media (view ?h6) = av_media (view (ports d))" by (simp add: v6 v5 v4 v3 h2(2) h1(3))
  let ?h7 = "outb H ATA_COMMAND_REG ATA_CMD_IDENTIFY_DEVICE ?h6"
  obtain n ws where v7: "n < 10000" "length ws = 256" "view ?h7 = (view ?h6)\<lparr>av_phase := Data_in ws, av_lag := n\<rparr>"
    using identify [OF a6] by blast
  have "av_lag (view ?h7) < 10000" "has_drq (view ?h7)" using v7 by (simp_all add: has_drq_def)
  then obtain st2 h8 k where h8: "inb H ATA_STATUS_REG ?h7 = (st2, h8)" "st2 \<noteq> 0" "k < 10000"
    "view h8 = (view ?h7)\<lparr>av_lag := k\<rparr>"
    by (rule status_after_command)
  have p8: "av_phase (view h8) = Data_in ws" "av_media (view h8) = av_media (view ?h6)" "av_lag (view h8) < 10000"
    using v7(3) h8(3,4) by simp_all
  then have "has_drq (view h8)" by (simp add: has_drq_def)
  then obtain h9 where h9: "wait_for_drq H h8 = (0, h9)" "view h9 = (view h8)\<lparr>av_lag := 0\<rparr>"
    by (rule wait_for_drq_data [OF p8(3)])
  have "av_lag (view h9) = 0" "av_phase (view h9) = Data_in (ws @ [])" "0 < length ws"
    using h9(2) p8(1) v7(2) by auto
  from read_words_spec [OF this, of 0 "\<lambda>_. 0"] v7(2) obtain m' h10 where
    h10: "read_words H 0 256 (\<lambda>_. 0) h9 = (m', h10)" "view h10 = (view h9)\<lparr>av_phase := Ready, av_lag := 0\<rparr>"
    by auto
  have "disk_init H d = (0, d\<lparr>ports := h10\<rparr>)"
    using h1(1) h2(1) rdy h8(1,2) h9(1) h10(1) by (simp add: disk_init_def Let_def)
  moreover have "av_media (view h10) = av_media (view (ports d))" using h10(2) h9(2) p8(2) media6 by simp
  moreover have "accepts_commands (view h10)" using h10(2) by (simp add: accepts_commands_def)
  ultimately show thesis
    using ok by (intro that [of "d\<lparr>ports := h10\<rparr>"]) (simp_all add: drive_ok_def stored_def)
qed

lemma self_test_keeps:
  assumes "drive_ok view cap d" and "0 < cap"
  obtains rc d' where "disk_self_test H d = (rc, d')" "drive_ok view cap d'" "stored view d' = stored view d"
proof -
  obtain d' where r: "disk_read_sector H 0 (Some 0) (\<lambda>_. 0) d = (0, mem_put (\<lambda>_. 0) 0 (stored view d 0), d')"
    "drive_ok view cap d'" "stored view d' = stored view d"
    using read_sector [OF assms(1), of 0 0 "\<lambda>_. 0"] assms(2) by (auto simp: ata_disk_def)
  have "snd (disk_self_test H d) = d'" by (simp add: disk_self_test_def r(1))
  then show thesis using that [OF surjective_pairing] r(2,3) by simp
qed

end

lemma ref_ata_identify:
  assumes "cap \<le> 2 ^ 28" and "lag < 10000"
  shows "ata_identify (ref_hw multi lag cap) (\<lambda>v. v) cap"
proof (intro ata_identify.intro ata_identify_axioms.intro ref_ata_device [OF assms])
  fix h :: ata_view
  show "\<exists>n < 10000. \<exists>ws. length ws = 256
      \<and> outb (ref_hw multi lag cap) ATA_COMMAND_REG ATA_CMD_IDENTIFY_DEVICE h = h\<lparr>av_phase := Data_in ws, av_lag := n\<rparr>"
    using assms(2)
    by (intro exI [of _ lag] exI [of _ "replicate 256 0"] conjI)
      (simp_all add: ref_hw_def ref_outb_def ref_command_def)
qed (simp add: ref_hw_def ref_inb_def ref_status_def)

interpretation identifying_drive: ata_identify "ref_hw False 3 2880" "\<lambda>v. v" 2880
  by (rule ref_ata_identify) simp_all

end
