(* ===== verification/Boot_Facts.thy ===== *)
theory Boot_Facts
  imports Kernel Ata_Identify Fat12_Mount_Spec Fat12_Contract
begin

text \<open>
  Facts about enumeration, the storage table and the kernel's start-up: what the table
  holds whatever the hardware answers, which devices the enumeration recognises on
  hardware with working configuration registers, and that start-up on a drive with a
  sound volume mounts it.
\<close>

section \<open>The storage table\<close>

lemma register_device_fields:
  "length (fst tab) \<le> 16 \<Longrightarrow> snd tab = (if fst tab = [] then None else Some 0) \<Longrightarrow>
   \<exists>xs. fst (register_device dev tab) = fst tab @ xs \<and> set xs \<subseteq> {dev}
     \<and> (length (fst tab) < 16 \<longrightarrow> xs = [dev])
     \<and> length (fst (register_device dev tab)) \<le> 16
     \<and> snd (register_device dev tab) = (if fst (register_device dev tab) = [] then None else Some 0)"
  by (cases tab) (auto simp: register_device_def storage_register_device_def STORAGE_MAX_DEVICES_def split: if_splits)

text \<open>A table of at most 16 devices whose primary device is the first.\<close>

definition table_ok :: "storage_table \<Rightarrow> bool" where
  "table_ok tab \<longleftrightarrow> length (fst tab) \<le> 16 \<and> snd tab = (if fst tab = [] then None else Some 0)"

lemma register_device_ok:
  assumes "table_ok tab"
  obtains xs where "fst (register_device dev tab) = fst tab @ xs" "set xs \<subseteq> {dev}" "table_ok (register_device dev tab)"
  using register_device_fields [of tab dev] assms unfolding table_ok_def by blast

lemma register_controllers_ok:
  assumes "\<forall>h bd h'. init h = (Inr bd, h') \<longrightarrow> dev_type bd = T" and "table_ok tab"
  shows "\<exists>xs. fst (fst (register_controllers match init ds tab h)) = fst tab @ xs
    \<and> (\<forall>x \<in> set xs. dev_type x = T) \<and> table_ok (fst (register_controllers match init ds tab h))
    \<and> ((\<forall>d \<in> set ds. \<not> match d) \<longrightarrow> xs = [])"
  using assms(2)
proof (induction ds arbitrary: tab h)
  case (Cons d ds)
  show ?case
  proof (cases "\<exists>bd h1. match d \<and> init h = (Inr bd, h1)")
    case True
    then obtain bd h1 where i: "match d" "init h = (Inr bd, h1)" by blast
    obtain xs where r: "fst (register_device bd tab) = fst tab @ xs" "set xs \<subseteq> {bd}" "table_ok (register_device bd tab)"
      by (rule register_device_ok [OF Cons.prems])
    from Cons.IH [OF r(3), of h1] r assms(1) [rule_format, OF i(2)] i show ?thesis by auto
  next
    case False
    have "\<exists>h1. register_controllers match init (d # ds) tab h = register_controllers match init ds tab h1"
    proof (cases "init h")
      case (Pair r h1)
      then show ?thesis using False by (cases r) auto
    qed
    then obtain h1 where "register_controllers match init (d # ds) tab h = register_controllers match init ds tab h1" ..
    with Cons.IH [OF Cons.prems, of h1] show ?thesis by auto
  qed
qed simp

lemma init_types:
  "nvme_init P devs h = (Inr bd, h') \<Longrightarrow> dev_type bd = BLOCK_DEVICE_NVME"
  "ahci_init P devs h = (Inr bd, h') \<Longrightarrow> dev_type bd = BLOCK_DEVICE_AHCI"
  "ata_pio_init H d = (Inr bd, d') \<Longrightarrow> dev_type bd = BLOCK_DEVICE_ATA"
  by (auto simp: nvme_init_def ahci_init_def ata_pio_init_def Let_def split: option.splits prod.splits if_splits)

lemma storage_table_spec:
  assumes "storage_manager_init H P d = (tab, d')"
  obtains ns as ps where "fst tab = ns @ as @ ps" "\<forall>x \<in> set ns. dev_type x = BLOCK_DEVICE_NVME"
    "\<forall>x \<in> set as. dev_type x = BLOCK_DEVICE_AHCI" "\<forall>x \<in> set ps. dev_type x = BLOCK_DEVICE_ATA" "table_ok tab"
    "(\<forall>p \<in> set (fst (pci_enumerate P (ports d))). \<not> is_storage PCI_SUBCLASS_NVME p) \<longrightarrow> ns = []"
proof -
  obtain devs h1 where e: "pci_enumerate P (ports d) = (devs, h1)" by fastforce
  obtain tab1 h2 where r1: "register_controllers (is_storage PCI_SUBCLASS_NVME) (nvme_init P devs) devs ([], None) h1 = (tab1, h2)"
    by fastforce
  obtain tab2 h3 where r2: "register_controllers (is_storage PCI_SUBCLASS_SATA) (ahci_init P devs) devs tab1 h2 = (tab2, h3)"
    by fastforce
  have i1: "\<forall>h bd h'. nvme_init P devs h = (Inr bd, h') \<longrightarrow> dev_type bd = BLOCK_DEVICE_NVME"
    and i2: "\<forall>h bd h'. ahci_init P devs h = (Inr bd, h') \<longrightarrow> dev_type bd = BLOCK_DEVICE_AHCI"
    by (simp_all add: init_types)
  have t0: "table_ok ([], None)" by (simp add: table_ok_def)
  obtain ns where ns: "fst tab1 = ns" "\<forall>x \<in> set ns. dev_type x = BLOCK_DEVICE_NVME" "table_ok tab1"
    "(\<forall>d \<in> set devs. \<not> is_storage PCI_SUBCLASS_NVME d) \<longrightarrow> ns = []"
    using register_controllers_ok [where init = "nvme_init P devs" and ds = devs and h = h1
        and match = "is_storage PCI_SUBCLASS_NVME", OF i1 t0] r1 by auto
  obtain as where as: "fst tab2 = ns @ as" "\<forall>x \<in> set as. dev_type x = BLOCK_DEVICE_AHCI" "table_ok tab2"
    using register_controllers_ok [where init = "ahci_init P devs" and ds = devs and h = h2
        and match = "is_storage PCI_SUBCLASS_SATA", OF i2 ns(3)] r2 ns(1) by auto
  obtain rc d1 where a: "ata_pio_init H (d\<lparr>ports := h3\<rparr>) = (rc, d1)" by fastforce
  have tab: "tab = (case rc of Inr bd \<Rightarrow> register_device bd tab2 | Inl _ \<Rightarrow> tab2)"
    using assms by (simp add: storage_manager_init_def e r1 r2 a split: sum.splits)
  show thesis
  proof (cases rc)
    case Inl
    with tab ns as e show thesis by (intro that [of ns as "[]"]) simp_all
  next
    case (Inr bd)
    obtain ps where "fst (register_device bd tab2) = fst tab2 @ ps" "set ps \<subseteq> {bd}" "table_ok (register_device bd tab2)"
      by (rule register_device_ok [OF as(3)])
    with tab ns as e Inr a init_types(3) [of H "d\<lparr>ports := h3\<rparr>" bd d1] show thesis
      by (intro that [of ns as ps]) auto
  qed
qed

section \<open>Configuration registers\<close>

text \<open>
  The data port delivers the register selected through the address port, and reading
  changes no register.
\<close>

definition config_reads :: "'h pci_hw \<Rightarrow> ('h \<Rightarrow> u32 \<Rightarrow> u32) \<Rightarrow> bool" where
  "config_reads P cfg \<longleftrightarrow> (\<forall>h a. \<exists>h'. inl P 0xCFC (outl P 0xCF8 a h) = (cfg h a, h') \<and> cfg h' = cfg h)"

lemma read_config_spec:
  assumes "config_reads P cfg"
  obtains h' where "pci_read_config P bus dev fn offset h = (cfg h (pci_address bus dev fn offset), h')" "cfg h' = cfg h"
  using assms unfolding config_reads_def pci_read_config_def by blast

lemma read_bars_spec:
  assumes "config_reads P cfg"
  shows "cfg (snd (read_bars P bus dev fn is h)) = cfg h"
proof (induction "is" arbitrary: h)
  case (Cons i "is")
  obtain h' where "pci_read_config P bus dev fn (of_nat (PCI_BAR0 + i * 4)) h =
      (cfg h (pci_address bus dev fn (of_nat (PCI_BAR0 + i * 4))), h')" "cfg h' = cfg h"
    by (rule read_config_spec [OF assms])
  with Cons.IH [of h'] show ?case by (cases "read_bars P bus dev fn is h'") simp
qed simp

lemma pci_probe_spec:
  assumes "config_reads P cfg"
  shows "cfg (snd (pci_probe P bus dev fn h)) = cfg h"
    and "\<forall>d. fst (pci_probe P bus dev fn h) = Some d \<longrightarrow>
      class_code d = ucast (drop_bit 8 (cfg h (pci_address bus dev fn 0x08)) AND 0xFF)
      \<and> subclass_code d = ucast (drop_bit 16 (cfg h (pci_address bus dev fn 0x08)) AND 0xFF)
      \<and> pci_bus d = bus \<and> pci_dev d = dev \<and> pci_fn d = fn"
proof -
  note rd = read_config_spec [OF assms]
  obtain h1 where h1: "pci_read_config P bus dev fn PCI_VENDOR_ID h = (cfg h (pci_address bus dev fn PCI_VENDOR_ID), h1)"
    "cfg h1 = cfg h" by (rule rd)
  obtain h2 where h2: "pci_read_config P bus dev fn PCI_DEVICE_ID h1 = (cfg h1 (pci_address bus dev fn PCI_DEVICE_ID), h2)"
    "cfg h2 = cfg h1" by (rule rd)
  obtain h3 where h3: "pci_read_config P bus dev fn 0x09 h2 = (cfg h2 (pci_address bus dev fn 0x09), h3)"
    "cfg h3 = cfg h2" by (rule rd)
  obtain h4 where h4: "pci_read_config P bus dev fn 0x0A h3 = (cfg h3 (pci_address bus dev fn 0x0A), h4)"
    "cfg h4 = cfg h3" by (rule rd)
  obtain h5 where h5: "pci_read_config P bus dev fn 0x09 h4 = (cfg h4 (pci_address bus dev fn 0x09), h5)"
    "cfg h5 = cfg h4" by (rule rd)
  obtain bars h6 where h6: "read_bars P bus dev fn [0..<6] h5 = (bars, h6)" by fastforce
  have c6: "cfg h6 = cfg h5" using read_bars_spec [OF assms, of bus dev fn "[0..<6]" h5] by (simp add: h6)
  have off: "pci_address bus dev fn 0x09 = pci_address bus dev fn 0x08" "pci_address bus dev fn 0x0A = pci_address bus dev fn 0x08"
    by (simp_all add: pci_address_def)
  show "cfg (snd (pci_probe P bus dev fn h)) = cfg h"
    using h1 h2 h3 h4 h5 h6 c6 by (simp add: pci_probe_def pci_read_word_def pci_read_byte_def)
  show "\<forall>d. fst (pci_probe P bus dev fn h) = Some d \<longrightarrow>
      class_code d = ucast (drop_bit 8 (cfg h (pci_address bus dev fn 0x08)) AND 0xFF)
      \<and> subclass_code d = ucast (drop_bit 16 (cfg h (pci_address bus dev fn 0x08)) AND 0xFF)
      \<and> pci_bus d = bus \<and> pci_dev d = dev \<and> pci_fn d = fn"
    using h1 h2 h3 h4 h5 h6 c6
    by (auto simp: pci_probe_def pci_read_word_def pci_read_byte_def off)
qed

text \<open>What the kernel takes for the class code is the programming interface byte.\<close>

definition seen_as :: "('h \<Rightarrow> u32 \<Rightarrow> u32) \<Rightarrow> 'h \<Rightarrow> pci_device \<Rightarrow> bool" where
  "seen_as cfg h d \<longleftrightarrow>
     (let r = cfg h (pci_address (pci_bus d) (pci_dev d) (pci_fn d) 0x08)
      in class_code d = ucast (drop_bit 8 r AND 0xFF) \<and> subclass_code d = ucast (drop_bit 16 r AND 0xFF))"

lemma pci_scan_spec:
  assumes "config_reads P cfg" and "\<forall>d \<in> set devs. seen_as cfg h d"
  shows "\<forall>d \<in> set (fst (pci_scan P slots devs h)). seen_as cfg h d"
  using assms(2)
proof (induction slots arbitrary: devs h)
  case (Cons slot slots)
  obtain bus dev fn where s: "slot = (bus, dev, fn)" by (cases slot)
  obtain od h1 where p: "pci_probe P bus dev fn h = (od, h1)" by fastforce
  have c: "cfg h1 = cfg h" using pci_probe_spec(1) [OF assms(1), of bus dev fn h] by (simp add: p)
  have same: "seen_as cfg h1 = seen_as cfg h" by (rule ext) (simp add: seen_as_def c)
  have new: "\<forall>d. od = Some d \<longrightarrow> seen_as cfg h d"
    using pci_probe_spec(2) [OF assms(1), of bus dev fn h] by (auto simp: p seen_as_def)
  show ?case
    using Cons.IH [of devs h1] Cons.IH [of "devs @ [the od]" h1] Cons.prems new
    by (cases od) (auto simp: s p same)
qed simp

lemma pci_scan_length: "length devs \<le> 256 \<Longrightarrow> length (fst (pci_scan P slots devs h)) \<le> 256"
  by (induction slots arbitrary: devs h) (auto simp: PCI_MAX_DEVICES_def split: prod.splits option.splits)

section \<open>Starting up\<close>

text \<open>The PCI ports and the memory-mapped registers leave the ATA drive alone.\<close>

definition pci_quiet :: "'h pci_hw \<Rightarrow> ('h \<Rightarrow> 'v) \<Rightarrow> bool" where
  "pci_quiet P view \<longleftrightarrow> (\<forall>p h. view (snd (inl P p h)) = view h) \<and> (\<forall>p v h. view (outl P p v h) = view h)
     \<and> (\<forall>a h. view (snd (mmio_read P a h)) = view h) \<and> (\<forall>a v h. view (mmio_write P a v h) = view h)"

lemma quiet_config:
  assumes "pci_quiet P view"
  shows "view (snd (pci_read_config P bus dev fn offset h)) = view h"
    "view (pci_write_config P bus dev fn offset val h) = view h"
    "view (snd (pci_read_word P bus dev fn offset h)) = view h"
    "view (snd (pci_read_byte P bus dev fn offset h)) = view h"
    "view (pci_enable_memory_space P d h) = view h"
proof -
  have i: "view h' = view h" if "inl P p h = (v, h')" for p v h h'
    using assms that unfolding pci_quiet_def by (metis snd_conv)
  have o: "view (outl P p v h) = view h" for p v h using assms by (simp add: pci_quiet_def)
  show "view (snd (pci_read_config P bus dev fn offset h)) = view h"
    "view (pci_write_config P bus dev fn offset val h) = view h"
    "view (snd (pci_read_word P bus dev fn offset h)) = view h"
    "view (snd (pci_read_byte P bus dev fn offset h)) = view h"
    "view (pci_enable_memory_space P d h) = view h"
    by (cases "inl P 0xCFC (outl P 0xCF8 (pci_address bus dev fn offset) h)"
        "inl P 0xCFC (outl P 0xCF8 (pci_address (pci_bus d) (pci_dev d) (pci_fn d) PCI_COMMAND) h)" rule: prod.exhaust [case_product prod.exhaust];
      simp add: pci_read_config_def pci_write_config_def pci_read_word_def pci_read_byte_def
        pci_enable_memory_space_def i o)+
qed

lemma quiet_bars: "pci_quiet P view \<Longrightarrow> view (snd (read_bars P bus dev fn is h)) = view h"
proof (induction "is" arbitrary: h)
  case (Cons i "is")
  obtain v h1 where "pci_read_config P bus dev fn (of_nat (PCI_BAR0 + i * 4)) h = (v, h1)" by fastforce
  then show ?case
    using quiet_config(1) [OF Cons.prems, of bus dev fn "of_nat (PCI_BAR0 + i * 4)" h] Cons.IH [OF Cons.prems, of h1]
    by (cases "read_bars P bus dev fn is h1") simp
qed simp

lemma quiet_probe:
  assumes "pci_quiet P view"
  shows "view (snd (pci_probe P bus dev fn h)) = view h"
proof -
  have w: "view h' = view h" if "pci_read_word P bus dev fn o' h = (v, h')" for o' v h h'
    using quiet_config(3) [OF assms, of bus dev fn o' h] that by simp
  have b: "view h' = view h" if "pci_read_byte P bus dev fn o' h = (v, h')" for o' v h h'
    using quiet_config(4) [OF assms, of bus dev fn o' h] that by simp
  have r: "view h' = view h" if "read_bars P bus dev fn is h = (v, h')" for "is" v h h'
    using quiet_bars [OF assms, of bus dev fn "is" h] that by simp
  show ?thesis by (auto simp: pci_probe_def dest!: w b r split: prod.splits)
qed

lemma quiet_scan: "pci_quiet P view \<Longrightarrow> view (snd (pci_scan P slots devs h)) = view h"
proof (induction slots arbitrary: devs h)
  case (Cons slot slots)
  obtain bus dev fn where s: "slot = (bus, dev, fn)" by (cases slot)
  obtain od h1 where p: "pci_probe P bus dev fn h = (od, h1)" by fastforce
  have "view h1 = view h" using quiet_probe [OF Cons.prems, of bus dev fn h] by (simp add: p)
  then show ?case using Cons.IH [OF Cons.prems] by (cases od) (simp_all add: s p)
qed simp

lemma quiet_inits:
  assumes "pci_quiet P view"
  shows "view (snd (nvme_init P devs h)) = view h" "view (snd (ahci_init P devs h)) = view h"
proof -
  have q: "view (snd (mmio_read P a h)) = view h" "view (mmio_write P a v h) = view h" for a v h
    using assms by (simp_all add: pci_quiet_def)
  have m: "view h' = view h" if "mmio_read P a h = (v, h')" for a v h h' using q(1) [of a h] that by simp
  show "view (snd (nvme_init P devs h)) = view h"
    by (auto simp: nvme_init_def Let_def quiet_config(5) [OF assms] split: option.splits)
  show "view (snd (ahci_init P devs h)) = view h"
    by (auto simp: ahci_init_def Let_def quiet_config(5) [OF assms] q(2) dest!: m split: option.splits prod.splits)
qed

lemma quiet_register:
  assumes "\<forall>h. view (snd (init h)) = view h"
  shows "view (snd (register_controllers match init ds tab h)) = view h"
proof (induction ds arbitrary: tab h)
  case (Cons d ds)
  obtain r h1 where i: "init h = (r, h1)" by fastforce
  then have "view h1 = view h" using assms by (metis snd_conv)
  with Cons.IH i show ?case by (cases r) simp_all
qed simp

context ata_identify
begin

lemma drive_ok_ports: "view h' = view (ports d) \<Longrightarrow> drive_ok view cap (d\<lparr>ports := h'\<rparr>) = drive_ok view cap d"
    "view h' = view (ports d) \<Longrightarrow> stored view (d\<lparr>ports := h'\<rparr>) = stored view d"
  by (simp_all add: drive_ok_def stored_def)

lemma storage_init_keeps:
  assumes q: "pci_quiet P view" and ok: "drive_ok view cap d"
  shows "drive_ok view cap (snd (storage_manager_init H P d))"
    and "stored view (snd (storage_manager_init H P d)) = stored view d"
proof -
  obtain devs h1 where e: "pci_enumerate P (ports d) = (devs, h1)" by fastforce
  obtain tab1 h2 where r1: "register_controllers (is_storage PCI_SUBCLASS_NVME) (nvme_init P devs) devs ([], None) h1 = (tab1, h2)"
    by fastforce
  obtain tab2 h3 where r2: "register_controllers (is_storage PCI_SUBCLASS_SATA) (ahci_init P devs) devs tab1 h2 = (tab2, h3)"
    by fastforce
  have v1: "view h1 = view (ports d)" using quiet_scan [OF q, of pci_slots "[]" "ports d"] e by (simp add: pci_enumerate_def)
  have v2: "view h2 = view h1"
    using quiet_register [where view = view and init = "nvme_init P devs"] quiet_inits(1) [OF q] r1 by (metis snd_conv)
  have v3: "view h3 = view h2"
    using quiet_register [where view = view and init = "ahci_init P devs"] quiet_inits(2) [OF q] r2 by (metis snd_conv)
  note v = v3 [unfolded v2 v1]
  have ok3: "drive_ok view cap (d\<lparr>ports := h3\<rparr>)" using ok drive_ok_ports(1) [OF v] by simp
  obtain d' where d': "disk_init H (d\<lparr>ports := h3\<rparr>) = (0, d')" "drive_ok view cap d'"
    "stored view d' = stored view (d\<lparr>ports := h3\<rparr>)"
    by (rule disk_init_ready [OF ok3])
  have "snd (storage_manager_init H P d) = d'"
    by (simp add: storage_manager_init_def e r1 r2 ata_pio_init_def d'(1))
  then show "drive_ok view cap (snd (storage_manager_init H P d))"
    "stored view (snd (storage_manager_init H P d)) = stored view d"
    using d'(2,3) drive_ok_ports(2) [OF v] by simp_all
qed

text \<open>Start-up mounts a sound volume, unless the boot sector reported a disk error.\<close>

lemma boot_disk_spec:
  assumes "drive_ok view cap (disk (volume s))" and "0 < cap"
  obtains con d where "boot_disk H s = (True, set_disk d (s\<lparr>sys_console := con\<rparr>))"
    "drive_ok view cap d" "stored view d = stored view (disk (volume s))"
proof -
  obtain d1 where d1: "disk_init H (disk (volume s)) = (0, d1)" "drive_ok view cap d1"
    "stored view d1 = stored view (disk (volume s))"
    by (rule disk_init_ready [OF assms(1)])
  obtain rc d2 where d2: "disk_self_test H d1 = (rc, d2)" "drive_ok view cap d2" "stored view d2 = stored view d1"
    by (rule self_test_keeps [OF d1(2) assms(2)])
  have "\<exists>con. boot_disk H s = (True, set_disk d2 (s\<lparr>sys_console := con\<rparr>))"
    by (intro exI [of _ "sys_console (snd (boot_disk H s))"])
      (simp add: boot_disk_def Let_def d1(1) d2(1) on_console_def set_disk_def)
  with d1 d2 show thesis using that by auto
qed

lemma boot_volume_spec:
  assumes "drive_ok view cap (disk (volume s))" and fs: "geometry_ok fs" "volume_fits fs cap" "0 < unat (num_fats fs)"
    "boot_describes (stored view (disk (volume s))) fs" "base_lba fs = 0"
  obtains con v where "boot_volume H s = s\<lparr>sys_console := con, volume := v, fat_ready := True\<rparr>"
    "mounted (drive_ok view cap) cap v" "g_fs v = fs" "stored view (disk v) = stored view (disk (volume s))"
    "fat12_get_cwd v = [0x2F]"
proof -
  obtain v where v: "fat12_init (ata_disk H) (base_lba fs) (volume s) = (Inr (), v)" "g_fs v = fs"
    "mounted (drive_ok view cap) cap v" "stored view (disk v) = stored view (disk (volume s))" "g_cwd v = [0x2F]"
    by (rule init_spec [OF assms(1-5)]) blast
  have "\<exists>con. boot_volume H s = s\<lparr>sys_console := con, volume := v, fat_ready := True\<rparr>"
    using v(1) fs(5)
    by (intro exI [of _ "sys_console (boot_volume H s)"])
      (simp add: boot_volume_def Let_def on_console_def commands_set_fat_ready_def)
  with v show thesis using that by (auto simp: fat12_get_cwd_def)
qed

lemma kernel_boot_spec:
  assumes q: "pci_quiet P view" and ok: "drive_ok view cap (disk (volume s))"
    and fs: "geometry_ok fs" "volume_fits fs cap" "0 < unat (num_fats fs)"
    "boot_describes (stored view (disk (volume s))) fs" "base_lba fs = 0"
    and nf: "\<not> (detect_boot_mode magic info = BOOT_MODE_BIOS \<and> boot_method (bootlog_defaults (sys_bootlog s)) = 2)"
  shows "\<exists>s'. kernel_boot H P magic info s = s' \<and> fat_ready s' \<and> cpu_halted s' = cpu_halted s
    \<and> mounted (drive_ok view cap) cap (volume s') \<and> g_fs (volume s') = fs
    \<and> stored view (disk (volume s')) = stored view (disk (volume s)) \<and> fat12_get_cwd (volume s') = [0x2F]"
proof -
  let ?s1 = "bootlog_init (s\<lparr>sys_boot_mode := detect_boot_mode magic info\<rparr>)"
  let ?s2 = "boot_storage H P (boot_banner ?s1)"
  obtain devs primary d1 where st: "storage_manager_init H P (disk (volume s)) = ((devs, primary), d1)"
    by (metis prod.collapse)
  have d1: "drive_ok view cap d1" "stored view d1 = stored view (disk (volume s))"
    using storage_init_keeps [OF q ok] by (simp_all add: st)
  have s2: "sys_boot_mode ?s2 = detect_boot_mode magic info" "sys_bootlog ?s2 = bootlog_defaults (sys_bootlog s)"
    "disk (volume ?s2) = d1" "cpu_halted ?s2 = cpu_halted s"
    by (simp_all add: boot_storage_def boot_banner_def bootlog_init_def Let_def on_console_def set_disk_def st)
  have nf': "\<not> (sys_boot_mode ?s2 = BOOT_MODE_BIOS \<and> boot_method (sys_bootlog ?s2) = 2)" using nf unfolding s2(1,2) .
  define s3 where "s3 = (if sys_boot_mode ?s2 = BOOT_MODE_BIOS
    then on_console (number_line ''Detected memory: '' (memory_mb (sys_bootlog ?s2)) ('' MB'' @ newline)) ?s2 else ?s2)"
  have v3: "disk (volume s3) = d1" "cpu_halted s3 = cpu_halted s" using s2(3,4) by (simp_all add: s3_def on_console_def)
  have "0 < unat (total_clusters fs) * unat (sectors_per_cluster fs)"
    using geometry_simps(1,4) [OF fs(1)] by (rule mult_pos_pos [rotated])
  then have capp: "0 < cap" using fs(2) unfolding volume_fits_def volume_sectors_def by linarith
  have ok3: "drive_ok view cap (disk (volume s3))" using d1(1) v3(1) by simp
  obtain con d4 where s4: "boot_disk H s3 = (True, set_disk d4 (s3\<lparr>sys_console := con\<rparr>))"
    "drive_ok view cap d4" "stored view d4 = stored view (disk (volume s3))"
    by (rule boot_disk_spec [OF ok3 capp])
  let ?s4 = "set_disk d4 (s3\<lparr>sys_console := con\<rparr>)"
  have v4: "disk (volume ?s4) = d4" "cpu_halted ?s4 = cpu_halted s" using v3(2) by (simp_all add: set_disk_def)
  have ok4: "drive_ok view cap (disk (volume ?s4))" "boot_describes (stored view (disk (volume ?s4))) fs"
    using s4(2,3) fs(4) d1(2) v3(1) v4(1) by simp_all
  obtain con5 v5 where s5: "boot_volume H ?s4 = ?s4\<lparr>sys_console := con5, volume := v5, fat_ready := True\<rparr>"
    "mounted (drive_ok view cap) cap v5" "g_fs v5 = fs" "stored view (disk v5) = stored view (disk (volume ?s4))"
    "fat12_get_cwd v5 = [0x2F]"
    by (rule boot_volume_spec [OF ok4(1) fs(1-3) ok4(2) fs(5)])
  have "kernel_boot H P magic info s =
      on_console (say (''Type '' @ [CHR 0x27] @ ''help'' @ [CHR 0x27] @ '' for available commands'' @ newline @ newline))
        (?s4\<lparr>sys_console := con5, volume := v5, fat_ready := True\<rparr>)"
    unfolding kernel_boot_def Let_def if_not_P [OF nf'] s3_def [symmetric] s4(1) by (simp only: prod.case if_True s5(1))
  then show ?thesis using s5 s4(3) d1(2) v3(1) v4 by (simp add: on_console_def)
qed

end

end
