(* ===== verification/Boot_Example.thy ===== *)
theory Boot_Example
  imports System_Example Boot_Facts
begin

text \<open>
  A machine to start on: the drive of the examples with an empty floppy on it, and PCI
  configuration registers that all read \<open>0x01080200\<close>, an NVMe controller in every slot.
\<close>

definition nvme_slots :: "'h pci_hw" where
  "nvme_slots =
     \<lparr>inl = (\<lambda>p h. (0x01080200, h)), outl = (\<lambda>p v h. h), mmio_read = (\<lambda>a h. (0, h)), mmio_write = (\<lambda>a v h. h)\<rparr>"

lemma nvme_slots_hw: "pci_quiet nvme_slots view" "config_reads nvme_slots (\<lambda>h a. 0x01080200)"
  by (simp_all add: pci_quiet_def config_reads_def nvme_slots_def)

definition a_build :: build_info where
  "a_build = \<lparr>build_date = [], build_time = []\<rparr>"

definition floppy_start :: "ata_view disk_state sys" where
  "floppy_start = start_sys False blank_volume"

definition floppy_boot :: "ata_view disk_state sys" where
  "floppy_boot = kernel_boot drive nvme_slots MULTIBOOT_BOOTLOADER_MAGIC None floppy_start"

lemma floppy_device: "ata_identify drive here 2880"
  by (rule ref_ata_identify) simp_all

lemma floppy_start_ok:
  "drive_ok here 2880 (disk (volume floppy_start))" "0 < unat (num_fats floppy_fs)"
  "boot_describes (stored here (disk (volume floppy_start))) floppy_fs" "base_lba floppy_fs = 0"
  "\<not> (detect_boot_mode MULTIBOOT_BOOTLOADER_MAGIC None = BOOT_MODE_BIOS
      \<and> boot_method (bootlog_defaults (sys_bootlog floppy_start)) = 2)"
proof -
  have v: "disk (volume floppy_start) = blank_drive" by (simp add: floppy_start_def start_sys_def blank_volume_def)
  show "drive_ok here 2880 (disk (volume floppy_start))"
    "boot_describes (stored here (disk (volume floppy_start))) floppy_fs"
    unfolding v by (rule blank_drive_ok, rule blank_boot)
  show "0 < unat (num_fats floppy_fs)" "base_lba floppy_fs = 0" by (simp_all add: floppy_fs_def)
  show "\<not> (detect_boot_mode MULTIBOOT_BOOTLOADER_MAGIC None = BOOT_MODE_BIOS
      \<and> boot_method (bootlog_defaults (sys_bootlog floppy_start)) = 2)"
    by (simp add: floppy_start_def start_sys_def bootlog_defaults_def BOOTLOG_MAGIC_def)
qed

lemma floppy_boot_runs: "\<not> cpu_halted floppy_boot"
  using ata_identify.kernel_boot_spec [OF floppy_device nvme_slots_hw(1) floppy_start_ok(1) floppy_geometry(1,2)
      floppy_start_ok(2-5)]
  by (auto simp: floppy_boot_def) (simp add: floppy_start_def start_sys_def)

end
