(* ===== verification/Boot_Properties.thy ===== *)
theory Boot_Properties
  imports Boot_Example
begin

text \<open>
  The properties of start-up: what is mounted, how the boot mode is found, what the
  storage table holds, and which controllers the PCI enumeration misses.
\<close>

text \<open>
  C9. Start-up mounts the volume: on a drive that keeps the PIO protocol, identifies itself
  and holds a sound volume, with PCI registers that do not disturb it, and unless the boot
  sector reported a disk error in BIOS mode, the kernel comes up with the file system
  ready, that volume mounted at the root directory, and no sector changed.
\<close>

theorem boot_mounts_volume:
  assumes "ata_identify H view cap" and "pci_quiet P view" and "drive_ok view cap (disk (volume s))"
    and "geometry_ok fs" and "volume_fits fs cap" and "0 < unat (num_fats fs)"
    and "boot_describes (stored view (disk (volume s))) fs" and "base_lba fs = 0"
    and "\<not> (detect_boot_mode magic info = BOOT_MODE_BIOS \<and> boot_method (bootlog_defaults (sys_bootlog s)) = 2)"
  shows "\<exists>s'. kernel_boot H P magic info s = s' \<and> fat_ready s' \<and> cpu_halted s' = cpu_halted s
    \<and> mounted (drive_ok view cap) cap (volume s') \<and> g_fs (volume s') = fs
    \<and> stored view (disk (volume s')) = stored view (disk (volume s)) \<and> fat12_get_cwd (volume s') = [0x2F]"
  using ata_identify.kernel_boot_spec [OF assms] .

theorem boot_mounts_volume_witness: "fat_ready floppy_boot \<and> g_fs (volume floppy_boot) = floppy_fs"
  using boot_mounts_volume [OF floppy_device nvme_slots_hw(1) floppy_start_ok(1) floppy_geometry(1,2) floppy_start_ok(2-5)]
  by (auto simp: floppy_boot_def)

text \<open>
  C30. The boot mode: the kernel takes UEFI mode exactly when the multiboot magic is right,
  an information structure is there, its flag bit 2 is set, its command line pointer is not
  0 and the command line contains \<open>bootmode=uefi\<close> as a contiguous part; without the magic
  the mode is unknown, in all other cases BIOS.
\<close>

theorem boot_mode_detection:
  "detect_boot_mode magic info =
     (if magic \<noteq> MULTIBOOT_BOOTLOADER_MAGIC then BOOT_MODE_UNKNOWN
      else if \<exists>mb cmd. info = Some mb \<and> bit (mb_flags mb) 2 \<and> mb_cmdline mb = Some cmd
                \<and> sublist (lit ''bootmode=uefi'') (cstr cmd)
           then BOOT_MODE_UEFI else BOOT_MODE_BIOS)"
proof -
  have c: "cstr (lit ''bootmode=uefi'') = lit ''bootmode=uefi''" by (intro cstr_idem) (simp add: lit_def)
  have sc: "string_contains (Some cmd) (Some (lit ''bootmode=uefi'')) \<longleftrightarrow> sublist (lit ''bootmode=uefi'') (cstr cmd)" for cmd
    using contains_from_sublist [of "lit ''bootmode=uefi''" cmd]
    by (simp add: string_contains_def strlen_impl_cstr c) (simp add: lit_def)
  have b: "w AND 4 = 0 \<longleftrightarrow> \<not> bit w 2" for w :: u32
    using and_exp_eq_0_iff_not_bit [of w 2] by simp
  show ?thesis
    by (auto simp: detect_boot_mode_def b sc split: option.splits)
qed

text \<open>
  C31. The storage table: whatever the hardware answers, it holds at most 16 devices, NVMe
  controllers first, then AHCI controllers, then the ATA drive, and the primary device is
  the first of them, or none when the table is empty.
\<close>

theorem storage_table_bounded:
  "\<exists>ns as ps primary d'. storage_manager_init H P d = ((ns @ as @ ps, primary), d')
     \<and> length (ns @ as @ ps) \<le> STORAGE_MAX_DEVICES
     \<and> primary = (if ns @ as @ ps = [] then None else Some 0)
     \<and> dev_type ` set ns \<subseteq> {BLOCK_DEVICE_NVME} \<and> dev_type ` set as \<subseteq> {BLOCK_DEVICE_AHCI}
     \<and> dev_type ` set ps \<subseteq> {BLOCK_DEVICE_ATA}"
proof -
  obtain tab d' where t: "storage_manager_init H P d = (tab, d')" by fastforce
  obtain ns as ps where "fst tab = ns @ as @ ps" "\<forall>x \<in> set ns. dev_type x = BLOCK_DEVICE_NVME"
    "\<forall>x \<in> set as. dev_type x = BLOCK_DEVICE_AHCI" "\<forall>x \<in> set ps. dev_type x = BLOCK_DEVICE_ATA" "table_ok tab"
    by (rule storage_table_spec [OF t]) blast
  then show ?thesis
    by (intro exI [of _ ns] exI [of _ as] exI [of _ ps] exI [of _ "snd tab"] exI [of _ d'])
      (auto simp: t table_ok_def STORAGE_MAX_DEVICES_def prod_eq_iff)
qed

text \<open>
  C29. NVMe controllers are missed: the class code is read at offset 9 of the configuration
  space, which is the programming interface; 2 for every NVM Express controller. On
  hardware with working configuration registers whose controllers of subclass 8 are NVM
  Express ones, no NVMe device is ever registered.
\<close>

theorem nvme_controllers_missed:
  assumes "config_reads P cfg"
    and "\<forall>bus dev fn. (ucast (drop_bit 16 (cfg (ports d) (pci_address bus dev fn 0x08)) AND 0xFF) :: u8) = PCI_SUBCLASS_NVME
      \<longrightarrow> (ucast (drop_bit 8 (cfg (ports d) (pci_address bus dev fn 0x08)) AND 0xFF) :: u8) = 0x02"
  shows "BLOCK_DEVICE_NVME \<notin> dev_type ` set (fst (fst (storage_manager_init H P d)))"
proof -
  obtain tab d' where t: "storage_manager_init H P d = (tab, d')" by fastforce
  obtain ns as ps where s: "fst tab = ns @ as @ ps" "\<forall>x \<in> set as. dev_type x = BLOCK_DEVICE_AHCI"
    "\<forall>x \<in> set ps. dev_type x = BLOCK_DEVICE_ATA"
    "(\<forall>p \<in> set (fst (pci_enumerate P (ports d))). \<not> is_storage PCI_SUBCLASS_NVME p) \<longrightarrow> ns = []"
    by (rule storage_table_spec [OF t]) blast
  have "\<forall>p \<in> set (fst (pci_enumerate P (ports d))). seen_as cfg (ports d) p"
    unfolding pci_enumerate_def by (rule pci_scan_spec [OF assms(1)]) simp
  then have "\<not> is_storage PCI_SUBCLASS_NVME p" if "p \<in> set (fst (pci_enumerate P (ports d)))" for p
    using that assms(2) [rule_format, of "pci_bus p" "pci_dev p" "pci_fn p"]
    by (auto simp: seen_as_def is_storage_def Let_def)
  with s(4) have "ns = []" by blast
  with s t show ?thesis by auto
qed

theorem nvme_controllers_missed_witness:
  "BLOCK_DEVICE_NVME \<notin> dev_type ` set (fst (fst (storage_manager_init drive nvme_slots blank_drive)))"
  by (rule nvme_controllers_missed [OF nvme_slots_hw(2)]) simp

end
