(* ===== verification/Shell_Dispatch.thy ===== *)
theory Shell_Dispatch
  imports Commands
begin

text \<open>
  The command interpreter as a table: the chain of prefix comparisons in
  \<open>execute_command\<close> looks the first word of the line up in \<open>command_table\<close> and calls the
  handler with what follows the word. \<open>echo\<close> is a command only with a blank behind it.
\<close>

definition ends_word :: "byte \<Rightarrow> bool" where
  "ends_word c \<longleftrightarrow> c = 0 \<or> c = 0x20 \<or> c = 0x0A"

definition first_word :: "byte list \<Rightarrow> byte list" where
  "first_word line = takeWhile (\<lambda>c. \<not> ends_word c) (skip_blanks line)"

definition after_word :: "byte list \<Rightarrow> byte list" where
  "after_word line = dropWhile (\<lambda>c. \<not> ends_word c) (skip_blanks line)"

definition command_table ::
    "'h ata_hw \<Rightarrow> build_info \<Rightarrow> (byte list \<times> (byte list \<Rightarrow> 'h disk_state sys \<Rightarrow> 'h disk_state sys option)) list" where
  "command_table H B =
     [(lit ''clear'', \<lambda>args s. Some (handle_clear s)),
      (lit ''fetch'', \<lambda>args s. Some (handle_fetch B s)),
      (lit ''disk'', \<lambda>args s. Some (handle_disk H s)),
      (lit ''ls'', handle_ls (ata_disk H)),
      (lit ''dir'', handle_ls (ata_disk H)),
      (lit ''pwd'', \<lambda>args s. Some (handle_pwd s)),
      (lit ''cd'', handle_cd (ata_disk H)),
      (lit ''cat'', handle_cat (ata_disk H)),
      (lit ''touch'', handle_touch (ata_disk H)),
      (lit ''write'', handle_write_command (ata_disk H)),
      (lit ''mkdir'', handle_mkdir_command (ata_disk H)),
      (lit ''rm'', handle_rm_command (ata_disk H)),
      (lit ''nano'', handle_nano_command (ata_disk H)),
      (lit ''theme'', \<lambda>args s. Some (handle_theme_command args s)),
      (lit ''fsstat'', \<lambda>args s. Some (handle_fsstat_command s)),
      (lit ''shutdown'', \<lambda>args s. Some (handle_shutdown (ata_disk H) s)),
      (lit ''bootlog'', \<lambda>args s. Some (handle_bootlog_command s)),
      (lit ''storage'', \<lambda>args s. Some (handle_storage_command s)),
      (lit ''help'', \<lambda>args s. Some (handle_help s))]"

definition run_command ::
    "'h ata_hw \<Rightarrow> build_info \<Rightarrow> byte list \<Rightarrow> 'h disk_state sys \<Rightarrow> 'h disk_state sys option" where
  "run_command H B line s =
     (if char_at line 0 = 0 then Some s
      else if first_word line = lit ''echo'' \<and> char_at (after_word line) 0 = 0x20
      then Some (handle_echo (tl (after_word line)) s)
      else case map_of (command_table H B) (first_word line) of
             Some handler \<Rightarrow> handler (after_word line) s
           | None \<Rightarrow> Some (on_console (\<lambda>con. say newline (console_print (Some (skip_blanks line)) (say ''Unknown command: '' con))) s))"

section \<open>Words\<close>

lemma lit_simps: "lit [] = []" "lit (c # s) = of_char c # lit s" "lit (a @ b) = lit a @ lit b"
  by (simp_all add: lit_def)

lemma of_char_byte_eq: "(of_char c :: byte) = of_char d \<longleftrightarrow> c = d"
proof
  assume e: "(of_char c :: byte) = of_char d"
  have "word_of_nat (of_char c) = (word_of_nat (of_char d) :: byte)" using e by (simp only: of_nat_of_char)
  then have "take_bit 8 (of_char c :: nat) = take_bit 8 (of_char d)" by (simp only: word_of_nat_eq_iff) simp
  then have "(of_char c :: nat) = of_char d" by (simp only: take_bit_eq_mod) simp
  then show "c = d" by (simp add: of_char_eq_iff)
qed simp

lemma lit_eq_iff [simp]: "lit a = lit b \<longleftrightarrow> a = b"
proof -
  have "inj (of_char :: char \<Rightarrow> byte)" by (rule injI) (simp add: of_char_byte_eq)
  then show ?thesis unfolding lit_def by (simp add: inj_map_eq_map)
qed

text \<open>A keyword: plain letters, none of them an end of a word.\<close>

definition keyword :: "string \<Rightarrow> bool" where
  "keyword kw \<longleftrightarrow> kw \<noteq> [] \<and> (\<forall>c \<in> set (lit kw). \<not> ends_word c)"

lemma take_cstr_eq:
  "0 \<notin> set k \<Longrightarrow> take (length k) (cstr l) = k \<longleftrightarrow> (\<exists>r. l = k @ r)"
proof (induction k arbitrary: l)
  case (Cons c k)
  then show ?case by (cases l) auto
qed auto

lemma strncmp_prefix: "0 \<notin> set (lit kw) \<Longrightarrow> strncmp_impl l (lit kw) (length kw) = 0 \<longleftrightarrow> (\<exists>r. l = lit kw @ r)"
  using take_cstr_eq [of "lit kw" l] cstr_idem [of "lit kw"] by (auto simp: strncmp_impl_eq_0)

lemma takeWhile_word:
  assumes "\<forall>c \<in> set k. P c"
  shows "takeWhile P l = k \<longleftrightarrow> (\<exists>r. l = k @ r \<and> (r = [] \<or> \<not> P (hd r)))"
proof
  assume t: "takeWhile P l = k"
  have "l = k @ dropWhile P l" using t takeWhile_dropWhile_id [of P l] by simp
  moreover have "dropWhile P l = [] \<or> \<not> P (hd (dropWhile P l))" using hd_dropWhile by blast
  ultimately show "\<exists>r. l = k @ r \<and> (r = [] \<or> \<not> P (hd r))" by blast
next
  assume "\<exists>r. l = k @ r \<and> (r = [] \<or> \<not> P (hd r))"
  then obtain r where r: "l = k @ r" "r = [] \<or> \<not> P (hd r)" by blast
  have "takeWhile P r = []" using r(2) by (cases r) auto
  then show "takeWhile P l = k" using assms r(1) by (simp add: takeWhile_append2)
qed

lemma char_at_append: "char_at (k @ r) (length k) = char_at r 0"
  by (cases r) (simp_all add: char_at_def nth_append)

lemma keyword_facts: "keyword kw \<Longrightarrow> 0 \<notin> set (lit kw)" "keyword kw \<Longrightarrow> \<forall>c \<in> set (lit kw). \<not> ends_word c"
  by (auto simp: keyword_def ends_word_def)

lemma is_command_word:
  assumes "keyword kw"
  shows "is_command kw l \<longleftrightarrow> takeWhile (\<lambda>c. \<not> ends_word c) l = lit kw"
proof -
  have e: "(char_at l (length kw) = 0 \<or> char_at l (length kw) = 0x20 \<or> char_at l (length kw) = 0x0A) \<longleftrightarrow> r = [] \<or> ends_word (hd r)"
    if "l = lit kw @ r" for r
    using char_at_append [of "lit kw" r] that by (cases r) (auto simp: ends_word_def)
  show ?thesis
    unfolding is_command_def strncmp_prefix [OF keyword_facts(1) [OF assms]]
      takeWhile_word [of "lit kw", OF keyword_facts(2) [OF assms]]
    using e by auto
qed

lemma after_keyword:
  assumes "takeWhile (\<lambda>c. \<not> ends_word c) l = lit kw"
  shows "drop (length kw) l = dropWhile (\<lambda>c. \<not> ends_word c) l"
  using assms by (metis dropWhile_eq_drop length_lit)

lemma echo_word:
  "strncmp_impl l (lit ''echo '') 5 = 0 \<longleftrightarrow>
     takeWhile (\<lambda>c. \<not> ends_word c) l = lit ''echo'' \<and> char_at (dropWhile (\<lambda>c. \<not> ends_word c) l) 0 = 0x20"
proof -
  have k: "\<forall>c \<in> set (lit ''echo''). \<not> ends_word c" by (simp add: ends_word_def lit_simps)
  have n: "length ''echo '' = 5" by simp
  have p: "strncmp_impl l (lit ''echo '') 5 = 0 \<longleftrightarrow> (\<exists>r. l = lit ''echo '' @ r)"
    using strncmp_prefix [of "''echo ''" l, unfolded n] by (simp add: lit_simps)
  show ?thesis
  proof
    assume "strncmp_impl l (lit ''echo '') 5 = 0"
    then obtain r where "l = lit ''echo'' @ 0x20 # r" using p by (auto simp: lit_simps)
    then show "takeWhile (\<lambda>c. \<not> ends_word c) l = lit ''echo'' \<and> char_at (dropWhile (\<lambda>c. \<not> ends_word c) l) 0 = 0x20"
      by (simp add: ends_word_def lit_simps)
  next
    assume w: "takeWhile (\<lambda>c. \<not> ends_word c) l = lit ''echo'' \<and> char_at (dropWhile (\<lambda>c. \<not> ends_word c) l) 0 = 0x20"
    obtain r where d: "dropWhile (\<lambda>c. \<not> ends_word c) l = 0x20 # r"
      using w by (cases "dropWhile (\<lambda>c. \<not> ends_word c) l") auto
    have "l = lit ''echo'' @ 0x20 # r" using w d takeWhile_dropWhile_id [of "\<lambda>c. \<not> ends_word c" l] by metis
    then have "l = lit ''echo '' @ r" by (simp add: lit_simps)
    then show "strncmp_impl l (lit ''echo '') 5 = 0" using p by blast
  qed
qed

lemma command_keywords [simp]:
  "keyword ''clear''" "keyword ''fetch''" "keyword ''disk''" "keyword ''ls''" "keyword ''dir''" "keyword ''pwd''"
  "keyword ''cd''" "keyword ''cat''" "keyword ''touch''" "keyword ''write''" "keyword ''mkdir''" "keyword ''rm''"
  "keyword ''nano''" "keyword ''theme''" "keyword ''fsstat''" "keyword ''shutdown''" "keyword ''bootlog''"
  "keyword ''storage''" "keyword ''help''"
  by (simp_all add: keyword_def ends_word_def lit_simps)

section \<open>The dispatch\<close>

lemma execute_command_dispatch: "execute_command H B line s = run_command H B line s"
proof (cases "char_at line 0 = 0")
  case False
  let ?l = "skip_blanks line" and ?w = "first_word line"
  have k: "is_command kw ?l \<longleftrightarrow> ?w = lit kw" if "keyword kw" for kw
    using is_command_word [OF that] by (simp add: first_word_def)
  have a: "drop (length kw) ?l = after_word line" if "?w = lit kw" for kw
    using after_keyword [of ?l kw] that by (simp add: first_word_def after_word_def)
  have e: "strncmp_impl ?l (lit ''echo '') 5 = 0 \<longleftrightarrow> ?w = lit ''echo'' \<and> char_at (after_word line) 0 = 0x20"
    using echo_word [of ?l] by (simp add: first_word_def after_word_def)
  have e5: "drop 5 ?l = tl (after_word line)" if "?w = lit ''echo''"
  proof -
    have "drop 5 ?l = tl (drop (length ''echo'') ?l)" by (simp add: eval_nat_numeral tl_drop drop_Suc)
    then show ?thesis by (simp only: a [OF that])
  qed
  show ?thesis
  proof (cases "?w = lit ''echo'' \<and> char_at (after_word line) 0 = 0x20")
    case True
    then show ?thesis using False by (simp add: execute_command_def run_command_def Let_def k e e5)
  next
    case other: False
    have e0: "strncmp_impl ?l (lit ''echo '') 5 \<noteq> 0" using e other by blast
    have al: "?w = lit ''ls'' \<Longrightarrow> drop 2 ?l = after_word line" "?w = lit ''dir'' \<Longrightarrow> drop 3 ?l = after_word line"
      "?w = lit ''cd'' \<Longrightarrow> drop 2 ?l = after_word line" "?w = lit ''cat'' \<Longrightarrow> drop 3 ?l = after_word line"
      "?w = lit ''touch'' \<Longrightarrow> drop 5 ?l = after_word line" "?w = lit ''write'' \<Longrightarrow> drop 5 ?l = after_word line"
      "?w = lit ''mkdir'' \<Longrightarrow> drop 5 ?l = after_word line" "?w = lit ''rm'' \<Longrightarrow> drop 2 ?l = after_word line"
      "?w = lit ''nano'' \<Longrightarrow> drop 4 ?l = after_word line" "?w = lit ''theme'' \<Longrightarrow> drop 5 ?l = after_word line"
      using a [of "''ls''"] a [of "''dir''"] a [of "''cd''"] a [of "''cat''"] a [of "''touch''"] a [of "''write''"]
        a [of "''mkdir''"] a [of "''rm''"] a [of "''nano''"] a [of "''theme''"] by (simp_all add: eval_nat_numeral)
    show ?thesis
      unfolding run_command_def if_not_P [OF False] if_not_P [OF other]
      by (simp add: execute_command_def False Let_def k e0 command_table_def al)
  qed
qed (simp add: execute_command_def run_command_def)

end
