(* ===== verification/Screen_Safety.thy ===== *)
theory Screen_Safety
  imports Kernel Nano_Screen_Facts Shell_Dispatch
begin

text \<open>
  Every operation of the system stores into the text buffer only inside the screen and
  leaves the cursor on it. \<open>safe_to a b\<close> relates the console before and after an
  operation; the rules of \<open>safe_intros\<close> follow the structure of the printing code.
\<close>

named_theorems safe_intros

definition safe_to :: "console \<Rightarrow> console \<Rightarrow> bool" where
  "safe_to a b \<longleftrightarrow> (con_ok a \<longrightarrow> con_ok b \<and> beyond_kept (con_vga a) (con_vga b))"

lemma safe_refl [simp, intro!, safe_intros]: "safe_to a a"
  by (simp add: safe_to_def)

lemma safe_trans: "safe_to a b \<Longrightarrow> safe_to b c \<Longrightarrow> safe_to a c"
  by (auto simp: safe_to_def intro: beyond_trans)

lemma safe_frame: "con_frame b c \<Longrightarrow> safe_to a b \<Longrightarrow> safe_to a c"
  by (auto simp: safe_to_def con_frame_def intro: beyond_trans)

lemma safe_prints [safe_intros]:
  "safe_to a b \<Longrightarrow> safe_to a (console_print str b)" "safe_to a b \<Longrightarrow> safe_to a (console_putchar c b)"
  "safe_to a b \<Longrightarrow> safe_to a (print_unsigned v b)" "safe_to a b \<Longrightarrow> safe_to a (print_decimal v b)"
  "safe_to a b \<Longrightarrow> safe_to a (vga_clear b)"
  by (erule safe_frame [rotated], rule console_print_frame console_putchar_frame print_unsigned_frame
      print_decimal_frame vga_clear_frame)+

lemma safe_theme [safe_intros]: "safe_to a b \<Longrightarrow> safe_to a (console_set_theme t b)"
  by (simp add: safe_to_def console_set_theme_def con_ok_def)

lemma safe_fold [safe_intros]: "(\<And>x c. x \<in> set xs \<Longrightarrow> safe_to c (f x c)) \<Longrightarrow> safe_to a b \<Longrightarrow> safe_to a (fold f xs b)"
proof (induction xs arbitrary: b)
  case (Cons x xs)
  have "safe_to a (f x b)" using Cons.prems(1) [of x b] Cons.prems(2) by (auto intro: safe_trans)
  with Cons show ?case by simp
qed simp

lemma safe_if [safe_intros]: "safe_to a b \<Longrightarrow> safe_to a c \<Longrightarrow> safe_to a (if P then b else c)"
  by simp

lemma safe_let [safe_intros]: "safe_to a (f x) \<Longrightarrow> safe_to a (Let x f)"
  by (simp add: Let_def)

section \<open>The pieces the commands print\<close>

lemma safe_pieces [safe_intros]:
  "safe_to a b \<Longrightarrow> safe_to a (print_fs_error code b)" "safe_to a b \<Longrightarrow> safe_to a (failed what code b)"
  "safe_to a b \<Longrightarrow> safe_to a (info_line label value b)" "safe_to a b \<Longrightarrow> safe_to a (number_line label n t b)"
  "safe_to a b \<Longrightarrow> safe_to a (failed_code what result b)" "safe_to a b \<Longrightarrow> safe_to a (dump_byte m i b)"
  "safe_to a b \<Longrightarrow> safe_to a (stats_text st b)" "safe_to a b \<Longrightarrow> safe_to a (storage_line i dev b)"
  "safe_to a b \<Longrightarrow> safe_to a (theme_list_line i b)" "safe_to a b \<Longrightarrow> safe_to a (bootlog_text bl b)"
  unfolding print_fs_error_def failed_def info_line_def number_line_def failed_code_def dump_byte_def
    stats_text_def storage_line_def theme_list_line_def bootlog_text_def Let_def
  by (intro safe_intros; assumption)+

lemma safe_dump [safe_intros]: "safe_to a b \<Longrightarrow> safe_to a (dump_sector m b)"
  unfolding dump_sector_def by (intro safe_intros)

lemma safe_theme_text [safe_intros]: "safe_to a b \<Longrightarrow> safe_to a (theme_text args b)"
  by (auto simp: theme_text_def Let_def intro!: safe_intros split: option.splits)

section \<open>Directory listings\<close>

lemma safe_ls_callback: "safe_to a (snd ctx) \<Longrightarrow> safe_to a (snd (snd (ls_callback entry ctx)))"
  by (cases ctx) (auto simp: ls_callback_def Let_def intro!: safe_intros)

text \<open>An invariant of the callback's context is kept by the iteration.\<close>

lemma iterate_scan_inv:
  "(\<And>e c. I c \<Longrightarrow> I (snd (f e c))) \<Longrightarrow> I ctx \<Longrightarrow> I (snd (iterate_scan m i left (Some f) ctx))"
proof (induction left arbitrary: i ctx)
  case (Suc left)
  obtain stop ctx' where f: "f (fat12_copy_entry_info (entry_at m (FAT12_DIR_ENTRY_SIZE * i))) ctx = (stop, ctx')" by fastforce
  have "I ctx'" using Suc.prems(1) [OF Suc.prems(2)] f by (metis snd_conv)
  then show ?case using Suc f by (simp add: Let_def)
qed simp

lemma iterate_chain_inv:
  assumes "\<And>e c. I c \<Longrightarrow> I (snd (f e c))"
  shows "iterate_chain D cb cluster ctx s = Some q \<Longrightarrow> cb = Some f \<longrightarrow> I ctx \<longrightarrow> I (fst (snd q))"
proof (erule iterate_chain.raw_induct [rotated], goal_cases)
  case (1 ic cb cluster ctx s q)
  have scan: "I c'" if "iterate_scan m i n (Some f) c = (stop, c')" "I c" for m i n c stop c'
    using iterate_scan_inv [where I = I and f = f, OF assms that(2), of m i n] that(1) by simp
  show ?case
    using 1(2) by (auto dest!: 1(1) dest: scan split: if_splits prod.splits)
qed

lemma iterate_inv:
  assumes "\<And>e c. I c \<Longrightarrow> I (snd (f e c))" and "I ctx"
  shows "fat12_iterate_directory_internal D dir (Some f) ctx s = Some (r, ctx', s') \<Longrightarrow> I ctx'"
    and "fat12_iterate_current_directory D (Some f) ctx s = Some (r, ctx', s') \<Longrightarrow> I ctx'"
    and "fat12_iterate_path D path (Some f) ctx s = Some (r, ctx', s') \<Longrightarrow> I ctx'"
proof -
  have scan: "I c'" if "iterate_scan m i n (Some f) ctx = (stop, c')" for m i n stop c'
    using iterate_scan_inv [where I = I and f = f, OF assms, of m i n] that by simp
  have int: "I ctx'" if "fat12_iterate_directory_internal D dir (Some f) ctx s = Some (r, ctx', s')" for dir s r ctx' s'
    using that iterate_chain_inv [where I = I and f = f, OF assms(1)] assms(2)
    by (fastforce simp: fat12_iterate_directory_internal_def dest: scan split: if_splits prod.splits)
  then have cur: "I ctx'" if "fat12_iterate_current_directory D (Some f) ctx s = Some (r, ctx', s')" for s r ctx' s'
    using that assms(2) by (auto simp: fat12_iterate_current_directory_def split: if_splits)
  show "fat12_iterate_directory_internal D dir (Some f) ctx s = Some (r, ctx', s') \<Longrightarrow> I ctx'"
    "fat12_iterate_current_directory D (Some f) ctx s = Some (r, ctx', s') \<Longrightarrow> I ctx'" by (rule int cur, assumption)+
  show "fat12_iterate_path D path (Some f) ctx s = Some (r, ctx', s') \<Longrightarrow> I ctx'"
    using assms(2) by (auto simp: fat12_iterate_path_def dest: int cur split: if_splits option.splits prod.splits sum.splits)
qed

section \<open>Rendering the editor\<close>

lemma for_each_inv:
  "(\<And>i a b. i \<in> set is \<Longrightarrow> I a \<Longrightarrow> body i a = Some b \<Longrightarrow> I b) \<Longrightarrow> I a \<Longrightarrow> for_each is body a = Some b \<Longrightarrow> I b"
proof (induction "is" arbitrary: a)
  case (Cons i "is")
  then obtain a1 where "body i a = Some a1" "for_each is body a1 = Some b" by (auto split: Option.bind_splits)
  with Cons show ?case by (metis list.set_intros)
qed simp

lemma render_row_beyond:
  assumes "render_row row attr e m = Some m'" and "0 \<le> row" and "row < 23"
  shows "beyond_kept m m'"
proof (cases "viewport_y e + row \<ge> 0 \<and> viewport_y e + row < total_lines e")
  case True
  let ?body = "\<lambda>col m1. do { b \<leftarrow> get_char (viewport_y e + row) col e; Some (put_cell (row * 80 + col) b attr m1) }"
  obtain len where f: "for_each [0..(if len < 80 then len else VGA_WIDTH) - 1] ?body m = Some m'"
    using assms(1) True by (auto simp: render_row_def Let_def split: Option.bind_splits)
  show ?thesis
  proof (rule for_each_inv [where I = "beyond_kept m" and body = ?body, OF _ beyond_refl f])
    fix i a b
    assume i: "i \<in> set [0..(if len < 80 then len else VGA_WIDTH) - 1]" and a: "beyond_kept m a" "?body i a = Some b"
    have "0 \<le> row * 80 + i" "row * 80 + i < 2000" using i assms(2,3) by (auto split: if_splits)
    from beyond_put_cell [OF this] a show "beyond_kept m b"
      by (auto intro: beyond_trans split: Option.bind_splits)
  qed
next
  case False
  then have "render_row row attr e m = Some m" unfolding render_row_def Let_def by (rule if_not_P)
  then show ?thesis using assms(1) by simp
qed

lemma low_rows_fields: "low_rows_only a b \<Longrightarrow> con_x b = con_x a \<and> con_y b = con_y a \<and> con_theme b = con_theme a
    \<and> beyond_kept (con_vga a) (con_vga b)"
  by (simp add: low_rows_only_def)

lemma render_editor_frame:
  assumes "nano_render_editor e con = Some con'"
  shows "con_x con' = con_x con \<and> con_y con' = con_y con \<and> con_theme con' = con_theme con
    \<and> beyond_kept (con_vga con) (con_vga con')"
proof -
  let ?m = "blank_cells 0 2000 (get_current_text_attr con) (con_vga con)"
  obtain m1 where m1: "for_each [0..22] (\<lambda>row. render_row row (get_current_text_attr con) e) ?m = Some m1"
    "con' = (let c2 = nano_render_message e (nano_render_status e (con\<lparr>con_vga := m1\<rparr>)) in
       if cursor_y e - viewport_y e \<ge> 0 \<and> cursor_y e - viewport_y e < 23 \<and> cursor_x e < 80
       then update_hardware_cursor (cursor_x e) (cursor_y e - viewport_y e) c2 else c2)"
    using assms by (auto simp: nano_render_editor_def Let_def split: Option.bind_splits)
  have "beyond_kept ?m m1"
    by (rule for_each_inv [where I = "beyond_kept ?m", OF _ beyond_refl m1(1)])
      (auto intro: beyond_trans [OF _ render_row_beyond])
  moreover have "beyond_kept (con_vga con) ?m" by (rule beyond_blank) simp_all
  ultimately have "beyond_kept (con_vga con) m1" by (rule beyond_trans [rotated])
  then show ?thesis
    using low_rows_fields [OF low_rows_status, of e "con\<lparr>con_vga := m1\<rparr>"]
      low_rows_fields [OF low_rows_message, of e "nano_render_status e (con\<lparr>con_vga := m1\<rparr>)"]
    by (auto simp: m1(2) Let_def intro: beyond_trans)
qed

end
