(* ===== verification/Kernel_Invariant.thy ===== *)
theory Kernel_Invariant
  imports Screen_Safety
begin

text \<open>
  The invariant of the running kernel: cursor and stores on the screen, and the prompt's
  indices inside its buffer. \<open>cmd_frame\<close> is what every command keeps; the keys of prompt
  and editor and the main loop follow.
\<close>

section \<open>Commands\<close>

definition cmd_frame :: "'d sys \<Rightarrow> 'd sys \<Rightarrow> bool" where
  "cmd_frame s s' \<longleftrightarrow> safe_to (sys_console s) (sys_console s') \<and> sys_prompt s' = sys_prompt s"

lemma cmd_refl [simp]: "cmd_frame s s"
  by (simp add: cmd_frame_def)

lemma cmd_trans [trans]: "cmd_frame a b \<Longrightarrow> cmd_frame b c \<Longrightarrow> cmd_frame a c"
  by (auto simp: cmd_frame_def intro: safe_trans)

lemma cmd_on_console: "(\<And>c. safe_to c (f c)) \<Longrightarrow> cmd_frame s (on_console f s)"
  by (simp add: cmd_frame_def on_console_def)

lemma cmd_render: "render s = Some s' \<Longrightarrow> cmd_frame s s'"
  using render_editor_frame [of "sys_nano s" "sys_console s"]
  by (auto simp: render_def cmd_frame_def safe_to_def con_ok_def split: Option.bind_splits)

lemma cmd_init_editor:
  assumes "nano_init_editor D name s = Some s'"
  shows "cmd_frame s s'"
proof -
  obtain s1 where s1: "render s1 = Some s'" "sys_console s1 = vga_clear (sys_console s)" "sys_prompt s1 = sys_prompt s"
    using assms by (auto simp: nano_init_editor_def split: Option.bind_splits prod.splits)
  have "cmd_frame s s1" by (simp add: cmd_frame_def s1(2,3) safe_prints(5))
  then show ?thesis using cmd_render [OF s1(1)] by (rule cmd_trans)
qed

lemmas frame_simps' = cmd_frame_def on_console_def offline_def set_disk_def Let_def

lemma cmd_simple:
  "cmd_frame s (handle_clear s)" "cmd_frame s (handle_echo args s)" "cmd_frame s (handle_fetch B s)"
  "cmd_frame s (handle_help s)" "cmd_frame s (handle_fsstat_command s)" "cmd_frame s (handle_storage_command s)"
  "cmd_frame s (handle_theme_command args s)" "cmd_frame s (handle_pwd s)" "cmd_frame s (handle_bootlog_command s)"
  by (auto simp: handle_clear_def handle_echo_def handle_fetch_def handle_help_def handle_fsstat_command_def
      handle_storage_command_def handle_theme_command_def handle_pwd_def handle_bootlog_command_def bootlog_print_def
      bootlog_init_def frame_simps' intro!: safe_intros)

lemma cmd_shutdown: "cmd_frame s (handle_shutdown D s)"
  by (auto simp: handle_shutdown_def frame_simps' intro!: safe_intros)

lemma cmd_disk: "cmd_frame s (handle_disk H s)"
  by (auto simp: handle_disk_def frame_simps' intro!: safe_intros split: prod.splits)

lemma cmd_ls: "handle_ls D args s = Some s' \<Longrightarrow> cmd_frame s s'"
proof -
  have cb: "safe_to a (snd c) \<Longrightarrow> safe_to a (snd (snd (ls_callback e c)))" for a e c by (rule safe_ls_callback)
  have st: "safe_to (sys_console s) (snd (0, sys_console s))" by simp
  note it = iterate_inv(2,3) [where I = "\<lambda>c. safe_to (sys_console s) (snd c)" and f = ls_callback, OF cb st, simplified]
  assume "handle_ls D args s = Some s'"
  then show ?thesis
    by (auto simp: handle_ls_def frame_simps' intro!: safe_intros dest: it
        split: if_splits prod.splits Option.bind_splits)
qed

lemma cmd_options:
  "handle_cd D args s = Some s' \<Longrightarrow> cmd_frame s s'" "handle_cat D args s = Some s' \<Longrightarrow> cmd_frame s s'"
  "handle_touch D args s = Some s' \<Longrightarrow> cmd_frame s s'" "handle_write_command D args s = Some s' \<Longrightarrow> cmd_frame s s'"
  "handle_mkdir_command D args s = Some s' \<Longrightarrow> cmd_frame s s'" "handle_rm_command D args s = Some s' \<Longrightarrow> cmd_frame s s'"
  by (auto simp: handle_cd_def handle_cat_def handle_touch_def handle_write_command_def handle_mkdir_command_def
      handle_rm_command_def frame_simps' intro!: safe_intros
      split: if_splits prod.splits sum.splits option.splits Option.bind_splits)

lemma cmd_nano: "handle_nano_command D args s = Some s' \<Longrightarrow> cmd_frame s s'"
  by (auto simp: handle_nano_command_def offline_def dest: cmd_init_editor intro!: cmd_on_console safe_intros
      split: if_splits prod.splits option.splits)

lemma cmd_execute:
  assumes "execute_command H B line s = Some s'"
  shows "cmd_frame s s'"
proof -
  have t: "\<forall>(w, h) \<in> set (command_table H B). \<forall>args s s'. h args s = Some s' \<longrightarrow> cmd_frame s s'"
    by (simp add: command_table_def cmd_simple cmd_shutdown cmd_disk cmd_ls cmd_options cmd_nano)
  have r: "run_command H B line s = Some s'" using assms by (simp add: execute_command_dispatch)
  consider "s' = s" | "s' = handle_echo (tl (after_word line)) s"
    | h where "map_of (command_table H B) (first_word line) = Some h" "h (after_word line) s = Some s'"
    | "s' = on_console (\<lambda>con. say newline (console_print (Some (skip_blanks line)) (say ''Unknown command: '' con))) s"
    using r by (auto simp: run_command_def split: if_splits option.splits)
  then show ?thesis
  proof cases
    case (3 h)
    then have "(first_word line, h) \<in> set (command_table H B)" by (simp add: map_of_SomeD)
    with t 3(2) show ?thesis by blast
  next
    case 4
    show ?thesis unfolding 4 by (intro cmd_on_console safe_intros)
  qed (simp_all add: cmd_simple(2))
qed

section \<open>Keys in the editor\<close>

text \<open>While a line is typed the cursor may be right of the screen; the other bounds hold.\<close>

definition scr_ok :: "console \<Rightarrow> bool" where
  "scr_ok con \<longleftrightarrow> 0 \<le> con_x con \<and> 0 \<le> con_y con \<and> con_y con < 25 \<and> 0 \<le> con_theme con \<and> con_theme con < 3"

definition key_frame :: "'d sys \<Rightarrow> 'd sys \<Rightarrow> bool" where
  "key_frame s s' \<longleftrightarrow> (scr_ok (sys_console s) \<longrightarrow> scr_ok (sys_console s')
     \<and> beyond_kept (con_vga (sys_console s)) (con_vga (sys_console s'))) \<and> sys_prompt s' = sys_prompt s"

lemma key_refl [simp]: "key_frame s s"
  by (simp add: key_frame_def)

lemma key_trans: "key_frame a b \<Longrightarrow> key_frame b c \<Longrightarrow> key_frame a c"
  by (auto simp: key_frame_def intro: beyond_trans)

lemma key_same: "sys_console s' = sys_console s \<Longrightarrow> sys_prompt s' = sys_prompt s \<Longrightarrow> key_frame s s'"
  by (simp add: key_frame_def)

lemma key_on_nano [simp]: "key_frame (on_nano f s) s' = key_frame s s'" "key_frame s (on_nano f s') = key_frame s s'"
  by (simp_all add: key_frame_def on_nano_def)

lemma key_render: "render s = Some s' \<Longrightarrow> key_frame s s'"
  using render_editor_frame [of "sys_nano s" "sys_console s"]
  by (auto simp: render_def key_frame_def scr_ok_def split: Option.bind_splits)

lemma con_ok_clear: "scr_ok con \<Longrightarrow> con_ok (vga_clear con)"
  by (simp add: scr_ok_def con_ok_def)

lemma key_leave: "key_frame s (nano_leave a d s)"
proof -
  let ?c = "vga_clear (sys_console s)"
  have "safe_to ?c (sys_console (nano_leave a d s))"
    by (auto simp: nano_leave_def on_nano_def Let_def intro!: safe_intros)
  moreover have "beyond_kept (con_vga (sys_console s)) (con_vga ?c)" by (simp add: beyond_blank)
  ultimately have "scr_ok (sys_console s) \<longrightarrow> con_ok (sys_console (nano_leave a d s))
      \<and> beyond_kept (con_vga (sys_console s)) (con_vga (sys_console (nano_leave a d s)))"
    using con_ok_clear [of "sys_console s"] by (auto simp: safe_to_def intro: beyond_trans)
  then show ?thesis by (auto simp: key_frame_def scr_ok_def con_ok_def nano_leave_def on_nano_def Let_def)
qed

lemma key_save: "nano_save_file D s = Some (ok, s') \<Longrightarrow> key_frame s s'"
  by (auto simp: nano_save_file_def Let_def on_nano_def intro!: key_same
      split: if_splits Option.bind_splits prod.splits sum.splits)

lemma key_exit: "nano_exit_editor D a s = Some s' \<Longrightarrow> key_frame s s'"
  using key_leave [of "on_nano (\<lambda>e. e\<lparr>dirty := False\<rparr>) s" a]
  by (auto simp: nano_exit_editor_def Let_def dest!: key_save key_render intro: key_trans key_leave
      split: if_splits Option.bind_splits prod.splits)

lemma key_theme: "nano_cycle_theme s = Some s' \<Longrightarrow> key_frame s s'"
proof -
  let ?s1 = "on_console (\<lambda>con. console_set_theme ((con_theme con + 1) mod THEME_COUNT) con) s"
  have "key_frame s ?s1" by (simp add: key_frame_def on_console_def console_set_theme_def scr_ok_def)
  then show "nano_cycle_theme s = Some s' \<Longrightarrow> key_frame s s'"
    by (auto simp: nano_cycle_theme_def dest!: key_render intro: key_trans)
qed

text \<open>The help overlay.\<close>

lemma put_text_beyond: "0 \<le> pos \<Longrightarrow> pos + int (length cs) \<le> 2000 \<Longrightarrow> beyond_kept m (put_text pos attr cs m)"
proof (induction cs arbitrary: pos m)
  case (Cons c cs)
  have "beyond_kept m (put_cell pos c attr m)" using Cons.prems by (intro beyond_put_cell) simp_all
  moreover have "beyond_kept (put_cell pos c attr m) (put_text (pos + 1) attr cs (put_cell pos c attr m))"
    using Cons.prems by (intro Cons.IH) simp_all
  ultimately show ?case by (auto intro: beyond_trans)
qed simp

lemma fold_beyond: "(\<And>x m. x \<in> set xs \<Longrightarrow> beyond_kept m (f x m)) \<Longrightarrow> beyond_kept m (fold f xs m)"
  by (induction xs arbitrary: m) (auto intro: beyond_trans)

lemma length_theme_name: "0 \<le> con_theme con \<Longrightarrow> con_theme con < 3 \<Longrightarrow> length (theme_name (current_theme con)) \<le> 6"
proof -
  assume "0 \<le> con_theme con" "con_theme con < 3"
  then have "con_theme con = 0 \<or> con_theme con = 1 \<or> con_theme con = 2" by auto
  then show ?thesis by (auto simp: current_theme_def themes_def)
qed

lemma length_help_lines: "length help_lines = 16"
  by (simp add: help_lines_def)

lemma key_help: "key_frame s (nano_show_help_overlay s)"
proof -
  let ?con = "sys_console s"
  let ?line = "\<lambda>(i, l). put_text ((3 + i) * VGA_WIDTH + 5) (VGA_ATTR VGA_COLOR_BLACK VGA_COLOR_LIGHT_CYAN)
                      (take (nat (VGA_WIDTH - 5 - 5)) l)"
  have "beyond_kept m (?line x m)" if "x \<in> set (zip [0..int (length help_lines) - 1] help_lines)" for x m
  proof -
    obtain i l where x: "x = (i, l)" by (cases x)
    then have i: "0 \<le> i" "i \<le> 15" using that by (auto simp: length_help_lines dest: set_zip_leftD)
    have len: "int (length (take 70 l)) \<le> 70" by simp
    have "beyond_kept m (put_text ((3 + i) * 80 + 5) a (take 70 l) m)" for a
      using i len by (intro put_text_beyond) (simp_all add: algebra_simps)
    then show ?thesis by (simp add: x)
  qed
  then have b: "beyond_kept m (fold ?line (zip [0..int (length help_lines) - 1] help_lines) m)" for m
    by (rule fold_beyond)
  have t: "beyond_kept m (put_text 1172 a (theme_name (current_theme ?con)) m)" if "scr_ok ?con" for m a
    using length_theme_name [of ?con] that by (intro put_text_beyond) (auto simp: scr_ok_def)
  have c: "current_theme (con\<lparr>con_vga := m\<rparr>) = current_theme con" for con m by (simp add: current_theme_def)
  show ?thesis
    using beyond_trans [OF b t]
    by (auto simp: nano_show_help_overlay_def key_frame_def scr_ok_def on_console_def on_nano_def
        nano_render_help_overlay_def Let_def)
qed

lemma key_confirm: "nano_confirm_key D sc s = Some s' \<Longrightarrow> key_frame s s'"
  by (auto simp: nano_confirm_key_def Let_def dest!: key_exit key_save key_render
      intro: key_trans split: if_splits Option.bind_splits prod.splits)

lemma key_edit: "edit f s = Some s' \<Longrightarrow> key_frame s s'"
  by (auto simp: edit_def intro!: key_same split: Option.bind_splits)

lemma key_scancode:
  assumes "nano_handle_scancode D sc rel s = Some s'"
  shows "key_frame s s'"
  using assms
  by (auto simp: nano_handle_scancode_def dest!: key_confirm key_save key_exit key_theme key_edit key_render
      intro: key_trans key_help split: if_splits Option.bind_splits option.splits prod.splits)

section \<open>The prompt\<close>

definition prompt_ok :: "shell_context \<Rightarrow> bool" where
  "prompt_ok p \<longleftrightarrow> 0 \<le> input_pos p \<and> input_pos p \<le> 255 \<and> 0 \<le> prompt_line_start_x p \<and> prompt_line_start_x p < 80
     \<and> 0 \<le> prompt_line_y p \<and> prompt_line_y p < 25"

text \<open>The line as typed so far, and the row of the prompt showing it.\<close>

definition typed :: "shell_context \<Rightarrow> byte list" where
  "typed p = mem_get (input_buffer p) 0 (nat (input_pos p))"

definition prompt_row :: "byte list \<Rightarrow> int \<Rightarrow> byte" where
  "prompt_row line i = (if i < int (length line) then line ! nat i else if i = int (length line) then 0x3E else 0x20)"

definition shows_prompt :: "'d sys \<Rightarrow> bool" where
  "shows_prompt s \<longleftrightarrow> (\<forall>i. 0 \<le> i \<and> prompt_line_start_x (sys_prompt s) + i < 80 \<longrightarrow>
     cell (con_vga (sys_console s)) (prompt_line_y (sys_prompt s) * 80 + (prompt_line_start_x (sys_prompt s) + i)) =
       (prompt_row (typed (sys_prompt s)) i, get_current_text_attr (sys_console s)))"

text \<open>The loop over the typed characters stores those that fit into the row.\<close>

lemma fold_input:
  fixes x y :: int and buf :: mem and attr :: u8
  assumes "0 \<le> y" and "y < 25" and "0 \<le> x" and "x < 80"
  defines "f \<equiv> \<lambda>i m. if x + i < VGA_WIDTH then put_cell (y * VGA_WIDTH + (x + i)) (buf (nat i)) attr m else m"
  shows "beyond_kept m (fold f [0..int n - 1] m) \<and> (\<forall>k \<ge> 0. cell (fold f [0..int n - 1] m) k =
    (if y * 80 + x \<le> k \<and> k < y * 80 + min 80 (x + int n) then (buf (nat (k - (y * 80 + x))), attr) else cell m k))"
proof (induction n)
  case 0
  then show ?case using assms(4) by auto
next
  case (Suc n)
  let ?m = "fold f [0..int n - 1] m"
  have up: "[0..int (Suc n) - 1] = [0..int n - 1] @ [int n]" by (simp add: upto_rec2)
  show ?case
  proof (cases "x + int n < 80")
    case True
    have pos: "0 \<le> y * 80 + (x + int n)" "y * 80 + (x + int n) < 2000" using assms(1-3) True by simp_all
    have fm: "fold f [0..int (Suc n) - 1] m = put_cell (y * 80 + (x + int n)) (buf n) attr ?m"
      unfolding up by (simp add: f_def True)
    show ?thesis
      unfolding fm using Suc.IH beyond_put_cell [OF pos, of ?m "buf n" attr] True pos
      by (auto intro: beyond_trans simp: cell_put_cell)
  next
    case False
    have fm: "fold f [0..int (Suc n) - 1] m = ?m" unfolding up using False by (simp add: f_def)
    have "min 80 (x + int (Suc n)) = min 80 (x + int n)" using False by simp
    then show ?thesis unfolding fm using Suc.IH by simp
  qed
qed

lemma render_prompt_spec:
  assumes "prompt_ok (sys_prompt s)"
  obtains con where "render_prompt_line s = Some (s\<lparr>sys_console := con\<rparr>)" "shows_prompt (s\<lparr>sys_console := con\<rparr>)"
    "beyond_kept (con_vga (sys_console s)) (con_vga con)" "con_theme con = con_theme (sys_console s)"
    "con_x con = prompt_line_start_x (sys_prompt s) + input_pos (sys_prompt s)" "con_y con = prompt_line_y (sys_prompt s)"
proof -
  let ?p = "sys_prompt s" and ?con = "sys_console s"
  let ?x = "prompt_line_start_x ?p" and ?y = "prompt_line_y ?p" and ?a = "get_current_text_attr ?con"
  define n where "n = nat (input_pos ?p)"
  have p: "0 \<le> ?x" "?x < 80" "0 \<le> ?y" "?y < 25" "input_pos ?p = int n" "n \<le> 255"
    using assms by (auto simp: prompt_ok_def n_def)
  define m1 where "m1 = blank_cells (?y * 80 + ?x) (?y * 80 + 80) ?a (con_vga ?con)"
  have b1: "0 \<le> ?y * 80 + ?x" "?y * 80 + 80 \<le> 2000" using p by simp_all
  define m2 where "m2 = fold (\<lambda>i m. if ?x + i < VGA_WIDTH
      then put_cell (?y * VGA_WIDTH + (?x + i)) (input_buffer ?p (nat i)) ?a m else m) [0..int n - 1] m1"
  define m3 where "m3 = (if ?x + int n < 80 then put_cell (?y * 80 + (?x + int n)) 0x3E ?a m2 else m2)"
  let ?c = "console_set_cursor (?x + input_pos ?p) ?y (?con\<lparr>con_vga := m3\<rparr>)"
  have r: "render_prompt_line s = Some (s\<lparr>sys_console := ?c\<rparr>)"
    using p by (simp add: render_prompt_line_def Let_def on_console_def m1_def m2_def m3_def PROMPT_BUFFER_SIZE_def)
  note f = fold_input [OF p(3,4,1,2), of m1 "input_buffer ?p" ?a n, folded m2_def]
  have c1: "cell m1 k = (if ?y * 80 + ?x \<le> k \<and> k < ?y * 80 + 80 then (0x20, ?a) else cell (con_vga ?con) k)"
    if "0 \<le> k" for k using cell_blank [OF b1 that] by (simp add: m1_def)
  have pos: "0 \<le> ?y * 80 + (?x + int n)" "?y * 80 + (?x + int n) < 2000" if "?x + int n < 80" using p that by simp_all
  have c3: "cell m3 (?y * 80 + (?x + i)) = (prompt_row (typed ?p) i, ?a)" if i: "0 \<le> i" "?x + i < 80" for i
  proof -
    have k: "0 \<le> ?y * 80 + (?x + i)" using p i by simp
    have c2: "cell m2 (?y * 80 + (?x + i)) = (if i < int n then (input_buffer ?p (nat i), ?a) else (0x20, ?a))"
      using conjunct2 [OF f, rule_format, OF k] c1 [OF k] i by (auto simp: algebra_simps)
    have m3c: "cell m3 (?y * 80 + (?x + i)) = (if ?x + int n < 80 \<and> i = int n then (0x3E, ?a) else cell m2 (?y * 80 + (?x + i)))"
    proof (cases "?x + int n < 80")
      case True
      show ?thesis
        unfolding m3_def cell_put_cell [OF pos [OF True] k] if_P [OF True] by (simp only: True simp_thms add_left_cancel)
    qed (simp add: m3_def)
    have row: "prompt_row (typed ?p) i = (if i < int n then input_buffer ?p (nat i) else if i = int n then 0x3E else 0x20)"
      using i(1) by (auto simp: prompt_row_def typed_def p(5))
    show ?thesis using c2 m3c row i(2) by auto
  qed
  have "beyond_kept (con_vga ?con) m3"
    using beyond_blank [OF b1, of "con_vga ?con" ?a] f beyond_put_cell [OF pos, of m2 "0x3E" ?a]
    by (auto simp: m3_def m1_def intro: beyond_trans)
  moreover have fields: "con_vga ?c = m3" "con_theme ?c = con_theme ?con" "con_x ?c = ?x + input_pos ?p" "con_y ?c = ?y"
    by (simp_all add: console_set_cursor_def)
  moreover have "get_current_text_attr ?c = ?a" using fields(2) by (simp add: get_current_text_attr_def current_theme_def)
  ultimately show thesis using r c3 by (intro that [of ?c]) (simp_all add: shows_prompt_def)
qed

text \<open>What a key means for the line: Backspace, a printable character, or nothing.\<close>

definition p_key :: "byte \<Rightarrow> byte list \<Rightarrow> byte list" where
  "p_key c line =
     (if c = 0x08 then butlast line
      else if 0x20 \<le> c \<and> c \<le> 0x7E \<and> length line < 255 then line @ [c] else line)"

lemma scr_ok_cursor:
  "prompt_ok p \<Longrightarrow> con_x con = prompt_line_start_x p + input_pos p \<Longrightarrow> con_y con = prompt_line_y p \<Longrightarrow>
   con_theme con = con_theme con0 \<Longrightarrow> scr_ok con0 \<Longrightarrow> scr_ok con"
  by (simp add: scr_ok_def prompt_ok_def)

lemma length_typed [simp]: "length (typed p) = nat (input_pos p)"
  by (simp add: typed_def)

lemma typed_put:
  assumes "0 \<le> input_pos p"
  shows "typed (p\<lparr>input_buffer := (input_buffer p)(nat (input_pos p) := c), input_pos := input_pos p + 1\<rparr>) = typed p @ [c]"
proof -
  have "nat (input_pos p + 1) = Suc (nat (input_pos p))" using assms by simp
  then show ?thesis by (simp add: typed_def mem_get_def)
qed

lemma typed_back: "0 < input_pos p \<Longrightarrow> typed (p\<lparr>input_pos := input_pos p - 1\<rparr>) = butlast (typed p)"
proof -
  assume "0 < input_pos p"
  then obtain n where n: "input_pos p = int (Suc n)" by (metis gr0_implies_Suc pos_int_cases)
  then have "nat (input_pos p) = Suc n" by simp
  with n show ?thesis by (simp add: typed_def mem_get_def)
qed

text \<open>A key that does not end the line.\<close>

lemma prompt_key:
  assumes p: "prompt_ok (sys_prompt s)" and c: "scancode_to_ascii sc \<noteq> 0x0A"
    and scr: "scr_ok (sys_console s)"
  obtains p' con where "prompt_handle_scancode H B sc s = Some (s\<lparr>sys_prompt := p', sys_console := con\<rparr>)"
    "prompt_ok p'" "typed p' = p_key (scancode_to_ascii sc) (typed (sys_prompt s))"
    "shows_prompt s \<longrightarrow> shows_prompt (s\<lparr>sys_prompt := p', sys_console := con\<rparr>)" "command_executed p' = command_executed (sys_prompt s)"
    "beyond_kept (con_vga (sys_console s)) (con_vga con)" "scr_ok con"
proof -
  note result = that
  let ?c = "scancode_to_ascii sc" and ?p = "sys_prompt s"
  have len: "0 \<le> input_pos ?p" "input_pos ?p \<le> 255" using p by (simp_all add: prompt_ok_def)
  have id: "s\<lparr>sys_prompt := ?p, sys_console := sys_console s\<rparr> = s" by simp
  have changed: thesis
    if r: "prompt_handle_scancode H B sc s = render_prompt_line (s\<lparr>sys_prompt := p'\<rparr>)"
      and ok: "prompt_ok p'" "typed p' = p_key ?c (typed ?p)" "command_executed p' = command_executed ?p" for p'
  proof -
    have "prompt_ok (sys_prompt (s\<lparr>sys_prompt := p'\<rparr>))" using ok(1) by simp
    then obtain con where con: "render_prompt_line (s\<lparr>sys_prompt := p'\<rparr>) = Some (s\<lparr>sys_prompt := p'\<rparr>\<lparr>sys_console := con\<rparr>)"
      "shows_prompt (s\<lparr>sys_prompt := p'\<rparr>\<lparr>sys_console := con\<rparr>)"
      "beyond_kept (con_vga (sys_console (s\<lparr>sys_prompt := p'\<rparr>))) (con_vga con)"
      "con_theme con = con_theme (sys_console (s\<lparr>sys_prompt := p'\<rparr>))"
      "con_x con = prompt_line_start_x (sys_prompt (s\<lparr>sys_prompt := p'\<rparr>)) + input_pos (sys_prompt (s\<lparr>sys_prompt := p'\<rparr>))"
      "con_y con = prompt_line_y (sys_prompt (s\<lparr>sys_prompt := p'\<rparr>))"
      by (rule render_prompt_spec)
    have "scr_ok con" using scr_ok_cursor [OF ok(1), of con "sys_console s"] con(4-6) scr by simp
    then show thesis using r con ok by (intro result [of con p']) simp_all
  qed
  have same: thesis if "prompt_handle_scancode H B sc s = Some s" and "p_key ?c (typed ?p) = typed ?p"
    using that p scr id by (intro result [of "sys_console s" ?p]) simp_all
  show thesis
  proof (cases "?c = 0x08")
    case True
    show thesis
    proof (cases "0 < input_pos ?p")
      case pos: True
      let ?p' = "?p\<lparr>input_pos := input_pos ?p - 1\<rparr>"
      have "prompt_ok ?p'" using p pos by (simp add: prompt_ok_def)
      with True pos typed_back [OF pos] show thesis
        by (intro changed [of ?p']) (simp_all add: prompt_handle_scancode_def p_key_def Let_def)
    next
      case False
      then have "typed ?p = []" by (simp add: typed_def)
      with True False show thesis by (intro same) (simp_all add: prompt_handle_scancode_def p_key_def)
    qed
  next
    case nb: False
    show thesis
    proof (cases "0x20 \<le> ?c \<and> ?c \<le> 0x7E \<and> input_pos ?p < 255")
      case True
      let ?p' = "?p\<lparr>input_buffer := (input_buffer ?p)(nat (input_pos ?p) := ?c), input_pos := input_pos ?p + 1\<rparr>"
      have "prompt_ok ?p'" using p True by (simp add: prompt_ok_def)
      moreover have "nat (input_pos ?p) < 255" using True len(1) by (simp add: nat_less_iff)
      ultimately show thesis using True nb c len typed_put [OF len(1), of ?c]
        by (intro changed [of ?p'])
          (simp_all add: prompt_handle_scancode_def p_key_def put_input_def PROMPT_BUFFER_SIZE_def Let_def)
    next
      case False
      with nb c len show thesis
        by (intro same) (auto simp: prompt_handle_scancode_def p_key_def PROMPT_BUFFER_SIZE_def Let_def)
    qed
  qed
qed

section \<open>The main loop\<close>

text \<open>\<open>m0\<close> is the memory behind the text buffer at the start.\<close>

definition screen_inv :: "mem \<Rightarrow> 'd sys \<Rightarrow> bool" where
  "screen_inv m0 s \<longleftrightarrow> beyond_kept m0 (con_vga (sys_console s)) \<and> scr_ok (sys_console s) \<and> prompt_ok (sys_prompt s)
     \<and> (command_executed (sys_prompt s) \<longrightarrow> con_x (sys_console s) < 80)"

text \<open>Between two passes of the loop, a running kernel shows its prompt or the editor.\<close>

definition kernel_inv :: "mem \<Rightarrow> 'd sys \<Rightarrow> bool" where
  "kernel_inv m0 s \<longleftrightarrow> screen_inv m0 s \<and> (\<not> cpu_halted s \<longrightarrow> \<not> command_executed (sys_prompt s))"

lemma enter_keeps:
  assumes inv: "screen_inv m0 s" and c: "scancode_to_ascii sc = 0x0A"
    and r: "prompt_handle_scancode H B sc s = Some s'"
  shows "screen_inv m0 s'"
proof -
  let ?p = "(sys_prompt s)\<lparr>input_buffer := (input_buffer (sys_prompt s))(nat (input_pos (sys_prompt s)) := 0)\<rparr>"
  let ?con = "console_putchar 0x0A (sys_console s)"
  let ?s1 = "(on_console (console_putchar 0x0A) s)\<lparr>sys_prompt := ?p\<rparr>"
  have scr: "scr_ok (sys_console s)" using inv by (simp add: screen_inv_def)
  have pos: "0 \<le> input_pos (sys_prompt s)" "input_pos (sys_prompt s) < 256"
    using inv by (auto simp: screen_inv_def prompt_ok_def)
  obtain s2 where s2: "execute_command H B (mem_get (input_buffer ?p) 0 256) ?s1 = Some s2"
    "s' = s2\<lparr>sys_prompt := (sys_prompt s2)\<lparr>input_pos := 0, command_executed := True\<rparr>\<rparr>"
    using r c pos by (auto simp: prompt_handle_scancode_def Let_def put_input_def PROMPT_BUFFER_SIZE_def split: Option.bind_splits)
  note f = cmd_execute [OF s2(1), unfolded cmd_frame_def]
  have "con_ok (next_line (sys_console s)) \<and> beyond_kept (con_vga (sys_console s)) (con_vga (next_line (sys_console s)))"
    using next_line_frame [of "sys_console s"] scr by (simp add: scr_ok_def)
  then have ok: "con_ok ?con" "beyond_kept (con_vga (sys_console s)) (con_vga ?con)"
    by (auto simp: console_putchar_def vga_write_char_def Let_def con_ok_def)
  have "con_ok (sys_console s2)" "beyond_kept (con_vga ?con) (con_vga (sys_console s2))" "sys_prompt s2 = ?p"
    using f ok by (auto simp: safe_to_def on_console_def)
  with inv ok(2) show ?thesis
    by (auto simp: s2(2) screen_inv_def prompt_ok_def con_ok_def scr_ok_def intro: beyond_trans)
qed

lemma handle_keeps:
  assumes inv: "screen_inv m0 s" "\<not> command_executed (sys_prompt s)" and r: "handle_keyboard_input H B b s = Some s'"
  shows "screen_inv m0 s'"
proof -
  obtain event kb where d: "decode_scancode b (sys_keyboard s) = (event, kb)" by fastforce
  let ?s1 = "s\<lparr>sys_keyboard := kb\<rparr>"
  have inv1: "screen_inv m0 ?s1" "\<not> command_executed (sys_prompt ?s1)" using inv by (simp_all add: screen_inv_def)
  consider "s' = ?s1" | sc rel where "nano_handle_scancode (ata_disk H) sc rel ?s1 = Some s'"
    | sc where "prompt_handle_scancode H B sc ?s1 = Some s'" "\<not> editor_active (sys_nano s)"
  proof (cases event)
    case None
    then show thesis using r that(1) by (simp add: handle_keyboard_input_def d)
  next
    case (Some ev)
    obtain sc rel where ev: "ev = (sc, rel)" by (cases ev)
    show thesis
    proof (cases "editor_active (sys_nano s)")
      case True
      with Some ev r show thesis by (intro that(2)) (simp add: handle_keyboard_input_def d)
    next
      case False
      with Some ev r show thesis
        by (cases rel) (auto intro: that(1,3) simp: handle_keyboard_input_def d)
    qed
  qed
  then show ?thesis
  proof cases
    case (2 sc rel)
    from key_scancode [OF this] inv1 show ?thesis
      by (auto simp: key_frame_def screen_inv_def intro: beyond_trans)
  next
    case (3 sc)
    show ?thesis
    proof (cases "scancode_to_ascii sc = 0x0A")
      case True
      from enter_keeps [OF inv1(1) this 3(1)] show ?thesis .
    next
      case False
      have pre: "prompt_ok (sys_prompt ?s1)" "scr_ok (sys_console ?s1)" using inv1(1) by (simp_all add: screen_inv_def)
      show ?thesis
        by (rule prompt_key [OF pre(1) False pre(2), of H B])
          (use 3(1) inv1 in \<open>auto simp: screen_inv_def intro: beyond_trans\<close>)
    qed
  qed (use inv1 in simp)
qed

text \<open>A new prompt and one pass of the loop.\<close>

lemma prompt_reset_ok:
  assumes "screen_inv m0 s" and "con_x (sys_console s) < 80"
  obtains s' where "show_prompt s = Some s'" "kernel_inv m0 s'" "shows_prompt s'"
proof -
  let ?s = "prompt_reset s"
  have p: "prompt_ok (sys_prompt ?s)" using assms by (simp add: prompt_reset_def prompt_ok_def screen_inv_def scr_ok_def)
  obtain con where con: "render_prompt_line ?s = Some (?s\<lparr>sys_console := con\<rparr>)" "shows_prompt (?s\<lparr>sys_console := con\<rparr>)"
    "beyond_kept (con_vga (sys_console ?s)) (con_vga con)" "con_theme con = con_theme (sys_console ?s)"
    "con_x con = prompt_line_start_x (sys_prompt ?s) + input_pos (sys_prompt ?s)" "con_y con = prompt_line_y (sys_prompt ?s)"
    by (rule render_prompt_spec [OF p])
  have c: "sys_console ?s = sys_console s" by (simp add: prompt_reset_def)
  have "scr_ok con" using scr_ok_cursor [OF p con(5,6,4)] assms(1) c by (simp add: screen_inv_def)
  then have "kernel_inv m0 (?s\<lparr>sys_console := con\<rparr>)"
    using assms(1) p con(3) c
    by (auto simp: kernel_inv_def screen_inv_def intro: beyond_trans) (simp_all add: prompt_reset_def)
  then show thesis using that [of "?s\<lparr>sys_console := con\<rparr>"] con(1,2) by (simp add: show_prompt_def)
qed

lemma loop_step_keeps:
  assumes inv: "kernel_inv m0 s" "\<not> cpu_halted s" and r: "loop_step H B b s = Some s'"
  shows "kernel_inv m0 s'"
proof -
  obtain s1 where s1: "handle_keyboard_input H B b s = Some s1"
    "(if command_executed (sys_prompt s1) \<and> \<not> cpu_halted s1 then show_prompt (prompt_clear_executed_flag s1) else Some s1) = Some s'"
    using r by (auto simp: loop_step_def split: Option.bind_splits)
  have i1: "screen_inv m0 s1" using handle_keeps [OF _ _ s1(1)] inv by (simp add: kernel_inv_def)
  show ?thesis
  proof (cases "command_executed (sys_prompt s1) \<and> \<not> cpu_halted s1")
    case True
    then have "screen_inv m0 (prompt_clear_executed_flag s1)" "con_x (sys_console (prompt_clear_executed_flag s1)) < 80"
      using i1 by (auto simp: screen_inv_def prompt_clear_executed_flag_def prompt_ok_def)
    then obtain s2 where "show_prompt (prompt_clear_executed_flag s1) = Some s2" "kernel_inv m0 s2"
      by (rule prompt_reset_ok)
    with True s1(2) show ?thesis by simp
  next
    case False
    with s1(2) i1 show ?thesis by (auto simp: kernel_inv_def)
  qed
qed

text \<open>The states of the running kernel, from the one the start-up \<open>s0\<close> leaves.\<close>

inductive reachable :: "'h ata_hw \<Rightarrow> build_info \<Rightarrow> 'h disk_state sys \<Rightarrow> 'h disk_state sys \<Rightarrow> bool"
  for H B s0 where
  reachable_prompt: "\<not> cpu_halted s0 \<Longrightarrow> show_prompt s0 = Some s \<Longrightarrow> reachable H B s0 s"
| reachable_key: "reachable H B s0 s \<Longrightarrow> \<not> cpu_halted s \<Longrightarrow> loop_step H B b s = Some s' \<Longrightarrow> reachable H B s0 s'"

inductive_cases reachable_cases: "reachable H B s0 s"

lemma main_loop_reachable:
  "main_loop H B keys s = Some s' \<Longrightarrow> reachable H B s0 s \<Longrightarrow> reachable H B s0 s'"
  by (induction keys arbitrary: s) (auto split: if_splits Option.bind_splits intro: reachable_key)

lemma reachable_inv:
  assumes "reachable H B s0 s" and "screen_inv m0 s0" and "con_x (sys_console s0) < 80"
  shows "kernel_inv m0 s"
  using assms(1)
proof induction
  case (reachable_prompt s)
  obtain s' where "show_prompt s0 = Some s'" "kernel_inv m0 s'" by (rule prompt_reset_ok [OF assms(2,3)])
  with reachable_prompt show ?case by simp
next
  case (reachable_key s b s')
  then show ?case by (blast intro: loop_step_keeps)
qed

section \<open>The start-up\<close>

lemma boot_frame: "safe_to (vga_clear (sys_console s)) (sys_console (kernel_boot H P magic info s))
    \<and> sys_prompt (kernel_boot H P magic info s) = sys_prompt s"
proof -
  have b: "safe_to (vga_clear (sys_console s)) (sys_console (boot_banner s))" "sys_prompt (boot_banner s) = sys_prompt s"
    for s :: "'a disk_state sys"
    by (auto simp: boot_banner_def on_console_def intro!: safe_intros)
  have i: "sys_console (bootlog_init s) = sys_console s" "sys_prompt (bootlog_init s) = sys_prompt s"
    for s :: "'a disk_state sys" by (simp_all add: bootlog_init_def)
  have s: "cmd_frame s (boot_storage H P s)" "cmd_frame s (boot_fatal s)" "cmd_frame s (snd (boot_disk H s))"
    "cmd_frame s (boot_volume H s)" for s
    by (auto simp: boot_storage_def boot_fatal_def boot_disk_def boot_volume_def commands_set_fat_ready_def frame_simps'
        intro!: safe_intros split: prod.splits sum.splits)
  have t: "cmd_frame s (on_console (say t) s)" "cmd_frame s (on_console (number_line l n u) s)" for t l n u and s :: "'a disk_state sys"
    by (intro cmd_on_console safe_intros)+
  let ?s1 = "bootlog_init (s\<lparr>sys_boot_mode := detect_boot_mode magic info\<rparr>)"
  let ?s2 = "boot_storage H P (boot_banner ?s1)"
  have "cmd_frame ?s2 (kernel_boot H P magic info s)"
  proof (cases "sys_boot_mode ?s2 = BOOT_MODE_BIOS \<and> boot_method (sys_bootlog ?s2) = 2")
    case True
    show ?thesis unfolding kernel_boot_def Let_def if_P [OF True] by (rule s(2))
  next
    case False
    define s3 where "s3 = (if sys_boot_mode ?s2 = BOOT_MODE_BIOS
      then on_console (number_line ''Detected memory: '' (memory_mb (sys_bootlog ?s2)) ('' MB'' @ newline)) ?s2 else ?s2)"
    obtain ok s4 where d: "boot_disk H s3 = (ok, s4)" by fastforce
    have "cmd_frame ?s2 s3" unfolding s3_def by (auto intro: t(2))
    also have "cmd_frame s3 s4" using s(3) [of s3] d by simp
    also have "cmd_frame s4 (if ok then boot_volume H s4 else s4)" by (simp add: s(4))
    also note t(1)
    finally show ?thesis
      unfolding kernel_boot_def Let_def if_not_P [OF False] s3_def [symmetric] d prod.case .
  qed
  then have "cmd_frame (boot_banner ?s1) (kernel_boot H P magic info s)" by (rule cmd_trans [OF s(1)])
  with b [of ?s1] i [of "s\<lparr>sys_boot_mode := detect_boot_mode magic info\<rparr>"] show ?thesis
    by (auto simp: cmd_frame_def intro: safe_trans)
qed

lemma boot_screen:
  assumes "0 \<le> con_theme (sys_console s)" and "con_theme (sys_console s) < 3" and "prompt_ok (sys_prompt s)"
    and "\<not> command_executed (sys_prompt s)"
  shows "screen_inv (con_vga (sys_console s)) (kernel_boot H P magic info s)
    \<and> con_x (sys_console (kernel_boot H P magic info s)) < 80"
proof -
  let ?c = "vga_clear (sys_console s)" and ?b = "kernel_boot H P magic info s"
  have c: "con_ok ?c" "beyond_kept (con_vga (sys_console s)) (con_vga ?c)"
    using assms(1,2) by (simp_all add: con_ok_def vga_clear_def Let_def beyond_blank)
  have b: "con_ok (sys_console ?b)" "beyond_kept (con_vga (sys_console s)) (con_vga (sys_console ?b))"
    "sys_prompt ?b = sys_prompt s"
    using boot_frame [of s H P magic info] c by (auto simp: safe_to_def intro: beyond_trans)
  then show ?thesis using assms(3,4) by (simp add: screen_inv_def scr_ok_def con_ok_def)
qed

end
