(* ===== verification/Shell_Lines.thy ===== *)
theory Shell_Lines
  imports Kernel_Invariant Shell_Dispatch
begin

text \<open>
  Lines of the shell: what the number printing puts on the screen, how a key sequence
  builds the line of the prompt and what Enter does with it, and how the first word of a
  line selects the command.
\<close>

section \<open>Decimal text\<close>

definition is_digit_char :: "byte \<Rightarrow> bool" where
  "is_digit_char c \<longleftrightarrow> 0x30 \<le> c \<and> c \<le> 0x39"

definition digits_value :: "byte list \<Rightarrow> nat" where
  "digits_value ds = foldl (\<lambda>a c. 10 * a + (unat c - 48)) 0 ds"

lemma digit_char: "d < 10 \<Longrightarrow> is_digit_char (0x30 + of_nat d) \<and> unat (0x30 + of_nat d :: byte) = 48 + d"
proof -
  assume "d < 10"
  then have "d \<in> set [0..<10]" by simp
  then show ?thesis by (auto simp: is_digit_char_def upt_rec)
qed

lemma decimal_spec: "(\<forall>c \<in> set (decimal n). is_digit_char c) \<and> digits_value (decimal n) = n
    \<and> decimal n \<noteq> [] \<and> (0 < n \<longrightarrow> hd (decimal n) \<noteq> 0x30)"
proof (induction n rule: decimal.induct)
  case (1 n)
  show ?case
  proof (cases "n < 10")
    case True
    have "hd (decimal n) \<noteq> 0x30" if "0 < n"
    proof
      assume "hd (decimal n) = 0x30"
      then have "unat (0x30 + of_nat n :: byte) = 48" using True by (simp add: decimal.simps [of n])
      with digit_char [OF True] that show False by simp
    qed
    with digit_char [OF True] True show ?thesis by (simp add: decimal.simps [of n] digits_value_def)
  next
    case False
    have "n mod 10 < 10" by simp
    from digit_char [OF this] 1 [OF False] False show ?thesis
      by (auto simp: decimal.simps [of n] digits_value_def)
  qed
qed

lemma decimal_length: "n < 10 ^ Suc k \<Longrightarrow> length (decimal n) \<le> Suc k"
proof (induction k arbitrary: n)
  case (Suc k)
  then have "n div 10 < 10 ^ Suc k" by (simp add: less_mult_imp_div_less)
  from Suc.IH [OF this] show ?case by (simp add: decimal.simps [of n])
qed (simp add: decimal.simps)

lemma sint32_range: "- (2 ^ 31) \<le> sint (v :: u32)" "sint (v :: u32) < 2 ^ 31"
  using sint_ge [of v] sint_lt [of v] by simp_all

lemma decimal_chars_spec:
  obtains ds where "decimal_chars v = (if sint v < 0 then 0x2D # ds else ds)"
    "\<forall>c \<in> set ds. is_digit_char c" "int (digits_value ds) = \<bar>sint v\<bar>" "ds \<noteq> []" "length ds \<le> 10"
    "ds = [0x30] \<or> hd ds \<noteq> 0x30"
proof -
  let ?n = "nat \<bar>sint v\<bar>"
  have e: "decimal_chars v = (if sint v < 0 then 0x2D # decimal ?n else decimal ?n)"
    by (simp add: decimal_chars_decimal)
  have "?n < 10 ^ Suc 9" using sint32_range [of v] by simp
  from decimal_length [OF this] have l: "length (decimal ?n) \<le> 10" by simp
  have "decimal ?n = [0x30] \<or> hd (decimal ?n) \<noteq> 0x30"
    using decimal_spec [of ?n] by (cases "?n = 0") (simp_all add: decimal.simps [of 0])
  with e l decimal_spec [of ?n] show thesis by (intro that [of "decimal ?n"]) auto
qed

lemma digit_printable: "is_digit_char c \<Longrightarrow> printable c"
  by (auto simp: is_digit_char_def printable_def word_le_nat_alt)

section \<open>Typing a line\<close>

fun type_keys :: "'h ata_hw \<Rightarrow> build_info \<Rightarrow> u16 list \<Rightarrow> 'h disk_state sys \<Rightarrow> 'h disk_state sys option" where
  "type_keys H B [] s = Some s"
| "type_keys H B (k # ks) s = do { s1 \<leftarrow> prompt_handle_scancode H B k s; type_keys H B ks s1 }"

definition edit_line :: "u16 list \<Rightarrow> byte list \<Rightarrow> byte list" where
  "edit_line ks line = fold p_key (map scancode_to_ascii ks) line"

lemma type_keys_spec:
  assumes "prompt_ok (sys_prompt s)" and "scr_ok (sys_console s)" and "shows_prompt s"
    and "\<forall>k \<in> set ks. scancode_to_ascii k \<noteq> 0x0A"
  shows "\<exists>p con. type_keys H B ks s = Some (s\<lparr>sys_prompt := p, sys_console := con\<rparr>)
    \<and> prompt_ok p \<and> typed p = edit_line ks (typed (sys_prompt s))
    \<and> command_executed p = command_executed (sys_prompt s)
    \<and> scr_ok con \<and> shows_prompt (s\<lparr>sys_prompt := p, sys_console := con\<rparr>)"
  using assms
proof (induction ks arbitrary: s)
  case Nil
  have "s\<lparr>sys_prompt := sys_prompt s, sys_console := sys_console s\<rparr> = s" by simp
  with Nil show ?case
    by (intro exI [of _ "sys_prompt s"] exI [of _ "sys_console s"]) (simp add: edit_line_def)
next
  case (Cons k ks)
  have k: "scancode_to_ascii k \<noteq> 0x0A" using Cons.prems(4) by simp
  obtain p con where 1: "prompt_handle_scancode H B k s = Some (s\<lparr>sys_prompt := p, sys_console := con\<rparr>)"
    "prompt_ok p" "typed p = p_key (scancode_to_ascii k) (typed (sys_prompt s))"
    "shows_prompt s \<longrightarrow> shows_prompt (s\<lparr>sys_prompt := p, sys_console := con\<rparr>)"
    "command_executed p = command_executed (sys_prompt s)" "scr_ok con"
    by (rule prompt_key [OF Cons.prems(1) k Cons.prems(2), of H B])
  let ?s1 = "s\<lparr>sys_prompt := p, sys_console := con\<rparr>"
  have "prompt_ok (sys_prompt ?s1)" "scr_ok (sys_console ?s1)" "shows_prompt ?s1"
    using 1 Cons.prems(3) by simp_all
  from Cons.IH [OF this] Cons.prems(4)
  obtain p2 con2 where 2: "type_keys H B ks ?s1 = Some (?s1\<lparr>sys_prompt := p2, sys_console := con2\<rparr>)"
    "prompt_ok p2" "typed p2 = edit_line ks (typed p)" "command_executed p2 = command_executed p"
    "scr_ok con2" "shows_prompt (?s1\<lparr>sys_prompt := p2, sys_console := con2\<rparr>)" by auto
  then show ?case
    using 1 by (intro exI [of _ p2] exI [of _ con2]) (simp add: edit_line_def)
qed

text \<open>Enter hands the line, closed by a NUL, to the interpreter.\<close>

lemma enter_spec:
  assumes "prompt_ok (sys_prompt s)" and "scancode_to_ascii k = 0x0A"
  obtains p rest where "prompt_handle_scancode H B k s =
      do { s2 \<leftarrow> execute_command H B (typed (sys_prompt s) @ 0 # rest)
             ((on_console (console_putchar 0x0A) s)\<lparr>sys_prompt := p\<rparr>);
           Some (s2\<lparr>sys_prompt := (sys_prompt s2)\<lparr>input_pos := 0, command_executed := True\<rparr>\<rparr>) }"
proof -
  let ?q = "sys_prompt s"
  let ?n = "nat (input_pos ?q)" and ?b = "input_buffer ?q"
  let ?p = "?q\<lparr>input_buffer := ?b(?n := 0)\<rparr>"
  have n: "0 \<le> input_pos ?q" "?n \<le> 255" "nat (input_pos ?q) < 256" "input_pos ?q < 256"
    using assms(1) by (auto simp: prompt_ok_def)
  have up: "[0..<256] = [0..<?n] @ ?n # [Suc ?n..<256]"
    using n(2) by (metis le_eq_less_or_eq less_Suc_eq_le upt_add_eq_append upt_conv_Cons zero_le eval_nat_numeral(3)
        add_0 less_imp_add_positive le_add1 Suc_le_eq n(3))
  have "mem_get (?b(?n := 0)) 0 256 = typed ?q @ 0 # map (?b(?n := 0)) [Suc ?n..<256]"
    unfolding mem_get_def typed_def by (simp add: up)
  then have "prompt_handle_scancode H B k s =
      do { s2 \<leftarrow> execute_command H B (typed ?q @ 0 # map (?b(?n := 0)) [Suc ?n..<256])
             ((on_console (console_putchar 0x0A) s)\<lparr>sys_prompt := ?p\<rparr>);
           Some (s2\<lparr>sys_prompt := (sys_prompt s2)\<lparr>input_pos := 0, command_executed := True\<rparr>\<rparr>) }"
    using n assms(2) by (simp add: prompt_handle_scancode_def put_input_def PROMPT_BUFFER_SIZE_def Let_def)
  then show thesis by (rule that)
qed

section \<open>Words of a line\<close>

lemma word_of_line:
  assumes "keyword kw" and "\<not> is_blank (hd (lit kw))" and "r = [] \<or> ends_word (hd r)"
  shows "first_word (lit kw @ r) = lit kw" and "after_word (lit kw @ r) = r" and "char_at (lit kw @ r) 0 \<noteq> 0"
proof -
  obtain c cs where k: "lit kw = c # cs" using assms(1) by (cases "lit kw") (auto simp: keyword_def lit_def)
  have all: "\<forall>x \<in> set (lit kw). \<not> ends_word x" using assms(1) by (simp add: keyword_def)
  then have c: "\<not> ends_word c" by (simp add: k)
  have nb: "skip_blanks (lit kw @ r) = lit kw @ r" using assms(2) by (simp add: k)
  show "char_at (lit kw @ r) 0 \<noteq> 0" using c by (simp add: k ends_word_def)
  have "takeWhile (\<lambda>c. \<not> ends_word c) (lit kw @ r) = lit kw"
    using takeWhile_word [OF all, of "lit kw @ r"] assms(3) by blast
  then show "first_word (lit kw @ r) = lit kw" by (simp add: first_word_def nb)
  have "dropWhile (\<lambda>c. \<not> ends_word c) r = r" using assms(3) by (cases r) auto
  then show "after_word (lit kw @ r) = r" using all by (simp add: after_word_def nb dropWhile_append2)
qed

end
