(* ===== verification/Shell_Files.thy ===== *)
theory Shell_Files
  imports Kernel_Invariant Fat12_Contract
begin

text \<open>
  The commands \<open>write\<close> and \<open>cat\<close> on a working disk: how they take their arguments off the
  command line, and that \<open>cat\<close> prints what \<open>write\<close> stored. A command line may hold
  anything behind its NUL.
\<close>

section \<open>Arguments\<close>

definition at_end :: "byte list \<Rightarrow> bool" where
  "at_end r \<longleftrightarrow> char_at r 0 = 0"

text \<open>A file name as the commands take it: no blanks or line breaks, and not too long.\<close>

definition argument_name :: "byte list \<Rightarrow> bool" where
  "argument_name p \<longleftrightarrow> p \<noteq> [] \<and> length p \<le> 127 \<and> (\<forall>c \<in> set p. c \<notin> {0, 0x20, 0x09, 0x0A, 0x0D})"

lemma at_end_cases: "at_end r \<longleftrightarrow> r = [] \<or> (\<exists>r'. r = 0 # r')"
  by (cases r) (auto simp: at_end_def)

lemma token_of_name:
  assumes "argument_name p"
  shows "read_token (Some (0x20 # p @ 0x20 # r)) 128 = Some (p, 0x20 # r)"
proof -
  obtain c cs where p: "p = c # cs" using assms by (cases p) (simp_all add: argument_name_def)
  have c: "c \<noteq> 0" "\<not> is_blank c" using assms by (auto simp: argument_name_def p is_blank_def)
  have all: "\<forall>x \<in> set p. x \<noteq> 0 \<and> \<not> is_blank x" using assms by (auto simp: argument_name_def is_blank_def)
  have b: "is_blank 0x20" by (simp add: is_blank_def)
  have tw: "takeWhile (\<lambda>c. c \<noteq> 0 \<and> \<not> is_blank c) (p @ 0x20 # r) = p"
    "dropWhile (\<lambda>c. c \<noteq> 0 \<and> \<not> is_blank c) (p @ 0x20 # r) = 0x20 # r"
    using all b by (simp_all add: takeWhile_append2 dropWhile_append2)
  have "skip_blanks (0x20 # p @ 0x20 # r) = p @ 0x20 # r" using c b by (simp add: p)
  moreover have "char_at (p @ 0x20 # r) 0 \<noteq> 0" using c by (simp add: p)
  moreover have "take 127 p = p" using assms by (simp add: argument_name_def)
  ultimately show ?thesis by (simp add: read_token_def skip_whitespace_def scan_token_eq tw del: skip_blanks.simps)
qed

lemma copy_line_all:
  "(\<forall>c \<in> set p. c \<notin> {0, 0x0A, 0x0D}) \<Longrightarrow> length dest + length p < n \<Longrightarrow> at_end r \<Longrightarrow>
   copy_line (p @ r) n dest = (True, dest @ p)"
proof (induction p arbitrary: dest)
  case Nil
  then show ?case by (auto simp: at_end_cases)
qed auto

lemma path_of_name:
  assumes "argument_name p" and "at_end r"
  shows "copy_path_argument (skip_whitespace (Some (0x20 # p @ r))) 128 = (int (length p), p)"
proof -
  obtain c cs where p: "p = c # cs" using assms(1) by (cases p) (simp_all add: argument_name_def)
  have "\<not> is_blank c" using assms(1) by (auto simp: argument_name_def p is_blank_def)
  then have s: "skip_whitespace (Some (0x20 # p @ r)) = Some (p @ r)" by (simp add: skip_whitespace_def p is_blank_def)
  have "copy_line (p @ r) 128 [] = (True, p)"
    using copy_line_all [of p "[]" 128 r] assms by (auto simp: argument_name_def)
  moreover have "trim_blanks p = p"
  proof -
    have "\<forall>c \<in> set (rev p). \<not> is_blank c" using assms(1) by (auto simp: argument_name_def is_blank_def)
    then have "dropWhile is_blank (rev p) = rev p" by (cases "rev p") simp_all
    then show ?thesis by (simp add: trim_blanks_def)
  qed
  ultimately show ?thesis by (simp add: s copy_path_argument_def)
qed

lemma copy_payload_all:
  "0 \<notin> set t \<Longrightarrow> len + length t \<le> 16384 \<Longrightarrow> at_end r \<Longrightarrow>
   copy_payload (t @ r) len buf = (True, len + length t, mem_put buf len t)"
proof (induction t arbitrary: len buf)
  case Nil
  then show ?case by (auto simp: at_end_cases)
next
  case (Cons c t)
  then show ?case by (simp add: FS_IO_BUFFER_SIZE_def mem_put_Cons)
qed

section \<open>Writing and printing a file\<close>

text \<open>The text of a \<open>write\<close> command: it starts behind the blanks and ends at the NUL.\<close>

definition payload :: "byte list \<Rightarrow> bool" where
  "payload t \<longleftrightarrow> 0 \<notin> set t \<and> length t \<le> 16383 \<and> (t \<noteq> [] \<longrightarrow> \<not> is_blank (hd t))"

text \<open>What \<open>cat\<close> prints.\<close>

definition print_file :: "byte list \<Rightarrow> console \<Rightarrow> console" where
  "print_file t con =
     (let c1 = fold console_putchar t con in if t = [] \<or> last t \<noteq> 0x0A then say newline c1 else c1)"

context sector_store
begin

lemma write_command_spec:
  assumes ready: "fat_ready s" and p: "argument_name p" "plain_path p name" and t: "payload t" "at_end r"
    and m: "mounted healthy cap (volume s)" and ok: "cwd_ok (sector (disk (volume s))) (volume s) dcs"
    and old: "bound_file (sector (disk (volume s))) (volume s) dcs name ocs"
    and room: "room_for (sector (disk (volume s))) (volume s) dcs name (length t)"
  obtains v dcs' ns where
    "handle_write_command D (0x20 # p @ 0x20 # t @ r) s =
       Some (s\<lparr>fs_io_buffer := mem_put (fs_io_buffer s) 0 t, volume := v,
               sys_console := say ('' bytes'' @ newline)
                 (print_unsigned (of_nat (length t)) (say ''Wrote '' (sys_console s)))\<rparr>)"
    "mounted healthy cap v" "cwd_ok (sector (disk v)) v dcs'" "holds_file (sector (disk v)) v dcs' name ns t"
proof -
  let ?buf = "mem_put (fs_io_buffer s) 0 t"
  have len: "length t \<le> 16383" using t(1) by (simp add: payload_def)
  have sz: "unat (of_nat (length t) :: u32) = length t" using len by (intro unat_size) simp
  have "room_for (sector (disk (volume s))) (volume s) dcs name (unat (of_nat (length t) :: u32))"
    using room by (simp only: sz)
  then obtain v dcs' ns where w:
    "fat12_write_file D (Some p) (Some ?buf) (of_nat (length t)) (volume s) = Some (Inr (), v)"
    "mounted healthy cap v" "cwd_ok (sector (disk v)) v dcs'" "holds_file (sector (disk v)) v dcs' name ns (mem_get ?buf 0 (length t))"
    by (rule write_held_file [OF m p(2) ok old, where data = ?buf]) (simp only: sz)
  have "skip_blanks (0x20 # t @ r) = t @ r"
    using t by (cases t) (auto simp: payload_def is_blank_def at_end_cases)
  moreover have "copy_payload (t @ r) 0 (fs_io_buffer s) = (True, length t, ?buf)"
    using copy_payload_all [of t 0 r] t by (simp add: payload_def)
  ultimately have "handle_write_command D (0x20 # p @ 0x20 # t @ r) s =
       Some (s\<lparr>fs_io_buffer := ?buf, volume := v,
               sys_console := say ('' bytes'' @ newline)
                 (print_unsigned (of_nat (length t)) (say ''Wrote '' (sys_console s)))\<rparr>)"
    using ready w(1)
    by (simp add: handle_write_command_def token_of_name [OF p(1)] Let_def on_console_def del: skip_blanks.simps)
  moreover have "mem_get ?buf 0 (length t) = t" by (simp add: mem_get_put_same)
  ultimately show thesis using w(2-4) by (intro that [of v dcs' ns]) simp_all
qed

lemma cat_command_spec:
  assumes ready: "fat_ready s" and p: "argument_name p" "plain_path p name" and r: "at_end r"
    and m: "mounted healthy cap (volume s)" and ok: "cwd_ok (sector (disk (volume s))) (volume s) dcs"
    and f: "holds_file (sector (disk (volume s))) (volume s) dcs name cs content" and len: "length content \<le> 16383"
  obtains buf v where
    "handle_cat D (0x20 # p @ r) s =
       Some (s\<lparr>fs_io_buffer := buf, volume := v, sys_console := print_file content (sys_console s)\<rparr>)"
proof -
  have size: "unat (of_nat (length content) :: u32) = length content" using len by (intro unat_size) simp
  have lim: "length content \<le> unat (FS_IO_BUFFER_SIZE - 1)" using len by (simp add: buffer_limits unat_size)
  let ?buf = "mem_put (fs_io_buffer s) 0 content"
  obtain v where rd: "fat12_read_file D (Some p) (Some (fs_io_buffer s)) (FS_IO_BUFFER_SIZE - 1) (volume s) =
      Some (Inr (of_nat (length content)), Some ?buf, v)"
    using read_held_file [OF m p(2) ok f lim] by blast
  have whole: "mem_get ?buf 0 (length content) = content" by (simp add: mem_get_put_same)
  have zero: "(of_nat (length content) :: u32) = 0 \<longleftrightarrow> content = []"
    using size unat_eq_zero [of "of_nat (length content) :: u32"] by simp
  have last: "?buf (unat (of_nat (length content) - 1 :: u32)) = last content" if ne: "content \<noteq> []"
  proof -
    obtain n where n: "length content = Suc n" using ne by (cases content) simp_all
    have "unat (of_nat (length content) - 1 :: u32) = n" using unat_size [of n] n len by simp
    then show ?thesis using ne n by (simp add: mem_put_in last_conv_nth)
  qed
  have "int (length p) \<noteq> 0" using p(1) by (simp add: argument_name_def)
  then have "handle_cat D (0x20 # p @ r) s =
       Some (s\<lparr>fs_io_buffer := ?buf, volume := v, sys_console := print_file content (sys_console s)\<rparr>)"
    using ready rd last
    by (auto simp: handle_cat_def path_of_name [OF p(1) r] Let_def on_console_def print_file_def size whole zero)
  then show thesis by (rule that)
qed

end

end
