(* ===== verification/Shell_Session.thy ===== *)
theory Shell_Session
  imports Shell_Lines Shell_Files Ata_Device
begin

text \<open>
  Sessions at the keyboard: the bytes of plain keys, typed at a prompt, build its line, and
  Enter runs the command and shows the next prompt. \<open>awaiting_key\<close> is the state between
  two bytes.
\<close>

section \<open>Plain keys\<close>

definition plain_byte :: "u8 \<Rightarrow> bool" where
  "plain_byte b \<longleftrightarrow> b AND 0x80 = 0 \<and> b \<noteq> 0x1D"

definition awaiting_key :: "'d sys \<Rightarrow> bool" where
  "awaiting_key s \<longleftrightarrow> \<not> cpu_halted s \<and> \<not> editor_active (sys_nano s) \<and> \<not> extended_scancode_pending (sys_keyboard s)
     \<and> \<not> command_executed (sys_prompt s) \<and> prompt_ok (sys_prompt s) \<and> scr_ok (sys_console s) \<and> shows_prompt s"

lemma decode_plain:
  assumes "plain_byte b" and "\<not> extended_scancode_pending kb"
  shows "decode_scancode b kb = (Some (ucast b, False), kb)"
proof -
  have b7: "\<not> bit b 7" using assms(1) and_exp_eq_0_iff_not_bit [of b 7] by (simp add: plain_byte_def)
  have "b AND 0x7F = b"
  proof (rule bit_word_eqI)
    fix n assume n: "n < LENGTH(8)"
    have "bit (0x7F :: u8) n \<longleftrightarrow> n < 7" using bit_mask_iff [of 7 n, where 'a = "8 word"] n by (simp add: mask_eq_exp_minus_1)
    with b7 n show "bit (b AND 0x7F) n = bit b n" by (auto simp: bit_and_iff less_Suc_eq_le le_less eval_nat_numeral)
  qed
  moreover have "b \<noteq> 0xE0" using assms(1) by (auto simp: plain_byte_def)
  ultimately show ?thesis using assms by (simp add: decode_scancode_def plain_byte_def Let_def)
qed

lemma handle_plain:
  assumes "plain_byte b" and "awaiting_key s"
  shows "handle_keyboard_input H B b s = prompt_handle_scancode H B (ucast b) s"
  using assms by (simp add: handle_keyboard_input_def awaiting_key_def decode_plain)

lemma plain_key_step:
  assumes "plain_byte b" and "scancode_to_ascii (ucast b) \<noteq> 0x0A" and "awaiting_key s"
  obtains p con where "loop_step H B b s = Some (s\<lparr>sys_prompt := p, sys_console := con\<rparr>)"
    "typed p = p_key (scancode_to_ascii (ucast b)) (typed (sys_prompt s))"
    "awaiting_key (s\<lparr>sys_prompt := p, sys_console := con\<rparr>)"
proof -
  have s: "prompt_ok (sys_prompt s)" "scr_ok (sys_console s)" "shows_prompt s" "\<not> command_executed (sys_prompt s)"
    using assms(3) by (simp_all add: awaiting_key_def)
  obtain p con where k: "prompt_handle_scancode H B (ucast b) s = Some (s\<lparr>sys_prompt := p, sys_console := con\<rparr>)"
    "prompt_ok p" "typed p = p_key (scancode_to_ascii (ucast b)) (typed (sys_prompt s))"
    "shows_prompt s \<longrightarrow> shows_prompt (s\<lparr>sys_prompt := p, sys_console := con\<rparr>)"
    "command_executed p = command_executed (sys_prompt s)" "scr_ok con"
    by (rule prompt_key [OF s(1) assms(2) s(2), of H B])
  show thesis
  proof (rule that)
    show "loop_step H B b s = Some (s\<lparr>sys_prompt := p, sys_console := con\<rparr>)"
      using k(1,5) s(4) by (simp add: loop_step_def handle_plain [OF assms(1,3)])
    show "awaiting_key (s\<lparr>sys_prompt := p, sys_console := con\<rparr>)"
      using assms(3) k(2,4-6) s(3) by (simp add: awaiting_key_def)
  qed (rule k(3))
qed

text \<open>Typing a line.\<close>

lemma main_loop_types:
  assumes "awaiting_key s" and "\<forall>b \<in> set ks. plain_byte b \<and> scancode_to_ascii (ucast b) \<noteq> 0x0A"
  shows "\<exists>p con. main_loop H B (ks @ later) s = main_loop H B later (s\<lparr>sys_prompt := p, sys_console := con\<rparr>)
    \<and> typed p = edit_line (map ucast ks) (typed (sys_prompt s))
    \<and> awaiting_key (s\<lparr>sys_prompt := p, sys_console := con\<rparr>)"
  using assms
proof (induction ks arbitrary: s)
  case Nil
  have "s\<lparr>sys_prompt := sys_prompt s, sys_console := sys_console s\<rparr> = s" by simp
  with Nil show ?case
    by (intro exI [of _ "sys_prompt s"] exI [of _ "sys_console s"]) (simp add: edit_line_def)
next
  case (Cons b ks)
  have b: "plain_byte b" "scancode_to_ascii (ucast b) \<noteq> 0x0A" using Cons.prems(2) by simp_all
  obtain p con where 1: "loop_step H B b s = Some (s\<lparr>sys_prompt := p, sys_console := con\<rparr>)"
    "typed p = p_key (scancode_to_ascii (ucast b)) (typed (sys_prompt s))"
    "awaiting_key (s\<lparr>sys_prompt := p, sys_console := con\<rparr>)"
    by (rule plain_key_step [OF b Cons.prems(1)])
  have "\<forall>b \<in> set ks. plain_byte b \<and> scancode_to_ascii (ucast b) \<noteq> 0x0A" using Cons.prems(2) by simp
  from Cons.IH [OF 1(3) this]
  obtain p2 con2 where 2: "main_loop H B (ks @ later) (s\<lparr>sys_prompt := p, sys_console := con\<rparr>) =
      main_loop H B later (s\<lparr>sys_prompt := p, sys_console := con\<rparr>\<lparr>sys_prompt := p2, sys_console := con2\<rparr>)"
    "typed p2 = edit_line (map ucast ks) (typed p)"
    "awaiting_key (s\<lparr>sys_prompt := p, sys_console := con\<rparr>\<lparr>sys_prompt := p2, sys_console := con2\<rparr>)" by auto
  have "\<not> cpu_halted s" using Cons.prems(1) by (simp add: awaiting_key_def)
  with 1 2 show ?case by (intro exI [of _ p2] exI [of _ con2]) (simp add: edit_line_def)
qed

section \<open>Enter\<close>

text \<open>A new prompt: an empty line, shown at the cursor.\<close>

lemma new_prompt:
  assumes "con_ok (sys_console s)" and "\<not> cpu_halted s" and "\<not> editor_active (sys_nano s)"
    and "\<not> extended_scancode_pending (sys_keyboard s)"
  obtains p con where "show_prompt s = Some (s\<lparr>sys_prompt := p, sys_console := con\<rparr>)" "typed p = []"
    "awaiting_key (s\<lparr>sys_prompt := p, sys_console := con\<rparr>)"
proof -
  let ?r = "prompt_reset s"
  have p: "prompt_ok (sys_prompt ?r)" "\<not> command_executed (sys_prompt ?r)" "typed (sys_prompt ?r) = []"
    "sys_console ?r = sys_console s"
    using assms(1) by (simp_all add: prompt_reset_def prompt_ok_def con_ok_def typed_def)
  have r: "?r\<lparr>sys_console := c\<rparr> = s\<lparr>sys_prompt := sys_prompt ?r, sys_console := c\<rparr>" for c
    by (simp add: prompt_reset_def)
  obtain con where con: "render_prompt_line ?r = Some (?r\<lparr>sys_console := con\<rparr>)" "shows_prompt (?r\<lparr>sys_console := con\<rparr>)"
    "con_theme con = con_theme (sys_console ?r)"
    "con_x con = prompt_line_start_x (sys_prompt ?r) + input_pos (sys_prompt ?r)" "con_y con = prompt_line_y (sys_prompt ?r)"
    by (rule render_prompt_spec [OF p(1)])
  have "scr_ok (sys_console s)" using assms(1) by (simp add: scr_ok_def con_ok_def)
  with scr_ok_cursor [OF p(1) con(4,5,3)] p(4) have "scr_ok con" by simp
  with con(2) p assms(2-4) show thesis
    by (intro that [where p = "sys_prompt ?r" and con = con]) (simp_all add: show_prompt_def con(1) awaiting_key_def r)
qed

text \<open>Enter, for a command that comes back to the prompt.\<close>

lemma enter_step:
  assumes s: "awaiting_key s"
    and run: "\<And>rest p. execute_command H B (typed (sys_prompt s) @ 0 # rest)
      (s\<lparr>sys_console := console_putchar 0x0A (sys_console s), sys_prompt := p\<rparr>) = Some (after rest p)"
    and ret: "\<And>rest p. \<not> cpu_halted (after rest p) \<and> sys_nano (after rest p) = sys_nano s \<and> sys_keyboard (after rest p) = sys_keyboard s"
  obtains rest p q r con where "loop_step H B 0x1C s = show_prompt ((after rest p)\<lparr>sys_prompt := q\<rparr>)"
    "show_prompt ((after rest p)\<lparr>sys_prompt := q\<rparr>) = Some ((after rest p)\<lparr>sys_prompt := r, sys_console := con\<rparr>)"
    "typed r = []" "awaiting_key ((after rest p)\<lparr>sys_prompt := r, sys_console := con\<rparr>)"
proof -
  have w: "awaiting_key s" "prompt_ok (sys_prompt s)" "scr_ok (sys_console s)" "\<not> editor_active (sys_nano s)"
    "\<not> extended_scancode_pending (sys_keyboard s)"
    using s by (simp_all add: awaiting_key_def)
  have k: "plain_byte 0x1C" "scancode_to_ascii (ucast (0x1C :: u8)) = 0x0A"
    by (simp add: plain_byte_def) code_simp
  obtain p rest where e: "prompt_handle_scancode H B (ucast (0x1C :: u8)) s =
      do { s2 \<leftarrow> execute_command H B (typed (sys_prompt s) @ 0 # rest)
             ((on_console (console_putchar 0x0A) s)\<lparr>sys_prompt := p\<rparr>);
           Some (s2\<lparr>sys_prompt := (sys_prompt s2)\<lparr>input_pos := 0, command_executed := True\<rparr>\<rparr>) }"
    by (rule enter_spec [OF w(2) k(2)])
  let ?a = "after rest p"
  define q where "q = (sys_prompt ?a)\<lparr>input_pos := 0, command_executed := False\<rparr>"
  have c: "con_ok (console_putchar 0x0A (sys_console s))"
  proof -
    have "con_ok (next_line (sys_console s))" using next_line_frame [of "sys_console s"] w(3) by (simp add: scr_ok_def)
    then show ?thesis by (simp add: console_putchar_def vga_write_char_def Let_def con_ok_def)
  qed
  have "cmd_frame (s\<lparr>sys_console := console_putchar 0x0A (sys_console s), sys_prompt := p\<rparr>) ?a"
    by (rule cmd_execute [OF run])
  then have a: "con_ok (sys_console (?a\<lparr>sys_prompt := q\<rparr>))" using c by (simp add: cmd_frame_def safe_to_def)
  have step: "loop_step H B 0x1C s = show_prompt (?a\<lparr>sys_prompt := q\<rparr>)"
    using e run [of rest p] ret [of rest p]
    by (simp add: loop_step_def handle_plain [OF k(1) w(1)] on_console_def prompt_clear_executed_flag_def q_def)
  obtain r con where n: "show_prompt (?a\<lparr>sys_prompt := q\<rparr>) = Some (?a\<lparr>sys_prompt := q\<rparr>\<lparr>sys_prompt := r, sys_console := con\<rparr>)"
    "typed r = []" "awaiting_key (?a\<lparr>sys_prompt := q\<rparr>\<lparr>sys_prompt := r, sys_console := con\<rparr>)"
    by (rule new_prompt [OF a]) (use ret [of rest p] w(4,5) in simp_all)
  show thesis by (rule that [OF step]) (use n in simp_all)
qed

section \<open>Command lines\<close>

lemma write_line: "execute_command H B (lit ''write '' @ x) s = handle_write_command (ata_disk H) (0x20 # x) s"
proof -
  have e: "lit ''write '' @ x = lit ''write'' @ 0x20 # x" by (simp add: lit_simps)
  have h: "\<not> is_blank (hd (lit ''write''))" by (simp add: lit_simps is_blank_def)
  have r: "0x20 # x = [] \<or> ends_word (hd (0x20 # x))" by (simp add: ends_word_def)
  note w = word_of_line [OF command_keywords(10) h r]
  show ?thesis
    unfolding execute_command_dispatch e run_command_def if_not_P [OF w(3)] w(1,2)
    by (simp add: command_table_def)
qed

lemma cat_line: "execute_command H B (lit ''cat '' @ x) s = handle_cat (ata_disk H) (0x20 # x) s"
proof -
  have e: "lit ''cat '' @ x = lit ''cat'' @ 0x20 # x" by (simp add: lit_simps)
  have h: "\<not> is_blank (hd (lit ''cat''))" by (simp add: lit_simps is_blank_def)
  have r: "0x20 # x = [] \<or> ends_word (hd (0x20 # x))" by (simp add: ends_word_def)
  note w = word_of_line [OF command_keywords(8) h r]
  show ?thesis
    unfolding execute_command_dispatch e run_command_def if_not_P [OF w(3)] w(1,2)
    by (simp add: command_table_def)
qed

section \<open>Commands typed at the keyboard\<close>

text \<open>A line that is typed and run from the prompt: all keys plain, and the state after it.\<close>

definition types_line :: "u8 list \<Rightarrow> byte list \<Rightarrow> bool" where
  "types_line ks line \<longleftrightarrow> (\<forall>b \<in> set ks. plain_byte b \<and> scancode_to_ascii (ucast b) \<noteq> 0x0A)
     \<and> edit_line (map ucast ks) [] = line"

lemma main_loop_append: "main_loop H B (xs @ ys) s = do { s1 \<leftarrow> main_loop H B xs s; main_loop H B ys s1 }"
proof (induction xs arbitrary: s)
  case (Cons b xs)
  have "cpu_halted s \<Longrightarrow> main_loop H B ys s = Some s" by (cases ys) simp_all
  with Cons.IH show ?case by (simp split: Option.bind_splits)
qed simp

text \<open>
  \<open>s1\<close> is the state when the line stands at the prompt, \<open>a\<close> the one the command leaves, \<open>s2\<close>
  the next prompt.
\<close>

lemma run_typed_line:
  assumes s: "awaiting_key s" "typed (sys_prompt s) = []" and ks: "types_line ks line"
    and run: "\<forall>rest p con. \<exists>s'. execute_command H B (line @ 0 # rest) (s\<lparr>sys_console := con, sys_prompt := p\<rparr>) = Some s'
      \<and> \<not> cpu_halted s' \<and> sys_nano s' = sys_nano s \<and> sys_keyboard s' = sys_keyboard s"
  obtains s1 rest p a q r con2 where
    "main_loop H B ks s = Some s1" "typed (sys_prompt s1) = line" "shows_prompt s1"
    "execute_command H B (line @ 0 # rest) (s\<lparr>sys_console := console_putchar 0x0A (sys_console s1), sys_prompt := p\<rparr>) = Some a"
    "show_prompt (a\<lparr>sys_prompt := q\<rparr>) = Some (a\<lparr>sys_prompt := r, sys_console := con2\<rparr>)" "typed r = []"
    "awaiting_key (a\<lparr>sys_prompt := r, sys_console := con2\<rparr>)"
    "main_loop H B [0x1C] s1 = Some (a\<lparr>sys_prompt := r, sys_console := con2\<rparr>)"
proof -
  note result = that
  have k: "\<forall>b \<in> set ks. plain_byte b \<and> scancode_to_ascii (ucast b) \<noteq> 0x0A" "edit_line (map ucast ks) [] = line"
    using ks by (simp_all add: types_line_def)
  obtain p1 con1 where 1: "main_loop H B ks s = Some (s\<lparr>sys_prompt := p1, sys_console := con1\<rparr>)"
    "typed p1 = line" "awaiting_key (s\<lparr>sys_prompt := p1, sys_console := con1\<rparr>)"
    using main_loop_types [OF s(1) k(1), of H B "[]"] s(2) k(2) by auto
  let ?s1 = "s\<lparr>sys_prompt := p1, sys_console := con1\<rparr>"
  let ?con = "console_putchar 0x0A con1"
  define after where "after rest p = the (execute_command H B (line @ 0 # rest) (s\<lparr>sys_console := ?con, sys_prompt := p\<rparr>))"
    for rest p
  have s1: "?s1\<lparr>sys_console := console_putchar 0x0A (sys_console ?s1), sys_prompt := p\<rparr> = s\<lparr>sys_console := ?con, sys_prompt := p\<rparr>"
    for p by simp
  have a: "execute_command H B (line @ 0 # rest) (s\<lparr>sys_console := ?con, sys_prompt := p\<rparr>) = Some (after rest p)
      \<and> \<not> cpu_halted (after rest p) \<and> sys_nano (after rest p) = sys_nano s \<and> sys_keyboard (after rest p) = sys_keyboard s"
    for rest p
  proof -
    obtain s' where s': "execute_command H B (line @ 0 # rest) (s\<lparr>sys_console := ?con, sys_prompt := p\<rparr>) = Some s'"
      "\<not> cpu_halted s'" "sys_nano s' = sys_nano s" "sys_keyboard s' = sys_keyboard s"
      using run by blast
    then show ?thesis by (simp add: after_def)
  qed
  have runs: "execute_command H B (typed (sys_prompt ?s1) @ 0 # rest)
      (?s1\<lparr>sys_console := console_putchar 0x0A (sys_console ?s1), sys_prompt := p\<rparr>) = Some (after rest p)" for rest p
    unfolding s1 using a [of rest p] 1(2) by simp
  have rets: "\<not> cpu_halted (after rest p) \<and> sys_nano (after rest p) = sys_nano ?s1 \<and> sys_keyboard (after rest p) = sys_keyboard ?s1"
    for rest p using a [of rest p] by simp
  obtain rest p q r con2 where e: "loop_step H B 0x1C ?s1 = show_prompt ((after rest p)\<lparr>sys_prompt := q\<rparr>)"
    "show_prompt ((after rest p)\<lparr>sys_prompt := q\<rparr>) = Some ((after rest p)\<lparr>sys_prompt := r, sys_console := con2\<rparr>)"
    "typed r = []" "awaiting_key ((after rest p)\<lparr>sys_prompt := r, sys_console := con2\<rparr>)"
    by (rule enter_step [OF 1(3) runs rets])
  have h: "\<not> cpu_halted ?s1" "shows_prompt ?s1" using 1(3) by (simp_all add: awaiting_key_def)
  have "main_loop H B [0x1C] ?s1 = Some ((after rest p)\<lparr>sys_prompt := r, sys_console := con2\<rparr>)"
    using h(1) e(1,2) by simp
  note enter = this
  have "typed (sys_prompt ?s1) = line" using 1(2) by simp
  moreover have "execute_command H B (line @ 0 # rest)
      (s\<lparr>sys_console := console_putchar 0x0A (sys_console ?s1), sys_prompt := p\<rparr>) = Some (after rest p)"
    using a [of rest p] by simp
  ultimately show thesis by (rule result [OF 1(1) _ h(2) _ e(2-4) enter])
qed

text \<open>\<open>write\<close> and then \<open>cat\<close>, from the bytes of the keyboard to the console.\<close>

lemma typed_write_cat:
  assumes dev: "ata_device H view cap"
    and s: "awaiting_key s" "typed (sys_prompt s) = []" and ready: "fat_ready s"
    and p: "argument_name p" "plain_path p name" and t: "payload t"
    and m: "mounted (drive_ok view cap) cap (volume s)" and ok: "cwd_ok (stored view (disk (volume s))) (volume s) dcs"
    and old: "bound_file (stored view (disk (volume s))) (volume s) dcs name ocs"
    and room: "room_for (stored view (disk (volume s))) (volume s) dcs name (length t)"
    and ks: "types_line ks1 (lit ''write '' @ p @ 0x20 # t)" "types_line ks2 (lit ''cat '' @ p)"
  shows "\<exists>s1 a1 s2 s3 a2 s4.
      main_loop H B ks1 s = Some s1 \<and> typed (sys_prompt s1) = lit ''write '' @ p @ 0x20 # t \<and> shows_prompt s1
    \<and> main_loop H B [0x1C] s1 = Some s2 \<and> show_prompt a1 = Some s2
    \<and> sys_console a1 = say ('' bytes'' @ newline) (print_unsigned (of_nat (length t))
        (say ''Wrote '' (console_putchar 0x0A (sys_console s1))))
    \<and> main_loop H B ks2 s2 = Some s3 \<and> typed (sys_prompt s3) = lit ''cat '' @ p \<and> shows_prompt s3
    \<and> main_loop H B [0x1C] s3 = Some s4 \<and> show_prompt a2 = Some s4
    \<and> sys_console a2 = print_file t (console_putchar 0x0A (sys_console s3))
    \<and> awaiting_key s4 \<and> main_loop H B (ks1 @ 0x1C # ks2 @ [0x1C]) s = Some s4"
proof -
  note D = ata_device.linked [OF dev]
  have end0: "at_end (0 # rest)" for rest by (simp add: at_end_def)
  have halt: "\<not> cpu_halted s" using s(1) by (simp add: awaiting_key_def)
  define told where "told con = say ('' bytes'' @ newline) (print_unsigned (of_nat (length t)) (say ''Wrote '' con))" for con
  have w: "\<exists>v dcs' ns buf. execute_command H B ((lit ''write '' @ p @ 0x20 # t) @ 0 # rest) (s\<lparr>sys_console := con, sys_prompt := q\<rparr>) =
      Some (s\<lparr>sys_prompt := q, fs_io_buffer := buf, volume := v, sys_console := told con\<rparr>)
      \<and> mounted (drive_ok view cap) cap v \<and> cwd_ok (stored view (disk v)) v dcs' \<and> holds_file (stored view (disk v)) v dcs' name ns t" for rest q con
  proof -
    let ?s = "s\<lparr>sys_console := con, sys_prompt := q\<rparr>"
    have h: "fat_ready ?s" "mounted (drive_ok view cap) cap (volume ?s)" "cwd_ok (stored view (disk (volume ?s))) (volume ?s) dcs"
      "bound_file (stored view (disk (volume ?s))) (volume ?s) dcs name ocs"
      "room_for (stored view (disk (volume ?s))) (volume ?s) dcs name (length t)"
      using ready m ok old room by simp_all
    obtain v dcs' ns where 1: "handle_write_command (ata_disk H) (0x20 # p @ 0x20 # t @ 0 # rest) ?s =
       Some (?s\<lparr>fs_io_buffer := mem_put (fs_io_buffer ?s) 0 t, volume := v,
               sys_console := say ('' bytes'' @ newline)
                 (print_unsigned (of_nat (length t)) (say ''Wrote '' (sys_console ?s)))\<rparr>)"
      "mounted (drive_ok view cap) cap v" "cwd_ok (stored view (disk v)) v dcs'" "holds_file (stored view (disk v)) v dcs' name ns t"
      by (rule sector_store.write_command_spec [OF D h(1) p t end0 h(2-5)])
    have "execute_command H B ((lit ''write '' @ p @ 0x20 # t) @ 0 # rest) ?s =
        handle_write_command (ata_disk H) (0x20 # p @ 0x20 # t @ 0 # rest) ?s"
      using write_line [of H B "p @ 0x20 # t @ 0 # rest" ?s] by simp
    with 1 show ?thesis
      by (intro exI [of _ v] exI [of _ dcs'] exI [of _ ns] exI [of _ "mem_put (fs_io_buffer s) 0 t"] conjI)
        (simp_all add: told_def)
  qed
  obtain s1 rest q a r con2 q2 where 1:
    "main_loop H B ks1 s = Some s1" "typed (sys_prompt s1) = lit ''write '' @ p @ 0x20 # t" "shows_prompt s1"
    "execute_command H B ((lit ''write '' @ p @ 0x20 # t) @ 0 # rest)
       (s\<lparr>sys_console := console_putchar 0x0A (sys_console s1), sys_prompt := q\<rparr>) = Some a"
    "show_prompt (a\<lparr>sys_prompt := q2\<rparr>) = Some (a\<lparr>sys_prompt := r, sys_console := con2\<rparr>)"
    "typed r = []" "awaiting_key (a\<lparr>sys_prompt := r, sys_console := con2\<rparr>)"
    "main_loop H B [0x1C] s1 = Some (a\<lparr>sys_prompt := r, sys_console := con2\<rparr>)"
  proof (rule run_typed_line [OF s ks(1), of H B])
    show "\<forall>rest p' con. \<exists>s'. execute_command H B ((lit ''write '' @ p @ 0x20 # t) @ 0 # rest)
        (s\<lparr>sys_console := con, sys_prompt := p'\<rparr>) = Some s'
      \<and> \<not> cpu_halted s' \<and> sys_nano s' = sys_nano s \<and> sys_keyboard s' = sys_keyboard s"
    proof (intro allI)
      fix rest p' con
      show "\<exists>s'. execute_command H B ((lit ''write '' @ p @ 0x20 # t) @ 0 # rest)
          (s\<lparr>sys_console := con, sys_prompt := p'\<rparr>) = Some s'
        \<and> \<not> cpu_halted s' \<and> sys_nano s' = sys_nano s \<and> sys_keyboard s' = sys_keyboard s"
        using w [where rest = rest and con = con and q = p'] halt by (elim exE conjE) (intro exI conjI, assumption, simp_all)
    qed
  qed (rule that)
  obtain v dcs' ns buf where a: "a = s\<lparr>sys_prompt := q, fs_io_buffer := buf, volume := v,
      sys_console := told (console_putchar 0x0A (sys_console s1))\<rparr>"
    "mounted (drive_ok view cap) cap v" "cwd_ok (stored view (disk v)) v dcs'" "holds_file (stored view (disk v)) v dcs' name ns t"
    using w [where rest = rest and con = "console_putchar 0x0A (sys_console s1)" and q = q] 1(4) by auto
  let ?s2 = "a\<lparr>sys_prompt := r, sys_console := con2\<rparr>"
  have s2: "fat_ready ?s2" "volume ?s2 = v" "\<not> cpu_halted ?s2" "typed (sys_prompt ?s2) = []" "length t \<le> 16383"
    using ready halt 1(6) t by (simp_all add: a(1) payload_def)
  have c: "\<forall>zs qq k. \<exists>buf v'. execute_command H B ((lit ''cat '' @ p) @ 0 # zs) (?s2\<lparr>sys_console := k, sys_prompt := qq\<rparr>) =
      Some (?s2\<lparr>sys_prompt := qq, fs_io_buffer := buf, volume := v', sys_console := print_file t k\<rparr>)"
  proof (intro allI)
    fix zs qq k
    let ?s = "?s2\<lparr>sys_console := k, sys_prompt := qq\<rparr>"
    have h: "fat_ready ?s" "mounted (drive_ok view cap) cap (volume ?s)" "cwd_ok (stored view (disk (volume ?s))) (volume ?s) dcs'"
      "holds_file (stored view (disk (volume ?s))) (volume ?s) dcs' name ns t"
      using s2(1,2) a(2-4) by simp_all
    obtain buf v' where "handle_cat (ata_disk H) (0x20 # p @ 0 # zs) ?s =
        Some (?s\<lparr>fs_io_buffer := buf, volume := v', sys_console := print_file t (sys_console ?s)\<rparr>)"
      by (rule sector_store.cat_command_spec [OF D h(1) p end0 h(2-4) s2(5)])
    moreover have "execute_command H B ((lit ''cat '' @ p) @ 0 # zs) ?s = handle_cat (ata_disk H) (0x20 # p @ 0 # zs) ?s"
      using cat_line [of H B "p @ 0 # zs" ?s] by simp
    ultimately show "\<exists>buf v'. execute_command H B ((lit ''cat '' @ p) @ 0 # zs) ?s =
        Some (?s2\<lparr>sys_prompt := qq, fs_io_buffer := buf, volume := v', sys_console := print_file t k\<rparr>)"
      by (intro exI [of _ buf] exI [of _ v']) simp
  qed
  obtain s3 rest3 q3 a3 q4 r3 con4 where 3:
    "main_loop H B ks2 ?s2 = Some s3" "typed (sys_prompt s3) = lit ''cat '' @ p" "shows_prompt s3"
    "execute_command H B ((lit ''cat '' @ p) @ 0 # rest3)
       (?s2\<lparr>sys_console := console_putchar 0x0A (sys_console s3), sys_prompt := q3\<rparr>) = Some a3"
    "show_prompt (a3\<lparr>sys_prompt := q4\<rparr>) = Some (a3\<lparr>sys_prompt := r3, sys_console := con4\<rparr>)"
    "awaiting_key (a3\<lparr>sys_prompt := r3, sys_console := con4\<rparr>)"
    "main_loop H B [0x1C] s3 = Some (a3\<lparr>sys_prompt := r3, sys_console := con4\<rparr>)"
  proof (rule run_typed_line [OF 1(7) s2(4) ks(2), of H B])
    show "\<forall>rest p' con. \<exists>s'. execute_command H B ((lit ''cat '' @ p) @ 0 # rest)
        (?s2\<lparr>sys_console := con, sys_prompt := p'\<rparr>) = Some s'
      \<and> \<not> cpu_halted s' \<and> sys_nano s' = sys_nano ?s2 \<and> sys_keyboard s' = sys_keyboard ?s2"
    proof (intro allI)
      fix rest p' con
      show "\<exists>s'. execute_command H B ((lit ''cat '' @ p) @ 0 # rest) (?s2\<lparr>sys_console := con, sys_prompt := p'\<rparr>) = Some s'
        \<and> \<not> cpu_halted s' \<and> sys_nano s' = sys_nano ?s2 \<and> sys_keyboard s' = sys_keyboard ?s2"
        using c [THEN spec, THEN spec, THEN spec, of rest p' con] s2(3) by (elim exE) (intro exI conjI, assumption, simp_all)
    qed
  qed (rule that)
  have c1: "sys_console (a\<lparr>sys_prompt := q2\<rparr>) = told (console_putchar 0x0A (sys_console s1))" by (simp add: a(1))
  have c3: "sys_console (a3\<lparr>sys_prompt := q4\<rparr>) = print_file t (console_putchar 0x0A (sys_console s3))"
    using c [THEN spec, THEN spec, THEN spec, of rest3 q3 "console_putchar 0x0A (sys_console s3)"] 3(4) by auto
  have "main_loop H B (ks1 @ [0x1C] @ ks2 @ [0x1C]) s = Some (a3\<lparr>sys_prompt := r3, sys_console := con4\<rparr>)"
    by (simp only: main_loop_append 1(1,8) 3(1,7) Option.bind.bind_lunit)
  then have all: "main_loop H B (ks1 @ 0x1C # ks2 @ [0x1C]) s = Some (a3\<lparr>sys_prompt := r3, sys_console := con4\<rparr>)"
    by simp
  show ?thesis
    by (intro exI conjI) (rule 1(1-3) 1(8) 1(5) c1 [unfolded told_def] 3(1-3) 3(7) 3(5) c3 3(6) all)+
qed

end
