(* ===== verification/Shell_Offline.thy ===== *)
theory Shell_Offline
  imports Kernel_Invariant Ata_Identify
begin

text \<open>
  The kernel without a mounted volume: the file commands print one message, and every step
  of the main loop keeps \<open>unmounted\<close>: no volume, no editor, and the sectors of the drive.
\<close>

section \<open>File commands\<close>

lemma offline_handlers:
  assumes "\<not> fat_ready s"
  shows "handle_ls D args s = Some (offline s)" "handle_pwd s = offline s" "handle_cd D args s = Some (offline s)"
    "handle_cat D args s = Some (offline s)" "handle_touch D args s = Some (offline s)"
    "handle_write_command D args s = Some (offline s)" "handle_mkdir_command D args s = Some (offline s)"
    "handle_rm_command D args s = Some (offline s)" "handle_nano_command D args s = Some (offline s)"
  by (simp only: handle_ls_def handle_pwd_def handle_cd_def handle_cat_def handle_touch_def
      handle_write_command_def handle_mkdir_command_def handle_rm_command_def handle_nano_command_def assms
      simp_thms if_True)+

lemma command_lookup:
  "map_of (command_table H B) (lit ''ls'') = Some (handle_ls (ata_disk H))"
  "map_of (command_table H B) (lit ''dir'') = Some (handle_ls (ata_disk H))"
  "map_of (command_table H B) (lit ''pwd'') = Some (\<lambda>args s. Some (handle_pwd s))"
  "map_of (command_table H B) (lit ''cd'') = Some (handle_cd (ata_disk H))"
  "map_of (command_table H B) (lit ''cat'') = Some (handle_cat (ata_disk H))"
  "map_of (command_table H B) (lit ''touch'') = Some (handle_touch (ata_disk H))"
  "map_of (command_table H B) (lit ''write'') = Some (handle_write_command (ata_disk H))"
  "map_of (command_table H B) (lit ''mkdir'') = Some (handle_mkdir_command (ata_disk H))"
  "map_of (command_table H B) (lit ''rm'') = Some (handle_rm_command (ata_disk H))"
  "map_of (command_table H B) (lit ''nano'') = Some (handle_nano_command (ata_disk H))"
  by (simp_all add: command_table_def)

definition file_commands :: "string set" where
  "file_commands = {''ls'', ''dir'', ''pwd'', ''cd'', ''cat'', ''touch'', ''write'', ''mkdir'', ''rm'', ''nano''}"

lemma offline_table:
  assumes "\<not> fat_ready s"
    and "kw \<in> file_commands"
  shows "\<exists>handler. map_of (command_table H B) (lit kw) = Some handler \<and> handler args s = Some (offline s)"
proof -
  note off = offline_handlers [OF assms(1)]
  from assms(2) show ?thesis
    unfolding file_commands_def
    by (elim insertE emptyE; hypsubst)
     (rule exI, rule conjI, rule command_lookup, simp only: off)+
qed

lemma file_command_offline:
  assumes "\<not> fat_ready s" and "char_at line 0 \<noteq> 0"
    and "first_word line \<in> lit ` file_commands"
  shows "execute_command H B line s =
    Some (s\<lparr>sys_console := console_print (Some (lit (''Filesystem not initialized'' @ newline))) (sys_console s)\<rparr>)"
proof -
  obtain kw where kw: "first_word line = lit kw"
    "kw \<in> file_commands"
    using assms(3) by (elim imageE) (rule that)
  have "kw \<noteq> ''echo''" using kw(2) by (auto simp: file_commands_def)
  moreover obtain handler where "map_of (command_table H B) (lit kw) = Some handler"
    "handler (after_word line) s = Some (offline s)"
    using offline_table [OF assms(1) kw(2)] by blast
  ultimately have "run_command H B line s = Some (offline s)" using assms(2) by (simp add: run_command_def kw(1))
  then show ?thesis by (simp add: execute_command_dispatch offline_def on_console_def)
qed

section \<open>What every step keeps\<close>

text \<open>\<open>v0\<close> is the state of the file system at the start.\<close>

definition unmounted :: "('h \<Rightarrow> ata_view) \<Rightarrow> nat \<Rightarrow> 'h disk_state fat12_state \<Rightarrow> 'h disk_state sys \<Rightarrow> bool" where
  "unmounted view cap v0 s \<longleftrightarrow> \<not> fat_ready s \<and> \<not> editor_active (sys_nano s) \<and> drive_ok view cap (disk (volume s))
     \<and> stored view (disk (volume s)) = stored view (disk v0) \<and> volume s = v0\<lparr>disk := disk (volume s)\<rparr>"

lemma unmounted_same:
  "volume s' = volume s \<Longrightarrow> fat_ready s' = fat_ready s \<Longrightarrow> sys_nano s' = sys_nano s \<Longrightarrow>
   unmounted view cap v0 s' = unmounted view cap v0 s"
  by (simp add: unmounted_def)

lemma unmounted_update [simp]:
  "unmounted view cap v0 (on_console f s) = unmounted view cap v0 s"
  "unmounted view cap v0 (s\<lparr>sys_prompt := p\<rparr>) = unmounted view cap v0 s"
  "unmounted view cap v0 (s\<lparr>sys_keyboard := kb\<rparr>) = unmounted view cap v0 s"
  "unmounted view cap v0 (s\<lparr>cpu_halted := h\<rparr>) = unmounted view cap v0 s"
  "unmounted view cap v0 (bootlog_init s) = unmounted view cap v0 s"
  by (rule unmounted_same; simp add: on_console_def bootlog_init_def)+

lemma unmounted_set_disk:
  assumes "unmounted view cap v0 s" and "drive_ok view cap d" and "stored view d = stored view (disk v0)"
  shows "unmounted view cap v0 (set_disk d s)"
proof -
  have "volume s = v0\<lparr>disk := disk (volume s)\<rparr>" using assms(1) by (simp add: unmounted_def)
  from arg_cong [OF this, of "\<lambda>v. v\<lparr>disk := d\<rparr>"] have "(volume s)\<lparr>disk := d\<rparr> = v0\<lparr>disk := d\<rparr>" by simp
  with assms show ?thesis by (simp add: unmounted_def set_disk_def)
qed

lemma unmounted_render:
  assumes "render_prompt_line s = Some s'"
  shows "unmounted view cap v0 s' = unmounted view cap v0 s"
  using assms by (auto simp: render_prompt_line_def Let_def split: if_splits)

lemma unmounted_prompt: "show_prompt s = Some s' \<Longrightarrow> unmounted view cap v0 s' = unmounted view cap v0 s"
  by (simp add: show_prompt_def unmounted_render prompt_reset_def)

lemma unmounted_simple:
  assumes "unmounted view cap v0 s"
  shows "unmounted view cap v0 (handle_clear s)" "unmounted view cap v0 (handle_echo args s)"
    "unmounted view cap v0 (handle_fetch B s)" "unmounted view cap v0 (handle_theme_command args s)"
    "unmounted view cap v0 (handle_fsstat_command s)" "unmounted view cap v0 (handle_bootlog_command s)"
    "unmounted view cap v0 (handle_storage_command s)" "unmounted view cap v0 (handle_help s)"
    "unmounted view cap v0 (offline s)"
  using assms
  by (simp_all add: handle_clear_def handle_echo_def handle_fetch_def handle_theme_command_def handle_fsstat_command_def
      handle_bootlog_command_def bootlog_print_def handle_storage_command_def handle_help_def offline_def Let_def)

text \<open>\<open>shutdown\<close> has nothing to flush.\<close>

lemma unmounted_shutdown:
  assumes "unmounted view cap v0 s"
  shows "unmounted view cap v0 (handle_shutdown D s)"
proof -
  have "\<not> fat_ready s" using assms by (simp add: unmounted_def)
  then show ?thesis using assms by (simp add: handle_shutdown_def unmounted_def on_console_def Let_def)
qed

context ata_identify
begin

lemma unmounted_disk:
  assumes "unmounted view cap v0 s" and "0 < cap"
  shows "unmounted view cap v0 (handle_disk H s)"
proof -
  have d0: "drive_ok view cap (disk (volume s))" using assms(1) by (simp add: unmounted_def)
  obtain d1 where d1: "disk_init H (disk (volume s)) = (0, d1)" "drive_ok view cap d1"
    "stored view d1 = stored view (disk (volume s))"
    by (rule disk_init_ready [OF d0])
  obtain buf d2 where d2: "disk_read_sector H 0 (Some 0) (\<lambda>_. 0) d1 = (0, buf, d2)" "drive_ok view cap d2"
    "stored view d2 = stored view d1"
    using read_sector [OF d1(2), of 0 0 "\<lambda>_. 0"] assms(2) by (auto simp: ata_disk_def)
  obtain rc d3 where d3: "disk_self_test H d2 = (rc, d3)" "drive_ok view cap d3" "stored view d3 = stored view d2"
    by (rule self_test_keeps [OF d2(2) assms(2)])
  have v: "volume (on_console f s) = volume s" "disk (volume (set_disk d s)) = d" for f d and s :: "'a disk_state sys"
    by (simp_all add: on_console_def set_disk_def)
  have k: "unmounted view cap v0 (set_disk d (on_console f s'))"
    if "unmounted view cap v0 s'" "drive_ok view cap d" "stored view d = stored view (disk v0)" for d f s'
    using that by (intro unmounted_set_disk) simp_all
  have s: "stored view d1 = stored view (disk v0)" "stored view d2 = stored view (disk v0)" "stored view d3 = stored view (disk v0)"
    using d1(3) d2(3) d3(3) assms(1) by (simp_all add: unmounted_def)
  show ?thesis
    using assms(1) d1(2) d2(2) d3(2) s by (simp add: handle_disk_def Let_def v d1(1) d2(1) d3(1) k)
qed

lemma unmounted_table:
  assumes u: "unmounted view cap v0 s" and "0 < cap"
    and "(w, h) \<in> set (command_table H B)" and "h args s = Some s'"
  shows "unmounted view cap v0 s'"
proof -
  have "\<not> fat_ready s" using u by (simp add: unmounted_def)
  note off = offline_handlers [OF this]
  have "\<forall>(w, h) \<in> set (command_table H B). \<forall>s'. h args s = Some s' \<longrightarrow> unmounted view cap v0 s'"
    by (simp add: command_table_def off unmounted_simple [OF u] unmounted_shutdown [OF u] unmounted_disk [OF u assms(2)])
  with assms(3,4) show ?thesis by blast
qed

lemma unmounted_execute:
  assumes u: "unmounted view cap v0 s" and cap: "0 < cap" and r: "execute_command H B line s = Some s'"
  shows "unmounted view cap v0 s'"
proof -
  have r: "run_command H B line s = Some s'" using r by (simp add: execute_command_dispatch)
  consider "s' = s" | "s' = handle_echo (tl (after_word line)) s"
    | h where "map_of (command_table H B) (first_word line) = Some h" "h (after_word line) s = Some s'"
    | "s' = on_console (\<lambda>con. say newline (console_print (Some (skip_blanks line)) (say ''Unknown command: '' con))) s"
    using r by (auto simp: run_command_def split: if_splits option.splits)
  then show ?thesis
  proof cases
    case (3 h)
    from unmounted_table [OF u cap map_of_SomeD [OF 3(1)] 3(2)] show ?thesis .
  qed (use u in \<open>simp_all add: unmounted_simple\<close>)
qed

lemma unmounted_key:
  assumes u: "unmounted view cap v0 s" and cap: "0 < cap" and r: "prompt_handle_scancode H B sc s = Some s'"
  shows "unmounted view cap v0 s'"
proof (cases "scancode_to_ascii sc = 0x0A")
  case True
  then obtain p1 s2 where e: "execute_command H B (mem_get (input_buffer p1) 0 256)
      ((on_console (console_putchar 0x0A) s)\<lparr>sys_prompt := p1\<rparr>) = Some s2"
    "s' = s2\<lparr>sys_prompt := (sys_prompt s2)\<lparr>input_pos := 0, command_executed := True\<rparr>\<rparr>"
    using r by (auto simp: prompt_handle_scancode_def Let_def split: Option.bind_splits)
  have "unmounted view cap v0 ((on_console (console_putchar 0x0A) s)\<lparr>sys_prompt := p1\<rparr>)" using u by simp
  from unmounted_execute [OF this cap e(1)] show ?thesis by (simp add: e(2))
next
  case False
  then show ?thesis
    using r u by (auto simp: prompt_handle_scancode_def Let_def unmounted_render split: if_splits Option.bind_splits)
qed

lemma unmounted_step:
  assumes u: "unmounted view cap v0 s" and cap: "0 < cap" and r: "loop_step H B b s = Some s'"
  shows "unmounted view cap v0 s'"
proof -
  obtain event kb where d: "decode_scancode b (sys_keyboard s) = (event, kb)" by fastforce
  have u1: "unmounted view cap v0 (s\<lparr>sys_keyboard := kb\<rparr>)" using u by simp
  have e: "\<not> editor_active (sys_nano s)" using u by (simp add: unmounted_def)
  obtain s1 where s1: "handle_keyboard_input H B b s = Some s1"
    "(if command_executed (sys_prompt s1) \<and> \<not> cpu_halted s1 then show_prompt (prompt_clear_executed_flag s1) else Some s1) = Some s'"
    using r by (auto simp: loop_step_def split: Option.bind_splits)
  have "unmounted view cap v0 s1"
  proof (cases event)
    case None
    then show ?thesis using s1(1) u1 by (simp add: handle_keyboard_input_def d Let_def)
  next
    case (Some ev)
    obtain sc rel where ev: "ev = (sc, rel)" by (cases ev)
    show ?thesis
      using s1(1) u1 e Some ev unmounted_key [OF u1 cap, of B sc s1]
      by (cases rel) (simp_all add: handle_keyboard_input_def d Let_def)
  qed
  with s1(2) show ?thesis by (auto simp: unmounted_prompt prompt_clear_executed_flag_def split: if_splits)
qed

lemma reachable_unmounted:
  assumes "0 < cap" and "unmounted view cap v0 s0" and "reachable H B s0 s"
  shows "unmounted view cap v0 s"
  using assms(3)
proof induction
  case (reachable_prompt s)
  then show ?case using assms(2) by (simp add: unmounted_prompt)
next
  case (reachable_key s b s')
  then show ?case by (blast intro: unmounted_step [OF _ assms(1)])
qed

end

end
