(* ===== verification/Shell_Properties.thy ===== *)
theory Shell_Properties
  imports Boot_Example Shell_Session Shell_Offline
begin

text \<open>
  The properties of console, prompt, shell and main loop.
\<close>

section \<open>The running kernel\<close>

text \<open>
  C3. Screen and buffer safety of the whole kernel: in every state reachable from start-up
  by any sequence of keyboard bytes (commands, the editor and the prompt included) the
  cursor is in a row of the screen, no byte outside the 4000 bytes of the text buffer has
  been stored to, the prompt's start is on the screen and the index into its 256-byte
  buffer leaves room for the closing NUL.
\<close>

theorem kernel_screen_safe:
  assumes "reachable H B (kernel_boot H P magic info s0) s"
    and "0 \<le> con_theme (sys_console s0)" and "con_theme (sys_console s0) < 3" and "prompt_ok (sys_prompt s0)"
    and "\<not> command_executed (sys_prompt s0)"
  shows "0 \<le> con_x (sys_console s) \<and> 0 \<le> con_y (sys_console s) \<and> con_y (sys_console s) < VGA_HEIGHT
    \<and> (\<forall>i \<ge> 4000. con_vga (sys_console s) i = con_vga (sys_console s0) i)
    \<and> 0 \<le> input_pos (sys_prompt s) \<and> input_pos (sys_prompt s) < PROMPT_BUFFER_SIZE
    \<and> 0 \<le> prompt_line_start_x (sys_prompt s) \<and> prompt_line_start_x (sys_prompt s) < VGA_WIDTH
    \<and> 0 \<le> prompt_line_y (sys_prompt s) \<and> prompt_line_y (sys_prompt s) < VGA_HEIGHT"
proof -
  have "screen_inv (con_vga (sys_console s0)) (kernel_boot H P magic info s0)"
    "con_x (sys_console (kernel_boot H P magic info s0)) < 80"
    using boot_screen [OF assms(2-5)] by blast+
  from reachable_inv [OF assms(1) this] show ?thesis
    by (auto simp: kernel_inv_def screen_inv_def scr_ok_def prompt_ok_def beyond_kept_def)
qed

text \<open>The first prompt after a start-up that mounts an empty floppy.\<close>

theorem kernel_screen_safe_witness:
  "\<exists>s. reachable drive a_build floppy_boot s \<and> 0 \<le> con_y (sys_console s) \<and> con_y (sys_console s) < VGA_HEIGHT"
proof -
  let ?s0 = floppy_start
  have s0: "0 \<le> con_theme (sys_console ?s0)" "con_theme (sys_console ?s0) < 3" "prompt_ok (sys_prompt ?s0)"
    "\<not> command_executed (sys_prompt ?s0)" "\<not> cpu_halted ?s0"
    by (simp_all add: floppy_start_def start_sys_def start_console_def prompt_ok_def)
  have "screen_inv (con_vga (sys_console ?s0)) floppy_boot" "con_x (sys_console floppy_boot) < 80"
    unfolding floppy_boot_def using boot_screen [OF s0(1-4)] by blast+
  then obtain s where s: "show_prompt floppy_boot = Some s" by (rule prompt_reset_ok)
  have "reachable drive a_build floppy_boot s" by (rule reachable_prompt [OF floppy_boot_runs s])
  from kernel_screen_safe [OF this [unfolded floppy_boot_def] s0(1-4)] this show ?thesis by blast
qed

section \<open>Lines and commands\<close>

text \<open>
  C11. The prompt is a line editor: from a state that shows its prompt, any sequence of keys
  other than Enter turns the typed line into what a reference editor makes of it (append a
  printable character below 255, Backspace drops the last, other keys do nothing), changes
  nothing but prompt and console, and the screen row shows exactly that line; Enter then
  runs the command interpreter on that line closed by a NUL.
\<close>

theorem prompt_line_editor:
  assumes "prompt_ok (sys_prompt s)" and "scr_ok (sys_console s)" and "shows_prompt s"
    and "\<forall>k \<in> set ks. scancode_to_ascii k \<noteq> 0x0A" and "scancode_to_ascii enter = 0x0A"
  shows "\<exists>p con. type_keys H B ks s = Some (s\<lparr>sys_prompt := p, sys_console := con\<rparr>)
    \<and> typed p = edit_line ks (typed (sys_prompt s)) \<and> shows_prompt (s\<lparr>sys_prompt := p, sys_console := con\<rparr>)
    \<and> (\<exists>q rest. prompt_handle_scancode H B enter (s\<lparr>sys_prompt := p, sys_console := con\<rparr>) =
         do { s2 \<leftarrow> execute_command H B (edit_line ks (typed (sys_prompt s)) @ 0 # rest)
                (s\<lparr>sys_console := console_putchar 0x0A con, sys_prompt := q\<rparr>);
              Some (s2\<lparr>sys_prompt := (sys_prompt s2)\<lparr>input_pos := 0, command_executed := True\<rparr>\<rparr>) })"
proof -
  obtain p con where 1: "type_keys H B ks s = Some (s\<lparr>sys_prompt := p, sys_console := con\<rparr>)" "prompt_ok p"
    "typed p = edit_line ks (typed (sys_prompt s))" "shows_prompt (s\<lparr>sys_prompt := p, sys_console := con\<rparr>)"
    using type_keys_spec [OF assms(1-4), of H B] by blast
  let ?s1 = "s\<lparr>sys_prompt := p, sys_console := con\<rparr>"
  have "prompt_ok (sys_prompt ?s1)" using 1(2) by simp
  then obtain q rest where "prompt_handle_scancode H B enter ?s1 =
      do { s2 \<leftarrow> execute_command H B (typed (sys_prompt ?s1) @ 0 # rest)
             ((on_console (console_putchar 0x0A) ?s1)\<lparr>sys_prompt := q\<rparr>);
           Some (s2\<lparr>sys_prompt := (sys_prompt s2)\<lparr>input_pos := 0, command_executed := True\<rparr>\<rparr>) }"
    using enter_spec [of ?s1 enter H B] assms(5) by blast
  with 1 show ?thesis
    by (intro exI [of _ p] exI [of _ con] conjI exI [of _ q] exI [of _ rest]) (simp_all add: on_console_def)
qed

text \<open>The keys \<open>h\<close>, \<open>i\<close> and Backspace.\<close>

theorem prompt_line_editor_witness:
  "\<exists>s p con. type_keys drive a_build [0x23, 0x17, 0x0E] s = Some (s\<lparr>sys_prompt := p, sys_console := con\<rparr>)
     \<and> typed (sys_prompt s) = [] \<and> typed p = [0x68]"
proof -
  let ?s0 = "start_sys False blank_volume"
  have p0: "prompt_ok (sys_prompt ?s0)" by (simp add: start_sys_def prompt_ok_def)
  obtain con where con: "shows_prompt (?s0\<lparr>sys_console := con\<rparr>)" "con_theme con = con_theme (sys_console ?s0)"
    "con_x con = prompt_line_start_x (sys_prompt ?s0) + input_pos (sys_prompt ?s0)" "con_y con = prompt_line_y (sys_prompt ?s0)"
    by (rule render_prompt_spec [OF p0])
  let ?s = "?s0\<lparr>sys_console := con\<rparr>"
  have s: "prompt_ok (sys_prompt ?s)" "scr_ok (sys_console ?s)" "typed (sys_prompt ?s) = []"
    using p0 con(2-4) by (simp_all add: scr_ok_def) (simp_all add: start_sys_def start_console_def typed_def)
  have k: "\<forall>k \<in> set [0x23, 0x17, 0x0E]. scancode_to_ascii k \<noteq> 0x0A" "scancode_to_ascii 0x1C = 0x0A"
    by code_simp+
  have e: "edit_line [0x23, 0x17, 0x0E] [] = [0x68]" by code_simp
  obtain p c2 where "type_keys drive a_build [0x23, 0x17, 0x0E] ?s = Some (?s\<lparr>sys_prompt := p, sys_console := c2\<rparr>)"
    "typed p = edit_line [0x23, 0x17, 0x0E] (typed (sys_prompt ?s))"
    using prompt_line_editor [OF s(1,2) con(1) k, of drive a_build] by (elim exE conjE) (rule that)
  then show ?thesis using s(3) e by (intro exI [of _ ?s] exI [of _ p] exI [of _ c2]) simp
qed

text \<open>
  C21. Dispatch: the chain of prefix comparisons in the interpreter is a table lookup of the
  line's first word, with what follows the word as argument; \<open>echo\<close> alone needs a blank
  behind it, and an unknown word prints a message and changes nothing else.
\<close>

theorem dispatch_is_table_lookup:
  "execute_command H B line s = run_command H B line s"
  by (rule execute_command_dispatch)

section \<open>The kernel without a volume\<close>

text \<open>
  C38. A kernel whose start-up mounted no volume never writes: on any drive that keeps the
  PIO protocol, in every state its main loop reaches by any bytes from the keyboard, no volume
  is mounted and the editor is not open, no sector of the drive has changed, nothing of the
  file system's state but the driver's has changed, and a line whose command is one of the ten
  file commands prints its one message and changes nothing else.
\<close>

theorem unmounted_kernel_never_writes:
  assumes "ata_identify H view cap" and "0 < cap" and "drive_ok view cap (disk (volume s0))"
    and "\<not> fat_ready s0" and "\<not> editor_active (sys_nano s0)" and "reachable H B s0 s"
  shows "\<not> fat_ready s \<and> \<not> editor_active (sys_nano s)
    \<and> stored view (disk (volume s)) = stored view (disk (volume s0)) \<and> drive_ok view cap (disk (volume s))
    \<and> volume s = (volume s0)\<lparr>disk := disk (volume s)\<rparr>
    \<and> (\<forall>line. char_at line 0 \<noteq> 0 \<and> first_word line \<in> lit ` file_commands \<longrightarrow>
         execute_command H B line s =
           Some (s\<lparr>sys_console := console_print (Some (lit (''Filesystem not initialized'' @ newline))) (sys_console s)\<rparr>))"
proof -
  have "unmounted view cap (volume s0) s0" using assms(3-5) by (simp add: unmounted_def)
  then have "unmounted view cap (volume s0) s"
    by (rule ata_identify.reachable_unmounted [OF assms(1,2) _ assms(6)])
  then show ?thesis using file_command_offline [of s _ H B] by (simp add: unmounted_def)
qed

text \<open>The keys of \<open>ls\<close> and Enter, from the first prompt on.\<close>

theorem unmounted_kernel_never_writes_witness:
  "\<exists>s. reachable drive a_build (start_sys False blank_volume) s \<and> awaiting_key s
     \<and> stored here (disk (volume s)) = blank_media
     \<and> execute_command drive a_build (lit ''ls'') s =
         Some (s\<lparr>sys_console := console_print (Some (lit (''Filesystem not initialized'' @ newline))) (sys_console s)\<rparr>)"
proof -
  let ?s0 = "start_sys False blank_volume"
  have ls: "first_word (lit ''ls'' @ r) = lit ''ls''" "char_at (lit ''ls'' @ r) 0 \<noteq> 0" "''ls'' \<in> file_commands"
    if "r = [] \<or> hd r = 0" for r
    using that by (cases r; simp add: first_word_def lit_simps ends_word_def is_blank_def file_commands_def)+
  have s0: "con_ok (sys_console ?s0)" "\<not> cpu_halted ?s0" "\<not> editor_active (sys_nano ?s0)"
    "\<not> extended_scancode_pending (sys_keyboard ?s0)" "\<not> fat_ready ?s0" "volume ?s0 = blank_volume"
    by (simp_all add: start_sys_def start_console_def zero_nano_def keyboard_init_def con_ok_def)
  obtain q con where 1: "show_prompt ?s0 = Some (?s0\<lparr>sys_prompt := q, sys_console := con\<rparr>)" "typed q = []"
    "awaiting_key (?s0\<lparr>sys_prompt := q, sys_console := con\<rparr>)"
    by (rule new_prompt [OF s0(1-4)])
  let ?s1 = "?s0\<lparr>sys_prompt := q, sys_console := con\<rparr>"
  have t: "typed (sys_prompt ?s1) = []" "\<not> cpu_halted ?s1" using 1(2,3) by (simp_all add: awaiting_key_def)
  have k: "types_line [0x26, 0x1F] (lit ''ls'')" by code_simp
  have run: "\<forall>rest p con. \<exists>s'. execute_command drive a_build (lit ''ls'' @ 0 # rest) (?s1\<lparr>sys_console := con, sys_prompt := p\<rparr>) = Some s'
      \<and> \<not> cpu_halted s' \<and> sys_nano s' = sys_nano ?s1 \<and> sys_keyboard s' = sys_keyboard ?s1"
  proof (intro allI)
    fix rest p con
    let ?s = "?s1\<lparr>sys_console := con, sys_prompt := p\<rparr>"
    have "\<not> fat_ready ?s" "first_word (lit ''ls'' @ 0 # rest) \<in> lit ` file_commands" "char_at (lit ''ls'' @ 0 # rest) 0 \<noteq> 0"
      using ls [of "0 # rest"] s0(5) by simp_all
    from file_command_offline [OF this(1,3,2), of drive a_build] t(2)
    show "\<exists>s'. execute_command drive a_build (lit ''ls'' @ 0 # rest) ?s = Some s'
      \<and> \<not> cpu_halted s' \<and> sys_nano s' = sys_nano ?s1 \<and> sys_keyboard s' = sys_keyboard ?s1"
      by simp
  qed
  obtain s2 s where 2: "main_loop drive a_build [0x26, 0x1F] ?s1 = Some s2" "main_loop drive a_build [0x1C] s2 = Some s" "awaiting_key s"
    by (rule run_typed_line [OF 1(3) t(1) k run])
  have r: "reachable drive a_build ?s0 s"
    by (rule main_loop_reachable [OF 2(2) main_loop_reachable [OF 2(1) reachable_prompt [OF s0(2) 1(1)]]])
  have d: "drive_ok here 2880 (disk (volume ?s0))" unfolding s0(6) by (simp add: blank_volume_def blank_drive_ok)
  have "stored here (disk (volume ?s0)) = blank_media" unfolding s0(6) by (simp add: blank_volume_def blank_sectors)
  moreover note unmounted_kernel_never_writes [OF identifying_drive.ata_identify_axioms _ d s0(5,3) r]
  ultimately show ?thesis using r 2(3) ls [of "[]"] by (intro exI [of _ s]) simp
qed

text \<open>
  C7. \<open>write\<close> then \<open>cat\<close>: on any drive that keeps the PIO protocol, with room for the text,
  the line \<open>write NAME TEXT\<close> stores the text and the line \<open>cat NAME\<close> prints exactly it,
  followed by a line feed when the text does not end with one.
\<close>

theorem write_then_cat:
  assumes "ata_device H view cap" and "fat_ready s" and "mounted (drive_ok view cap) cap (volume s)"
    and "argument_name p" and "plain_path p name" and "payload t" and "at_end r" and "at_end r2"
    and "cwd_ok (stored view (disk (volume s))) (volume s) dcs"
    and "bound_file (stored view (disk (volume s))) (volume s) dcs name ocs"
    and "room_for (stored view (disk (volume s))) (volume s) dcs name (length t)"
  shows "\<exists>s1 s2. execute_command H B (lit ''write '' @ p @ 0x20 # t @ r) s = Some s1
    \<and> execute_command H B (lit ''cat '' @ p @ r2) s1 = Some s2
    \<and> sys_console s2 = print_file t (sys_console s1)"
proof -
  have w: "execute_command H B (lit ''write '' @ x) s = handle_write_command (ata_disk H) (0x20 # x) s"
    and c: "execute_command H B (lit ''cat '' @ x) s = handle_cat (ata_disk H) (0x20 # x) s" for x s
    by (rule write_line, rule cat_line)
  note D = ata_device.linked [OF assms(1)]
  obtain v dcs' ns where 1: "handle_write_command (ata_disk H) (0x20 # p @ 0x20 # t @ r) s =
      Some (s\<lparr>fs_io_buffer := mem_put (fs_io_buffer s) 0 t, volume := v,
              sys_console := say ('' bytes'' @ newline)
                (print_unsigned (of_nat (length t)) (say ''Wrote '' (sys_console s)))\<rparr>)"
    "mounted (drive_ok view cap) cap v" "cwd_ok (stored view (disk v)) v dcs'" "holds_file (stored view (disk v)) v dcs' name ns t"
    by (rule sector_store.write_command_spec [OF D assms(2,4-7,3,9-11)])
  let ?s1 = "s\<lparr>fs_io_buffer := mem_put (fs_io_buffer s) 0 t, volume := v,
      sys_console := say ('' bytes'' @ newline) (print_unsigned (of_nat (length t)) (say ''Wrote '' (sys_console s)))\<rparr>"
  have s1: "fat_ready ?s1" "mounted (drive_ok view cap) cap (volume ?s1)"
    "cwd_ok (stored view (disk (volume ?s1))) (volume ?s1) dcs'"
    "holds_file (stored view (disk (volume ?s1))) (volume ?s1) dcs' name ns t" "length t \<le> 16383"
    using 1 assms(2,6) by (simp_all add: payload_def)
  obtain buf v2 where 2: "handle_cat (ata_disk H) (0x20 # p @ r2) ?s1 =
      Some (?s1\<lparr>fs_io_buffer := buf, volume := v2, sys_console := print_file t (sys_console ?s1)\<rparr>)"
    by (rule sector_store.cat_command_spec [OF D s1(1) assms(4,5,8) s1(2-5)])
  show ?thesis
    using 1(1) 2
    by (intro exI [of _ ?s1] exI [of _ "?s1\<lparr>fs_io_buffer := buf, volume := v2, sys_console := print_file t (sys_console ?s1)\<rparr>"])
      (simp add: w c)
qed

theorem write_then_cat_witness:
  "\<exists>s1 s2. execute_command drive a_build (lit ''write '' @ a_txt @ 0x20 # lit ''hi'') (start_sys True blank_volume) = Some s1
    \<and> execute_command drive a_build (lit ''cat '' @ a_txt) s1 = Some s2
    \<and> sys_console s2 = print_file (lit ''hi'') (sys_console s1)"
proof -
  let ?s = "start_sys True blank_volume"
  have v: "volume ?s = blank_volume" "fat_ready ?s" by (simp_all add: start_sys_def)
  have a: "argument_name a_txt" "payload (lit ''hi'')" "at_end []" "length (lit ''hi'') \<le> 512"
    by (simp_all add: argument_name_def a_txt_def payload_def lit_simps is_blank_def at_end_def)
  show ?thesis
    using write_then_cat [OF drive_device v(2) _ a(1) a_path(1) a(2,3,3), of "[]" "[]" a_build]
      blank_mounted blank_cwd(1) blank_bound [OF blank_cwd(2)] blank_room [OF a(4)]
    unfolding v(1) append_Nil2 by blast
qed

text \<open>
  C4. A session at the keyboard: on a kernel that waits at an empty prompt, with a mounted
  volume on any drive that keeps the PIO protocol, the bytes of the keys of \<open>write NAME TEXT\<close>
  put that line into the prompt (state \<open>s1\<close>); Enter prints the line feed and the report of the
  bytes written behind it, nothing else, and shows an empty prompt (\<open>s2\<close>); the keys of
  \<open>cat NAME\<close> put that line there (\<open>s3\<close>); Enter prints a line feed and then exactly the text,
  with a line feed when it does not end with one, to the console of \<open>s3\<close>, and nothing else
  before the last prompt (\<open>s4\<close>), where the kernel waits for a key again. The main loop on all
  the bytes is the composition of the four.
\<close>

theorem keyboard_session:
  assumes "ata_device H view cap" and "awaiting_key s" and "typed (sys_prompt s) = []" and "fat_ready s"
    and "argument_name p" and "plain_path p name" and "payload t" and "mounted (drive_ok view cap) cap (volume s)"
    and "cwd_ok (stored view (disk (volume s))) (volume s) dcs"
    and "bound_file (stored view (disk (volume s))) (volume s) dcs name ocs"
    and "room_for (stored view (disk (volume s))) (volume s) dcs name (length t)"
    and "types_line ks1 (lit ''write '' @ p @ 0x20 # t)" and "types_line ks2 (lit ''cat '' @ p)"
  shows "\<exists>s1 a1 s2 s3 a2 s4.
      main_loop H B ks1 s = Some s1 \<and> typed (sys_prompt s1) = lit ''write '' @ p @ 0x20 # t \<and> shows_prompt s1
    \<and> main_loop H B [0x1C] s1 = Some s2 \<and> show_prompt a1 = Some s2
    \<and> sys_console a1 = say ('' bytes'' @ newline) (print_unsigned (of_nat (length t))
        (say ''Wrote '' (console_putchar 0x0A (sys_console s1))))
    \<and> main_loop H B ks2 s2 = Some s3 \<and> typed (sys_prompt s3) = lit ''cat '' @ p \<and> shows_prompt s3
    \<and> main_loop H B [0x1C] s3 = Some s4 \<and> show_prompt a2 = Some s4
    \<and> sys_console a2 = print_file t (console_putchar 0x0A (sys_console s3))
    \<and> awaiting_key s4 \<and> main_loop H B (ks1 @ 0x1C # ks2 @ [0x1C]) s = Some s4"
  using typed_write_cat [OF assms] .

text \<open>The keys of \<open>write a.txt hi\<close> and of \<open>cat a.txt\<close>.\<close>

theorem keyboard_session_witness:
  "\<exists>s s3 a2 s4. main_loop drive a_build ([0x11, 0x13, 0x17, 0x14, 0x12, 0x39, 0x1E, 0x34, 0x14, 0x2D, 0x14, 0x39, 0x23, 0x17]
      @ 0x1C # [0x2E, 0x1E, 0x14, 0x39, 0x1E, 0x34, 0x14, 0x2D, 0x14] @ [0x1C]) s = Some s4
    \<and> volume s = blank_volume \<and> main_loop drive a_build [0x1C] s3 = Some s4 \<and> show_prompt a2 = Some s4
    \<and> sys_console a2 = print_file (lit ''hi'') (console_putchar 0x0A (sys_console s3)) \<and> awaiting_key s4"
proof -
  let ?s0 = "start_sys True blank_volume"
  have c0: "con_ok (sys_console ?s0)" "\<not> cpu_halted ?s0" "\<not> editor_active (sys_nano ?s0)"
    "\<not> extended_scancode_pending (sys_keyboard ?s0)"
    by (simp_all add: start_sys_def start_console_def zero_nano_def keyboard_init_def con_ok_def)
  obtain q con where "typed q = []" "awaiting_key (?s0\<lparr>sys_prompt := q, sys_console := con\<rparr>)"
    by (rule new_prompt [OF c0])
  then obtain s where s: "awaiting_key s" "typed (sys_prompt s) = []" "volume s = blank_volume" "fat_ready s"
    by (intro that [of "?s0\<lparr>sys_prompt := q, sys_console := con\<rparr>"]) (simp_all add: start_sys_def)
  have k: "types_line [0x11, 0x13, 0x17, 0x14, 0x12, 0x39, 0x1E, 0x34, 0x14, 0x2D, 0x14, 0x39, 0x23, 0x17]
      (lit ''write '' @ a_txt @ 0x20 # lit ''hi'')"
    "types_line [0x2E, 0x1E, 0x14, 0x39, 0x1E, 0x34, 0x14, 0x2D, 0x14] (lit ''cat '' @ a_txt)"
    by code_simp+
  have a: "argument_name a_txt" "payload (lit ''hi'')" "length (lit ''hi'') \<le> 512"
    by (simp_all add: argument_name_def a_txt_def payload_def lit_simps is_blank_def)
  have v: "mounted (drive_ok here 2880) 2880 (volume s)" "cwd_ok (stored here (disk (volume s))) (volume s) []"
    "bound_file (stored here (disk (volume s))) (volume s) [] a_name []"
    "room_for (stored here (disk (volume s))) (volume s) [] a_name (length (lit ''hi''))"
    unfolding s(3) by (rule blank_mounted blank_cwd(1) blank_bound [OF blank_cwd(2)] blank_room [OF a(3)])+
  show ?thesis
    using keyboard_session [OF drive_device s(1,2,4) a(1) a_path(1) a(2) v k, of a_build] s(3)
    by (elim exE conjE) (intro exI conjI, assumption+)
qed

section \<open>Numbers on the screen\<close>

text \<open>
  C32. Decimal output: for every signed 32-bit value, the lowest included, and a cursor with
  at least 11 cells of the screen behind it (room for any value), \<open>print_decimal\<close>
  puts a minus sign when it is negative and then digits without leading zeros whose value
  is its absolute value into the cells from the cursor on, in the attribute of the theme,
  moves the cursor behind them and leaves all other cells alone.
\<close>

theorem print_decimal_text:
  assumes "con_ok con" and "con_pos con + 11 < 2000"
  shows "\<exists>ds. let out = (if sint v < 0 then 0x2D # ds else ds) in
      (\<forall>c \<in> set ds. is_digit_char c) \<and> int (digits_value ds) = \<bar>sint v\<bar> \<and> ds \<noteq> [] \<and> (ds = [0x30] \<or> hd ds \<noteq> 0x30)
      \<and> con_pos (print_decimal v con) = con_pos con + int (length out)
      \<and> (\<forall>k \<ge> 0. cell (con_vga (print_decimal v con)) k =
           (if con_pos con \<le> k \<and> k < con_pos con + int (length out)
            then (out ! nat (k - con_pos con), get_current_text_attr con) else cell (con_vga con) k))"
proof -
  obtain ds where ds: "decimal_chars v = (if sint v < 0 then 0x2D # ds else ds)" "\<forall>c \<in> set ds. is_digit_char c"
    "int (digits_value ds) = \<bar>sint v\<bar>" "ds \<noteq> []" "length ds \<le> 10" "ds = [0x30] \<or> hd ds \<noteq> 0x30"
    by (rule decimal_chars_spec)
  define out where "out = (if sint v < 0 then 0x2D # ds else ds)"
  have t: "\<forall>c \<in> set out. printable c" "length out \<le> 11"
    using ds(2,5) digit_printable by (auto simp: out_def printable_def)
  have "cstr out = out" using t(1) by (intro cstr_idem) (auto simp: printable_def)
  then have p: "print_decimal v con = console_print (Some out) con"
    by (simp add: print_decimal_chars ds(1) out_def [symmetric] console_print_putchar)
  have "con_pos con + int (length out) < 2000" using assms(2) t(2) by simp
  note r = print_text [OF assms(1) t(1) this]
  show ?thesis
    using ds(2-4,6) r r [of 0] by (intro exI [of _ ds]) (simp add: p out_def [symmetric] Let_def)
qed

theorem print_decimal_text_witness:
  "\<exists>ds. int (digits_value ds) = 2 ^ 31 \<and> cell (con_vga (print_decimal 0x80000000 start_console)) 0 = (0x2D, 0x07)
     \<and> con_pos (print_decimal 0x80000000 start_console) = 1 + int (length ds)"
proof -
  have c: "con_ok start_console" "con_pos start_console + 11 < 2000" "con_pos start_console = 0"
    by (simp_all add: con_ok_def con_pos_def start_console_def)
  have v: "sint (0x80000000 :: u32) = - (2 ^ 31)" by simp
  have a: "get_current_text_attr start_console = 0x07" by code_simp
  show ?thesis
    using print_decimal_text [OF c(1,2), of "0x80000000"] by (auto simp: v a c(3) Let_def)
qed

end
