(* ===== verification/Uefi_Loader.thy ===== *)
theory Uefi_Loader
  imports Prelude
begin

text \<open>
  The UEFI boot loader \<open>src/bootloader/uefi_loader.c\<close>. The firmware is a parameter: the
  record \<open>efi\<close> holds the services the loader calls, as functions on a firmware state, and
  the fields of the system table it reads. Pointers and handles are addresses, 0 is
  \<open>NULL\<close>. Status codes have the values of the UEFI specification.
\<close>

section \<open>Status codes\<close>

type_synonym u64 = "64 word"
type_synonym efi_status = u64
type_synonym wchars = "u16 list"

definition EFI_SUCCESS :: efi_status where "EFI_SUCCESS = 0"

definition efi_err :: "u64 \<Rightarrow> efi_status" where
  "efi_err n = push_bit 63 1 OR n"

abbreviation "EFI_LOAD_ERROR \<equiv> efi_err 1"
abbreviation "EFI_INVALID_PARAMETER \<equiv> efi_err 2"
abbreviation "EFI_UNSUPPORTED \<equiv> efi_err 3"
abbreviation "EFI_BAD_BUFFER_SIZE \<equiv> efi_err 4"
abbreviation "EFI_BUFFER_TOO_SMALL \<equiv> efi_err 5"
abbreviation "EFI_NOT_READY \<equiv> efi_err 6"
abbreviation "EFI_DEVICE_ERROR \<equiv> efi_err 7"
abbreviation "EFI_WRITE_PROTECTED \<equiv> efi_err 8"
abbreviation "EFI_OUT_OF_RESOURCES \<equiv> efi_err 9"
abbreviation "EFI_NO_MEDIA \<equiv> efi_err 12"
abbreviation "EFI_MEDIA_CHANGED \<equiv> efi_err 13"
abbreviation "EFI_NOT_FOUND \<equiv> efi_err 14"
abbreviation "EFI_ACCESS_DENIED \<equiv> efi_err 15"

definition EFI_ERROR :: "efi_status \<Rightarrow> bool" where
  "EFI_ERROR st \<longleftrightarrow> bit st 63"

definition wide :: "string \<Rightarrow> wchars" where
  "wide s = map of_char s"

definition crlf :: string where
  "crlf = [CHR 0x0D, CHR 0x0A]"

definition ALTONIUM_GRUB_PATH :: wchars where
  "ALTONIUM_GRUB_PATH = wide (''EFI'' @ [CHR 0x5C] @ ''ALTONIUM'' @ [CHR 0x5C] @ ''GRUBX64.EFI'')"

definition ALTONIUM_KERNEL_PATH :: wchars where
  "ALTONIUM_KERNEL_PATH = wide (''boot'' @ [CHR 0x5C] @ ''x86'' @ [CHR 0x5C] @ ''kernel.elf'')"

definition efi_status_string :: "efi_status \<Rightarrow> wchars option" where
  "efi_status_string status =
     (if status = EFI_SUCCESS then Some (wide ''success'')
      else if status = EFI_LOAD_ERROR then Some (wide ''load error'')
      else if status = EFI_INVALID_PARAMETER then Some (wide ''invalid parameter'')
      else if status = EFI_UNSUPPORTED then Some (wide ''unsupported'')
      else if status = EFI_BAD_BUFFER_SIZE then Some (wide ''bad buffer size'')
      else if status = EFI_BUFFER_TOO_SMALL then Some (wide ''buffer too small'')
      else if status = EFI_NOT_READY then Some (wide ''not ready'')
      else if status = EFI_DEVICE_ERROR then Some (wide ''device error'')
      else if status = EFI_WRITE_PROTECTED then Some (wide ''write protected'')
      else if status = EFI_OUT_OF_RESOURCES then Some (wide ''out of resources'')
      else if status = EFI_NOT_FOUND then Some (wide ''not found'')
      else if status = EFI_ACCESS_DENIED then Some (wide ''access denied'')
      else if status = EFI_NO_MEDIA then Some (wide ''no media'')
      else if status = EFI_MEDIA_CHANGED then Some (wide ''media changed'')
      else None)"

section \<open>The firmware\<close>

datatype efi_guid = SIMPLE_FILE_SYSTEM | BLOCK_IO | LOADED_IMAGE

record block_media =
  media_present :: bool
  media_id :: u32
  block_size :: u32
  last_block :: u64

text \<open>
  Presence of the console and boot services, the values printed, and the services. The two
  reads of a pool buffer, \<open>info_file_size\<close> (the field of the file information in the buffer)
  and \<open>descriptor_at\<close> (type and page count of the descriptor at an offset of the map), are
  accesses that pass the state like the services do: what they do to a buffer that is not
  held is left open.
\<close>

record 'f efi =
  con_out :: bool
  con_in :: bool
  boot_services :: bool
  firmware_vendor :: "wchars option"
  firmware_revision :: u32
  table_address :: u64
  services_address :: u64
  services_revision :: u32
  runtime_address :: u64
  reset_console :: "'f \<Rightarrow> efi_status \<times> 'f"
  clear_screen :: "'f \<Rightarrow> 'f"
  output_string :: "wchars \<Rightarrow> 'f \<Rightarrow> 'f"
  wait_for_event :: "'f \<Rightarrow> 'f"
  read_key_stroke :: "'f \<Rightarrow> 'f"
  handle_protocol :: "u64 \<Rightarrow> efi_guid \<Rightarrow> 'f \<Rightarrow> efi_status \<times> u64 \<times> 'f"
  device_handle :: "u64 \<Rightarrow> 'f \<Rightarrow> u64"
  fs_open_volume :: "u64 \<Rightarrow> 'f \<Rightarrow> efi_status \<times> u64 \<times> 'f"
  file_open :: "u64 \<Rightarrow> wchars \<Rightarrow> 'f \<Rightarrow> efi_status \<times> u64 \<times> 'f"
  get_info :: "u64 \<Rightarrow> u64 \<Rightarrow> u64 \<Rightarrow> 'f \<Rightarrow> efi_status \<times> u64 \<times> 'f"
  info_file_size :: "u64 \<Rightarrow> 'f \<Rightarrow> u64 \<times> 'f"
  file_read :: "u64 \<Rightarrow> u64 \<Rightarrow> u64 \<Rightarrow> 'f \<Rightarrow> efi_status \<times> u64 \<times> 'f"
  file_close :: "u64 \<Rightarrow> 'f \<Rightarrow> 'f"
  allocate_pool :: "u64 \<Rightarrow> 'f \<Rightarrow> u64 \<times> 'f"
  free_pool :: "u64 \<Rightarrow> 'f \<Rightarrow> 'f"
  block_media_of :: "u64 \<Rightarrow> 'f \<Rightarrow> block_media option"
  read_blocks :: "u64 \<Rightarrow> u32 \<Rightarrow> u64 \<Rightarrow> u64 \<Rightarrow> u64 \<Rightarrow> 'f \<Rightarrow> efi_status \<times> 'f"
  get_memory_map :: "u64 \<Rightarrow> u64 \<Rightarrow> 'f \<Rightarrow> efi_status \<times> u64 \<times> u64 \<times> 'f"
  descriptor_at :: "u64 \<Rightarrow> u64 \<Rightarrow> 'f \<Rightarrow> (u32 \<times> u64) \<times> 'f"
  load_image :: "u64 \<Rightarrow> u64 \<Rightarrow> u64 \<Rightarrow> 'f \<Rightarrow> efi_status \<times> u64 \<times> 'f"
  start_image :: "u64 \<Rightarrow> 'f \<Rightarrow> efi_status \<times> 'f"

section \<open>Console\<close>

definition print_ascii :: "'f efi \<Rightarrow> wchars option \<Rightarrow> 'f \<Rightarrow> 'f" where
  "print_ascii E msg f = (case msg of None \<Rightarrow> f | Some m \<Rightarrow> if con_out E then output_string E m f else f)"

abbreviation tell :: "'f efi \<Rightarrow> string \<Rightarrow> 'f \<Rightarrow> 'f" where
  "tell E s \<equiv> print_ascii E (Some (wide s))"

definition tell_line :: "'f efi \<Rightarrow> string \<Rightarrow> 'f \<Rightarrow> 'f" where
  "tell_line E s f = tell E (s @ crlf) f"

definition print_newline :: "'f efi \<Rightarrow> 'f \<Rightarrow> 'f" where
  "print_newline E f = tell E crlf f"

text \<open>The loops fill \<open>buffer[32]\<close> from its end; \<open>pos\<close> is what is left in front.\<close>

fun uint_loop :: "nat \<Rightarrow> u64 \<Rightarrow> wchars \<Rightarrow> wchars" where
  "uint_loop 0 value buffer = buffer"
| "uint_loop (Suc pos) value buffer =
     (if value > 0 then uint_loop pos (value div 10) ((0x30 + ucast (value mod 10)) # buffer) else buffer)"

definition print_uint :: "'f efi \<Rightarrow> u64 \<Rightarrow> 'f \<Rightarrow> 'f" where
  "print_uint E value f = print_ascii E (Some (if value = 0 then [0x30] else uint_loop 31 value [])) f"

definition hex_wchar :: "u64 \<Rightarrow> u16" where
  "hex_wchar d = (if d < 10 then 0x30 + ucast d else 0x37 + ucast d)"

fun hex_loop :: "nat \<Rightarrow> u64 \<Rightarrow> nat \<Rightarrow> nat \<Rightarrow> wchars \<Rightarrow> wchars" where
  "hex_loop 0 value width printed buffer = buffer"
| "hex_loop (Suc pos) value width printed buffer =
     (let buffer1 = hex_wchar (value AND 0xF) # buffer; value1 = drop_bit 4 value; printed1 = Suc printed in
      if value1 \<noteq> 0 \<or> printed1 < width then hex_loop pos value1 width printed1 buffer1 else buffer1)"

definition print_hex :: "'f efi \<Rightarrow> u64 \<Rightarrow> nat \<Rightarrow> 'f \<Rightarrow> 'f" where
  "print_hex E value width f = print_ascii E (Some (hex_loop 31 value width 0 [])) f"

definition print_status :: "'f efi \<Rightarrow> efi_status \<Rightarrow> wchars option \<Rightarrow> 'f \<Rightarrow> 'f" where
  "print_status E status ctxt f =
     (let f1 = tell E ''[UEFI] '' f;
          f2 = (if ctxt \<noteq> None then print_ascii E ctxt f1 else tell E ''status'' f1);
          f3 = print_hex E status 8 (tell E '': 0x'' f2);
          name = efi_status_string status;
          f4 = (if name \<noteq> None then tell E '')'' (print_ascii E name (tell E '' ('' f3)) else f3)
      in print_newline E f4)"

definition wait_for_key :: "'f efi \<Rightarrow> 'f \<Rightarrow> 'f" where
  "wait_for_key E f =
     (if \<not> con_in E then f
      else read_key_stroke E (wait_for_event E (tell E (crlf @ ''Press any key to continue...'' @ crlf) f)))"

section \<open>Files\<close>

definition open_volume :: "'f efi \<Rightarrow> u64 \<Rightarrow> 'f \<Rightarrow> efi_status \<times> u64 \<times> 'f" where
  "open_volume E device f =
     (case handle_protocol E device SIMPLE_FILE_SYSTEM f of
        (status, fs, f1) \<Rightarrow>
          if EFI_ERROR status
          then (status, 0, print_status E status (Some (wide ''HandleProtocol (FileSystem) failed'')) f1)
          else
            (case fs_open_volume E fs f1 of
               (status2, root, f2) \<Rightarrow>
                 (status2, root,
                  if EFI_ERROR status2 then print_status E status2 (Some (wide ''OpenVolume failed'')) f2 else f2)))"

text \<open>
  From the open file on: the two calls for its size, and the reading. The result is the
  status and the caller's \<open>buffer\<close> and \<open>buffer_size\<close>, which only success changes.
\<close>

definition file_size_of :: "'f efi \<Rightarrow> u64 \<Rightarrow> 'f \<Rightarrow> (efi_status + u64) \<times> 'f" where
  "file_size_of E file f =
     (case get_info E file 0 0 f of
        (status, info_size, f1) \<Rightarrow>
          if status \<noteq> EFI_BUFFER_TOO_SMALL
          then (Inl status, file_close E file (print_status E status (Some (wide ''GetInfo (size) failed'')) f1))
          else
            (case allocate_pool E info_size f1 of
               (info, f2) \<Rightarrow>
                 if info = 0
                 then (Inl EFI_OUT_OF_RESOURCES,
                       file_close E file (tell_line E ''[UEFI] Unable to allocate file info buffer'' f2))
                 else
                   (case get_info E file info_size info f2 of
                      (status2, _, f3) \<Rightarrow>
                        if EFI_ERROR status2
                        then (Inl status2, file_close E file (free_pool E info
                               (print_status E status2 (Some (wide ''GetInfo (data) failed'')) f3)))
                        else
                          (case info_file_size E info f3 of
                             (sz, f4) \<Rightarrow>
                               let f5 = tell_line E '' bytes'' (print_uint E sz (tell E ''[UEFI] File size: '' f4))
                               in (Inr sz, free_pool E info f5)))))"

definition read_open_file :: "'f efi \<Rightarrow> u64 \<Rightarrow> u64 \<Rightarrow> 'f \<Rightarrow> (efi_status + u64) \<times> 'f" where
  "read_open_file E file sz f =
     (case allocate_pool E sz f of
        (data, f1) \<Rightarrow>
          if data = 0
          then (Inl EFI_OUT_OF_RESOURCES,
                file_close E file (tell_line E ''[UEFI] Unable to allocate file buffer'' f1))
          else
            (case file_read E file sz data f1 of
               (status, read_size, f2) \<Rightarrow>
                 let f3 = file_close E file f2 in
                 if EFI_ERROR status \<or> read_size \<noteq> sz
                 then (Inl EFI_DEVICE_ERROR,
                       free_pool E data (print_status E status (Some (wide ''File read failed'')) f3))
                 else (Inr data, tell_line E ''[UEFI] File read complete'' f3)))"

definition read_file_into_buffer ::
    "'f efi \<Rightarrow> u64 \<Rightarrow> wchars \<Rightarrow> u64 \<Rightarrow> u64 \<Rightarrow> 'f \<Rightarrow> efi_status \<times> u64 \<times> u64 \<times> 'f" where
  "read_file_into_buffer E root path buffer buffer_size f =
     (if root = 0 then (EFI_INVALID_PARAMETER, buffer, buffer_size, f)
      else
        let f1 = print_newline E (print_ascii E (Some path) (tell E ''[UEFI] Opening file: '' f)) in
        (case file_open E root path f1 of
           (status, file, f2) \<Rightarrow>
             if EFI_ERROR status
             then (status, buffer, buffer_size, print_status E status (Some (wide ''File open failed'')) f2)
             else
               (case file_size_of E file f2 of
                  (Inl st, f3) \<Rightarrow> (st, buffer, buffer_size, f3)
                | (Inr sz, f3) \<Rightarrow>
                    (case read_open_file E file sz f3 of
                       (Inl st, f4) \<Rightarrow> (st, buffer, buffer_size, f4)
                     | (Inr data, f4) \<Rightarrow> (EFI_SUCCESS, data, sz, f4)))))"

definition verify_kernel_file :: "'f efi \<Rightarrow> u64 \<Rightarrow> 'f \<Rightarrow> efi_status \<times> 'f" where
  "verify_kernel_file E device f =
     (case open_volume E device (tell_line E ''[UEFI] Verifying kernel.elf presence'' f) of
        (status, root, f1) \<Rightarrow>
          if EFI_ERROR status then (status, f1)
          else
            (case read_file_into_buffer E root ALTONIUM_KERNEL_PATH 0 0 f1 of
               (status2, buffer, sz, f2) \<Rightarrow>
                 let f3 = file_close E root f2 in
                 if EFI_ERROR status2 then (status2, tell_line E ''[UEFI] Failed to read kernel.elf'' f3)
                 else (EFI_SUCCESS,
                       tell_line E '' bytes)'' (print_uint E sz (tell E ''[UEFI] kernel.elf verified ('' (free_pool E buffer f3))))))"

section \<open>Block device and memory map\<close>

definition probe_block_io :: "'f efi \<Rightarrow> u64 \<Rightarrow> 'f \<Rightarrow> efi_status \<times> 'f" where
  "probe_block_io E device f =
     (case handle_protocol E device BLOCK_IO (tell_line E ''[UEFI] Probing block I/O protocol'' f) of
        (status, block, f1) \<Rightarrow>
          if EFI_ERROR status then (status, print_status E status (Some (wide ''HandleProtocol (BlockIo) failed'')) f1)
          else
            (case block_media_of E block f1 of
               None \<Rightarrow> (EFI_NO_MEDIA, tell_line E ''[UEFI] No media present in boot device'' f1)
             | Some m \<Rightarrow>
                 if \<not> media_present m then (EFI_NO_MEDIA, tell_line E ''[UEFI] No media present in boot device'' f1)
                 else
                   let f2 = tell_line E '' bytes'' (print_uint E (ucast (block_size m)) (tell E ''[UEFI] Block size: '' f1));
                       f3 = print_newline E (print_uint E (last_block m) (tell E ''[UEFI] Last block: '' f2))
                   in (case allocate_pool E (ucast (block_size m)) f3 of
                         (buffer, f4) \<Rightarrow>
                           if buffer = 0
                           then (EFI_OUT_OF_RESOURCES, tell_line E ''[UEFI] Unable to allocate block buffer'' f4)
                           else
                             (case read_blocks E block (media_id m) 0 (ucast (block_size m)) buffer f4 of
                                (status2, f5) \<Rightarrow>
                                  let f6 = free_pool E buffer f5 in
                                  if EFI_ERROR status2
                                  then (status2, print_status E status2 (Some (wide ''ReadBlocks failed'')) f6)
                                  else (EFI_SUCCESS, tell_line E ''[UEFI] Block device read test passed'' f6)))))"

text \<open>The pages of the descriptors of type \<open>EfiConventionalMemory\<close> (7).\<close>

definition conventional_pages :: "'f efi \<Rightarrow> u64 \<Rightarrow> u64 \<Rightarrow> u64 \<Rightarrow> 'f \<Rightarrow> u64 \<times> 'f" where
  "conventional_pages E map_buf descriptor_size entry_count f =
     fold (\<lambda>i (pages, g). case descriptor_at E map_buf (of_nat i * descriptor_size) g of
                            ((typ, n), g') \<Rightarrow> (if typ = 7 then pages + n else pages, g')) [0..<unat entry_count] (0, f)"

text \<open>\<open>None\<close>: the firmware reports descriptors of size 0 and the division traps.\<close>

definition dump_memory_map :: "'f efi \<Rightarrow> 'f \<Rightarrow> (efi_status \<times> 'f) option" where
  "dump_memory_map E f =
     (case get_memory_map E 0 0 (tell_line E ''[UEFI] Capturing memory map'' f) of
        (status, map_size, descriptor_size, f1) \<Rightarrow>
          if status \<noteq> EFI_BUFFER_TOO_SMALL
          then Some (status, print_status E status (Some (wide ''GetMemoryMap (size) failed'')) f1)
          else
            let map_size1 = map_size + descriptor_size * 2 in
            (case allocate_pool E map_size1 f1 of
               (map_buf, f2) \<Rightarrow>
                 if map_buf = 0
                 then Some (EFI_OUT_OF_RESOURCES, tell_line E ''[UEFI] Unable to allocate memory map buffer'' f2)
                 else
                   (case get_memory_map E map_size1 map_buf f2 of
                      (status2, map_size2, descriptor_size2, f3) \<Rightarrow>
                        if EFI_ERROR status2
                        then Some (status2, print_status E status2 (Some (wide ''GetMemoryMap (data) failed'')) (free_pool E map_buf f3))
                        else if descriptor_size2 = 0 then None
                        else
                          let entry_count = map_size2 div descriptor_size2 in
                          (case conventional_pages E map_buf descriptor_size2 entry_count f3 of
                             (pages, f4) \<Rightarrow>
                               let f5 = print_newline E (print_uint E entry_count (tell E ''[UEFI] Memory map entries: '' f4));
                                   f6 = tell_line E '' MB'' (print_uint E (pages div 256) (tell E ''[UEFI] Conventional memory: '' f5))
                               in Some (EFI_SUCCESS, free_pool E map_buf f6)))))"

section \<open>The boot sequence\<close>

definition load_grub_image :: "'f efi \<Rightarrow> u64 \<Rightarrow> u64 \<Rightarrow> u64 \<Rightarrow> 'f \<Rightarrow> efi_status \<times> u64 \<times> 'f" where
  "load_grub_image E image_handle device loaded_image f =
     (case open_volume E device (tell_line E ''[UEFI] Loading GRUB chainloader'' f) of
        (status, root, f1) \<Rightarrow>
          if EFI_ERROR status then (status, loaded_image, f1)
          else
            (case read_file_into_buffer E root ALTONIUM_GRUB_PATH 0 0 f1 of
               (status2, buffer, buffer_size, f2) \<Rightarrow>
                 let f3 = file_close E root f2 in
                 if EFI_ERROR status2
                 then (status2, loaded_image, tell_line E ''[UEFI] Unable to read GRUBX64.EFI'' f3)
                 else
                   (case load_image E image_handle buffer buffer_size f3 of
                      (status3, grub_image, f4) \<Rightarrow>
                        let f5 = free_pool E buffer f4 in
                        if EFI_ERROR status3
                        then (status3, loaded_image, print_status E status3 (Some (wide ''LoadImage failed'')) f5)
                        else (EFI_SUCCESS, grub_image, tell_line E ''[UEFI] GRUB image loaded into memory'' f5))))"

definition efi_banner :: "'f efi \<Rightarrow> 'f \<Rightarrow> 'f" where
  "efi_banner E f =
     (let rule = replicate 38 CHR ''='';
          f1 = (case reset_console E f of
                  (status, g) \<Rightarrow> if EFI_ERROR status then print_status E status (Some (wide ''Console reset failed'')) g else g);
          f2 = clear_screen E f1;
          f3 = tell_line E ''AltoniumOS UEFI Bootstrap v1.0'' (tell_line E rule f2);
          f4 = tell E (rule @ crlf @ crlf) (tell_line E ''AMD E1-7010 Compatible'' f3);
          f5 = tell E ''[UEFI] Firmware vendor: '' f4;
          f6 = (if firmware_vendor E \<noteq> None then print_ascii E (firmware_vendor E) f5 else tell E ''(unknown)'' f5);
          f7 = tell E ''[UEFI] Firmware revision: 0x'' (print_newline E f6);
          f8 = print_newline E (print_hex E (ucast (firmware_revision E)) 8 f7);
          f9 = print_newline E (print_hex E (table_address E) 16 (tell E ''[UEFI] System table at 0x'' f8));
          f10 = print_hex E (services_address E) 16 (tell E ''[UEFI] Boot services at 0x'' f9);
          f11 = print_hex E (ucast (services_revision E)) 8 (tell E '' (rev 0x'' f10);
          f12 = tell_line E '')'' f11
      in if runtime_address E \<noteq> 0
         then print_newline E (print_hex E (runtime_address E) 16 (tell E ''[UEFI] Runtime services at 0x'' f12))
         else f12)"

text \<open>
  From the loaded-image protocol to the GRUB image: the handle of the image, or the status
  \<open>efi_main\<close> returns. The escape \<open>\E\<close> in one message is the character 27 to the compiler.
\<close>

definition efi_prepare :: "'f efi \<Rightarrow> u64 \<Rightarrow> 'f \<Rightarrow> (efi_status + u64) \<times> 'f" where
  "efi_prepare E image_handle f =
     (case handle_protocol E image_handle LOADED_IMAGE f of
        (status, loaded_image, f1) \<Rightarrow>
          if EFI_ERROR status
          then (Inl status, wait_for_key E (print_status E status (Some (wide ''HandleProtocol (LoadedImage) failed'')) f1))
          else
            let device = device_handle E loaded_image f1;
                f2 = print_newline E (print_hex E device 16 (tell E ''[UEFI] Boot device handle: 0x'' f1))
            in (case probe_block_io E device f2 of
                  (status2, f3) \<Rightarrow>
                    if EFI_ERROR status2 then (Inl status2, wait_for_key E f3)
                    else
                      (case verify_kernel_file E device f3 of
                         (status3, f4) \<Rightarrow>
                           if EFI_ERROR status3 then (Inl status3, wait_for_key E f4)
                           else
                             (case load_grub_image E image_handle device 0 f4 of
                                (status4, grub_image, f5) \<Rightarrow>
                                  if EFI_ERROR status4
                                  then
                                    let f6 = tell E (crlf @ ''[UEFI] FATAL: Unable to load GRUB bootloader'' @ crlf) f5;
                                        f7 = tell E (''Verify that '' @ [CHR 0x1B] @ ''FI'' @ [CHR 0x5C] @ ''ALTONIUM''
                                               @ [CHR 0x5C] @ ''GRUBX64.EFI exists on the USB media.'' @ crlf) f6
                                    in (Inl status4, wait_for_key E f7)
                                  else (Inr grub_image, f5)))))"

definition launch_banner :: "'f efi \<Rightarrow> 'f \<Rightarrow> 'f" where
  "launch_banner E f =
     (let f1 = tell E (crlf @ ''[UEFI] Launching GRUB bootloader'' @ crlf) f;
          f2 = tell_line E ''[UEFI] Transferring control to GRUB'' f1
      in tell E (replicate 38 CHR ''='' @ crlf @ crlf) f2)"

definition efi_main :: "'f efi option \<Rightarrow> u64 \<Rightarrow> 'f \<Rightarrow> (efi_status \<times> 'f) option" where
  "efi_main system_table image_handle f =
     (case system_table of
        None \<Rightarrow> Some (EFI_INVALID_PARAMETER, f)
      | Some E \<Rightarrow>
          if \<not> con_out E \<or> \<not> boot_services E then Some (EFI_INVALID_PARAMETER, f)
          else
            (case dump_memory_map E (efi_banner E f) of
               None \<Rightarrow> None
             | Some (map_status, f1) \<Rightarrow>
                 let f2 = (if EFI_ERROR map_status
                           then print_status E map_status (Some (wide ''Memory map capture failed'')) f1 else f1)
                 in (case efi_prepare E image_handle f2 of
                       (Inl status, f3) \<Rightarrow> Some (status, f3)
                     | (Inr grub_image, f3) \<Rightarrow>
                         (case start_image E grub_image (launch_banner E f3) of
                            (status, f4) \<Rightarrow>
                              if EFI_ERROR status
                              then Some (status, wait_for_key E (print_status E status (Some (wide ''StartImage failed''))
                                     (tell E (crlf @ ''[UEFI] GRUB execution failed'' @ crlf) f4)))
                              else Some (status, f4)))))"

end
