(* ===== verification/Uefi_Resources.thy ===== *)
theory Uefi_Resources
  imports Uefi_Loader
begin

text \<open>
  The resources of the UEFI loader. The locale \<open>efi_ledger\<close> states what the UEFI services
  do to the pool buffers and open files a loader holds, and which of them a call needs;
  inside it every function of the loader is shown to give back what it took, on all of its
  paths. The interpretation is a small firmware with one volume.
\<close>

datatype resource = Pool u64 | File u64

locale efi_ledger =
  fixes E :: "'f efi" and owned :: "'f \<Rightarrow> resource set"
  assumes console [simp]: "owned (snd (reset_console E f)) = owned f" "owned (clear_screen E f) = owned f"
      "owned (output_string E m f) = owned f" "owned (wait_for_event E f) = owned f" "owned (read_key_stroke E f) = owned f"
    and protocol: "handle_protocol E h g f = (st, p, f') \<Longrightarrow> owned f' = owned f"
    and volume: "fs_open_volume E fs f = (st, root, f') \<Longrightarrow>
      (if EFI_ERROR st then owned f' = owned f else File root \<notin> owned f \<and> owned f' = insert (File root) (owned f))"
    and opened: "File root \<in> owned f \<Longrightarrow> file_open E root path f = (st, fh, f') \<Longrightarrow>
      (if EFI_ERROR st then owned f' = owned f else File fh \<notin> owned f \<and> owned f' = insert (File fh) (owned f))"
    and closed: "File fh \<in> owned f \<Longrightarrow> owned (file_close E fh f) = owned f - {File fh}"
    and info: "File fh \<in> owned f \<Longrightarrow> n = 0 \<and> b = 0 \<or> Pool b \<in> owned f \<Longrightarrow>
      get_info E fh n b f = (st, n', f') \<Longrightarrow> owned f' = owned f"
    and no_room: "get_info E fh 0 0 f = (st, n', f') \<Longrightarrow> EFI_ERROR st"
    and reads: "File fh \<in> owned f \<Longrightarrow> Pool b \<in> owned f \<Longrightarrow> file_read E fh n b f = (st, n', f') \<Longrightarrow> owned f' = owned f"
    and allocates: "allocate_pool E n f = (p, f') \<Longrightarrow>
      (if p = 0 then owned f' = owned f else Pool p \<notin> owned f \<and> owned f' = insert (Pool p) (owned f))"
    and frees: "Pool p \<in> owned f \<Longrightarrow> owned (free_pool E p f) = owned f - {Pool p}"
    and info_read: "Pool b \<in> owned f \<Longrightarrow> owned (snd (info_file_size E b f)) = owned f"
    and map_read: "Pool b \<in> owned f \<Longrightarrow> owned (snd (descriptor_at E b offset f)) = owned f"
    and blocks: "Pool b \<in> owned f \<Longrightarrow> owned (snd (read_blocks E block i lba n b f)) = owned f"
    and maps: "n = 0 \<and> b = 0 \<or> Pool b \<in> owned f \<Longrightarrow> get_memory_map E n b f = (st, n', d, f') \<Longrightarrow>
      owned f' = owned f \<and> (\<not> EFI_ERROR st \<longrightarrow> d \<noteq> 0)"
    and loads: "Pool b \<in> owned f \<Longrightarrow> load_image E h b n f = (st, img, f') \<Longrightarrow> owned f' = owned f"
begin

lemma print_owned [simp]:
  "owned (print_ascii E m f) = owned f" "owned (tell_line E t f) = owned f" "owned (print_newline E f) = owned f" "owned (print_uint E v f) = owned f"
  "owned (print_hex E v w f) = owned f" "owned (print_status E st c f) = owned f" "owned (wait_for_key E f) = owned f"
proof -
  show a: "owned (print_ascii E m f) = owned f" for m f by (simp add: print_ascii_def split: option.split)
  then show b: "owned (tell_line E t f) = owned f" "owned (print_newline E f) = owned f" "owned (print_uint E v f) = owned f" "owned (print_hex E v w f) = owned f"
    for f t v w by (simp_all add: tell_line_def print_newline_def print_uint_def print_hex_def)
  show "owned (print_status E st c f) = owned f" "owned (wait_for_key E f) = owned f"
    by (simp_all add: print_status_def wait_for_key_def Let_def a b)
qed

lemma errors [simp]: "EFI_ERROR (efi_err n)" "\<not> EFI_ERROR EFI_SUCCESS"
  by (simp_all add: EFI_ERROR_def efi_err_def EFI_SUCCESS_def bit_or_iff bit_push_bit_iff)

lemma open_volume_spec:
  assumes "open_volume E device f = (st, root, f')"
  shows "if EFI_ERROR st then owned f' = owned f else File root \<notin> owned f \<and> owned f' = insert (File root) (owned f)"
proof -
  obtain st1 fs f1 where 1: "handle_protocol E device SIMPLE_FILE_SYSTEM f = (st1, fs, f1)" by (metis prod_cases3)
  obtain st2 r2 f2 where 2: "fs_open_volume E fs f1 = (st2, r2, f2)" by (metis prod_cases3)
  show ?thesis
    using assms protocol [OF 1] volume [OF 2] by (auto simp: open_volume_def 1 2 split: if_splits)
qed

lemma file_size_spec:
  assumes "File fh \<in> owned f" and "file_size_of E fh f = (r, f')"
  shows "case r of Inl st \<Rightarrow> EFI_ERROR st \<and> owned f' = owned f - {File fh} | Inr sz \<Rightarrow> owned f' = owned f"
proof -
  obtain st1 n1 f1 where 1: "get_info E fh 0 0 f = (st1, n1, f1)" by (metis prod_cases3)
  have o1: "owned f1 = owned f" "EFI_ERROR st1" using info [OF assms(1) _ 1] no_room [OF 1] by simp_all
  obtain p f2 where 2: "allocate_pool E n1 f1 = (p, f2)" by fastforce
  note o2 = allocates [OF 2]
  obtain st3 n3 f3 where 3: "get_info E fh n1 p f2 = (st3, n3, f3)" by (metis prod_cases3)
  have o3: "owned f3 = owned f2" if "p \<noteq> 0"
    using info [OF _ _ 3] o1 o2 assms(1) that by simp
  obtain sz f4 where 4: "info_file_size E p f3 = (sz, f4)" by fastforce
  have o4: "owned f4 = owned f3" if "p \<noteq> 0"
    using info_read [of p f3] o2 o3 4 that by simp
  show ?thesis
    using assms o1 o2 o3 o4
    by (auto simp: file_size_of_def 1 2 3 4 Let_def closed frees split: if_splits)
qed

lemma read_open_file_spec:
  assumes "File fh \<in> owned f" and "read_open_file E fh sz f = (r, f')"
  shows "case r of Inl st \<Rightarrow> EFI_ERROR st \<and> owned f' = owned f - {File fh}
    | Inr data \<Rightarrow> Pool data \<notin> owned f \<and> owned f' = insert (Pool data) (owned f - {File fh})"
proof -
  obtain p f1 where 1: "allocate_pool E sz f = (p, f1)" by fastforce
  note o1 = allocates [OF 1]
  obtain st n f2 where 2: "file_read E fh sz p f1 = (st, n, f2)" by (metis prod_cases3)
  have o2: "owned f2 = owned f1" if "p \<noteq> 0" using reads [OF _ _ 2] o1 assms(1) that by simp
  show ?thesis
    using assms o1 o2 by (auto simp: read_open_file_def 1 2 Let_def closed frees split: if_splits)
qed

lemma read_file_spec:
  assumes "File root \<in> owned f" and "read_file_into_buffer E root path b n f = (st, buf, sz, f')"
  shows "if EFI_ERROR st then owned f' = owned f else Pool buf \<notin> owned f \<and> owned f' = insert (Pool buf) (owned f)"
proof (cases "root = 0")
  case False
  define f1 where "f1 = print_newline E (print_ascii E (Some path) (tell E ''[UEFI] Opening file: '' f))"
  obtain st2 fh f2 where 2: "file_open E root path f1 = (st2, fh, f2)" by (metis prod_cases3)
  have o1: "owned f1 = owned f" by (simp add: f1_def)
  then have "File root \<in> owned f1" using assms(1) by simp
  note o2 = opened [OF this 2, unfolded o1]
  obtain r3 f3 where 3: "file_size_of E fh f2 = (r3, f3)" by fastforce
  obtain r4 f4 where 4: "read_open_file E fh (case r3 of Inr s \<Rightarrow> s) f3 = (r4, f4)" by fastforce
  have r: "read_file_into_buffer E root path b n f =
      (if EFI_ERROR st2 then (st2, b, n, print_status E st2 (Some (wide ''File open failed'')) f2)
       else case r3 of Inl st \<Rightarrow> (st, b, n, f3)
            | Inr sz \<Rightarrow> (case r4 of Inl st \<Rightarrow> (st, b, n, f4) | Inr data \<Rightarrow> (EFI_SUCCESS, data, sz, f4)))"
    using False 4 by (auto simp: read_file_into_buffer_def Let_def f1_def [symmetric] 2 3 split: sum.splits)
  show ?thesis
  proof (cases "EFI_ERROR st2")
    case True
    with assms(2) o2 show ?thesis by (auto simp: r)
  next
    case ok: False
    then have f: "File fh \<in> owned f2" "File fh \<notin> owned f" "owned f2 = insert (File fh) (owned f)" using o2 by simp_all
    note o3 = file_size_spec [OF f(1) 3]
    show ?thesis
    proof (cases r3)
      case (Inl st3)
      with assms(2) ok o3 f show ?thesis by (auto simp: r)
    next
      case (Inr sz3)
      then have "File fh \<in> owned f3" using o3 f(1) by simp
      note o4 = read_open_file_spec [OF this 4]
      with assms(2) ok o3 f Inr show ?thesis by (cases r4) (auto simp: r)
    qed
  qed
qed (use assms in \<open>auto simp: read_file_into_buffer_def\<close>)

text \<open>Closing the root behind a read that left a buffer or an error.\<close>

lemma close_root:
  assumes "File root \<notin> S" and "owned f1 = insert (File root) S"
    and "read_file_into_buffer E root path b n f1 = (st, buf, sz, f2)"
  shows "if EFI_ERROR st then owned (file_close E root f2) = S
    else Pool buf \<notin> S \<and> owned (file_close E root f2) = insert (Pool buf) S"
proof -
  have r: "File root \<in> owned f1" using assms(2) by simp
  note o = read_file_spec [OF r assms(3), unfolded assms(2)]
  then have "File root \<in> owned f2" by (simp split: if_splits)
  then have "owned (file_close E root f2) = owned f2 - {File root}" by (rule closed)
  with o assms(1) show ?thesis by (cases "EFI_ERROR st") auto
qed

lemma verify_owned [simp]: "owned (snd (verify_kernel_file E device f)) = owned f"
proof -
  obtain st root f1 where 1: "open_volume E device (tell_line E ''[UEFI] Verifying kernel.elf presence'' f) = (st, root, f1)"
    by (metis prod_cases3)
  obtain st2 buf sz f2 where 2: "read_file_into_buffer E root ALTONIUM_KERNEL_PATH 0 0 f1 = (st2, buf, sz, f2)"
    by (metis prod_cases4)
  note o1 = open_volume_spec [OF 1, unfolded print_owned]
  show ?thesis
  proof (cases "EFI_ERROR st")
    case False
    have v: "File root \<notin> owned f" "owned f1 = insert (File root) (owned f)" using o1 False by simp_all
    note o2 = close_root [OF v 2]
    show ?thesis
    proof (cases "EFI_ERROR st2")
      case True
      with False o2 show ?thesis by (simp add: verify_kernel_file_def 1 2 Let_def)
    next
      case ok: False
      then have b: "Pool buf \<notin> owned f" "owned (file_close E root f2) = insert (Pool buf) (owned f)" using o2 by simp_all
      then have "owned (free_pool E buf (file_close E root f2)) = owned f" by (subst frees) auto
      with False ok show ?thesis by (simp add: verify_kernel_file_def 1 2 Let_def)
    qed
  qed (use o1 in \<open>simp add: verify_kernel_file_def 1\<close>)
qed

lemma load_grub_owned:
  assumes "load_grub_image E img device i f = (st, g, f')"
  shows "owned f' = owned f"
proof -
  obtain st1 root f1 where 1: "open_volume E device (tell_line E ''[UEFI] Loading GRUB chainloader'' f) = (st1, root, f1)"
    by (metis prod_cases3)
  obtain st2 buf sz f2 where 2: "read_file_into_buffer E root ALTONIUM_GRUB_PATH 0 0 f1 = (st2, buf, sz, f2)"
    by (metis prod_cases4)
  obtain st3 im f3 where 3: "load_image E img buf sz (file_close E root f2) = (st3, im, f3)" by (metis prod_cases3)
  note o1 = open_volume_spec [OF 1, unfolded print_owned]
  show ?thesis
  proof (cases "EFI_ERROR st1")
    case False
    have v: "File root \<notin> owned f" "owned f1 = insert (File root) (owned f)" using o1 False by simp_all
    note o2 = close_root [OF v 2]
    show ?thesis
    proof (cases "EFI_ERROR st2")
      case True
      with False o2 assms show ?thesis by (auto simp: load_grub_image_def 1 2 Let_def)
    next
      case ok: False
      then have b: "Pool buf \<notin> owned f" "owned (file_close E root f2) = insert (Pool buf) (owned f)" using o2 by simp_all
      then have "owned f3 = insert (Pool buf) (owned f)" using loads [OF _ 3] by simp
      then have "owned (free_pool E buf f3) = owned f" using b(1) by (subst frees) auto
      moreover have "owned f' = owned (free_pool E buf f3)"
        using assms False ok unfolding load_grub_image_def 1 2 3 prod.case Let_def by (auto split: if_splits)
      ultimately show ?thesis by simp
    qed
  qed (use o1 assms in \<open>simp add: load_grub_image_def 1\<close>)
qed

lemma probe_owned [simp]: "owned (snd (probe_block_io E device f)) = owned f"
proof -
  obtain st block f1 where 1: "handle_protocol E device BLOCK_IO (tell_line E ''[UEFI] Probing block I/O protocol'' f) = (st, block, f1)"
    by (metis prod_cases3)
  have o1: "owned f1 = owned f" using protocol [OF 1] by simp
  show ?thesis
  proof (cases "EFI_ERROR st \<or> block_media_of E block f1 = None \<or> \<not> media_present (the (block_media_of E block f1))")
    case True
    then show ?thesis
      unfolding probe_block_io_def 1 prod.case
      by (cases "block_media_of E block f1") (auto simp: o1)
  next
    case False
    then obtain m where m: "block_media_of E block f1 = Some m" "media_present m" "\<not> EFI_ERROR st" by auto
    define f3 where "f3 = print_newline E (print_uint E (last_block m) (tell E ''[UEFI] Last block: ''
      (tell_line E '' bytes'' (print_uint E (ucast (block_size m)) (tell E ''[UEFI] Block size: '' f1)))))"
    have o3: "owned f3 = owned f" by (simp add: f3_def o1)
    obtain p f4 where 4: "allocate_pool E (ucast (block_size m)) f3 = (p, f4)" by fastforce
    note o4 = allocates [OF 4, unfolded o3]
    obtain st5 f5 where 5: "read_blocks E block (media_id m) 0 (ucast (block_size m)) p f4 = (st5, f5)" by fastforce
    have "owned f5 = owned f4" if "p \<noteq> 0"
      using blocks [of p f4 block "media_id m" 0 "ucast (block_size m)"] o4 5 that by simp
    with o4 m show ?thesis
      by (auto simp: probe_block_io_def 1 Let_def f3_def [symmetric] 4 5 frees split: if_splits)
  qed
qed

lemma pages_owned:
  assumes "Pool b \<in> owned f"
  shows "owned (snd (conventional_pages E b d n f)) = owned f"
proof -
  have "owned (snd (fold (\<lambda>i (pages, g). case descriptor_at E b (of_nat i * d) g of
      ((typ, n), g') \<Rightarrow> (if typ = 7 then pages + n else pages, g')) xs (k, g))) = owned g"
    if "Pool b \<in> owned g" for xs :: "nat list" and k g
    using that
  proof (induction xs arbitrary: k g)
    case (Cons i xs)
    obtain ty m g' where r: "descriptor_at E b (of_nat i * d) g = ((ty, m), g')" by (metis surj_pair)
    have "owned g' = owned g" using map_read [OF Cons.prems, of "of_nat i * d"] r by simp
    with Cons r show ?case by simp
  qed simp
  from this [OF assms] show ?thesis by (simp add: conventional_pages_def)
qed

lemma memory_map_owned: "\<exists>st f'. dump_memory_map E f = Some (st, f') \<and> owned f' = owned f"
proof -
  obtain st n d f1 where 1: "get_memory_map E 0 0 (tell_line E ''[UEFI] Capturing memory map'' f) = (st, n, d, f1)"
    by (metis prod_cases4)
  have o1: "owned f1 = owned f" using maps [OF _ 1] by simp
  obtain p f2 where 2: "allocate_pool E (n + d * 2) f1 = (p, f2)" by fastforce
  note o2 = allocates [OF 2, unfolded o1]
  obtain st3 n3 d3 f3 where 3: "get_memory_map E (n + d * 2) p f2 = (st3, n3, d3, f3)" by (metis prod_cases4)
  have o3: "owned f3 = owned f2 \<and> (\<not> EFI_ERROR st3 \<longrightarrow> d3 \<noteq> 0)" if "p \<noteq> 0"
    using maps [OF _ 3] o2 that by simp
  obtain pages f4 where 4: "conventional_pages E p d3 (n3 div d3) f3 = (pages, f4)" by fastforce
  have o4: "owned f4 = owned f3" if "p \<noteq> 0"
    using pages_owned [of p f3 d3 "n3 div d3"] o2 o3 4 that by simp
  show ?thesis
    using o1 o2 o3 o4 by (auto simp: dump_memory_map_def 1 2 3 4 Let_def frees)
qed

lemma banner_owned [simp]: "owned (efi_banner E f) = owned f"
proof -
  have r: "owned g = owned f" if "reset_console E f = (st, g)" for st g using console(1) [of f] that by simp
  show ?thesis by (auto simp: efi_banner_def Let_def r split: prod.split)
qed

lemma prepare_owned: "owned (snd (efi_prepare E img f)) = owned f"
proof -
  obtain st li f1 where 1: "handle_protocol E img LOADED_IMAGE f = (st, li, f1)" by (metis prod_cases3)
  have o1: "owned f1 = owned f" using protocol [OF 1] .
  define device where "device = device_handle E li f1"
  define f2 where "f2 = print_newline E (print_hex E device 16 (tell E ''[UEFI] Boot device handle: 0x'' f1))"
  obtain st3 f3 where 3: "probe_block_io E device f2 = (st3, f3)" by fastforce
  obtain st4 f4 where 4: "verify_kernel_file E device f3 = (st4, f4)" by fastforce
  obtain st5 g f5 where 5: "load_grub_image E img device 0 f4 = (st5, g, f5)" by (metis prod_cases3)
  have "owned f2 = owned f" by (simp add: f2_def o1)
  then have o: "owned f3 = owned f" "owned f4 = owned f" "owned f5 = owned f"
    using probe_owned [of device f2] verify_owned [of device f3] load_grub_owned [OF 5] 3 4 by simp_all
  then show ?thesis
    using o1 by (simp add: efi_prepare_def 1 Let_def device_def [symmetric] f2_def [symmetric] 3 4 5)
qed

lemma main_balanced:
  "\<exists>st f'. efi_main (Some E) img f = Some (st, f')
    \<and> (owned f' = owned f
       \<or> (\<exists>grub g st2 f2. owned g = owned f \<and> start_image E grub g = (st2, f2) \<and> owned f' = owned f2))"
proof (cases "con_out E \<and> boot_services E")
  case True
  obtain st1 f1 where 1: "dump_memory_map E (efi_banner E f) = Some (st1, f1)" "owned f1 = owned f"
    using memory_map_owned [of "efi_banner E f"] by auto
  define f2 where "f2 = (if EFI_ERROR st1 then print_status E st1 (Some (wide ''Memory map capture failed'')) f1 else f1)"
  obtain r f3 where 3: "efi_prepare E img f2 = (r, f3)" by fastforce
  have o3: "owned f3 = owned f" using prepare_owned [of img f2] 3 1(2) by (simp add: f2_def)
  show ?thesis
  proof (cases r)
    case (Inl st)
    with True 1(1) 3 o3 show ?thesis by (simp add: efi_main_def Let_def f2_def [symmetric])
  next
    case (Inr grub)
    let ?f6 = "launch_banner E f3"
    obtain st7 f7 where 7: "start_image E grub ?f6 = (st7, f7)" by fastforce
    define f8 where "f8 = (if EFI_ERROR st7 then wait_for_key E (print_status E st7 (Some (wide ''StartImage failed''))
        (tell E (crlf @ ''[UEFI] GRUB execution failed'' @ crlf) f7)) else f7)"
    have "efi_main (Some E) img f = Some (st7, f8)"
      using True unfolding efi_main_def option.case 1(1) prod.case Let_def f2_def [symmetric] 3 Inr sum.case 7 f8_def by simp
    moreover have "owned f8 = owned f7" by (simp add: f8_def)
    moreover have "owned ?f6 = owned f" by (simp add: launch_banner_def Let_def o3 del: replicate.simps)
    ultimately show ?thesis using 7 by blast
  qed
qed (auto simp: efi_main_def)

end

end
