(* ===== verification/Uefi_Properties.thy ===== *)
theory Uefi_Properties
  imports Uefi_Resources
begin

text \<open>
  The properties of the UEFI loader, and a small firmware that keeps the contract of
  \<open>efi_ledger\<close>: it counts its handles and addresses, lists what is held, and has one
  volume on which every file has four bytes.
\<close>

record mini_firmware =
  next_address :: u64
  held :: "resource list"
  screen :: "wchars list"

definition mini_file :: "mini_firmware \<Rightarrow> efi_status \<times> u64 \<times> mini_firmware" where
  "mini_file f =
     (if File (next_address f) \<in> set (held f) then (EFI_OUT_OF_RESOURCES, 0, f)
      else (EFI_SUCCESS, next_address f,
            f\<lparr>next_address := next_address f + 1, held := File (next_address f) # held f\<rparr>))"

definition mini_pool :: "u64 \<Rightarrow> mini_firmware \<Rightarrow> u64 \<times> mini_firmware" where
  "mini_pool n f =
     (if next_address f = 0 \<or> Pool (next_address f) \<in> set (held f) then (0, f)
      else (next_address f, f\<lparr>next_address := next_address f + 1, held := Pool (next_address f) # held f\<rparr>))"

definition mini_drop :: "resource \<Rightarrow> mini_firmware \<Rightarrow> mini_firmware" where
  "mini_drop r f = f\<lparr>held := removeAll r (held f)\<rparr>"

definition mini :: "mini_firmware efi" where
  "mini =
     \<lparr>con_out = True, con_in = True, boot_services = True, firmware_vendor = None, firmware_revision = 1,
      table_address = 0x1000, services_address = 0x2000, services_revision = 2, runtime_address = 0,
      reset_console = (\<lambda>f. (EFI_SUCCESS, f)), clear_screen = (\<lambda>f. f\<lparr>screen := []\<rparr>),
      output_string = (\<lambda>m f. f\<lparr>screen := m # screen f\<rparr>), wait_for_event = (\<lambda>f. f), read_key_stroke = (\<lambda>f. f),
      handle_protocol = (\<lambda>h g f. (EFI_SUCCESS, 0x30, f)), device_handle = (\<lambda>li f. 0x40),
      fs_open_volume = (\<lambda>fs. mini_file), file_open = (\<lambda>root path. mini_file),
      get_info = (\<lambda>fh n b f. if n < 80 then (EFI_BUFFER_TOO_SMALL, 80, f) else (EFI_SUCCESS, n, f)),
      info_file_size = (\<lambda>b f. (4, f)), file_read = (\<lambda>fh n b f. (EFI_SUCCESS, n, f)),
      file_close = (\<lambda>fh. mini_drop (File fh)), allocate_pool = mini_pool, free_pool = (\<lambda>p. mini_drop (Pool p)),
      block_media_of = (\<lambda>b f. Some \<lparr>media_present = True, media_id = 1, block_size = 512, last_block = 2879\<rparr>),
      read_blocks = (\<lambda>block i lba n b f. (EFI_SUCCESS, f)),
      get_memory_map = (\<lambda>n b f. if n < 96 then (EFI_BUFFER_TOO_SMALL, 96, 48, f) else (EFI_SUCCESS, 96, 48, f)),
      descriptor_at = (\<lambda>b offset f. ((7, 256), f)), load_image = (\<lambda>h b n f. (EFI_SUCCESS, 0x50, f)),
      start_image = (\<lambda>g f. (EFI_SUCCESS, f))\<rparr>"

interpretation mini_ledger: efi_ledger mini "\<lambda>f. set (held f)"
  by unfold_locales
    (auto simp: mini_def mini_file_def mini_pool_def mini_drop_def EFI_ERROR_def efi_err_def EFI_SUCCESS_def
      bit_or_iff bit_push_bit_iff split: if_splits)

definition mini_start :: mini_firmware where
  "mini_start = \<lparr>next_address = 0x100, held = [], screen = []\<rparr>"

section \<open>Resources\<close>

text \<open>
  C28. The UEFI loader leaks nothing: on a firmware that keeps the rules of UEFI for pool
  buffers and files, the loader always returns, and on every path, errors included, has given
  back every buffer and file it took when it returns and at the moment it starts GRUB. The
  rules promise nothing for a call or read whose buffer or file is not held (a free, a close,
  a call that fills a buffer, the reads of the file size and of the memory descriptors), so
  the loader makes none of them.
\<close>

theorem loader_leaks_nothing:
  assumes "efi_ledger E owned"
  shows "\<exists>st f'. efi_main (Some E) img f = Some (st, f')
    \<and> (owned f' = owned f
       \<or> (\<exists>grub g st2 f2. owned g = owned f \<and> start_image E grub g = (st2, f2) \<and> owned f' = owned f2))"
  by (rule efi_ledger.main_balanced [OF assms])

theorem loader_leaks_nothing_witness:
  "\<exists>st f'. efi_main (Some mini) 0x20 mini_start = Some (st, f') \<and> set (held f') = {}"
proof -
  have s: "start_image mini grub g = (st2, f2) \<Longrightarrow> f2 = g" for grub g st2 f2 by (simp add: mini_def)
  have "set (held mini_start) = {}" by (simp add: mini_start_def)
  with loader_leaks_nothing [OF mini_ledger.efi_ledger_axioms, of "0x20" mini_start] s show ?thesis by fastforce
qed

section \<open>Numbers\<close>

definition wchar_digit :: "u16 \<Rightarrow> nat" where
  "wchar_digit c = (if c \<le> 0x39 then unat c - 48 else unat c - 55)"

fun number_of :: "nat \<Rightarrow> wchars \<Rightarrow> nat" where
  "number_of base [] = 0"
| "number_of base (c # cs) = wchar_digit c * base ^ length cs + number_of base cs"

text \<open>The characters of a decimal and of a hexadecimal number.\<close>

definition decimal_char :: "u16 \<Rightarrow> bool" where
  "decimal_char c \<longleftrightarrow> 0x30 \<le> c \<and> c \<le> 0x39"

definition hex_char :: "u16 \<Rightarrow> bool" where
  "hex_char c \<longleftrightarrow> decimal_char c \<or> 0x41 \<le> c \<and> c \<le> 0x46"

lemma decimal_wchar_char: "unat d < 10 \<Longrightarrow> decimal_char (0x30 + ucast (d :: u64)) \<and> (d \<noteq> 0 \<longrightarrow> 0x30 + ucast d \<noteq> (0x30 :: u16))"
proof -
  have "decimal_char (0x30 + ucast (of_nat n :: u64)) \<and> (n \<noteq> 0 \<longrightarrow> 0x30 + ucast (of_nat n :: u64) \<noteq> (0x30 :: u16))" if "n < 10" for n
  proof -
    have "n \<in> set [0..<10]" using that by simp
    then show ?thesis by (auto simp: decimal_char_def upt_rec)
  qed
  from this [of "unat d"] show "unat d < 10 \<Longrightarrow> decimal_char (0x30 + ucast d) \<and> (d \<noteq> 0 \<longrightarrow> 0x30 + ucast d \<noteq> (0x30 :: u16))"
    by (simp add: unat_eq_zero)
qed

lemma hex_wchar_char: "unat d < 16 \<Longrightarrow> hex_char (hex_wchar d) \<and> (d \<noteq> 0 \<longrightarrow> hex_wchar d \<noteq> 0x30)"
proof -
  have "hex_char (hex_wchar (of_nat n)) \<and> (n \<noteq> 0 \<longrightarrow> hex_wchar (of_nat n) \<noteq> 0x30)" if "n < 16" for n
  proof -
    have "n \<in> set [0..<16]" using that by simp
    then show ?thesis by (auto simp: hex_char_def decimal_char_def hex_wchar_def upt_rec)
  qed
  from this [of "unat d"] show "unat d < 16 \<Longrightarrow> hex_char (hex_wchar d) \<and> (d \<noteq> 0 \<longrightarrow> hex_wchar d \<noteq> 0x30)"
    by (simp add: unat_eq_zero)
qed

lemma decimal_wchar: "unat d < 10 \<Longrightarrow> wchar_digit (0x30 + ucast (d :: u64)) = unat d"
proof -
  assume "unat d < 10"
  then have "unat d \<in> set [0..<10]" by simp
  moreover have "ucast d = (of_nat (unat d) :: u16)" by simp
  ultimately show ?thesis by (auto simp: wchar_digit_def upt_rec simp del: of_nat_unat)
qed

lemma hex_wchar_digit: "unat d < 16 \<Longrightarrow> wchar_digit (hex_wchar d) = unat d"
proof -
  have "wchar_digit (hex_wchar (of_nat n)) = n" if "n < 16" for n
  proof -
    have "n \<in> set [0..<16]" using that by simp
    then show ?thesis by (auto simp: wchar_digit_def hex_wchar_def upt_rec)
  qed
  from this [of "unat d"] show "unat d < 16 \<Longrightarrow> wchar_digit (hex_wchar d) = unat d" by simp
qed

lemma shift_digit: "x * (n mod b) + b * (x * (n div b)) = x * (n :: nat)"
  by (metis add.commute distrib_left mult.left_commute mult_div_mod_eq)

lemma uint_loop_value:
  "unat v < 10 ^ pos \<Longrightarrow> number_of 10 (uint_loop pos v buf) = unat v * 10 ^ length buf + number_of 10 buf"
proof (induction pos arbitrary: v buf)
  case (Suc pos)
  show ?case
  proof (cases "v > 0")
    case True
    have q: "unat (v div 10) = unat v div 10" "unat (v mod 10) = unat v mod 10" by (simp_all add: unat_div unat_mod)
    have "unat (v div 10) < 10 ^ pos" using Suc.prems by (simp add: q less_mult_imp_div_less)
    from Suc.IH [OF this] True q show ?thesis
      using shift_digit [of "10 ^ length buf" "unat v" 10] by (simp add: decimal_wchar algebra_simps)
  next
    case False
    then show ?thesis by (simp add: word_gt_0)
  qed
qed simp

lemma digit_words:
  "unat (v div 10 :: u64) = unat v div 10" "unat (v mod 10 :: u64) = unat v mod 10"
  "unat (drop_bit 4 v) = unat v div 16" "unat (v AND 0xF) = unat v mod 16"
proof -
  show "unat (v div 10 :: u64) = unat v div 10" "unat (v mod 10 :: u64) = unat v mod 10" by (simp_all add: unat_div unat_mod)
  show "unat (drop_bit 4 v) = unat v div 16" by (simp only: unat_drop_bit_eq) (simp add: drop_bit_eq_div)
  have "(0xF :: u64) = mask 4" by (simp add: mask_eq_exp_minus_1)
  then show "unat (v AND 0xF) = unat v mod 16" by (simp only: take_bit_eq_mask [symmetric] unsigned_take_bit_eq) (simp add: take_bit_eq_mod)
qed

text \<open>The characters stored, and the leading one.\<close>

lemma uint_loop_chars:
  "\<forall>c \<in> set buf. decimal_char c \<Longrightarrow> \<forall>c \<in> set (uint_loop pos v buf). decimal_char c"
proof (induction pos v buf rule: uint_loop.induct)
  case (2 pos v buf)
  have "decimal_char (0x30 + ucast (v mod 10))" by (rule conjunct1 [OF decimal_wchar_char]) (simp add: digit_words)
  with 2 show ?case by simp
qed simp

lemma uint_loop_head: "unat v < 10 ^ pos \<Longrightarrow> v \<noteq> 0 \<Longrightarrow> hd (uint_loop pos v buf) \<noteq> 0x30"
proof (induction pos arbitrary: v buf)
  case (Suc pos)
  show ?case
  proof (cases "v div 10 = 0")
    case True
    have "unat v div 10 = 0" using arg_cong [OF True, of unat] by (simp only: digit_words(1) unat_0)
    then have d: "v mod 10 = v" "unat v < 10" by (auto intro: word_unat_eq_iff [THEN iffD2] simp: digit_words(2))
    have "uint_loop pos 0 b = b" for b by (cases pos) simp_all
    with d(1) Suc.prems(2) decimal_wchar_char [OF d(2)] True show ?thesis by (simp add: word_gt_0)
  next
    case False
    moreover have "unat (v div 10) < 10 ^ pos" using Suc.prems by (simp add: digit_words(1) less_mult_imp_div_less)
    ultimately show ?thesis using Suc.IH Suc.prems(2) by (simp add: word_gt_0)
  qed
qed (simp add: unat_eq_zero)

lemma hex_loop_chars:
  "\<forall>c \<in> set buf. hex_char c \<Longrightarrow> \<forall>c \<in> set (hex_loop pos v w p buf). hex_char c"
proof (induction pos v w p buf rule: hex_loop.induct)
  case (2 pos v w p buf)
  have "hex_char (hex_wchar (v AND 0xF))" by (rule conjunct1 [OF hex_wchar_char]) (simp add: digit_words(4))
  with 2 show ?case by (simp add: Let_def)
qed simp

lemma hex_loop_head: "unat v < 16 ^ pos \<Longrightarrow> v \<noteq> 0 \<Longrightarrow> w \<le> Suc p \<Longrightarrow> hd (hex_loop pos v w p buf) \<noteq> 0x30"
proof (induction pos arbitrary: v p buf)
  case (Suc pos)
  show ?case
  proof (cases "drop_bit 4 v = 0")
    case True
    have "unat v div 16 = 0" using arg_cong [OF True, of unat] by (simp only: digit_words(3) unat_0)
    then have d: "v AND 0xF = v" "unat v < 16" by (auto intro: word_unat_eq_iff [THEN iffD2] simp: digit_words(4))
    with Suc.prems True hex_wchar_char [OF d(2)] show ?thesis by (simp add: Let_def)
  next
    case False
    moreover have "unat (drop_bit 4 v) < 16 ^ pos" using Suc.prems by (simp add: digit_words(3) less_mult_imp_div_less)
    ultimately show ?thesis using Suc.IH Suc.prems(3) by (simp add: Let_def)
  qed
qed (simp add: unat_eq_zero)

lemma hex_loop_padding:
  "unat v < 16 ^ pos \<Longrightarrow> hd (hex_loop pos v w p buf) \<noteq> 0x30 \<or> length (hex_loop pos v w p buf) \<le> length buf + max (w - p) 1"
proof (induction pos arbitrary: v p buf)
  case (Suc pos)
  let ?buf = "hex_wchar (v AND 0xF) # buf"
  have b: "unat (drop_bit 4 v) < 16 ^ pos" using Suc.prems by (simp add: digit_words(3) less_mult_imp_div_less)
  consider "Suc p < w" | "w \<le> Suc p" "drop_bit 4 v \<noteq> 0" | "w \<le> Suc p" "drop_bit 4 v = 0" by linarith
  then show ?case
  proof cases
    case 1
    with Suc.IH [OF b, of "Suc p" ?buf] show ?thesis by (auto simp: Let_def max_def split: if_splits)
  next
    case 2
    with hex_loop_head [OF b, of w "Suc p" ?buf] show ?thesis by (simp add: Let_def)
  next
    case 3
    then show ?thesis by (simp add: Let_def)
  qed
qed simp

lemma loop_lengths:
  "length (uint_loop pos v buf) \<le> pos + length buf" "length (hex_loop pos v w p buf) \<le> pos + length buf"
proof -
  show "length (uint_loop pos v buf) \<le> pos + length buf"
    by (induction pos v buf rule: uint_loop.induct) auto
  show "length (hex_loop pos v w p buf) \<le> pos + length buf"
    by (induction pos v w p buf rule: hex_loop.induct) (auto simp: Let_def)
qed

lemma hex_loop_value:
  "unat v < 16 ^ pos \<Longrightarrow> 0 < pos \<Longrightarrow> w \<le> p + pos \<Longrightarrow>
   number_of 16 (hex_loop pos v w p buf) = unat v * 16 ^ length buf + number_of 16 buf
   \<and> length buf + (w - p) \<le> length (hex_loop pos v w p buf)"
proof (induction pos arbitrary: v p buf)
  case (Suc pos)
  let ?buf = "hex_wchar (v AND 0xF) # buf"
  note q = digit_words(3,4) [of v]
  have d: "wchar_digit (hex_wchar (v AND 0xF)) = unat v mod 16" using hex_wchar_digit [of "v AND 0xF"] q(2) by simp
  have n: "number_of 16 ?buf = (unat v mod 16) * 16 ^ length buf + number_of 16 buf" by (simp add: d)
  note sd = shift_digit [of "16 ^ length buf" "unat v" 16]
  show ?case
  proof (cases "drop_bit 4 v \<noteq> 0 \<or> Suc p < w")
    case True
    have "0 < pos"
    proof (rule ccontr)
      assume "\<not> 0 < pos"
      with Suc.prems have "unat v div 16 = 0" "w \<le> Suc p" by simp_all
      with True q(1) show False by (simp add: unat_eq_zero)
    qed
    moreover have "unat (drop_bit 4 v) < 16 ^ pos" using Suc.prems by (simp add: q(1) less_mult_imp_div_less)
    ultimately have "number_of 16 (hex_loop pos (drop_bit 4 v) w (Suc p) ?buf) =
        unat (drop_bit 4 v) * 16 ^ length ?buf + number_of 16 ?buf
      \<and> length ?buf + (w - Suc p) \<le> length (hex_loop pos (drop_bit 4 v) w (Suc p) ?buf)"
      using Suc.prems by (intro Suc.IH) simp_all
    with True n sd q(1) show ?thesis by (auto simp: Let_def algebra_simps)
  next
    case False
    then have "unat v div 16 = 0" using q(1) by (metis unat_0)
    with False n show ?thesis by (auto simp: Let_def)
  qed
qed simp

text \<open>
  C33. Numbers on the firmware console: \<open>print_uint\<close> prints the decimal numeral of the 64-bit
  value, characters \<open>0\<close> to \<open>9\<close> without leading zeros (a single \<open>0\<close> for zero), and
  \<open>print_hex\<close> prints its hexadecimal numeral, characters \<open>0\<close> to \<open>9\<close> and \<open>A\<close> to \<open>F\<close>, with as
  many digits as asked for, up to 16, and with more only as the value needs them; both stay in
  their buffer of 32 characters.
\<close>

theorem uefi_numbers_printed:
  assumes "width \<le> 16"
  shows "(\<exists>ds. print_uint E v f = print_ascii E (Some ds) f \<and> (\<forall>c \<in> set ds. decimal_char c) \<and> number_of 10 ds = unat v
      \<and> ds \<noteq> [] \<and> (ds = [0x30] \<or> hd ds \<noteq> 0x30) \<and> length ds \<le> 31)
    \<and> (\<exists>ds. print_hex E v width f = print_ascii E (Some ds) f \<and> (\<forall>c \<in> set ds. hex_char c) \<and> number_of 16 ds = unat v
      \<and> ds \<noteq> [] \<and> width \<le> length ds \<and> (length ds \<le> max width 1 \<or> hd ds \<noteq> 0x30) \<and> length ds \<le> 31)"
proof (rule conjI)
  let ?u = "uint_loop 31 v []" and ?h = "hex_loop 31 v width 0 []"
  have "unat v < 2 ^ 64" using unsigned_less [of v, where 'a = nat] by simp
  then have v: "unat v < 10 ^ 31" "unat v < 16 ^ 31" by simp_all
  have u: "number_of 10 ?u = unat v" "\<forall>c \<in> set ?u. decimal_char c"
    using uint_loop_value [OF v(1), of "[]"] uint_loop_chars [of "[]" 31 v] by simp_all
  have z: "number_of 10 [0x30] = 0" "decimal_char 0x30" by (simp_all add: wchar_digit_def decimal_char_def)
  have "?u \<noteq> []" "hd ?u \<noteq> 0x30" if "v \<noteq> 0"
    using u(1) that uint_loop_head [OF v(1) that] by (auto simp: unat_eq_zero [symmetric] simp del: uint_loop.simps)
  with u z loop_lengths(1) [of 31 v "[]"]
  show "\<exists>ds. print_uint E v f = print_ascii E (Some ds) f \<and> (\<forall>c \<in> set ds. decimal_char c) \<and> number_of 10 ds = unat v
      \<and> ds \<noteq> [] \<and> (ds = [0x30] \<or> hd ds \<noteq> 0x30) \<and> length ds \<le> 31"
    by (intro exI [of _ "if v = 0 then [0x30] else ?u"]) (simp add: print_uint_def del: uint_loop.simps number_of.simps)
  have "number_of 16 ?h = unat v" "width \<le> length ?h" "\<forall>c \<in> set ?h. hex_char c"
    using hex_loop_value [OF v(2), of width 0 "[]"] assms hex_loop_chars [of "[]" 31 v width 0] by simp_all
  moreover have "?h \<noteq> []"
  proof -
    have l: "length buf \<le> length (hex_loop n x w p buf)" for n x w p buf
      by (induction n x w p buf rule: hex_loop.induct) (auto simp: Let_def intro: Suc_leD)
    have "length ([] :: wchars) < length (hex_loop (Suc 30) v width 0 [])"
      using l [of "[hex_wchar (v AND 0xF)]" 30 "drop_bit 4 v" width 1]
      by (simp only: hex_loop.simps Let_def) (auto simp del: hex_loop.simps)
    then show ?thesis by auto
  qed
  ultimately show "\<exists>ds. print_hex E v width f = print_ascii E (Some ds) f \<and> (\<forall>c \<in> set ds. hex_char c) \<and> number_of 16 ds = unat v
      \<and> ds \<noteq> [] \<and> width \<le> length ds \<and> (length ds \<le> max width 1 \<or> hd ds \<noteq> 0x30) \<and> length ds \<le> 31"
    using hex_loop_padding [OF v(2), of width 0 "[]"] loop_lengths(2) [of 31 v width 0 "[]"]
    by (intro exI [of _ ?h]) (auto simp: print_hex_def simp del: hex_loop.simps)
qed

theorem uefi_numbers_printed_witness:
  "\<exists>ds. print_hex mini 0xBEEF 8 mini_start = mini_start\<lparr>screen := [ds]\<rparr> \<and> number_of 16 ds = 0xBEEF \<and> 8 \<le> length ds
     \<and> (\<forall>c \<in> set ds. hex_char c)"
  using uefi_numbers_printed [of 8 mini "0xBEEF" mini_start]
  by (auto simp: print_ascii_def) (auto simp: mini_def mini_start_def)

end
