(* ===== verification/Kernel64_Stub.thy ===== *)
theory Kernel64_Stub
  imports Console_Facts
begin

text \<open>
  The placeholder for a 64-bit kernel, \<open>src/kernel64_stub.c\<close>: it stores a message into the
  text buffer and halts for good. The model is the text buffer at the halt.
\<close>

definition stub_message :: "byte list" where
  "stub_message = lit ''AltoniumOS 64-bit kernel - Not yet implemented''"

text \<open>The loop over the message; \<open>i\<close> is the index of its next character.\<close>

fun stub_loop :: "int \<Rightarrow> byte list \<Rightarrow> mem \<Rightarrow> mem" where
  "stub_loop i [] video = video"
| "stub_loop i (c # cs) video = (if c = 0 then video else stub_loop (i + 1) cs (put_cell i c 0x0C video))"

definition stub_start :: "mem \<Rightarrow> mem" where
  "stub_start video = stub_loop 0 stub_message video"

lemma stub_loop_cells:
  assumes "0 \<le> i" and "i + int (length cs) \<le> 2000" and "0 \<notin> set cs" and "0 \<le> k"
  shows "cell (stub_loop i cs m) k =
    (if i \<le> k \<and> k < i + int (length cs) then (cs ! nat (k - i), 0x0C) else cell m k)"
  using assms
proof (induction cs arbitrary: i m)
  case (Cons c cs)
  have i: "0 \<le> i + 1" "i + 1 + int (length cs) \<le> 2000" "0 \<notin> set cs" using Cons.prems by simp_all
  have n: "nat (k - i) = Suc (nat (k - (i + 1)))" if "i < k" using that by simp
  show ?case
    using Cons.prems Cons.IH [OF i Cons.prems(4), of "put_cell i c 0x0C m"] n by (auto simp: cell_put_cell)
qed auto

text \<open>The first row shows the message, red on black; every other cell keeps its content.\<close>

lemma stub_screen:
  assumes "0 \<le> k"
  shows "cell (stub_start m) k = (if k < 46 then (stub_message ! nat k, 0x0C) else cell m k)"
proof -
  have l: "length stub_message = 46" "0 \<notin> set stub_message" by (simp_all add: stub_message_def lit_def)
  show ?thesis using stub_loop_cells [of 0 stub_message k m] l assms by (simp add: stub_start_def)
qed

end
