(* ===== verification/Spec2Isabelle.thy ===== *)
theory Spec2Isabelle
  imports Fat12_Properties Fat12_Core_Properties Fat12_Path_Properties Ata_Properties
    Nano_Properties Boot_Properties Shell_Properties Uefi_Properties Kernel64_Stub
begin

text \<open>
  AltoniumOS, a small operating system for the PC in C: a kernel with a VGA console, a
  keyboard driver, an ATA driver, a FAT12 file system, a shell and a text editor, and a
  UEFI loader that starts GRUB. The development models the C code under \<open>src/\<close> function by
  function and proves what makes it correct, from the port writes of the disk driver to the
  command line.

  \<^bold>\<open>How the parts interact.\<close> \<open>kernel_main\<close> finds out how it was booted, enumerates the PCI
  bus for storage controllers, initialises the ATA drive, mounts the FAT12 volume and then
  passes every byte of the keyboard to \<open>handle_keyboard_input\<close>. That function decodes the
  byte to a key and hands it to the editor when one is open, else to the prompt, whose
  Enter key runs \<open>execute_command\<close> on the typed line. Commands and editor call the file
  system, the file system calls \<open>disk_read_sector\<close> and \<open>disk_write_sector\<close>, and these poll
  and drive the ports of the ATA controller. All output goes through the console.

  \<^bold>\<open>State.\<close> A static variable of the code is a field of a record: \<open>disk_state\<close> (the counters
  of \<open>disk.c\<close>, with the state of the hardware), \<open>fat12_state\<close> (the caches and the path of
  \<open>fat12.c\<close>, with the disk), \<open>console\<close>, \<open>keyboard\<close>, \<open>nano\<close> and \<open>shell_context\<close>; \<open>sys\<close> joins
  them. An operation maps a state to a state and its result. Integers of fixed width are
  words where they can wrap; the \<open>int\<close> variables of console and editor are integers, with
  their bounds proved. A buffer is a function from addresses to bytes. Error codes are the
  left side of a sum type. A function returns \<open>None\<close> when the code does not return (a walk
  over a cyclic chain of clusters, a keyboard that never gets ready) or indexes outside an
  array; the properties that such a function returns are theorems, not assumptions.

  \<^bold>\<open>Hardware and firmware\<close> are parameters: the port functions \<open>ata_hw\<close>, \<open>pci_hw\<close>, the bytes
  of the keyboard as a list, and the services \<open>efi\<close>. What they are relied on for is a locale
  or a named predicate: \<open>ata_device\<close> (the PIO protocol of an ATA drive), \<open>ata_identify\<close> (it
  also identifies itself), \<open>config_reads\<close> and \<open>pci_quiet\<close>, \<open>efi_ledger\<close>. Each is interpreted
  by an executable instance: the drive \<open>ref_hw\<close> of \<open>Ata_Reference\<close> with and without the
  multiple-sector commands, \<open>nvme_slots\<close>, and the firmware \<open>mini\<close>.

  \<^bold>\<open>Theories.\<close>

    \<^item> \<open>Prelude\<close>: byte buffers, words, lists, and the collections of simplification rules.

    \<^item> \<open>Ata_Driver\<close> models \<open>disk.c\<close>. \<open>Disk_Interface\<close> states the contract between driver and
      file system: the operations \<open>disk_ops\<close> and the locale \<open>sector_store\<close>, a store of
      sectors. \<open>Ata_Device\<close> proves that the driver on an \<open>ata_device\<close> is a \<open>sector_store\<close>
      (a \<open>sublocale\<close>); \<open>Ata_Identify\<close> adds start-up and self test; \<open>Ata_Properties\<close> holds the
      claims, those on arbitrary hardware included.

    \<^item> \<open>Fat12_Base\<close>, \<open>_Names\<close>, \<open>_Table\<close>, \<open>_Directory\<close>, \<open>_Path\<close>, \<open>_File\<close>, \<open>_Volume\<close> model
      \<open>fat12.c\<close>. \<open>Fat12_Cluster\<close>, \<open>_Geometry\<close>, \<open>_Transfer\<close>, \<open>_Flush\<close> specify its parts on a
      \<open>sector_store\<close>; \<open>Fat12_Dir_Model\<close> and the theories \<open>Fat12_Dir_*\<close> refine directories to
      lists of slots and to finite maps from names; \<open>Fat12_Step\<close> states what an operation
      leaves alone; \<open>Fat12_Write_Spec\<close>, \<open>_File_Spec\<close>, \<open>_Delete_Spec\<close>, \<open>_Mount_Spec\<close> specify the
      file operations and the mount; \<open>Fat12_Contract\<close> is what a client sees (\<open>holds_file\<close>);
      \<open>Fat12_Tree\<close> specifies paths by the tree of directories; \<open>Fat12_Session\<close> has the step
      relation of a session and its invariant, with \<open>shows_path\<close> of \<open>Fat12_Names\<close> as reference
      for the path string; \<open>Fat12_Example\<close> the volumes of the witnesses.

    \<^item> \<open>String_Lib\<close> models \<open>lib/string.c\<close>, \<open>Console\<close> the console \<open>vga_console.c\<close>, \<open>Keyboard\<close>
      \<open>keyboard.c\<close>; \<open>Console_Facts\<close> gives the cells that text occupies and the bounds of all
      stores.

    \<^item> \<open>Nano\<close>, \<open>Nano_Screen\<close>, \<open>Nano_Session\<close> model \<open>shell/nano.c\<close>. \<open>Nano_Rows\<close> and
      \<open>Nano_Text\<close> refine the line arrays to a list of lines with a cursor, \<open>Nano_Editing\<close> the
      keys to operations on it, \<open>Nano_View\<close> and \<open>Nano_Screen_Facts\<close> relate it to the screen,
      \<open>Nano_File\<close> and \<open>Nano_Persist\<close> to files; \<open>Nano_Properties\<close> has the claims.

    \<^item> \<open>System\<close>, \<open>Bootlog\<close>, \<open>Commands\<close>, \<open>Storage\<close>, \<open>Kernel\<close> model \<open>kernel/bootlog.c\<close>,
      \<open>shell/commands.c\<close>, \<open>drivers/bus/pci.c\<close>, \<open>drivers/storage/*.c\<close>, \<open>shell/prompt.c\<close> and
      \<open>kernel/main.c\<close>. \<open>Shell_Dispatch\<close> turns the chain of comparisons in \<open>execute_command\<close>
      into a table lookup; \<open>Shell_Lines\<close> treats typing a line and printing numbers;
      \<open>Shell_Files\<close> the commands on files; \<open>Shell_Session\<close> runs the main loop over the
      bytes of whole lines, \<open>Shell_Offline\<close> over those of a kernel without a volume;
      \<open>Screen_Safety\<close> and \<open>Kernel_Invariant\<close> prove an
      invariant of every state reachable from the start-up; \<open>Boot_Facts\<close> follows the start-up.
      The claims are in \<open>Shell_Properties\<close> and \<open>Boot_Properties\<close>; \<open>System_Example\<close> and
      \<open>Boot_Example\<close> have the states of the witnesses.

    \<^item> \<open>Uefi_Loader\<close> models \<open>bootloader/uefi_loader.c\<close>, \<open>Uefi_Resources\<close> proves that it gives
      back what it takes and reads only buffers it holds, \<open>Uefi_Properties\<close> has the claims; \<open>Kernel64_Stub\<close> models
      \<open>kernel64_stub.c\<close>.

  \<^bold>\<open>What is shown.\<close> The file system on any ATA drive that keeps the protocol is a finite
  map from names to contents: what is written is read back, also after a new mount; other
  files and sectors stay; deleting frees exactly the clusters of the file; a failed write
  for want of space is undone; paths are walks in the directory tree. The driver ends on
  any hardware. The editor is a text with a cursor, on the screen and in its arrays, and
  saving and opening are inverse within the sizes it admits. The shell passes a typed line
  to the command its first word names, \<open>cat\<close> prints what \<open>write\<close> stored, from the bytes of
  the keyboard to the console, and in every
  reachable state cursor, stores and prompt stay in their bounds. Start-up mounts a sound
  volume; without one no command writes to the drive. The path shown is that of the levels
  entered, cut when it is longer than its buffer. The UEFI loader leaks neither memory nor files. Some claims state what the code
  does where it falls short: the NVMe class code, a file of carriage returns.

  \<^bold>\<open>Bounds and fuel.\<close> The polls of the disk driver have the code's bound of 10000. A loop
  whose end is not in the code is a \<open>partial_function\<close>; it returns when the chain it follows
  is well formed (\<open>file_chain\<close>, \<open>dir_chain\<close>). \<open>fat12_free_chain\<close> ends on every table.
  Paths end because each step consumes text. The buffers of the number printing are 16 and
  32 characters, which 10 and 20 digits fit into; the I/O buffer has 16384 bytes.

  \<^bold>\<open>Not modelled.\<close> The assembly (\<open>boot.asm\<close>, \<open>bootloader/stage2.asm\<close>, \<open>kernel_entry.asm\<close>),
  which is not C; the functions that return one static variable, which are record
  selectors here; the clock of the code: a poll is one read of a port. The command \<open>halt\<close>
  of the processor sets \<open>cpu_halted\<close>. \<open>kernel.c.old\<close> is not built. The makefile, the scripts
  that build and check images, and the tests run outside the system.
\<close>

end
